(* ===== verification/Ubeeq_Prelude.thy ===== *)
theory Ubeeq_Prelude
  imports Main "HOL-Library.List_Lexorder" "HOL-Library.Char_ord" "HOL-Library.Product_Lexorder" "HOL-Library.AList"
begin

text \<open>
  Shared vocabulary of the development: the fragment of the JavaScript standard library the
  modelled TypeScript relies on, and the generic list, option and result lemmas.

  Strings are \<^typ>\<open>string\<close>, one \<open>char\<close> per UTF-16 code unit below 256; \<open><\<close> on strings is the
  code-unit order that JavaScript's relational operators use. Fields of TypeScript type
  \<open>number\<close> that the code only accepts when \<open>Number.isSafeInteger\<close> holds are \<^typ>\<open>int\<close>, with the
  range check written out as \<open>safe_int\<close>. An optional property is an \<open>option\<close>; a thrown error is the
  \<open>Inl\<close> side of a sum. \<open>structuredClone\<close> and spreads copy values, which HOL values do by nature.
\<close>

subsection \<open>Collections of facts\<close>

named_theorems js_simps \<open>characteristic equations of the JavaScript library fragment\<close>
named_theorems store_simps \<open>effect of store operations on lookups\<close>
named_theorems inv_intros \<open>preservation of component invariants\<close>

subsection \<open>Results\<close>

text \<open>\<open>try_then r f\<close> continues with the value of \<open>r\<close> and propagates a thrown error.\<close>

definition try_then :: "'e + 'a \<Rightarrow> ('a \<Rightarrow> 'e + 'b) \<Rightarrow> 'e + 'b" where
  "try_then r f = (case r of Inl e \<Rightarrow> Inl e | Inr x \<Rightarrow> f x)"

definition require :: "bool \<Rightarrow> 'e \<Rightarrow> 'e + unit" where
  "require ok e = (if ok then Inr () else Inl e)"

lemma try_then_simps [simp]:
  "try_then (Inl e) f = Inl e"
  "try_then (Inr x) f = f x"
  by (simp_all add: try_then_def)

lemma try_then_Inr_iff [simp]: "try_then r f = Inr y \<longleftrightarrow> (\<exists>x. r = Inr x \<and> f x = Inr y)"
  by (cases r) auto

lemma try_then_Inl_iff: "try_then r f = Inl e \<longleftrightarrow> r = Inl e \<or> (\<exists>x. r = Inr x \<and> f x = Inl e)"
  by (cases r) auto

lemma try_then_cong [fundef_cong]:
  assumes "r = r'" and "\<And>x. r' = Inr x \<Longrightarrow> f x = g x"
  shows "try_then r f = try_then r' g"
  using assms by (cases r') simp_all

lemma require_Inr_iff [simp]: "require ok e = Inr u \<longleftrightarrow> ok"
  by (simp add: require_def)

lemma require_Inl_iff [simp]: "require ok e = Inl e' \<longleftrightarrow> \<not> ok \<and> e' = e"
  by (auto simp: require_def)

subsection \<open>Effects\<close>

text \<open>A step answers a value or throws, and moves the state.\<close>

definition eff_bind :: "('s \<Rightarrow> ('e + 'a) \<times> 's) \<Rightarrow> ('a \<Rightarrow> 's \<Rightarrow> ('e + 'b) \<times> 's) \<Rightarrow> 's \<Rightarrow> ('e + 'b) \<times> 's" where
  "eff_bind f g s = (case f s of (Inl e, s') \<Rightarrow> (Inl e, s') | (Inr x, s') \<Rightarrow> g x s')"

definition eff_return :: "'a \<Rightarrow> 's \<Rightarrow> ('e + 'a) \<times> 's" where
  "eff_return x s = (Inr x, s)"

definition eff_lift :: "'e + 'a \<Rightarrow> 's \<Rightarrow> ('e + 'a) \<times> 's" where
  "eff_lift r s = (r, s)"

lemma eff_bindE:
  assumes "eff_bind f g s = (r, s')"
  obtains (throws) e where "f s = (Inl e, s')" "r = Inl e"
    | (continues) x s1 where "f s = (Inr x, s1)" "g x s1 = (r, s')"
  using assms by (auto simp: eff_bind_def split: prod.splits sum.splits)

lemma eff_bind_InrE:
  assumes "eff_bind f g s = (Inr y, s')"
  obtains x s1 where "f s = (Inr x, s1)" "g x s1 = (Inr y, s')"
  using assms by (auto simp: eff_bind_def split: prod.splits sum.splits)

subsection \<open>Numbers\<close>

text \<open>\<open>Number.isSafeInteger\<close> on an integral value, and \<open>Number.MAX_SAFE_INTEGER\<close>.\<close>

definition max_safe_int :: int where
  "max_safe_int = 9007199254740991"

definition safe_int :: "int \<Rightarrow> bool" where
  "safe_int n \<longleftrightarrow> - max_safe_int \<le> n \<and> n \<le> max_safe_int"

text \<open>
  Addition of integral \<open>number\<close>s: IEEE double precision, rounded to the nearest value with 53 significant bits, ties to the
  even one. Below \<open>2\<^sup>5\<^sup>3\<close> it is exact. (Overflow to infinity needs more than \<open>2\<^sup>9\<^sup>7\<^sup>0\<close> summands.)
\<close>

function excess_bits :: "int \<Rightarrow> nat" where
  "excess_bits m = (if m < 2 ^ 53 then 0 else Suc (excess_bits (m div 2)))"
  by pat_completeness auto

termination
  by (relation "measure nat") auto

declare excess_bits.simps [simp del]

definition double_round :: "int \<Rightarrow> int" where
  "double_round n =
     (let m = \<bar>n\<bar>; unit = 2 ^ excess_bits m; q = m div unit; rest = 2 * (m mod unit);
          q' = (if rest < unit \<or> rest = unit \<and> even q then q else q + 1)
      in sgn n * (q' * unit))"

definition double_add :: "int \<Rightarrow> int \<Rightarrow> int" where
  "double_add a b = double_round (a + b)"

lemma double_add_exact: "\<bar>a + b\<bar> \<le> max_safe_int \<Longrightarrow> double_add a b = a + b"
proof -
  assume "\<bar>a + b\<bar> \<le> max_safe_int"
  then have "excess_bits \<bar>a + b\<bar> = 0" by (subst excess_bits.simps) (simp add: max_safe_int_def)
  then show "double_add a b = a + b" by (simp add: double_add_def double_round_def sgn_mult_abs)
qed

text \<open>\<open>reduce((sum, x) => sum + f(x), 0)\<close>.\<close>

definition double_sum :: "('a \<Rightarrow> int) \<Rightarrow> 'a list \<Rightarrow> int" where
  "double_sum f xs = foldl (\<lambda>sum x. double_add sum (f x)) 0 xs"

lemma double_sum_from:
  "(\<And>x. x \<in> set xs \<Longrightarrow> 0 \<le> f x) \<Longrightarrow> 0 \<le> acc \<Longrightarrow> acc + sum_list (map f xs) \<le> max_safe_int \<Longrightarrow>
   foldl (\<lambda>sum x. double_add sum (f x)) acc xs = acc + sum_list (map f xs)"
proof (induction xs arbitrary: acc)
  case (Cons x xs)
  have "0 \<le> sum_list (map f xs)" "0 \<le> f x" using Cons.prems(1) by (auto intro!: sum_list_nonneg)
  then have "double_add acc (f x) = acc + f x" using Cons.prems(2,3) by (intro double_add_exact) auto
  then show ?case using Cons.IH [of "acc + f x"] Cons.prems \<open>0 \<le> f x\<close> by (simp add: add.assoc)
qed simp

lemma double_sum_exact:
  "(\<And>x. x \<in> set xs \<Longrightarrow> 0 \<le> f x) \<Longrightarrow> sum_list (map f xs) \<le> max_safe_int \<Longrightarrow> double_sum f xs = sum_list (map f xs)"
  using double_sum_from [of xs f 0] by (simp add: double_sum_def)

text \<open>
  A \<open>number\<close> the code tests with \<open>Number.isFinite\<close>: a (whole) finite value or one of the three
  non-finite ones. \<open>int_le_num\<close> is \<open>x <= n\<close>, false for \<open>NaN\<close>.
\<close>

datatype js_number = Finite int | Not_a_number | Infinite bool

fun int_le_num :: "int \<Rightarrow> js_number \<Rightarrow> bool" where
  "int_le_num x (Finite n) = (x \<le> n)"
| "int_le_num x Not_a_number = False"
| "int_le_num x (Infinite positive) = positive"

subsection \<open>Strings\<close>

text \<open>
  The white space and line terminator code units below 256 that \<open>String.prototype.trim\<close> removes.
\<close>

definition js_space :: "char \<Rightarrow> bool" where
  "js_space c \<longleftrightarrow> (of_char c :: nat) \<in> {9, 10, 11, 12, 13, 32, 160}"

definition js_trim :: "string \<Rightarrow> string" where
  "js_trim s = rev (dropWhile js_space (rev (dropWhile js_space s)))"

text \<open>\<open>Boolean(s.trim())\<close>.\<close>

definition nonblank :: "string \<Rightarrow> bool" where
  "nonblank s \<longleftrightarrow> js_trim s \<noteq> []"

text \<open>Truthiness of a string and of an optional string: the empty string is false.\<close>

abbreviation truthy :: "string \<Rightarrow> bool" where
  "truthy s \<equiv> s \<noteq> []"

definition truthy_opt :: "string option \<Rightarrow> bool" where
  "truthy_opt x = (case x of None \<Rightarrow> False | Some s \<Rightarrow> s \<noteq> [])"

lemma truthy_opt_simps [simp]:
  "truthy_opt None = False" "truthy_opt (Some s) = (s \<noteq> [])"
  by (simp_all add: truthy_opt_def)

lemma dropWhile_all_iff: "dropWhile P xs = [] \<longleftrightarrow> (\<forall>x \<in> set xs. P x)"
  by (simp add: dropWhile_eq_Nil_conv)

lemma nonblank_iff: "nonblank s \<longleftrightarrow> (\<exists>c \<in> set s. \<not> js_space c)"
proof (cases "\<forall>c \<in> set s. js_space c")
  case True
  then show ?thesis by (auto simp: nonblank_def js_trim_def dest: set_dropWhileD)
next
  case False
  then have "dropWhile js_space s \<noteq> []" by (simp add: dropWhile_all_iff)
  moreover from this have "\<not> js_space (hd (dropWhile js_space s))"
    by (rule hd_dropWhile)
  ultimately have "\<exists>c \<in> set (dropWhile js_space s). \<not> js_space c"
    using list.set_sel(1) by blast
  then show ?thesis using False by (auto simp: nonblank_def js_trim_def dropWhile_all_iff dest: set_dropWhileD)
qed

lemma not_nonblank_Nil [simp]: "\<not> nonblank []"
  by (simp add: nonblank_iff)

lemma nonblank_truthy: "nonblank s \<Longrightarrow> s \<noteq> []"
  by auto

lemma nonblank_js_trim: "nonblank (js_trim s) \<longleftrightarrow> nonblank s"
proof -
  have *: "(\<exists>c \<in> set (dropWhile js_space t). \<not> js_space c) \<longleftrightarrow> (\<exists>c \<in> set t. \<not> js_space c)" for t
    by (induction t) auto
  show ?thesis by (simp add: nonblank_iff js_trim_def *)
qed

subsubsection \<open>Decimal rendering of counters\<close>

definition digit_char :: "nat \<Rightarrow> char" where
  "digit_char d = char_of (48 + d)"

fun nat_str :: "nat \<Rightarrow> string" where
  "nat_str n = (if n < 10 then [digit_char n] else nat_str (n div 10) @ [digit_char (n mod 10)])"

declare nat_str.simps [simp del]

definition str_nat :: "string \<Rightarrow> nat" where
  "str_nat s = foldl (\<lambda>acc c. 10 * acc + (of_char c - 48)) 0 s"

lemma of_char_digit_char [simp]: "d < 10 \<Longrightarrow> (of_char (digit_char d) :: nat) = 48 + d"
  by (simp add: digit_char_def)

lemma str_nat_snoc [simp]: "str_nat (s @ [c]) = 10 * str_nat s + (of_char c - 48)"
  by (simp add: str_nat_def)

lemma str_nat_nat_str [simp]: "str_nat (nat_str n) = n"
proof (induction n rule: nat_str.induct)
  case (1 n)
  show ?case
  proof (cases "n < 10")
    case True
    then show ?thesis by (subst nat_str.simps) (simp add: str_nat_def)
  next
    case False
    with 1 have "str_nat (nat_str (n div 10)) = n div 10" by simp
    with False show ?thesis by (subst nat_str.simps) simp
  qed
qed

lemma nat_str_inject [simp]: "nat_str m = nat_str n \<longleftrightarrow> m = n"
  using str_nat_nat_str by metis

subsection \<open>Sets and maps in insertion order\<close>

text \<open>\<open>[...new Set(xs)]\<close> keeps the first occurrence of every element, in order.\<close>

fun js_set :: "'a list \<Rightarrow> 'a list" where
  "js_set [] = []"
| "js_set (x # xs) = x # filter (\<lambda>y. y \<noteq> x) (js_set xs)"

lemma set_js_set [simp]: "set (js_set xs) = set xs"
  by (induction xs) auto

lemma distinct_js_set [simp]: "distinct (js_set xs)"
  by (induction xs) auto

lemma js_set_distinct [simp]: "distinct xs \<Longrightarrow> js_set xs = xs"
proof (induction xs)
  case Nil
  then show ?case by simp
next
  case (Cons x xs)
  then have "filter (\<lambda>y. y \<noteq> x) xs = xs" by (auto simp: filter_id_conv)
  with Cons show ?case by simp
qed

lemma length_js_set: "length (js_set xs) = card (set xs)"
  using distinct_card [OF distinct_js_set [of xs]] by simp

lemma js_set_size_distinct: "length (js_set xs) = length xs \<longleftrightarrow> distinct xs"
  by (metis card_distinct distinct_card length_js_set)

text \<open>\<open>new Map(pairs).get(k)\<close>: the last pair with the key wins.\<close>

definition js_map_get :: "('k \<times> 'v) list \<Rightarrow> 'k \<Rightarrow> 'v option" where
  "js_map_get ps k = map_of (rev ps) k"

lemma js_map_get_Some_set: "js_map_get ps k = Some v \<Longrightarrow> (k, v) \<in> set ps"
  by (auto simp: js_map_get_def dest: map_of_SomeD)

lemma js_map_get_None_iff: "js_map_get ps k = None \<longleftrightarrow> k \<notin> fst ` set ps"
  by (simp add: js_map_get_def map_of_eq_None_iff)

lemma js_map_get_distinct: "distinct (map fst ps) \<Longrightarrow> js_map_get ps = map_of ps"
proof
  fix k
  assume d: "distinct (map fst ps)"
  then have "distinct (map fst (rev ps))" by (simp add: rev_map [symmetric])
  with d have "map_of (rev ps) k = Some v \<longleftrightarrow> map_of ps k = Some v" for v
    by (simp add: map_of_eq_Some_iff)
  then show "js_map_get ps k = map_of ps k"
    unfolding js_map_get_def by (metis option.exhaust)
qed

subsection \<open>Lists\<close>

lemma find_SomeD: "List.find P xs = Some x \<Longrightarrow> x \<in> set xs \<and> P x"
  by (induction xs) (auto split: if_splits)

lemma find_None_all: "List.find P xs = None \<Longrightarrow> x \<in> set xs \<Longrightarrow> \<not> P x"
  by (induction xs) (auto split: if_splits)

lemma find_unique:
  assumes "x \<in> set xs" "P x" "\<And>y. y \<in> set xs \<Longrightarrow> P y \<Longrightarrow> y = x"
  shows "List.find P xs = Some x"
  using assms
proof (induction xs)
  case Nil
  then show ?case by simp
next
  case (Cons a xs)
  show ?case
  proof (cases "P a")
    case True
    with Cons.prems(3) [of a] have "a = x" by simp
    with True show ?thesis by simp
  next
    case False
    then have "x \<in> set xs" using Cons.prems(1,2) by auto
    then have "List.find P xs = Some x"
      using Cons.prems(2,3) by (intro Cons.IH) auto
    with False show ?thesis by simp
  qed
qed

lemma find_filter_same: "(\<And>x. P x \<Longrightarrow> Q x) \<Longrightarrow> List.find P (filter Q xs) = List.find P xs"
  by (induction xs) auto

lemma find_append: "List.find P (xs @ ys) = (case List.find P xs of None \<Rightarrow> List.find P ys | Some x \<Rightarrow> Some x)"
  by (induction xs) auto

lemma find_filter_none: "(\<And>x. Q x \<Longrightarrow> \<not> P x) \<Longrightarrow> List.find P (filter Q xs) = None"
  by (induction xs) auto

lemma distinct_map_inj: "distinct (map f xs) \<Longrightarrow> x \<in> set xs \<Longrightarrow> y \<in> set xs \<Longrightarrow> f x = f y \<Longrightarrow> x = y"
  by (auto simp: distinct_map dest: inj_onD)

lemma filter_as_indices: "filter P xs = map ((!) xs) (filter (\<lambda>i. P (xs ! i)) [0..<length xs])"
  using filter_map [of P "(!) xs" "[0..<length xs]"] by (simp add: map_nth comp_def)

lemma sum_list_insort_key: "sum_list (map f (insort_key g x xs)) = (f x + sum_list (map f xs) :: int)"
  by (induction xs) auto

lemma sum_list_sort_key: "sum_list (map f (sort_key g xs)) = (sum_list (map f xs) :: int)"
  by (induction xs) (simp_all add: sum_list_insort_key)

lemma sum_list_indicator_none: "j \<notin> f ` set xs \<Longrightarrow> sum_list (map (\<lambda>x. if j = f x then q else (0::int)) xs) = 0"
  by (induction xs) auto

lemma sum_list_indicator:
  "distinct (map f xs) \<Longrightarrow> j \<in> f ` set xs \<Longrightarrow> sum_list (map (\<lambda>x. if j = f x then q else (0::int)) xs) = q"
  by (induction xs) (auto simp: sum_list_indicator_none)

lemma sum_list_map_update:
  fixes f :: "'a \<Rightarrow> int"
  assumes "i < length xs"
  shows "sum_list (map f (xs[i := y])) = sum_list (map f xs) - f (xs ! i) + f y"
  using assms
proof (induction xs arbitrary: i)
  case Nil
  then show ?case by simp
next
  case (Cons x xs)
  then show ?case by (cases i) auto
qed

subsection \<open>Association lists as insertion-ordered maps\<close>

lemma set_alist_update: "set (AList.update k v al) \<subseteq> insert (k, v) (set al)"
  by (induction al) auto

lemma alist_update_eq:
  "distinct (map fst al) \<Longrightarrow> (j, w) \<in> set (AList.update k v al) \<longleftrightarrow> (if j = k then w = v else (j, w) \<in> set al)"
  by (induction al) (auto simp: image_iff)

lemma alist_keys_update: "fst ` set (AList.update k v al) = insert k (fst ` set al)"
  by (simp add: dom_update)

lemma sum_alist_update:
  fixes g :: "'v \<Rightarrow> int"
  assumes "distinct (map fst al)"
  shows "sum_list (map (\<lambda>e. g (snd e)) (AList.update k v al)) =
    sum_list (map (\<lambda>e. g (snd e)) al) - (case map_of al k of None \<Rightarrow> 0 | Some w \<Rightarrow> g w) + g v"
  using assms
proof (induction al)
  case Nil
  then show ?case by simp
next
  case (Cons e al)
  obtain j w where "e = (j, w)" by (cases e)
  with Cons show ?case by auto
qed

end
