(* ===== verification/Billing.thy ===== *)
theory Billing
  imports Ubeeq_Prelude
begin

text \<open>
  The usage and credit ledger of \<open>packages/billing/src/index.ts\<close>: class \<open>UsageCreditLedger\<close> with its
  five private fields as a record, one function per method, and the invariant that every sequence
  of calls keeps. A method is a function from the ledger to its outcome (an error on the left, the
  returned value on the right) and the ledger it leaves behind, so that a throw after a mutation
  keeps the mutation. The lots are addressed by their position in the array where the code holds a
  reference to the object, and by \<open>id\<close> where the code searches for it.
\<close>

subsection \<open>Data\<close>

record billing_scope =
  instanceId :: string
  accountId :: string

datatype usage_unit = Byte | Credit | Unit

record usage_input =
  ui_idempotencyKey :: string
  ui_category :: string
  ui_quantity :: int
  ui_unit :: usage_unit
  ui_observedAt :: string
  ui_source :: string
  ui_referenceId :: "string option"
  ui_lotId :: "string option"
  ui_linkedEventId :: "string option"

record usage_event =
  ue_id :: string
  ue_scope :: billing_scope
  ue_body :: usage_input

datatype lot_status = Available | Frozen | Revoked | Expired

record credit_lot =
  cl_id :: string
  cl_scope :: billing_scope
  cl_source :: string
  originalQuantity :: int
  remainingQuantity :: int
  reservedQuantity :: int
  spentQuantity :: int
  expiredQuantity :: int
  revokedQuantity :: int
  grantedAt :: string
  expiresAt :: string
  documentId :: "string option"
  cl_status :: lot_status

datatype reservation_state = Reserved | Committed | Released

record lot_allocation =
  al_lotId :: string
  al_quantity :: int

record credit_reservation =
  cr_id :: string
  cr_scope :: billing_scope
  cr_quantity :: int
  cr_state :: reservation_state
  cr_allocations :: "lot_allocation list"
  cr_eventId :: string

record usage_balance =
  usageByCategory :: "(string \<times> int) list"
  availableCredits :: int
  reservedCredits :: int
  earliestCreditExpiry :: "string option"

record ledger =
  l_events :: "usage_event list"
  l_lots :: "credit_lot list"
  l_reservations :: "(string \<times> credit_reservation) list"
  l_idempotency :: "string \<rightharpoonup> usage_event"
  l_generatedId :: nat

datatype billing_error =
    UsageNotSafeInteger
  | GrantNotPositive
  | ExpiryNotAfterGrant
  | ReservationNotPositive
  | InsufficientCredits
  | UnknownReservation
  | MissingLot

datatype outcome = Commit | Release

definition initial_ledger :: ledger where
  "initial_ledger = \<lparr>l_events = [], l_lots = [], l_reservations = [], l_idempotency = Map.empty, l_generatedId = 0\<rparr>"

definition key_for :: "billing_scope \<Rightarrow> string" where
  "key_for scope = instanceId scope @ ''|'' @ accountId scope"

definition scoped_key :: "billing_scope \<Rightarrow> string \<Rightarrow> string" where
  "scoped_key scope k = key_for scope @ ''|'' @ k"

definition ledger_id :: "nat \<Rightarrow> string" where
  "ledger_id n = ''ledger-'' @ nat_str n"

text \<open>The default \<open>createId\<close> of the constructor.\<close>

definition create_id :: "ledger \<Rightarrow> string \<times> ledger" where
  "create_id s = (ledger_id (Suc (l_generatedId s)), s\<lparr>l_generatedId := Suc (l_generatedId s)\<rparr>)"

subsection \<open>Operations\<close>

definition append_usage :: "billing_scope \<Rightarrow> usage_input \<Rightarrow> ledger \<Rightarrow> (billing_error + usage_event) \<times> ledger" where
  "append_usage scope input s =
     (if \<not> safe_int (ui_quantity input) then (Inl UsageNotSafeInteger, s)
      else
        (let key = scoped_key scope (ui_idempotencyKey input)
         in case l_idempotency s key of
              Some prior \<Rightarrow> (Inr prior, s)
            | None \<Rightarrow>
                (let (i, s1) = create_id s;
                     event = \<lparr>ue_id = i, ue_scope = scope, ue_body = input\<rparr>
                 in (Inr event,
                     s1\<lparr>l_events := l_events s1 @ [event],
                        l_idempotency := (l_idempotency s1)(key \<mapsto> event)\<rparr>))))"

record grant_input =
  gi_quantity :: int
  gi_source :: string
  gi_grantedAt :: string
  gi_expiresAt :: string
  gi_idempotencyKey :: string
  gi_documentId :: "string option"

definition prior_lot :: "billing_scope \<Rightarrow> string \<Rightarrow> ledger \<Rightarrow> string option" where
  "prior_lot scope k s =
     (case l_idempotency s (scoped_key scope k) of None \<Rightarrow> None
      | Some prior \<Rightarrow> if truthy_opt (ui_lotId (ue_body prior)) then ui_lotId (ue_body prior) else None)"

definition grant_credits :: "billing_scope \<Rightarrow> grant_input \<Rightarrow> ledger \<Rightarrow> (billing_error + credit_lot option) \<times> ledger" where
  "grant_credits scope input s =
     (if \<not> safe_int (gi_quantity input) \<or> gi_quantity input \<le> 0 then (Inl GrantNotPositive, s)
      else if gi_expiresAt input \<le> gi_grantedAt input then (Inl ExpiryNotAfterGrant, s)
      else
        (case prior_lot scope (gi_idempotencyKey input) s of
           Some i \<Rightarrow> (Inr (List.find (\<lambda>lot. cl_id lot = i) (l_lots s)), s)
         | None \<Rightarrow>
             (let (i, s1) = create_id s;
                  lot = \<lparr>cl_id = i, cl_scope = scope, cl_source = gi_source input,
                         originalQuantity = gi_quantity input, remainingQuantity = gi_quantity input,
                         reservedQuantity = 0, spentQuantity = 0, expiredQuantity = 0, revokedQuantity = 0,
                         grantedAt = gi_grantedAt input, expiresAt = gi_expiresAt input,
                         documentId = gi_documentId input, cl_status = Available\<rparr>;
                  s2 = s1\<lparr>l_lots := l_lots s1 @ [lot]\<rparr>;
                  (r, s3) = append_usage scope
                    \<lparr>ui_idempotencyKey = gi_idempotencyKey input, ui_category = ''credits.granted'',
                     ui_quantity = gi_quantity input, ui_unit = Credit, ui_observedAt = gi_grantedAt input,
                     ui_source = ''billing'', ui_referenceId = None, ui_lotId = Some i, ui_linkedEventId = None\<rparr> s2
              in (case r of Inl e \<Rightarrow> Inl e | Inr _ \<Rightarrow> Inr (Some lot), s3))))"

record reserve_input =
  ri_reservationId :: string
  ri_quantity :: int
  ri_observedAt :: string
  ri_referenceId :: "string option"

definition lot_available :: "credit_lot \<Rightarrow> int" where
  "lot_available lot = remainingQuantity lot - reservedQuantity lot"

definition live_lot :: "billing_scope \<Rightarrow> string \<Rightarrow> credit_lot \<Rightarrow> bool" where
  "live_lot scope now lot \<longleftrightarrow> key_for (cl_scope lot) = key_for scope \<and> cl_status lot = Available \<and> now < expiresAt lot"

definition eligible_lot :: "billing_scope \<Rightarrow> string \<Rightarrow> credit_lot \<Rightarrow> bool" where
  "eligible_lot scope now lot \<longleftrightarrow> live_lot scope now lot \<and> reservedQuantity lot < remainingQuantity lot"

text \<open>\<open>reduce((sum, lot) => sum + lot.remainingQuantity - lot.reservedQuantity, 0)\<close>, in double precision.\<close>

definition available_sum :: "credit_lot list \<Rightarrow> int" where
  "available_sum lots = foldl (\<lambda>sum lot. double_add (double_add sum (remainingQuantity lot)) (- reservedQuantity lot)) 0 lots"

text \<open>
  References to the eligible lots in the order of the code's comparator: by \<open>expiresAt\<close>, then by
  \<open>grantedAt\<close>, equal lots in array order. \<open>localeCompare\<close> is the code-unit order here, with which it
  agrees on timestamps of one format.
\<close>

definition eligible_order :: "credit_lot list \<Rightarrow> nat \<Rightarrow> string \<times> string" where
  "eligible_order lots i = (expiresAt (lots ! i), grantedAt (lots ! i))"

definition eligible_lots :: "billing_scope \<Rightarrow> string \<Rightarrow> credit_lot list \<Rightarrow> nat list" where
  "eligible_lots scope now lots =
     sort_key (eligible_order lots) (filter (\<lambda>i. eligible_lot scope now (lots ! i)) [0..<length lots])"

fun reserve_loop :: "nat list \<Rightarrow> int \<Rightarrow> credit_lot list \<Rightarrow> lot_allocation list \<times> credit_lot list" where
  "reserve_loop [] needed lots = ([], lots)"
| "reserve_loop (i # is) needed lots =
     (let lot = lots ! i; quantity = min needed (lot_available lot)
      in if quantity = 0 then reserve_loop is needed lots
         else
           (let lots' = lots[i := lot\<lparr>reservedQuantity := reservedQuantity lot + quantity\<rparr>];
                allocation = \<lparr>al_lotId = cl_id lot, al_quantity = quantity\<rparr>
            in if needed - quantity = 0 then ([allocation], lots')
               else (let (rest, lots'') = reserve_loop is (needed - quantity) lots'
                     in (allocation # rest, lots''))))"

definition reserve_credits :: "billing_scope \<Rightarrow> reserve_input \<Rightarrow> ledger \<Rightarrow> (billing_error + credit_reservation) \<times> ledger" where
  "reserve_credits scope input s =
     (let key = scoped_key scope (ri_reservationId input)
      in case map_of (l_reservations s) key of
           Some prior \<Rightarrow> (Inr prior, s)
         | None \<Rightarrow>
             if \<not> safe_int (ri_quantity input) \<or> ri_quantity input \<le> 0 then (Inl ReservationNotPositive, s)
             else
               (let eligible = eligible_lots scope (ri_observedAt input) (l_lots s)
                in if available_sum (map (\<lambda>i. l_lots s ! i) eligible) < ri_quantity input
                   then (Inl InsufficientCredits, s)
                   else
                     (let (allocations, lots') = reserve_loop eligible (ri_quantity input) (l_lots s);
                          (r, s1) = append_usage scope
                            \<lparr>ui_idempotencyKey = ''reserve:'' @ ri_reservationId input, ui_category = ''credits.reserved'',
                             ui_quantity = ri_quantity input, ui_unit = Credit, ui_observedAt = ri_observedAt input,
                             ui_source = ''processing'', ui_referenceId = ri_referenceId input,
                             ui_lotId = None, ui_linkedEventId = None\<rparr> (s\<lparr>l_lots := lots'\<rparr>)
                      in case r of
                           Inl e \<Rightarrow> (Inl e, s1)
                         | Inr event \<Rightarrow>
                             (let reservation = \<lparr>cr_id = ri_reservationId input, cr_scope = scope,
                                    cr_quantity = ri_quantity input, cr_state = Reserved,
                                    cr_allocations = allocations, cr_eventId = ue_id event\<rparr>
                              in (Inr reservation,
                                  s1\<lparr>l_reservations := AList.update key reservation (l_reservations s1)\<rparr>)))))"

text \<open>\<open>this.lots.find(candidate => candidate.id === id)\<close> as a reference into the array.\<close>

fun find_lot :: "string \<Rightarrow> credit_lot list \<Rightarrow> nat option" where
  "find_lot i [] = None"
| "find_lot i (lot # lots) = (if cl_id lot = i then Some 0 else map_option Suc (find_lot i lots))"

definition settle_lot :: "outcome \<Rightarrow> int \<Rightarrow> credit_lot \<Rightarrow> credit_lot" where
  "settle_lot out q lot =
     (let lot' = lot\<lparr>reservedQuantity := reservedQuantity lot - q\<rparr>
      in case out of
           Release \<Rightarrow> lot'
         | Commit \<Rightarrow> lot'\<lparr>remainingQuantity := remainingQuantity lot' - q, spentQuantity := spentQuantity lot' + q\<rparr>)"

fun settle_loop :: "outcome \<Rightarrow> lot_allocation list \<Rightarrow> credit_lot list \<Rightarrow> (billing_error + unit) \<times> credit_lot list" where
  "settle_loop out [] lots = (Inr (), lots)"
| "settle_loop out (a # as) lots =
     (case find_lot (al_lotId a) lots of
        None \<Rightarrow> (Inl MissingLot, lots)
      | Some i \<Rightarrow> settle_loop out as (lots[i := settle_lot out (al_quantity a) (lots ! i)]))"

definition outcome_key :: "outcome \<Rightarrow> string" where
  "outcome_key out = (case out of Commit \<Rightarrow> ''commit'' | Release \<Rightarrow> ''release'')"

definition finalize_reservation :: "billing_scope \<Rightarrow> string \<Rightarrow> outcome \<Rightarrow> string \<Rightarrow> ledger \<Rightarrow> (billing_error + credit_reservation) \<times> ledger" where
  "finalize_reservation scope reservationId out observedAt s =
     (let key = scoped_key scope reservationId
      in case map_of (l_reservations s) key of
           None \<Rightarrow> (Inl UnknownReservation, s)
         | Some reservation \<Rightarrow>
             if cr_state reservation \<noteq> Reserved then (Inr reservation, s)
             else
               (let (r, lots') = settle_loop out (cr_allocations reservation) (l_lots s);
                    s1 = s\<lparr>l_lots := lots'\<rparr>
                in case r of
                     Inl e \<Rightarrow> (Inl e, s1)
                   | Inr _ \<Rightarrow>
                       (let reservation' = reservation\<lparr>cr_state := (case out of Commit \<Rightarrow> Committed | Release \<Rightarrow> Released)\<rparr>;
                            s2 = s1\<lparr>l_reservations := AList.update key reservation' (l_reservations s1)\<rparr>;
                            (r', s3) = append_usage scope
                              \<lparr>ui_idempotencyKey = outcome_key out @ '':'' @ reservationId,
                               ui_category = (case out of Commit \<Rightarrow> ''credits.committed'' | Release \<Rightarrow> ''credits.released''),
                               ui_quantity = cr_quantity reservation, ui_unit = Credit, ui_observedAt = observedAt,
                               ui_source = ''processing'', ui_referenceId = None, ui_lotId = None,
                               ui_linkedEventId = Some (cr_eventId reservation)\<rparr> s2
                        in (case r' of Inl e \<Rightarrow> Inl e | Inr _ \<Rightarrow> Inr reservation', s3))))"

definition expirable_lot :: "billing_scope \<Rightarrow> string \<Rightarrow> credit_lot \<Rightarrow> bool" where
  "expirable_lot scope now lot \<longleftrightarrow>
     key_for (cl_scope lot) = key_for scope \<and> cl_status lot = Available \<and> expiresAt lot \<le> now \<and>
     reservedQuantity lot = 0 \<and> 0 < remainingQuantity lot"

definition expire_lot :: "credit_lot \<Rightarrow> credit_lot" where
  "expire_lot lot = lot\<lparr>remainingQuantity := 0, expiredQuantity := expiredQuantity lot + remainingQuantity lot,
     cl_status := Expired\<rparr>"

fun expire_loop :: "billing_scope \<Rightarrow> string \<Rightarrow> nat list \<Rightarrow> int \<Rightarrow> ledger \<Rightarrow> (billing_error + int) \<times> ledger" where
  "expire_loop scope now [] expired s = (Inr expired, s)"
| "expire_loop scope now (i # is) expired s =
     (let lot = l_lots s ! i; quantity = remainingQuantity lot;
          (r, s1) = append_usage scope
            \<lparr>ui_idempotencyKey = ''expire:'' @ cl_id lot, ui_category = ''credits.expired'',
             ui_quantity = quantity, ui_unit = Credit, ui_observedAt = now, ui_source = ''expiry'',
             ui_referenceId = None, ui_lotId = Some (cl_id lot), ui_linkedEventId = None\<rparr>
            (s\<lparr>l_lots := (l_lots s)[i := expire_lot lot]\<rparr>)
      in case r of Inl e \<Rightarrow> (Inl e, s1)
         | Inr _ \<Rightarrow> expire_loop scope now is (double_add expired quantity) s1)"

definition expire_credits :: "billing_scope \<Rightarrow> string \<Rightarrow> ledger \<Rightarrow> (billing_error + int) \<times> ledger" where
  "expire_credits scope now s =
     expire_loop scope now (filter (\<lambda>i. expirable_lot scope now (l_lots s ! i)) [0..<length (l_lots s)]) 0 s"

definition ledger_balance :: "billing_scope \<Rightarrow> string \<Rightarrow> ledger \<Rightarrow> usage_balance" where
  "ledger_balance scope now s =
     (let events = filter (\<lambda>e. key_for (ue_scope e) = key_for scope) (l_events s);
          lots = filter (live_lot scope now) (l_lots s)
      in \<lparr>usageByCategory = map (\<lambda>c. (c, double_sum (ui_quantity \<circ> ue_body)
                                (filter (\<lambda>e. ui_category (ue_body e) = c) events)))
                             (js_set (map (ui_category \<circ> ue_body) events)),
          availableCredits = available_sum lots,
          reservedCredits = double_sum reservedQuantity lots,
          earliestCreditExpiry =
            (case sort_key expiresAt (filter (\<lambda>lot. 0 < remainingQuantity lot) lots) of
               [] \<Rightarrow> None | lot # _ \<Rightarrow> Some (expiresAt lot))\<rparr>)"

subsection \<open>Allocations and the two loops over the lots\<close>

definition alloc_for :: "lot_allocation list \<Rightarrow> string \<Rightarrow> int" where
  "alloc_for as i = sum_list (map al_quantity (filter (\<lambda>a. al_lotId a = i) as))"

lemma alloc_for_simps [simp]:
  "alloc_for [] i = 0"
  "alloc_for (a # as) i = (if al_lotId a = i then al_quantity a else 0) + alloc_for as i"
  by (simp_all add: alloc_for_def)

lemma alloc_for_notin: "i \<notin> al_lotId ` set as \<Longrightarrow> alloc_for as i = 0"
  by (induction as) auto

lemma alloc_for_nonneg: "\<forall>a \<in> set as. 0 < al_quantity a \<Longrightarrow> 0 \<le> alloc_for as i"
  by (induction as) (auto simp: add_nonneg_nonneg less_imp_le)

lemma alloc_for_distinct:
  "distinct (map al_lotId as) \<Longrightarrow> a \<in> set as \<Longrightarrow> alloc_for as (al_lotId a) = al_quantity a"
  by (induction as) (auto simp: alloc_for_notin image_iff)

definition reserve_lot :: "int \<Rightarrow> credit_lot \<Rightarrow> credit_lot" where
  "reserve_lot q lot = lot\<lparr>reservedQuantity := reservedQuantity lot + q\<rparr>"

lemma reserve_lot_simps [simp]:
  "cl_id (reserve_lot q lot) = cl_id lot" "reservedQuantity (reserve_lot q lot) = reservedQuantity lot + q"
  "remainingQuantity (reserve_lot q lot) = remainingQuantity lot" "expiresAt (reserve_lot q lot) = expiresAt lot"
  "grantedAt (reserve_lot q lot) = grantedAt lot" "cl_status (reserve_lot q lot) = cl_status lot"
  "cl_scope (reserve_lot q lot) = cl_scope lot" "originalQuantity (reserve_lot q lot) = originalQuantity lot" "lot_available (reserve_lot q lot) = lot_available lot - q"
  by (simp_all add: reserve_lot_def lot_available_def)

lemma reserve_lot_0 [simp]: "reserve_lot 0 lot = lot"
  by (simp add: reserve_lot_def)

lemma reserve_lot_add: "reserve_lot q (reserve_lot r lot) = reserve_lot (r + q) lot"
  by (simp add: reserve_lot_def)

text \<open>Updating the lot with one identifier, as a map over the array.\<close>

lemma map_update_by_id:
  assumes "distinct (map cl_id lots)" "i < length lots" "\<And>lot. cl_id lot \<noteq> cl_id (lots ! i) \<Longrightarrow> f lot = g lot"
    and "f (lots ! i) = g v"
  shows "map f lots = map g (lots[i := v])"
proof (rule nth_equalityI)
  fix j
  assume j: "j < length (map f lots)"
  show "map f lots ! j = map g (lots[i := v]) ! j"
  proof (cases "j = i")
    case True
    with assms(2,4) show ?thesis by simp
  next
    case False
    with assms(1,2) j have "cl_id (lots ! j) \<noteq> cl_id (lots ! i)"
      by (auto simp: distinct_conv_nth)
    with False j assms(3) show ?thesis by simp
  qed
qed simp

text \<open>
  The reservation loop as one equation: the lots gain exactly what was allocated to them, the
  allocations follow the given order, each takes all its lot has except the last, and together they
  cover the quantity as far as the lots allow.
\<close>

definition reserves :: "nat list \<Rightarrow> int \<Rightarrow> credit_lot list \<Rightarrow> lot_allocation list \<Rightarrow> bool" where
  "reserves is n lots as \<longleftrightarrow>
     length as \<le> length is \<and>
     (\<forall>k < length as. al_lotId (as ! k) = cl_id (lots ! (is ! k)) \<and>
        0 < al_quantity (as ! k) \<and> al_quantity (as ! k) \<le> lot_available (lots ! (is ! k)) \<and>
        (Suc k < length as \<longrightarrow> al_quantity (as ! k) = lot_available (lots ! (is ! k)))) \<and>
     sum_list (map al_quantity as) = min n (sum_list (map (\<lambda>i. lot_available (lots ! i)) is))"

lemma reserve_loop_spec:
  assumes "distinct (map cl_id lots)" "distinct is" "\<forall>i \<in> set is. i < length lots \<and> 0 < lot_available (lots ! i)"
    and "0 < n" "reserve_loop is n lots = (as, lots')"
  shows "lots' = map (\<lambda>lot. reserve_lot (alloc_for as (cl_id lot)) lot) lots \<and> reserves is n lots as"
  using assms
proof (induction "is" arbitrary: n lots as lots')
  case Nil
  then show ?case by (simp add: reserves_def)
next
  case (Cons i "is")
  define q where "q = min n (lot_available (lots ! i))"
  define lots2 where "lots2 = lots[i := reserve_lot q (lots ! i)]"
  define a where "a = \<lparr>al_lotId = cl_id (lots ! i), al_quantity = q\<rparr>"
  have i: "i < length lots" "0 < lot_available (lots ! i)" and q: "0 < q" "q \<le> lot_available (lots ! i)" "q \<le> n"
    using Cons.prems by (auto simp: q_def)
  have ids: "map cl_id lots2 = map cl_id lots"
    by (metis i(1) lots2_def list_update_id map_update nth_map reserve_lot_simps(1))
  have oth: "lots2 ! j = lots ! j" if "j \<in> set is" for j
    using that Cons.prems(2) unfolding lots2_def by (metis distinct.simps(2) nth_list_update_neq)
  have avail: "map (\<lambda>j. lot_available (lots2 ! j)) is = map (\<lambda>j. lot_available (lots ! j)) is"
    by (simp add: oth)
  have pos: "0 \<le> sum_list (map (\<lambda>j. lot_available (lots ! j)) is)"
    using Cons.prems(3) by (intro sum_list_nonneg) auto
  show ?case
  proof (cases "n = q")
    case True
    then have "as = [a]" "lots' = lots2"
      using Cons.prems(5) q by (auto simp: Let_def a_def lots2_def q_def [symmetric] reserve_lot_def)
    moreover have "map (\<lambda>lot. reserve_lot (alloc_for [a] (cl_id lot)) lot) lots = map (\<lambda>lot. lot) lots2"
      unfolding lots2_def by (rule map_update_by_id [OF Cons.prems(1) i(1)]) (auto simp: a_def)
    ultimately show ?thesis
      using q i pos True by (auto simp: reserves_def a_def)
  next
    case False
    with q have full: "q = lot_available (lots ! i)" and n': "0 < n - q" by (auto simp: q_def)
    obtain rest where rest: "reserve_loop is (n - q) lots2 = (rest, lots')" "as = a # rest"
      using Cons.prems(5) False q
      by (auto simp: Let_def a_def lots2_def q_def [symmetric] reserve_lot_def split: prod.splits)
    have IH: "lots' = map (\<lambda>lot. reserve_lot (alloc_for rest (cl_id lot)) lot) lots2 \<and> reserves is (n - q) lots2 rest"
      using Cons.prems(1,2,3) ids n' rest(1) oth
      by (intro Cons.IH) (auto simp: lots2_def)
    have "map (\<lambda>lot. reserve_lot (alloc_for as (cl_id lot)) lot) lots =
        map (\<lambda>lot. reserve_lot (alloc_for rest (cl_id lot)) lot) lots2"
      unfolding lots2_def
      by (rule map_update_by_id [OF Cons.prems(1) i(1)]) (auto simp: rest(2) a_def reserve_lot_add)
    moreover have "reserves (i # is) n lots as"
    proof -
      have "al_lotId (as ! k) = cl_id (lots ! ((i # is) ! k)) \<and> 0 < al_quantity (as ! k) \<and>
          al_quantity (as ! k) \<le> lot_available (lots ! ((i # is) ! k)) \<and>
          (Suc k < length as \<longrightarrow> al_quantity (as ! k) = lot_available (lots ! ((i # is) ! k)))"
        if "k < length as" for k
        using that IH q full oth by (cases k) (auto simp: rest(2) a_def reserves_def)
      with IH show ?thesis using q full avail by (auto simp: rest(2) a_def reserves_def)
    qed
    ultimately show ?thesis using IH by simp
  qed
qed

lemma reserves_alloc_bound:
  assumes "distinct (map cl_id lots)" "distinct is" "\<forall>i \<in> set is. i < length lots \<and> 0 < lot_available (lots ! i)"
    and "reserves is n lots as"
  shows "distinct (map al_lotId as)"
    and "\<forall>a \<in> set as. 0 < al_quantity a \<and> al_lotId a \<in> cl_id ` set lots"
    and "lot \<in> set lots \<Longrightarrow> 0 \<le> lot_available lot \<Longrightarrow> alloc_for as (cl_id lot) \<le> lot_available lot"
proof -
  have len: "length as \<le> length is" using assms(4) by (simp add: reserves_def)
  have nth: "al_lotId (as ! k) = cl_id (lots ! (is ! k)) \<and> 0 < al_quantity (as ! k) \<and>
      al_quantity (as ! k) \<le> lot_available (lots ! (is ! k)) \<and> is ! k < length lots" if "k < length as" for k
    using assms(3,4) that len by (auto simp: reserves_def)
  show d: "distinct (map al_lotId as)"
  proof -
    have "al_lotId (as ! j) \<noteq> al_lotId (as ! k)" if "j < length as" "k < length as" "j \<noteq> k" for j k
    proof -
      have "is ! j \<noteq> is ! k" using that len assms(2) by (simp add: nth_eq_iff_index_eq)
      then show ?thesis using nth [OF that(1)] nth [OF that(2)] assms(1) by (auto simp: distinct_conv_nth)
    qed
    then show ?thesis by (simp add: distinct_conv_nth)
  qed
  show ok: "\<forall>a \<in> set as. 0 < al_quantity a \<and> al_lotId a \<in> cl_id ` set lots"
    using nth by (force simp: in_set_conv_nth)
  show "alloc_for as (cl_id lot) \<le> lot_available lot" if "lot \<in> set lots" "0 \<le> lot_available lot"
  proof (cases "cl_id lot \<in> al_lotId ` set as")
    case True
    then obtain k where k: "k < length as" "cl_id lot = al_lotId (as ! k)" by (auto simp: in_set_conv_nth)
    then have "alloc_for as (cl_id lot) = al_quantity (as ! k)" using alloc_for_distinct [OF d] by auto
    moreover have "lots ! (is ! k) = lot"
      using nth [OF k(1)] k(2) that(1) assms(1) by (intro distinct_map_inj [of cl_id lots]) auto
    ultimately show ?thesis using nth [OF k(1)] by simp
  next
    case False
    with that show ?thesis by (simp add: alloc_for_notin)
  qed
qed

lemma find_lot_Some: "find_lot i lots = Some j \<Longrightarrow> j < length lots \<and> cl_id (lots ! j) = i"
  by (induction lots arbitrary: j) (auto split: if_splits)

lemma find_lot_None: "find_lot i lots = None \<longleftrightarrow> i \<notin> cl_id ` set lots"
  by (induction lots) auto

lemma settle_lot_simps [simp]:
  "cl_id (settle_lot out q lot) = cl_id lot" "settle_lot out 0 lot = lot"
  "settle_lot out q (settle_lot out r lot) = settle_lot out (r + q) lot"
  "reservedQuantity (settle_lot out q lot) = reservedQuantity lot - q"
  "originalQuantity (settle_lot out q lot) = originalQuantity lot"
  by (cases out; simp add: settle_lot_def Let_def algebra_simps)+

lemma settle_loop_spec:
  assumes "distinct (map cl_id lots)" "\<forall>a \<in> set as. al_lotId a \<in> cl_id ` set lots"
  shows "settle_loop out as lots = (Inr (), map (\<lambda>lot. settle_lot out (alloc_for as (cl_id lot)) lot) lots)"
  using assms
proof (induction as arbitrary: lots)
  case Nil
  then show ?case by simp
next
  case (Cons a as)
  obtain j where j: "find_lot (al_lotId a) lots = Some j"
    using Cons.prems(2) find_lot_None by (metis list.set_intros(1) not_Some_eq)
  note j' = find_lot_Some [OF j]
  define lots2 where "lots2 = lots[j := settle_lot out (al_quantity a) (lots ! j)]"
  have ids: "map cl_id lots2 = map cl_id lots"
    by (metis j' lots2_def list_update_id map_update nth_map settle_lot_simps(1))
  then have "cl_id ` set lots2 = cl_id ` set lots" by (metis list.set_map)
  with Cons.prems ids have IH: "settle_loop out as lots2 =
      (Inr (), map (\<lambda>lot. settle_lot out (alloc_for as (cl_id lot)) lot) lots2)"
    by (intro Cons.IH) auto
  have "map (\<lambda>lot. settle_lot out (alloc_for (a # as) (cl_id lot)) lot) lots =
      map (\<lambda>lot. settle_lot out (alloc_for as (cl_id lot)) lot) lots2"
    unfolding lots2_def by (rule map_update_by_id [OF Cons.prems(1)]) (use j' in auto)
  with IH show ?case by (simp add: j lots2_def)
qed

subsection \<open>The ledger invariant\<close>

definition lot_ok :: "credit_lot \<Rightarrow> bool" where
  "lot_ok lot \<longleftrightarrow>
     originalQuantity lot = remainingQuantity lot + spentQuantity lot + expiredQuantity lot + revokedQuantity lot \<and>
     0 \<le> reservedQuantity lot \<and> reservedQuantity lot \<le> remainingQuantity lot \<and>
     0 \<le> spentQuantity lot \<and> 0 \<le> expiredQuantity lot \<and> 0 \<le> revokedQuantity lot \<and>
     0 < originalQuantity lot \<and> originalQuantity lot \<le> max_safe_int"

lemma lot_ok_original: "lot_ok lot \<Longrightarrow> 0 < originalQuantity lot" by (simp add: lot_ok_def)

text \<open>Everything granted so far. Sums over lots are exact as long as it is a safe integer.\<close>

definition granted_total :: "credit_lot list \<Rightarrow> int" where
  "granted_total lots = sum_list (map originalQuantity lots)"

definition reservation_ok :: "credit_lot list \<Rightarrow> credit_reservation \<Rightarrow> bool" where
  "reservation_ok lots r \<longleftrightarrow>
     0 < cr_quantity r \<and> cr_quantity r \<le> max_safe_int \<and>
     sum_list (map al_quantity (cr_allocations r)) \<le> cr_quantity r \<and>
     (granted_total lots \<le> max_safe_int \<longrightarrow> sum_list (map al_quantity (cr_allocations r)) = cr_quantity r) \<and>
     distinct (map al_lotId (cr_allocations r)) \<and>
     (\<forall>a \<in> set (cr_allocations r). 0 < al_quantity a \<and> al_lotId a \<in> cl_id ` set lots)"

text \<open>What one reservation, and all open reservations together, hold of a lot.\<close>

definition held_by :: "string \<Rightarrow> credit_reservation \<Rightarrow> int" where
  "held_by i r = (if cr_state r = Reserved then alloc_for (cr_allocations r) i else 0)"

definition held :: "ledger \<Rightarrow> string \<Rightarrow> int" where
  "held s i = sum_list (map (\<lambda>e. held_by i (snd e)) (l_reservations s))"

definition ledger_inv :: "ledger \<Rightarrow> bool" where
  "ledger_inv s \<longleftrightarrow>
     distinct (map cl_id (l_lots s)) \<and>
     (\<forall>lot \<in> set (l_lots s). lot_ok lot \<and> reservedQuantity lot = held s (cl_id lot) \<and>
        (\<exists>k \<le> l_generatedId s. cl_id lot = ledger_id k)) \<and>
     distinct (map fst (l_reservations s)) \<and>
     (\<forall>e \<in> set (l_reservations s). reservation_ok (l_lots s) (snd e))"

lemma ledger_id_inject [simp]: "ledger_id m = ledger_id n \<longleftrightarrow> m = n"
  by (simp add: ledger_id_def)

lemma ledger_inv_initial [inv_intros]: "ledger_inv initial_ledger"
  by (simp add: ledger_inv_def initial_ledger_def)

lemma append_usage_frame [store_simps]:
  "l_lots (snd (append_usage scope input s)) = l_lots s"
  "l_reservations (snd (append_usage scope input s)) = l_reservations s"
  by (simp_all add: append_usage_def create_id_def Let_def split: option.split)

lemma append_usage_gen: "l_generatedId s \<le> l_generatedId (snd (append_usage scope input s))"
  by (simp add: append_usage_def create_id_def Let_def split: option.split)

lemma append_usage_safe: "safe_int (ui_quantity input) \<Longrightarrow> \<exists>e. fst (append_usage scope input s) = Inr e"
  by (simp add: append_usage_def create_id_def Let_def split: option.split)

lemma ledger_inv_mono:
  assumes "ledger_inv s" "l_lots t = l_lots s" "l_reservations t = l_reservations s"
    "l_generatedId s \<le> l_generatedId t"
  shows "ledger_inv t"
proof -
  have "held t = held s" using assms(3) by (simp add: held_def fun_eq_iff)
  with assms show ?thesis unfolding ledger_inv_def by (metis le_trans)
qed

lemma ledger_inv_append [inv_intros]: "ledger_inv s \<Longrightarrow> ledger_inv (snd (append_usage scope input s))"
  by (erule ledger_inv_mono) (simp_all add: append_usage_frame append_usage_gen)

lemma ledger_inv_distinct: "ledger_inv s \<Longrightarrow> distinct (map cl_id (l_lots s))"
  by (simp add: ledger_inv_def)

lemma ledger_inv_lot:
  "ledger_inv s \<Longrightarrow> lot \<in> set (l_lots s) \<Longrightarrow> lot_ok lot \<and> reservedQuantity lot = held s (cl_id lot)"
  by (simp add: ledger_inv_def)

lemma ledger_inv_reservation:
  "ledger_inv s \<Longrightarrow> map_of (l_reservations s) k = Some r \<Longrightarrow> reservation_ok (l_lots s) r"
  by (auto simp: ledger_inv_def dest: map_of_SomeD)

text \<open>Replacing the lots pointwise and one reservation: what a reservation or a settlement does.\<close>

lemma ledger_inv_change:
  assumes inv: "ledger_inv s"
    and lots: "l_lots t = map (\<lambda>lot. f (cl_id lot) lot) (l_lots s)"
    and res: "l_reservations t = AList.update k r (l_reservations s)"
    and gen: "l_generatedId s \<le> l_generatedId t"
    and rok: "reservation_ok (l_lots s) r"
    and lot: "\<And>lot. lot \<in> set (l_lots s) \<Longrightarrow> lot_ok lot \<Longrightarrow> cl_id (f (cl_id lot) lot) = cl_id lot \<and>
      lot_ok (f (cl_id lot) lot) \<and> originalQuantity (f (cl_id lot) lot) = originalQuantity lot \<and>
      reservedQuantity (f (cl_id lot) lot) = reservedQuantity lot + held_by (cl_id lot) r
        - (case map_of (l_reservations s) k of None \<Rightarrow> 0 | Some r0 \<Rightarrow> held_by (cl_id lot) r0)"
  shows "ledger_inv t"
proof -
  have keep: "\<And>x. x \<in> set (l_lots s) \<Longrightarrow> cl_id (f (cl_id x) x) = cl_id x"
    using lot inv by (simp add: ledger_inv_def)
  then have ids: "map cl_id (l_lots t) = map cl_id (l_lots s)" by (simp add: lots)
  then have idset: "cl_id ` set (l_lots t) = cl_id ` set (l_lots s)" by (metis list.set_map)
  have granted: "granted_total (l_lots t) = granted_total (l_lots s)"
    unfolding granted_total_def lots using lot inv by (auto simp: ledger_inv_def intro!: arg_cong [of _ _ sum_list])
  have d: "distinct (map fst (l_reservations s))" using inv by (simp add: ledger_inv_def)
  have held: "held t i = held s i
      - (case map_of (l_reservations s) k of None \<Rightarrow> 0 | Some r0 \<Rightarrow> held_by i r0) + held_by i r" for i
    unfolding held_def res by (rule sum_alist_update [OF d])
  have "reservation_ok (l_lots t) (snd e)" if "e \<in> set (l_reservations t)" for e
  proof -
    have "snd e = r \<or> e \<in> set (l_reservations s)"
      using that set_alist_update [of k r "l_reservations s"] by (auto simp: res)
    with rok inv show ?thesis by (auto simp: ledger_inv_def reservation_ok_def idset granted)
  qed
  moreover have "lot_ok x \<and> reservedQuantity x = held t (cl_id x) \<and> (\<exists>j \<le> l_generatedId t. cl_id x = ledger_id j)"
    if x: "x \<in> set (l_lots t)" for x
  proof -
    obtain y where y: "y \<in> set (l_lots s)" "x = f (cl_id y) y" using x by (auto simp: lots)
    with inv have y_ok: "lot_ok y" "reservedQuantity y = held s (cl_id y)" "\<exists>j \<le> l_generatedId s. cl_id y = ledger_id j"
      by (auto simp: ledger_inv_def)
    with lot [OF y(1)] gen y show ?thesis by (auto simp: held intro: order_trans)
  qed
  ultimately show ?thesis using inv ids d by (simp add: ledger_inv_def res distinct_update)
qed

lemma ledger_inv_grant [inv_intros]:
  assumes "ledger_inv s"
  shows "ledger_inv (snd (grant_credits scope input s))"
proof -
  define i where "i = ledger_id (Suc (l_generatedId s))"
  define lot where "lot = \<lparr>cl_id = i, cl_scope = scope, cl_source = gi_source input,
     originalQuantity = gi_quantity input, remainingQuantity = gi_quantity input,
     reservedQuantity = 0, spentQuantity = 0, expiredQuantity = 0, revokedQuantity = 0,
     grantedAt = gi_grantedAt input, expiresAt = gi_expiresAt input,
     documentId = gi_documentId input, cl_status = Available\<rparr>"
  define t where "t = s\<lparr>l_generatedId := Suc (l_generatedId s), l_lots := l_lots s @ [lot]\<rparr>"
  have fresh: "i \<notin> cl_id ` set (l_lots s)"
    using assms by (auto simp: ledger_inv_def i_def)
  have "alloc_for (cr_allocations (snd e)) i = 0" if "e \<in> set (l_reservations s)" for e
    using assms that fresh by (intro alloc_for_notin) (auto simp: ledger_inv_def reservation_ok_def)
  then have "map (\<lambda>e. held_by i (snd e)) (l_reservations s) = map (\<lambda>_. 0) (l_reservations s)"
    by (auto simp: held_by_def)
  then have "held s i = sum_list (map (\<lambda>_. 0) (l_reservations s))" unfolding held_def by (rule arg_cong)
  then have held0: "held s i = 0" by simp
  have t_inv: "ledger_inv t" if "0 < gi_quantity input" "safe_int (gi_quantity input)"
  proof -
    have "held t = held s" by (simp add: held_def t_def fun_eq_iff)
    moreover have "lot_ok lot" using that by (simp add: lot_def lot_ok_def safe_int_def)
    moreover have "cl_id lot = i" "reservedQuantity lot = 0" by (simp_all add: lot_def)
    moreover have "reservation_ok (l_lots s @ [lot]) r" if "reservation_ok (l_lots s) r" for r
      using that \<open>lot_ok lot\<close> by (auto simp: reservation_ok_def granted_total_def lot_ok_def)
    ultimately show ?thesis
      using assms fresh held0 by (auto simp: ledger_inv_def t_def i_def intro: le_SucI)
  qed
  have "snd (grant_credits scope input s) = s \<or>
      0 < gi_quantity input \<and> safe_int (gi_quantity input) \<and>
      (\<exists>body. snd (grant_credits scope input s) = snd (append_usage scope body t))"
    by (auto simp: grant_credits_def create_id_def t_def lot_def i_def Let_def case_prod_beta split: option.split)
  with assms t_inv show ?thesis by (auto intro: ledger_inv_append)
qed

lemma held_by_nonneg: "reservation_ok lots r \<Longrightarrow> 0 \<le> held_by i r"
  unfolding held_by_def reservation_ok_def by (auto intro: alloc_for_nonneg)

lemma held_ge:
  assumes "ledger_inv s" "map_of (l_reservations s) k = Some r"
  shows "held_by i r \<le> held s i"
proof -
  have "(k, r) \<in> set (l_reservations s)" using assms(2) by (rule map_of_SomeD)
  moreover have "0 \<le> held_by i (snd e)" if "e \<in> set (l_reservations s)" for e
    using assms(1) that by (auto simp: ledger_inv_def intro: held_by_nonneg)
  ultimately show ?thesis
    unfolding held_def by (intro member_le_sum_list) force+
qed

text \<open>The eligible references are distinct, in range and have credit left.\<close>

lemma eligible_lots_props:
  "distinct (eligible_lots scope now lots)"
  "i \<in> set (eligible_lots scope now lots) \<longleftrightarrow> i < length lots \<and> eligible_lot scope now (lots ! i)"
  by (auto simp: eligible_lots_def)

lemma eligible_available: "eligible_lot scope now lot \<Longrightarrow> 0 < lot_available lot"
  by (simp add: eligible_lot_def lot_available_def)

text \<open>Every outcome of a reservation, with the state it leaves.\<close>

definition eligible_sum :: "billing_scope \<Rightarrow> string \<Rightarrow> credit_lot list \<Rightarrow> int" where
  "eligible_sum scope now lots = available_sum (map (\<lambda>i. lots ! i) (eligible_lots scope now lots))"

lemma available_sum_from:
  "(\<And>lot. lot \<in> set lots \<Longrightarrow> lot_ok lot) \<Longrightarrow> 0 \<le> acc \<Longrightarrow> acc + granted_total lots \<le> max_safe_int \<Longrightarrow>
   foldl (\<lambda>sum lot. double_add (double_add sum (remainingQuantity lot)) (- reservedQuantity lot)) acc lots
     = acc + sum_list (map lot_available lots)"
proof (induction lots arbitrary: acc)
  case (Cons lot lots)
  have "\<forall>x \<in> set (map originalQuantity lots). 0 \<le> x" using Cons.prems(1) lot_ok_original by (simp add: less_imp_le)
  then have pos: "0 \<le> granted_total lots" unfolding granted_total_def by (intro sum_list_nonneg) auto
  have ok: "lot_ok lot" using Cons.prems(1) by simp
  then have b: "0 \<le> reservedQuantity lot" "reservedQuantity lot \<le> remainingQuantity lot" "remainingQuantity lot \<le> originalQuantity lot"
    by (auto simp: lot_ok_def)
  have total: "acc + originalQuantity lot + granted_total lots \<le> max_safe_int" using Cons.prems(3) by (simp add: granted_total_def)
  then have "double_add acc (remainingQuantity lot) = acc + remainingQuantity lot"
    using b pos Cons.prems(2) by (intro double_add_exact) linarith
  moreover have "double_add (acc + remainingQuantity lot) (- reservedQuantity lot) = acc + lot_available lot"
    unfolding lot_available_def using b pos total Cons.prems(2) by (subst double_add_exact) linarith+
  moreover have "foldl (\<lambda>sum lot. double_add (double_add sum (remainingQuantity lot)) (- reservedQuantity lot)) (acc + lot_available lot) lots
      = acc + lot_available lot + sum_list (map lot_available lots)"
    by (rule Cons.IH) (use Cons.prems b total in \<open>auto simp: lot_available_def\<close>)
  ultimately show ?case by simp
qed simp

lemma available_sum_exact:
  "(\<And>lot. lot \<in> set lots \<Longrightarrow> lot_ok lot) \<Longrightarrow> granted_total lots \<le> max_safe_int \<Longrightarrow> available_sum lots = sum_list (map lot_available lots)"
  using available_sum_from [of lots 0] by (simp add: available_sum_def)

lemma granted_total_filter:
  "(\<And>lot. lot \<in> set lots \<Longrightarrow> lot_ok lot) \<Longrightarrow> granted_total (filter P lots) \<le> granted_total lots"
proof (induction lots)
  case (Cons lot lots)
  then have "granted_total (filter P lots) \<le> granted_total lots" "0 < originalQuantity lot" using lot_ok_original by auto
  then show ?case by (simp add: granted_total_def)
qed simp

lemma eligible_sum_exact:
  assumes "\<And>lot. lot \<in> set lots \<Longrightarrow> lot_ok lot" "granted_total lots \<le> max_safe_int"
  shows "eligible_sum scope now lots = sum_list (map (\<lambda>i. lot_available (lots ! i)) (eligible_lots scope now lots))"
proof -
  let ?is = "filter (\<lambda>i. eligible_lot scope now (lots ! i)) [0..<length lots]"
  have "granted_total (map (\<lambda>i. lots ! i) (eligible_lots scope now lots)) = granted_total (filter (eligible_lot scope now) lots)"
    unfolding filter_as_indices [of "eligible_lot scope now" lots]
    by (simp add: granted_total_def eligible_lots_def sum_list_sort_key comp_def)
  also have "\<dots> \<le> max_safe_int" using granted_total_filter [OF assms(1)] assms(2) by (rule order_trans)
  finally show ?thesis
    unfolding eligible_sum_def using assms(1) by (subst available_sum_exact) (auto simp: eligible_lots_props comp_def)
qed

lemma reserve_credits_cases:
  obtains (Prior) r where "map_of (l_reservations s) (scoped_key scope (ri_reservationId input)) = Some r"
      "reserve_credits scope input s = (Inr r, s)"
  | (Invalid) "map_of (l_reservations s) (scoped_key scope (ri_reservationId input)) = None"
      "\<not> safe_int (ri_quantity input) \<or> ri_quantity input \<le> 0"
      "reserve_credits scope input s = (Inl ReservationNotPositive, s)"
  | (Insufficient) "map_of (l_reservations s) (scoped_key scope (ri_reservationId input)) = None"
      "safe_int (ri_quantity input)" "0 < ri_quantity input"
      "eligible_sum scope (ri_observedAt input) (l_lots s) < ri_quantity input"
      "reserve_credits scope input s = (Inl InsufficientCredits, s)"
  | (Granted) as lots' r t where "map_of (l_reservations s) (scoped_key scope (ri_reservationId input)) = None"
      "safe_int (ri_quantity input)" "0 < ri_quantity input"
      "ri_quantity input \<le> eligible_sum scope (ri_observedAt input) (l_lots s)"
      "reserve_loop (eligible_lots scope (ri_observedAt input) (l_lots s)) (ri_quantity input) (l_lots s) = (as, lots')"
      "reserve_credits scope input s = (Inr r, t)"
      "cr_quantity r = ri_quantity input" "cr_state r = Reserved" "cr_allocations r = as"
      "cr_scope r = scope" "cr_id r = ri_reservationId input"
      "l_lots t = lots'" "l_generatedId s \<le> l_generatedId t"
      "l_reservations t = AList.update (scoped_key scope (ri_reservationId input)) r (l_reservations s)"
proof (cases "map_of (l_reservations s) (scoped_key scope (ri_reservationId input))")
  case (Some r)
  then show ?thesis by (intro Prior) (auto simp: reserve_credits_def)
next
  case None
  show ?thesis
  proof (cases "safe_int (ri_quantity input) \<and> 0 < ri_quantity input \<and>
      ri_quantity input \<le> eligible_sum scope (ri_observedAt input) (l_lots s)")
    case False
    show ?thesis
    proof (cases "safe_int (ri_quantity input) \<and> 0 < ri_quantity input")
      case True
      with False have "eligible_sum scope (ri_observedAt input) (l_lots s) < ri_quantity input" by simp
      with True None show ?thesis
        by (intro Insufficient) (simp_all add: reserve_credits_def Let_def eligible_sum_def)
    next
      case invalid: False
      with None show ?thesis by (intro Invalid) (auto simp: reserve_credits_def Let_def)
    qed
  next
    case True
    obtain as lots' where loop: "reserve_loop (eligible_lots scope (ri_observedAt input) (l_lots s))
        (ri_quantity input) (l_lots s) = (as, lots')" by fastforce
    define body where "body = \<lparr>ui_idempotencyKey = ''reserve:'' @ ri_reservationId input,
      ui_category = ''credits.reserved'', ui_quantity = ri_quantity input, ui_unit = Credit,
      ui_observedAt = ri_observedAt input, ui_source = ''processing'', ui_referenceId = ri_referenceId input,
      ui_lotId = None, ui_linkedEventId = None\<rparr>"
    have "safe_int (ui_quantity body)" using True by (simp add: body_def)
    then obtain e s1 where e: "append_usage scope body (s\<lparr>l_lots := lots'\<rparr>) = (Inr e, s1)"
      using append_usage_safe by (metis prod.collapse)
    have s1: "l_lots s1 = lots'" "l_reservations s1 = l_reservations s" "l_generatedId s \<le> l_generatedId s1"
      using append_usage_frame [of scope body "s\<lparr>l_lots := lots'\<rparr>"]
        append_usage_gen [of "s\<lparr>l_lots := lots'\<rparr>" scope body] by (simp_all add: e)
    define r where "r = \<lparr>cr_id = ri_reservationId input, cr_scope = scope, cr_quantity = ri_quantity input,
      cr_state = Reserved, cr_allocations = as, cr_eventId = ue_id e\<rparr>"
    define t where "t = s1\<lparr>l_reservations := AList.update (scoped_key scope (ri_reservationId input)) r (l_reservations s1)\<rparr>"
    show ?thesis
      by (rule Granted [OF None _ _ _ loop, of r t])
        (use r_def t_def True None loop e s1 in \<open>auto simp: reserve_credits_def Let_def eligible_sum_def body_def not_le\<close>)
  qed
qed

lemma lot_ok_available: "lot_ok lot \<Longrightarrow> 0 \<le> lot_available lot"
  by (simp add: lot_ok_def lot_available_def)

lemma lot_ok_reserve: "lot_ok lot \<Longrightarrow> 0 \<le> q \<Longrightarrow> q \<le> lot_available lot \<Longrightarrow> lot_ok (reserve_lot q lot)"
  by (simp add: lot_ok_def lot_available_def reserve_lot_def)

lemma lot_ok_settle: "lot_ok lot \<Longrightarrow> 0 \<le> q \<Longrightarrow> q \<le> reservedQuantity lot \<Longrightarrow> lot_ok (settle_lot out q lot)"
  by (cases out) (simp_all add: lot_ok_def settle_lot_def)

text \<open>A granted reservation: the lots and the allocations it leaves.\<close>

lemma granted_spec:
  assumes "ledger_inv s" "reserve_loop (eligible_lots scope now (l_lots s)) n (l_lots s) = (as, lots')"
    and "0 < n" "n \<le> eligible_sum scope now (l_lots s)"
  shows "lots' = map (\<lambda>lot. reserve_lot (alloc_for as (cl_id lot)) lot) (l_lots s)"
    and "reserves (eligible_lots scope now (l_lots s)) n (l_lots s) as"
    and "distinct (map al_lotId as)"
    and "\<forall>a \<in> set as. 0 < al_quantity a \<and> al_lotId a \<in> cl_id ` set (l_lots s)"
    and "sum_list (map al_quantity as) \<le> n"
    and "granted_total (l_lots s) \<le> max_safe_int \<Longrightarrow> sum_list (map al_quantity as) = n"
    and "lot \<in> set (l_lots s) \<Longrightarrow> 0 \<le> alloc_for as (cl_id lot) \<and> alloc_for as (cl_id lot) \<le> lot_available lot"
proof -
  note d = ledger_inv_distinct [OF assms(1)]
  have el: "\<forall>i \<in> set (eligible_lots scope now (l_lots s)). i < length (l_lots s) \<and> 0 < lot_available (l_lots s ! i)"
    by (auto simp: eligible_lots_props intro: eligible_available)
  note spec = reserve_loop_spec [OF d eligible_lots_props(1) el assms(3,2)]
  then show "lots' = map (\<lambda>lot. reserve_lot (alloc_for as (cl_id lot)) lot) (l_lots s)" by simp
  from spec show r: "reserves (eligible_lots scope now (l_lots s)) n (l_lots s) as" by simp
  note bound = reserves_alloc_bound [OF d eligible_lots_props(1) el r]
  show "distinct (map al_lotId as)" by (rule bound(1))
  show q: "\<forall>a \<in> set as. 0 < al_quantity a \<and> al_lotId a \<in> cl_id ` set (l_lots s)" by (rule bound(2))
  show "sum_list (map al_quantity as) \<le> n" using r by (simp add: reserves_def)
  show "sum_list (map al_quantity as) = n" if "granted_total (l_lots s) \<le> max_safe_int"
    using r assms(4) ledger_inv_lot [OF assms(1)] that by (simp add: reserves_def eligible_sum_exact)
  show "0 \<le> alloc_for as (cl_id lot) \<and> alloc_for as (cl_id lot) \<le> lot_available lot" if "lot \<in> set (l_lots s)"
    using bound(3) [OF that] ledger_inv_lot [OF assms(1) that] q
    by (auto intro: alloc_for_nonneg lot_ok_available)
qed

lemma ledger_inv_reserve [inv_intros]:
  assumes "ledger_inv s"
  shows "ledger_inv (snd (reserve_credits scope input s))"
proof (cases rule: reserve_credits_cases [of s scope input])
  case (Granted as lots' r t)
  note g = granted_spec [OF assms Granted(5,3,4)]
  have "ledger_inv t"
  proof (rule ledger_inv_change [OF assms _ Granted(14,13)])
    show "l_lots t = map (\<lambda>lot. reserve_lot (alloc_for as (cl_id lot)) lot) (l_lots s)"
      by (simp only: Granted(12) g(1))
    show "reservation_ok (l_lots s) r"
      using g(3-6) Granted(2,3) by (simp add: reservation_ok_def Granted(7,9) safe_int_def)
  next
    fix lot
    assume "lot \<in> set (l_lots s)" "lot_ok lot"
    with g(7) [of lot] show "cl_id (reserve_lot (alloc_for as (cl_id lot)) lot) = cl_id lot \<and>
        lot_ok (reserve_lot (alloc_for as (cl_id lot)) lot) \<and>
        originalQuantity (reserve_lot (alloc_for as (cl_id lot)) lot) = originalQuantity lot \<and>
        reservedQuantity (reserve_lot (alloc_for as (cl_id lot)) lot) = reservedQuantity lot + held_by (cl_id lot) r
          - (case map_of (l_reservations s) (scoped_key scope (ri_reservationId input)) of
               None \<Rightarrow> 0 | Some r0 \<Rightarrow> held_by (cl_id lot) r0)"
      by (simp add: held_by_def Granted(1,8,9) lot_ok_reserve)
  qed
  with Granted(6) show ?thesis by simp
qed (use assms in simp_all)

text \<open>Every outcome of a settlement.\<close>

lemma finalize_cases [consumes 1, case_names Unknown Settled Open]:
  assumes "ledger_inv s"
  obtains (Unknown) "map_of (l_reservations s) (scoped_key scope rid) = None"
      "finalize_reservation scope rid out at s = (Inl UnknownReservation, s)"
  | (Settled) r where "map_of (l_reservations s) (scoped_key scope rid) = Some r" "cr_state r \<noteq> Reserved"
      "finalize_reservation scope rid out at s = (Inr r, s)"
  | (Open) r r' t where "map_of (l_reservations s) (scoped_key scope rid) = Some r" "cr_state r = Reserved"
      "finalize_reservation scope rid out at s = (Inr r', t)"
      "r' = r\<lparr>cr_state := (case out of Commit \<Rightarrow> Committed | Release \<Rightarrow> Released)\<rparr>"
      "l_lots t = map (\<lambda>lot. settle_lot out (alloc_for (cr_allocations r) (cl_id lot)) lot) (l_lots s)"
      "l_reservations t = AList.update (scoped_key scope rid) r' (l_reservations s)"
      "l_generatedId s \<le> l_generatedId t"
proof (cases "map_of (l_reservations s) (scoped_key scope rid)")
  case None
  then show ?thesis by (intro Unknown) (simp_all add: finalize_reservation_def)
next
  case (Some r)
  show ?thesis
  proof (cases "cr_state r = Reserved")
    case False
    with Some show ?thesis by (intro Settled) (simp_all add: finalize_reservation_def)
  next
    case True
    note ok = ledger_inv_reservation [OF assms Some]
    define lots' where "lots' = map (\<lambda>lot. settle_lot out (alloc_for (cr_allocations r) (cl_id lot)) lot) (l_lots s)"
    have loop: "settle_loop out (cr_allocations r) (l_lots s) = (Inr (), lots')"
      unfolding lots'_def by (rule settle_loop_spec [OF ledger_inv_distinct [OF assms]])
        (use ok in \<open>simp add: reservation_ok_def\<close>)
    define r' where "r' = r\<lparr>cr_state := (case out of Commit \<Rightarrow> Committed | Release \<Rightarrow> Released)\<rparr>"
    define s2 where "s2 = s\<lparr>l_lots := lots', l_reservations := AList.update (scoped_key scope rid) r' (l_reservations s)\<rparr>"
    define body where "body = \<lparr>ui_idempotencyKey = outcome_key out @ '':'' @ rid,
      ui_category = (case out of Commit \<Rightarrow> ''credits.committed'' | Release \<Rightarrow> ''credits.released''),
      ui_quantity = cr_quantity r, ui_unit = Credit, ui_observedAt = at, ui_source = ''processing'',
      ui_referenceId = None, ui_lotId = None, ui_linkedEventId = Some (cr_eventId r)\<rparr>"
    have "safe_int (ui_quantity body)"
      using ok by (simp add: body_def safe_int_def reservation_ok_def max_safe_int_def)
    then obtain e t where e: "append_usage scope body s2 = (Inr e, t)"
      using append_usage_safe by (metis prod.collapse)
    have t: "l_lots t = lots'" "l_reservations t = l_reservations s2" "l_generatedId s \<le> l_generatedId t"
      using append_usage_frame [of scope body s2] append_usage_gen [of s2 scope body]
      by (simp_all add: e) (simp_all add: s2_def)
    show ?thesis
      by (rule Open [OF Some True, of r' t])
        (use Some True loop e t in \<open>simp_all add: finalize_reservation_def Let_def r'_def s2_def body_def lots'_def\<close>)
  qed
qed

lemma ledger_inv_finalize [inv_intros]:
  assumes "ledger_inv s"
  shows "ledger_inv (snd (finalize_reservation scope rid out at s))"
  using assms
proof (cases rule: finalize_cases [of s scope rid out at])
  case (Open r r' t)
  note ok = ledger_inv_reservation [OF assms Open(1)]
  have "ledger_inv t"
  proof (rule ledger_inv_change [where f = "\<lambda>i. settle_lot out (alloc_for (cr_allocations r) i)",
        OF assms Open(5,6,7)])
    show "reservation_ok (l_lots s) r'" using ok by (simp add: Open(4) reservation_ok_def)
  next
    fix lot
    assume lot: "lot \<in> set (l_lots s)" "lot_ok lot"
    have "held_by (cl_id lot) r \<le> reservedQuantity lot"
      using held_ge [OF assms Open(1)] ledger_inv_lot [OF assms lot(1)] by simp
    moreover have "0 \<le> held_by (cl_id lot) r" using ok by (rule held_by_nonneg)
    moreover have "held_by (cl_id lot) r' = 0" by (cases out) (simp_all add: Open(4) held_by_def)
    ultimately show "cl_id (settle_lot out (alloc_for (cr_allocations r) (cl_id lot)) lot) = cl_id lot \<and>
        lot_ok (settle_lot out (alloc_for (cr_allocations r) (cl_id lot)) lot) \<and>
        originalQuantity (settle_lot out (alloc_for (cr_allocations r) (cl_id lot)) lot) = originalQuantity lot \<and>
        reservedQuantity (settle_lot out (alloc_for (cr_allocations r) (cl_id lot)) lot) =
          reservedQuantity lot + held_by (cl_id lot) r'
          - (case map_of (l_reservations s) (scoped_key scope rid) of None \<Rightarrow> 0 | Some r0 \<Rightarrow> held_by (cl_id lot) r0)"
      using lot(2) by (simp add: Open(1) held_by_def Open(2) lot_ok_settle)
  qed
  with Open(3) show ?thesis by simp
qed (use assms in simp_all)

text \<open>Expiry touches only unreserved lots, and cannot throw in a state with the invariant.\<close>

lemma expire_lot_simps [simp]:
  "cl_id (expire_lot lot) = cl_id lot" "originalQuantity (expire_lot lot) = originalQuantity lot" "reservedQuantity (expire_lot lot) = reservedQuantity lot"
  by (simp_all add: expire_lot_def)

lemma lot_ok_expire: "lot_ok lot \<Longrightarrow> reservedQuantity lot = 0 \<Longrightarrow> lot_ok (expire_lot lot)"
  by (simp add: lot_ok_def expire_lot_def)

lemma ledger_inv_expire_at:
  assumes inv: "ledger_inv s" and i: "i < length (l_lots s)" and "expirable_lot scope now (l_lots s ! i)"
  shows "ledger_inv (s\<lparr>l_lots := (l_lots s)[i := expire_lot (l_lots s ! i)]\<rparr>)"
proof -
  let ?lots = "(l_lots s)[i := expire_lot (l_lots s ! i)]"
  have ids: "map cl_id ?lots = map cl_id (l_lots s)"
    by (metis expire_lot_simps(1) i list_update_id map_update nth_map)
  then have idset: "cl_id ` set ?lots = cl_id ` set (l_lots s)" by (metis list.set_map)
  have "map originalQuantity ?lots = map originalQuantity (l_lots s)"
    by (metis expire_lot_simps(2) i list_update_id map_update nth_map)
  then have total: "granted_total ?lots = granted_total (l_lots s)" by (simp add: granted_total_def)
  have lot: "l_lots s ! i \<in> set (l_lots s)" using i by simp
  have held: "held (s\<lparr>l_lots := ?lots\<rparr>) = held s" by (simp add: held_def fun_eq_iff)
  have P: "lot_ok y \<and> reservedQuantity y = held s (cl_id y) \<and> (\<exists>k \<le> l_generatedId s. cl_id y = ledger_id k)"
    if "y \<in> set (l_lots s)" for y using inv that by (simp add: ledger_inv_def)
  have "lot_ok (expire_lot (l_lots s ! i))"
    using P [OF lot] assms(3) by (auto simp: expirable_lot_def intro: lot_ok_expire)
  with P [OF lot] have Q: "lot_ok x \<and> reservedQuantity x = held s (cl_id x) \<and> (\<exists>k \<le> l_generatedId s. cl_id x = ledger_id k)"
    if "x = expire_lot (l_lots s ! i)" for x using that by simp
  have "x = expire_lot (l_lots s ! i) \<or> x \<in> set (l_lots s)" if "x \<in> set ?lots" for x
    using that set_update_subset_insert by fastforce
  then have "\<forall>x \<in> set ?lots. lot_ok x \<and> reservedQuantity x = held s (cl_id x) \<and>
      (\<exists>k \<le> l_generatedId s. cl_id x = ledger_id k)" using P Q by metis
  moreover have "\<forall>e \<in> set (l_reservations s). reservation_ok ?lots (snd e)"
    using inv by (simp add: ledger_inv_def reservation_ok_def idset total)
  ultimately show ?thesis
    using inv ids by (simp add: ledger_inv_def held)
qed

lemma expire_loop_spec:
  assumes "ledger_inv s" "distinct is" "\<forall>i \<in> set is. i < length (l_lots s) \<and> expirable_lot scope now (l_lots s ! i)"
    and "expire_loop scope now is n s = (r, t)"
  shows "ledger_inv t \<and> r = Inr (foldl (\<lambda>sum i. double_add sum (remainingQuantity (l_lots s ! i))) n is) \<and>
    l_reservations t = l_reservations s \<and> length (l_lots t) = length (l_lots s) \<and>
    (\<forall>j < length (l_lots s). l_lots t ! j = (if j \<in> set is then expire_lot (l_lots s ! j) else l_lots s ! j))"
  using assms
proof (induction "is" arbitrary: n s)
  case Nil
  then show ?case by simp
next
  case (Cons i "is")
  define u where "u = s\<lparr>l_lots := (l_lots s)[i := expire_lot (l_lots s ! i)]\<rparr>"
  define body where "body = \<lparr>ui_idempotencyKey = ''expire:'' @ cl_id (l_lots s ! i), ui_category = ''credits.expired'',
     ui_quantity = remainingQuantity (l_lots s ! i), ui_unit = Credit, ui_observedAt = now, ui_source = ''expiry'',
     ui_referenceId = None, ui_lotId = Some (cl_id (l_lots s ! i)), ui_linkedEventId = None\<rparr>"
  have i: "i < length (l_lots s)" "expirable_lot scope now (l_lots s ! i)" "i \<notin> set is"
    using Cons.prems(2,3) by auto
  have ok: "lot_ok (l_lots s ! i)" using ledger_inv_lot [OF Cons.prems(1)] i(1) by simp
  then have "safe_int (ui_quantity body)"
    by (simp add: body_def safe_int_def lot_ok_def max_safe_int_def)
  then obtain e s1 where e: "append_usage scope body u = (Inr e, s1)"
    using append_usage_safe by (metis prod.collapse)
  have s1: "l_lots s1 = l_lots u" "l_reservations s1 = l_reservations u"
    using append_usage_frame [of scope body u] by (simp_all add: e)
  have "ledger_inv u" unfolding u_def by (rule ledger_inv_expire_at [OF Cons.prems(1) i(1,2)])
  then have inv1: "ledger_inv s1" using ledger_inv_append [of u scope body] by (simp add: e)
  have nth: "l_lots s1 ! j = l_lots s ! j" if "j \<noteq> i" for j
    using that by (simp add: s1 u_def)
  have len: "length (l_lots s1) = length (l_lots s)" by (simp add: s1 u_def)
  have run: "expire_loop scope now is (double_add n (remainingQuantity (l_lots s ! i))) s1 = (r, t)"
    using Cons.prems(4) e by (simp add: u_def body_def Let_def)
  have pre: "\<forall>j \<in> set is. j < length (l_lots s1) \<and> expirable_lot scope now (l_lots s1 ! j)"
    using Cons.prems(3) i(3) nth len by (metis list.set_intros(2))
  have d: "distinct is" using Cons.prems(2) by simp
  have same: "foldl (\<lambda>sum j. double_add sum (remainingQuantity (l_lots s1 ! j))) m is =
      foldl (\<lambda>sum j. double_add sum (remainingQuantity (l_lots s ! j))) m is" for m
    by (rule foldl_cong [OF refl refl]) (metis i(3) nth)
  show ?case
    using Cons.IH [OF inv1 d pre run] i unfolding same
    by (auto simp: s1 u_def nth_list_update)
qed

lemma expire_credits_spec:
  assumes "ledger_inv s"
  shows "fst (expire_credits scope now s) =
      Inr (double_sum remainingQuantity (filter (expirable_lot scope now) (l_lots s)))"
    and "l_lots (snd (expire_credits scope now s)) =
      map (\<lambda>lot. if expirable_lot scope now lot then expire_lot lot else lot) (l_lots s)"
    and "l_reservations (snd (expire_credits scope now s)) = l_reservations s"
    and "ledger_inv (snd (expire_credits scope now s))"
proof -
  let ?is = "filter (\<lambda>i. expirable_lot scope now (l_lots s ! i)) [0..<length (l_lots s)]"
  obtain r t where rt: "expire_loop scope now ?is 0 s = (r, t)" by fastforce
  have pre: "\<forall>i \<in> set ?is. i < length (l_lots s) \<and> expirable_lot scope now (l_lots s ! i)" by simp
  have spec: "ledger_inv t" "r = Inr (foldl (\<lambda>sum i. double_add sum (remainingQuantity (l_lots s ! i))) 0 ?is)"
    "l_reservations t = l_reservations s" "length (l_lots t) = length (l_lots s)"
    "\<forall>j < length (l_lots s). l_lots t ! j = (if j \<in> set ?is then expire_lot (l_lots s ! j) else l_lots s ! j)"
    using expire_loop_spec [OF assms distinct_filter [OF distinct_upt] pre rt] by blast+
  have ec: "expire_credits scope now s = (r, t)" unfolding expire_credits_def by (rule rt)
  have "double_sum remainingQuantity (filter (expirable_lot scope now) (l_lots s)) =
      foldl (\<lambda>sum i. double_add sum (remainingQuantity (l_lots s ! i))) 0 ?is"
    unfolding filter_as_indices [of "expirable_lot scope now" "l_lots s"] double_sum_def by (simp add: foldl_map)
  then show "fst (expire_credits scope now s) =
      Inr (double_sum remainingQuantity (filter (expirable_lot scope now) (l_lots s)))"
    unfolding ec spec(2) by simp
  show "l_lots (snd (expire_credits scope now s)) =
      map (\<lambda>lot. if expirable_lot scope now lot then expire_lot lot else lot) (l_lots s)"
    using spec(4,5) by (intro nth_equalityI) (simp_all add: ec)
  show "l_reservations (snd (expire_credits scope now s)) = l_reservations s"
    "ledger_inv (snd (expire_credits scope now s))"
    using spec(1,3) by (simp_all add: ec)
qed

subsection \<open>Every sequence of calls\<close>

datatype ledger_call =
    AppendUsage billing_scope usage_input
  | GrantCredits billing_scope grant_input
  | ReserveCredits billing_scope reserve_input
  | FinalizeReservation billing_scope string outcome string
  | ExpireCredits billing_scope string

fun ledger_step :: "ledger_call \<Rightarrow> ledger \<Rightarrow> ledger" where
  "ledger_step (AppendUsage scope input) s = snd (append_usage scope input s)"
| "ledger_step (GrantCredits scope input) s = snd (grant_credits scope input s)"
| "ledger_step (ReserveCredits scope input) s = snd (reserve_credits scope input s)"
| "ledger_step (FinalizeReservation scope rid out at) s = snd (finalize_reservation scope rid out at s)"
| "ledger_step (ExpireCredits scope now) s = snd (expire_credits scope now s)"

inductive reachable_ledger :: "ledger \<Rightarrow> bool" where
  start: "reachable_ledger initial_ledger"
| call: "reachable_ledger s \<Longrightarrow> reachable_ledger (ledger_step c s)"

lemma ledger_step_inv [inv_intros]: "ledger_inv s \<Longrightarrow> ledger_inv (ledger_step c s)"
  by (cases c) (auto intro: inv_intros expire_credits_spec(4))

lemma reachable_ledger_inv: "reachable_ledger s \<Longrightarrow> ledger_inv s"
  by (induction rule: reachable_ledger.induct) (auto intro: inv_intros)

subsection \<open>Balances\<close>

definition available_in :: "billing_scope \<Rightarrow> string \<Rightarrow> credit_lot list \<Rightarrow> int" where
  "available_in scope now lots = sum_list (map lot_available (filter (live_lot scope now) lots))"

text \<open>As long as everything granted is a safe integer, the totals of a balance are exact.\<close>

lemma exact_balance:
  assumes "ledger_inv s" "granted_total (l_lots s) \<le> max_safe_int"
  shows "availableCredits (ledger_balance scope now s) = available_in scope now (l_lots s)"
    and "reservedCredits (ledger_balance scope now s) = sum_list (map reservedQuantity (filter (live_lot scope now) (l_lots s)))"
proof -
  let ?L = "filter (live_lot scope now) (l_lots s)"
  have ok: "\<And>lot. lot \<in> set (l_lots s) \<Longrightarrow> lot_ok lot" using ledger_inv_lot [OF assms(1)] by blast
  have total: "granted_total ?L \<le> max_safe_int" using granted_total_filter [OF ok] assms(2) by (rule order_trans)
  then show "availableCredits (ledger_balance scope now s) = available_in scope now (l_lots s)"
    using ok by (simp add: ledger_balance_def available_in_def Let_def) (intro available_sum_exact, auto)
  have "sum_list (map reservedQuantity ?L) \<le> granted_total ?L"
    unfolding granted_total_def by (rule sum_list_mono) (use ok in \<open>force simp: lot_ok_def\<close>)
  then show "reservedCredits (ledger_balance scope now s) = sum_list (map reservedQuantity ?L)"
    using ok total by (simp add: ledger_balance_def Let_def) (subst double_sum_exact, auto simp: lot_ok_def)
qed

lemma live_lot_reserve [simp]: "live_lot scope now (reserve_lot q lot) = live_lot scope now lot"
  by (simp add: live_lot_def)

lemma sum_list_filter_zero:
  "\<forall>x \<in> set xs. P x \<and> \<not> Q x \<longrightarrow> f x = 0 \<Longrightarrow> (\<And>x. Q x \<Longrightarrow> P x) \<Longrightarrow>
   sum_list (map f (filter P xs)) = (sum_list (map f (filter Q xs)) :: int)"
  by (induction xs) auto

lemma eligible_sum_available:
  assumes "\<forall>lot \<in> set lots. lot_ok lot" "granted_total lots \<le> max_safe_int"
  shows "eligible_sum scope now lots = available_in scope now lots"
proof -
  let ?is = "filter (\<lambda>i. eligible_lot scope now (lots ! i)) [0..<length lots]"
  have "eligible_sum scope now lots = sum_list (map (\<lambda>i. lot_available (lots ! i)) ?is)"
    using assms by (simp add: eligible_sum_exact) (simp add: eligible_lots_def sum_list_sort_key)
  also have "\<dots> = sum_list (map lot_available (filter (eligible_lot scope now) lots))"
    unfolding filter_as_indices [of "eligible_lot scope now" lots] by (simp add: comp_def)
  also have "\<dots> = available_in scope now lots"
    unfolding available_in_def using assms
    by (intro sum_list_filter_zero [symmetric]) (auto simp: eligible_lot_def lot_available_def lot_ok_def)
  finally show ?thesis .
qed

lemma sum_alloc_for:
  assumes "distinct (map cl_id lots)" "\<forall>a \<in> set as. al_lotId a \<in> cl_id ` set lots"
  shows "sum_list (map (\<lambda>lot. alloc_for as (cl_id lot)) lots) = sum_list (map al_quantity as)"
  using assms(2)
proof (induction as)
  case Nil
  then show ?case by simp
next
  case (Cons a as)
  have "sum_list (map (\<lambda>lot. if j = cl_id lot then q else (0::int)) lots) = q" if "j \<in> cl_id ` set lots" for j q
    using assms(1) that by (rule sum_list_indicator)
  with Cons show ?case by (simp add: sum_list_addf)
qed

lemma granted_eligible:
  assumes "reserves (eligible_lots scope now lots) n lots as" "a \<in> set as"
  shows "\<exists>lot \<in> set lots. eligible_lot scope now lot \<and> cl_id lot = al_lotId a"
proof -
  obtain k where k: "k < length as" "a = as ! k" using assms(2) by (auto simp: in_set_conv_nth)
  let ?i = "eligible_lots scope now lots ! k"
  have "?i \<in> set (eligible_lots scope now lots)" "al_lotId a = cl_id (lots ! ?i)"
    using assms(1) k by (auto simp: reserves_def)
  then show ?thesis by (metis eligible_lots_props(2) nth_mem)
qed

text \<open>What a granted reservation does to the totals of its scope.\<close>

lemma granted_balance:
  assumes "ledger_inv s" "reserves (eligible_lots scope now (l_lots s)) n (l_lots s) as"
    and "sum_list (map al_quantity as) = n"
    and "l_lots t = map (\<lambda>lot. reserve_lot (alloc_for as (cl_id lot)) lot) (l_lots s)"
  shows "available_in scope now (l_lots t) = available_in scope now (l_lots s) - n"
    and "sum_list (map reservedQuantity (filter (live_lot scope now) (l_lots t)))
      = sum_list (map reservedQuantity (filter (live_lot scope now) (l_lots s))) + n"
proof -
  let ?L = "filter (live_lot scope now) (l_lots s)"
  have fl: "filter (live_lot scope now) (l_lots t) = map (\<lambda>lot. reserve_lot (alloc_for as (cl_id lot)) lot) ?L"
    by (simp add: assms(4) filter_map comp_def)
  have "distinct (map cl_id ?L)" using ledger_inv_distinct [OF assms(1)] by (rule distinct_map_filter)
  moreover have "\<forall>a \<in> set as. al_lotId a \<in> cl_id ` set ?L"
    using granted_eligible [OF assms(2)] by (force simp: eligible_lot_def)
  ultimately have sum: "sum_list (map (\<lambda>lot. alloc_for as (cl_id lot)) ?L) = n"
    using sum_alloc_for assms(3) by metis
  show "available_in scope now (l_lots t) = available_in scope now (l_lots s) - n"
    unfolding available_in_def fl sum [symmetric] by (simp add: comp_def sum_list_subtractf)
  show "sum_list (map reservedQuantity (filter (live_lot scope now) (l_lots t)))
      = sum_list (map reservedQuantity (filter (live_lot scope now) (l_lots s))) + n"
    unfolding sum [symmetric] by (simp add: fl comp_def sum_list_addf)
qed

text \<open>Totals over all lots under a settlement.\<close>

lemma settle_totals:
  assumes "ledger_inv s" "reservation_ok (l_lots s) r"
    and "l_lots t = map (\<lambda>lot. settle_lot out (alloc_for (cr_allocations r) (cl_id lot)) lot) (l_lots s)"
  shows "sum_list (map reservedQuantity (l_lots t)) = sum_list (map reservedQuantity (l_lots s)) - sum_list (map al_quantity (cr_allocations r))"
    and "sum_list (map spentQuantity (l_lots t)) =
      sum_list (map spentQuantity (l_lots s)) + (if out = Commit then sum_list (map al_quantity (cr_allocations r)) else 0)"
    and "sum_list (map remainingQuantity (l_lots t)) =
      sum_list (map remainingQuantity (l_lots s)) - (if out = Commit then sum_list (map al_quantity (cr_allocations r)) else 0)"
proof -
  have sum: "sum_list (map (\<lambda>lot. alloc_for (cr_allocations r) (cl_id lot)) (l_lots s)) = sum_list (map al_quantity (cr_allocations r))"
    using sum_alloc_for [OF ledger_inv_distinct [OF assms(1)], of "cr_allocations r"] assms(2)
    by (simp add: reservation_ok_def)
  show "sum_list (map reservedQuantity (l_lots t)) = sum_list (map reservedQuantity (l_lots s)) - sum_list (map al_quantity (cr_allocations r))"
    unfolding assms(3) sum [symmetric] by (simp add: comp_def sum_list_subtractf)
  show "sum_list (map spentQuantity (l_lots t)) =
      sum_list (map spentQuantity (l_lots s)) + (if out = Commit then sum_list (map al_quantity (cr_allocations r)) else 0)"
    unfolding assms(3) sum [symmetric] by (cases out) (simp_all add: comp_def settle_lot_def sum_list_addf)
  show "sum_list (map remainingQuantity (l_lots t)) =
      sum_list (map remainingQuantity (l_lots s)) - (if out = Commit then sum_list (map al_quantity (cr_allocations r)) else 0)"
    unfolding assms(3) sum [symmetric] by (cases out) (simp_all add: comp_def settle_lot_def sum_list_subtractf)
qed

subsection \<open>Properties\<close>

text \<open>C1: after any sequence of calls, every lot's original quantity is split exactly into what
  remains, was spent, expired or was revoked, the reserved part never exceeds what remains, and it is
  exactly what the open reservations hold of the lot.\<close>

theorem ledger_conservation:
  "\<lbrakk>reachable_ledger s; lot \<in> set (l_lots s)\<rbrakk> \<Longrightarrow>
     originalQuantity lot = remainingQuantity lot + spentQuantity lot + expiredQuantity lot + revokedQuantity lot \<and>
     0 \<le> reservedQuantity lot \<and> reservedQuantity lot \<le> remainingQuantity lot \<and>
     originalQuantity lot \<le> max_safe_int \<and>
     reservedQuantity lot = held s (cl_id lot)"
  using ledger_inv_lot [OF reachable_ledger_inv [of s], of lot] by (simp add: lot_ok_def)

text \<open>C2: while everything granted so far adds up to a safe integer, a reservation under a new identifier with a positive safe
  quantity is granted exactly when the available balance at that time covers it; granting moves exactly that quantity from the
  available to the reserved credits, and refusing leaves the ledger as it was. (The sums of the code are double precision; beyond
  that bound they may round, see \<open>rounding_overgrants\<close> and \<open>rounding_refuses\<close>.)\<close>

theorem reserve_credits_exact:
  assumes "reachable_ledger s" "map_of (l_reservations s) (scoped_key scope (ri_reservationId input)) = None"
    and "0 < ri_quantity input" "safe_int (ri_quantity input)" "granted_total (l_lots s) \<le> max_safe_int"
  shows "if ri_quantity input \<le> availableCredits (ledger_balance scope (ri_observedAt input) s)
    then \<exists>r t. reserve_credits scope input s = (Inr r, t) \<and> cr_quantity r = ri_quantity input \<and>
      sum_list (map al_quantity (cr_allocations r)) = ri_quantity input \<and>
      availableCredits (ledger_balance scope (ri_observedAt input) t) =
        availableCredits (ledger_balance scope (ri_observedAt input) s) - ri_quantity input \<and>
      reservedCredits (ledger_balance scope (ri_observedAt input) t) =
        reservedCredits (ledger_balance scope (ri_observedAt input) s) + ri_quantity input
    else reserve_credits scope input s = (Inl InsufficientCredits, s)"
proof -
  note inv = reachable_ledger_inv [OF assms(1)]
  have av: "eligible_sum scope now (l_lots s) = available_in scope now (l_lots s)" for now
    using ledger_inv_lot [OF inv] assms(5) by (intro eligible_sum_available) auto
  show ?thesis
  proof (cases rule: reserve_credits_cases [of s scope input])
    case (Granted as lots' r t)
    note g = granted_spec [OF inv Granted(5,3,4)]
    have t: "l_lots t = map (\<lambda>lot. reserve_lot (alloc_for as (cl_id lot)) lot) (l_lots s)"
      by (simp only: Granted(12) g(1))
    then have "granted_total (l_lots t) \<le> max_safe_int" using assms(5) by (simp add: granted_total_def comp_def)
    moreover have "ledger_inv t" using ledger_inv_reserve [OF inv, of scope input] Granted(6) by simp
    ultimately show ?thesis
      using granted_balance [OF inv g(2) g(6) [OF assms(5)] t] g(6) [OF assms(5)] Granted exact_balance [OF inv assms(5)]
      by (simp add: av exact_balance)
  qed (use assms in \<open>simp_all add: av exact_balance [OF inv assms(5)]\<close>)
qed

text \<open>C4: credits are taken earliest expiry first: when a new reservation takes anything from a lot,
  every eligible lot of the scope that expires strictly earlier is left with nothing available.\<close>

theorem reserve_earliest_expiry_first:
  assumes "reachable_ledger s" "map_of (l_reservations s) (scoped_key scope (ri_reservationId input)) = None"
    and "reserve_credits scope input s = (Inr r, t)"
    and "a \<in> set (cr_allocations r)" "lot \<in> set (l_lots s)" "cl_id lot = al_lotId a"
    and "early \<in> set (l_lots s)" "eligible_lot scope (ri_observedAt input) early" "expiresAt early < expiresAt lot"
  shows "\<exists>early' \<in> set (l_lots t). cl_id early' = cl_id early \<and> lot_available early' = 0"
proof (cases rule: reserve_credits_cases [of s scope input])
  case (Granted as lots' r' t')
  note inv = reachable_ledger_inv [OF assms(1)]
  note g = granted_spec [OF inv Granted(5,3,4)]
  let ?el = "eligible_lots scope (ri_observedAt input) (l_lots s)"
  have rt: "r' = r" "t' = t" "as = cr_allocations r" using Granted(6,9) assms(3) by auto
  obtain k where k: "k < length as" "a = as ! k" using assms(4) rt by (auto simp: in_set_conv_nth)
  have len: "length as \<le> length ?el" using g(2) by (simp add: reserves_def)
  have "l_lots s ! (?el ! k) \<in> set (l_lots s)"
    using eligible_lots_props(2) k(1) len by (metis nth_mem order_less_le_trans)
  moreover have "cl_id (l_lots s ! (?el ! k)) = al_lotId a" using g(2) k by (simp add: reserves_def)
  ultimately have lot: "l_lots s ! (?el ! k) = lot"
    using assms(5,6) ledger_inv_distinct [OF inv] by (intro distinct_map_inj [of cl_id "l_lots s"]) auto
  obtain i where i: "i < length (l_lots s)" "early = l_lots s ! i" using assms(7) by (auto simp: in_set_conv_nth)
  then have "i \<in> set ?el" using assms(8) by (simp add: eligible_lots_props)
  then obtain j where j: "j < length ?el" "i = ?el ! j" by (auto simp: in_set_conv_nth)
  have "sorted (map (eligible_order (l_lots s)) ?el)" by (simp add: eligible_lots_def)
  then have "j < k"
    using sorted_nth_mono [of "map (eligible_order (l_lots s)) ?el" k j] j k len assms(9) i lot
    by (cases "j < k") (auto simp: eligible_order_def)
  then have "al_quantity (as ! j) = lot_available early" "al_lotId (as ! j) = cl_id early" "as ! j \<in> set as"
    using g(2) k j i by (auto simp: reserves_def)
  then have "alloc_for as (cl_id early) = lot_available early"
    using alloc_for_distinct [OF g(3)] by metis
  then have "lot_available (reserve_lot (alloc_for as (cl_id early)) early) = 0" by simp
  moreover have "reserve_lot (alloc_for as (cl_id early)) early \<in> set (l_lots t)"
    using assms(7) Granted(12) g(1) rt by auto
  ultimately show ?thesis by (intro bexI conjI) (rule reserve_lot_simps(1))
qed (use assms in auto)

text \<open>C5: reservations and settlements are idempotent: once a reservation exists, repeating the call with
  any input under the same identifier returns it and changes nothing, and once it is settled neither
  outcome can settle it again.\<close>

theorem reserve_finalize_idempotent:
  assumes "reachable_ledger s"
  shows "(reserve_credits scope input s = (Inr r, t) \<longrightarrow>
      (\<forall>input'. ri_reservationId input' = ri_reservationId input \<longrightarrow> reserve_credits scope input' t = (Inr r, t))) \<and>
    (finalize_reservation scope rid out at s = (Inr r, t) \<longrightarrow>
      (\<forall>out' at'. finalize_reservation scope rid out' at' t = (Inr r, t)))"
proof (intro conjI impI allI)
  fix input' :: reserve_input
  assume res: "reserve_credits scope input s = (Inr r, t)" "ri_reservationId input' = ri_reservationId input"
  have "map_of (l_reservations t) (scoped_key scope (ri_reservationId input)) = Some r"
    by (cases rule: reserve_credits_cases [of s scope input]) (use res in \<open>auto simp: update_conv'\<close>)
  with res(2) show "reserve_credits scope input' t = (Inr r, t)" by (simp add: reserve_credits_def)
next
  fix out' at'
  assume fin: "finalize_reservation scope rid out at s = (Inr r, t)"
  from reachable_ledger_inv [OF assms]
  have "map_of (l_reservations t) (scoped_key scope rid) = Some r \<and> cr_state r \<noteq> Reserved"
  proof (cases rule: finalize_cases [of s scope rid out at])
    case (Open r0 r' t')
    with fin show ?thesis by (cases out) (auto simp: update_conv')
  qed (use fin in auto)
  then show "finalize_reservation scope rid out' at' t = (Inr r, t)" by (simp add: finalize_reservation_def)
qed

text \<open>C3: settling an open reservation gives back exactly what it holds; committing spends exactly that out of what remains,
  releasing spends nothing. What it holds is never more than the reserved quantity, and is the reserved quantity while everything
  granted adds up to a safe integer.\<close>

theorem finalize_settles_exactly:
  assumes "reachable_ledger s" "map_of (l_reservations s) (scoped_key scope rid) = Some r" "cr_state r = Reserved"
  shows "\<exists>t n. finalize_reservation scope rid out at s =
      (Inr (r\<lparr>cr_state := (case out of Commit \<Rightarrow> Committed | Release \<Rightarrow> Released)\<rparr>), t) \<and>
    n = sum_list (map al_quantity (cr_allocations r)) \<and> n \<le> cr_quantity r \<and>
    (granted_total (l_lots s) \<le> max_safe_int \<longrightarrow> n = cr_quantity r) \<and>
    sum_list (map reservedQuantity (l_lots t)) = sum_list (map reservedQuantity (l_lots s)) - n \<and>
    sum_list (map spentQuantity (l_lots t)) = sum_list (map spentQuantity (l_lots s)) + (if out = Commit then n else 0) \<and>
    sum_list (map remainingQuantity (l_lots t)) =
      sum_list (map remainingQuantity (l_lots s)) - (if out = Commit then n else 0)"
proof -
  note inv = reachable_ledger_inv [OF assms(1)]
  note ok = ledger_inv_reservation [OF inv assms(2)]
  show ?thesis
    using inv
  proof (cases rule: finalize_cases [of s scope rid out at])
    case (Open r0 r' t)
    then have "r0 = r" using assms(2) by simp
    with settle_totals [OF inv ok, of t out] Open(3-5) ok show ?thesis by (simp add: reservation_ok_def)
  qed (use assms in auto)
qed

text \<open>C6: a usage event recorded under a key that a grant uses later takes the grant's place in the
  idempotency map, so the grant is not idempotent: calling it twice creates two lots.\<close>

theorem grant_repeated_after_usage:
  assumes "safe_int (gi_quantity input)" "0 < gi_quantity input" "gi_grantedAt input < gi_expiresAt input"
    and "\<exists>prior. l_idempotency s (scoped_key scope (gi_idempotencyKey input)) = Some prior \<and>
      \<not> truthy_opt (ui_lotId (ue_body prior))"
  shows "length (l_lots (snd (grant_credits scope input (snd (grant_credits scope input s))))) =
    length (l_lots s) + 2"
proof -
  obtain prior where prior: "l_idempotency s (scoped_key scope (gi_idempotencyKey input)) = Some prior"
    "\<not> truthy_opt (ui_lotId (ue_body prior))" using assms(4) by blast
  have once: "length (l_lots (snd (grant_credits scope input u))) = Suc (length (l_lots u)) \<and>
      l_idempotency (snd (grant_credits scope input u)) = l_idempotency u"
    if "l_idempotency u (scoped_key scope (gi_idempotencyKey input)) = Some prior" for u
    using assms(1,2,3) prior(2) that
    by (simp add: grant_credits_def prior_lot_def create_id_def append_usage_def Let_def)
  show ?thesis using once [OF prior(1)] once [of "snd (grant_credits scope input s)"] prior(1) by simp
qed

subsection \<open>A concrete ledger\<close>

definition sample_scope :: billing_scope where
  "sample_scope = \<lparr>instanceId = ''i'', accountId = ''a''\<rparr>"

definition sample_grant :: "string \<Rightarrow> int \<Rightarrow> string \<Rightarrow> grant_input" where
  "sample_grant k n e = \<lparr>gi_quantity = n, gi_source = ''plan'', gi_grantedAt = ''2026-01-01'', gi_expiresAt = e,
     gi_idempotencyKey = k, gi_documentId = None\<rparr>"

definition sample_reserve :: "string \<Rightarrow> int \<Rightarrow> reserve_input" where
  "sample_reserve k n = \<lparr>ri_reservationId = k, ri_quantity = n, ri_observedAt = ''2026-02-01'', ri_referenceId = None\<rparr>"

definition sample_ledger :: ledger where
  "sample_ledger = ledger_step (GrantCredits sample_scope (sample_grant ''g2'' 5 ''2026-06-01''))
     (ledger_step (GrantCredits sample_scope (sample_grant ''g1'' 10 ''2026-09-01'')) initial_ledger)"

definition sample_reserved :: ledger where
  "sample_reserved = ledger_step (ReserveCredits sample_scope (sample_reserve ''r'' 7)) sample_ledger"

lemma reachable_samples: "reachable_ledger sample_ledger" "reachable_ledger sample_reserved"
  unfolding sample_reserved_def sample_ledger_def by (intro reachable_ledger.intros)+

definition sample_result :: credit_reservation where
  "sample_result = projr (fst (reserve_credits sample_scope (sample_reserve ''r'' 7) sample_ledger))"

lemma sample_reserve_eq:
  "reserve_credits sample_scope (sample_reserve ''r'' 7) sample_ledger = (Inr sample_result, sample_reserved)"
proof -
  have "isl (fst (reserve_credits sample_scope (sample_reserve ''r'' 7) sample_ledger)) = False" by code_simp
  then show ?thesis
    by (simp add: sample_result_def sample_reserved_def prod_eq_iff)
qed

lemma sample_facts:
  "map_of (l_reservations sample_ledger) (scoped_key sample_scope ''r'') = None"
  "map_of (l_reservations sample_reserved) (scoped_key sample_scope ''r'') = Some sample_result"
  "cr_state sample_result = Reserved" "cr_quantity sample_result = 7"
  "l_lots sample_reserved ! 0 \<in> set (l_lots sample_reserved)"
  "l_lots sample_ledger ! 0 \<in> set (l_lots sample_ledger)" "l_lots sample_ledger ! 1 \<in> set (l_lots sample_ledger)"
  "availableCredits (ledger_balance sample_scope ''2026-02-01'' sample_ledger) = 15"
  "eligible_lot sample_scope ''2026-02-01'' (l_lots sample_ledger ! 1)"
  "expiresAt (l_lots sample_ledger ! 1) < expiresAt (l_lots sample_ledger ! 0)"
  "cr_allocations sample_result ! 1 \<in> set (cr_allocations sample_result)"
  "cl_id (l_lots sample_ledger ! 0) = al_lotId (cr_allocations sample_result ! 1)"
  "cl_id (l_lots sample_ledger ! 1) = ''ledger-3''"
  "sum_list (map reservedQuantity (l_lots sample_reserved)) = 7"
  "sum_list (map remainingQuantity (l_lots sample_reserved)) = 15"
  "granted_total (l_lots sample_ledger) = 15" "granted_total (l_lots sample_reserved) = 15"
  by code_simp+

lemma ledger_conservation_witness:
  "originalQuantity (l_lots sample_reserved ! 0) = remainingQuantity (l_lots sample_reserved ! 0) +
     spentQuantity (l_lots sample_reserved ! 0) + expiredQuantity (l_lots sample_reserved ! 0) +
     revokedQuantity (l_lots sample_reserved ! 0)"
  using ledger_conservation [OF reachable_samples(2) sample_facts(5)] by simp

lemma reserve_credits_exact_witness:
  "\<exists>r t. reserve_credits sample_scope (sample_reserve ''r'' 7) sample_ledger = (Inr r, t) \<and>
     availableCredits (ledger_balance sample_scope ''2026-02-01'' t) = 8"
proof -
  have *: "map_of (l_reservations sample_ledger)
      (scoped_key sample_scope (ri_reservationId (sample_reserve ''r'' 7))) = None"
    using sample_facts(1) by (simp add: sample_reserve_def)
  show ?thesis
    using reserve_credits_exact [OF reachable_samples(1) *] sample_facts(8,16)
    by (auto simp: sample_reserve_def safe_int_def max_safe_int_def)
qed

lemma reserve_earliest_expiry_first_witness:
  "\<exists>early \<in> set (l_lots sample_reserved). cl_id early = ''ledger-3'' \<and> lot_available early = 0"
proof -
  have *: "map_of (l_reservations sample_ledger)
      (scoped_key sample_scope (ri_reservationId (sample_reserve ''r'' 7))) = None"
    using sample_facts(1) by (simp add: sample_reserve_def)
  have **: "eligible_lot sample_scope (ri_observedAt (sample_reserve ''r'' 7)) (l_lots sample_ledger ! 1)"
    using sample_facts(9) by (simp add: sample_reserve_def)
  show ?thesis
    using reserve_earliest_expiry_first [OF reachable_samples(1) * sample_reserve_eq sample_facts(11,6,12,7) ** sample_facts(10)]
    unfolding sample_facts(13) .
qed

lemma reserve_finalize_idempotent_witness:
  "reserve_credits sample_scope (sample_reserve ''r'' 99) sample_reserved = (Inr sample_result, sample_reserved)"
  using reserve_finalize_idempotent [OF reachable_samples(1), of sample_scope "sample_reserve ''r'' 7"
      sample_result sample_reserved] sample_reserve_eq
  by (simp add: sample_reserve_def)

lemma finalize_settles_exactly_witness:
  "\<exists>r t. finalize_reservation sample_scope ''r'' Commit ''2026-02-02'' sample_reserved = (Inr r, t) \<and>
     sum_list (map reservedQuantity (l_lots t)) = 0 \<and> sum_list (map remainingQuantity (l_lots t)) = 8"
  using finalize_settles_exactly [OF reachable_samples(2) sample_facts(2,3), of Commit "''2026-02-02''"]
    sample_facts(4,14,15,17) by (auto simp: max_safe_int_def)

lemma grant_repeated_after_usage_witness:
  "length (l_lots (snd (grant_credits sample_scope (sample_grant ''k'' 5 ''2026-06-01'')
     (snd (grant_credits sample_scope (sample_grant ''k'' 5 ''2026-06-01'')
       (snd (append_usage sample_scope \<lparr>ui_idempotencyKey = ''k'', ui_category = ''storage'', ui_quantity = 1,
          ui_unit = Byte, ui_observedAt = ''2026-01-01'', ui_source = ''meter'', ui_referenceId = None,
          ui_lotId = None, ui_linkedEventId = None\<rparr> initial_ledger))))))) = 2"
  by (subst grant_repeated_after_usage)
    (auto simp: sample_grant_def safe_int_def max_safe_int_def append_usage_def initial_ledger_def create_id_def Let_def)

subsection \<open>Where the sums round\<close>

text \<open>
  A lot of \<open>2\<^sup>5\<^sup>3 - 1\<close> credits of which one is left, after a lot that expires earlier: its remaining and then its
  reserved quantity pass through the sum.
\<close>

definition huge_ledger :: "int \<Rightarrow> ledger" where
  "huge_ledger n = ledger_step (GrantCredits sample_scope (sample_grant ''g2'' n ''2026-06-01''))
     (ledger_step (ReserveCredits sample_scope (sample_reserve ''big'' (max_safe_int - 1)))
       (ledger_step (GrantCredits sample_scope (sample_grant ''g1'' max_safe_int ''2026-09-01'')) initial_ledger))"

lemma huge_reachable: "reachable_ledger (huge_ledger n)"
  unfolding huge_ledger_def by (intro reachable_ledger.intros)

text \<open>Five credits are available, yet a reservation of six is granted; it holds five.\<close>

lemma rounding_overgrants:
  "available_in sample_scope ''2026-02-01'' (l_lots (huge_ledger 4)) = 5"
  "map_sum (\<lambda>_. ()) (\<lambda>r. (cr_quantity r, sum_list (map al_quantity (cr_allocations r))))
     (fst (reserve_credits sample_scope (sample_reserve ''r'' 6) (huge_ledger 4))) = Inr (6, 5)"
  by (code_simp)+

text \<open>The balance reports three available credits, yet a reservation of three is refused.\<close>

lemma rounding_refuses:
  "availableCredits (ledger_balance sample_scope ''2026-02-01'' (huge_ledger 2)) = 3"
  "fst (reserve_credits sample_scope (sample_reserve ''r'' 3) (huge_ledger 2)) = Inl InsufficientCredits"
  by (code_simp)+

end
