(* ===== verification/JS_Date.thy ===== *)
theory JS_Date
  imports Ubeeq_Prelude
begin

text \<open>
  The two \<open>Date\<close> operations the modelled code uses: \<open>Date.parse\<close> on the ECMAScript date-time
  interchange format, and \<open>new Date(t).toISOString()\<close>. A time value is an \<^typ>\<open>int\<close> number of
  milliseconds since the epoch; \<open>None\<close> stands for \<open>NaN\<close>, so \<open>Number.isFinite(Date.parse(s))\<close> is
  \<open>date_parse s \<noteq> None\<close>. Strings outside the interchange format (whose parsing ECMAScript leaves
  to the implementation) are \<open>NaN\<close>; a date-time without offset is read with the host in UTC.
\<close>

subsection \<open>Calendar arithmetic\<close>

definition ms_per_day :: int where
  "ms_per_day = 86400000"

text \<open>ECMAScript's \<open>DayFromYear\<close>: the day number of 1 January of a year.\<close>

definition day_from_year :: "int \<Rightarrow> int" where
  "day_from_year y = 365 * (y - 1970) + (y - 1969) div 4 - (y - 1901) div 100 + (y - 1601) div 400"

definition leap_year :: "int \<Rightarrow> bool" where
  "leap_year y \<longleftrightarrow> y mod 4 = 0 \<and> (y mod 100 \<noteq> 0 \<or> y mod 400 = 0)"

fun month_offset :: "bool \<Rightarrow> nat \<Rightarrow> int" where
  "month_offset leap m =
     [0, 0, 31, 59, 90, 120, 151, 181, 212, 243, 273, 304, 334] ! (if m \<le> 12 then m else 0)
     + (if leap \<and> m > 2 then 1 else 0)"

definition make_day :: "int \<Rightarrow> nat \<Rightarrow> nat \<Rightarrow> int" where
  "make_day y m d = day_from_year y + month_offset (leap_year y) m + int d - 1"

definition time_clip :: "int \<Rightarrow> int option" where
  "time_clip t = (if - 8640000000000000 \<le> t \<and> t \<le> 8640000000000000 then Some t else None)"

definition year_of_day :: "int \<Rightarrow> int" where
  "year_of_day d =
     (let y = 1970 + (400 * d) div 146097
      in if d < day_from_year y then y - 1 else if day_from_year (y + 1) \<le> d then y + 1 else y)"

definition month_of :: "bool \<Rightarrow> int \<Rightarrow> nat" where
  "month_of leap doy =
     (if doy < month_offset leap 2 then 1 else if doy < month_offset leap 3 then 2
      else if doy < month_offset leap 4 then 3 else if doy < month_offset leap 5 then 4
      else if doy < month_offset leap 6 then 5 else if doy < month_offset leap 7 then 6
      else if doy < month_offset leap 8 then 7 else if doy < month_offset leap 9 then 8
      else if doy < month_offset leap 10 then 9 else if doy < month_offset leap 11 then 10
      else if doy < month_offset leap 12 then 11 else 12)"

subsection \<open>Reading and printing fixed-width decimal fields\<close>

definition digit_val :: "char \<Rightarrow> nat option" where
  "digit_val c = (let n = of_char c in if 48 \<le> n \<and> n \<le> 57 then Some (n - 48) else None)"

fun read_digits :: "nat \<Rightarrow> nat \<Rightarrow> string \<Rightarrow> (nat \<times> string) option" where
  "read_digits 0 acc s = Some (acc, s)"
| "read_digits (Suc n) acc [] = None"
| "read_digits (Suc n) acc (c # s) =
     (case digit_val c of None \<Rightarrow> None | Some d \<Rightarrow> read_digits n (10 * acc + d) s)"

fun pad_digits :: "nat \<Rightarrow> nat \<Rightarrow> string" where
  "pad_digits 0 k = []"
| "pad_digits (Suc n) k = digit_char (k div 10 ^ n) # pad_digits n (k mod 10 ^ n)"

definition read_char :: "char \<Rightarrow> string \<Rightarrow> string option" where
  "read_char c s = (case s of [] \<Rightarrow> None | x # xs \<Rightarrow> if x = c then Some xs else None)"

definition read_field :: "nat \<Rightarrow> nat \<Rightarrow> nat \<Rightarrow> string \<Rightarrow> (nat \<times> string) option" where
  "read_field n lo hi s =
     (case read_digits n 0 s of None \<Rightarrow> None
      | Some (k, r) \<Rightarrow> if lo \<le> k \<and> k \<le> hi then Some (k, r) else None)"

definition read_year :: "string \<Rightarrow> (int \<times> string) option" where
  "read_year s =
     (case read_char (CHR ''+'') s of
        Some r \<Rightarrow> (case read_digits 6 0 r of None \<Rightarrow> None | Some (k, r') \<Rightarrow> Some (int k, r'))
      | None \<Rightarrow>
         (case read_char (CHR ''-'') s of
            Some r \<Rightarrow> (case read_digits 6 0 r of None \<Rightarrow> None
                        | Some (k, r') \<Rightarrow> if k = 0 then None else Some (- int k, r'))
          | None \<Rightarrow> (case read_digits 4 0 s of None \<Rightarrow> None | Some (k, r') \<Rightarrow> Some (int k, r'))))"

definition read_date :: "string \<Rightarrow> (int \<times> string) option" where
  "read_date s =
     (case read_year s of None \<Rightarrow> None
      | Some (y, r) \<Rightarrow>
         (case read_char (CHR ''-'') r of None \<Rightarrow> Some (make_day y 1 1, r)
          | Some r1 \<Rightarrow>
             (case read_field 2 1 12 r1 of None \<Rightarrow> None
              | Some (m, r2) \<Rightarrow>
                 (case read_char (CHR ''-'') r2 of None \<Rightarrow> Some (make_day y m 1, r2)
                  | Some r3 \<Rightarrow>
                     (case read_field 2 1 31 r3 of None \<Rightarrow> None
                      | Some (d, r4) \<Rightarrow> Some (make_day y m d, r4))))))"

definition hms :: "nat \<Rightarrow> nat \<Rightarrow> nat \<Rightarrow> nat \<Rightarrow> int" where
  "hms h m s l = int h * 3600000 + int m * 60000 + int s * 1000 + int l"

definition read_clock :: "string \<Rightarrow> (int \<times> string) option" where
  "read_clock s =
     (case read_field 2 0 24 s of None \<Rightarrow> None
      | Some (h, r) \<Rightarrow>
         (case Option.bind (read_char (CHR '':'') r) (read_field 2 0 59) of None \<Rightarrow> None
          | Some (m, r1) \<Rightarrow>
             (let seconds =
                (case read_char (CHR '':'') r1 of None \<Rightarrow> Some (0, 0, r1)
                 | Some r2 \<Rightarrow>
                    (case read_field 2 0 59 r2 of None \<Rightarrow> None
                     | Some (sec, r3) \<Rightarrow>
                        (case read_char (CHR ''.'') r3 of None \<Rightarrow> Some (sec, 0, r3)
                         | Some r4 \<Rightarrow>
                            (case read_field 3 0 999 r4 of None \<Rightarrow> None
                             | Some (l, r5) \<Rightarrow> Some (sec, l, r5)))))
              in case seconds of None \<Rightarrow> None
                 | Some (sec, l, r') \<Rightarrow>
                    if h = 24 \<and> (m, sec, l) \<noteq> (0, 0, 0) then None
                    else Some (hms h m sec l, r'))))"

text \<open>The offset designator in milliseconds; the whole rest of the string must be consumed.\<close>

definition read_offset :: "string \<Rightarrow> int option" where
  "read_offset s =
     (if s = [] \<or> s = ''Z'' then Some 0
      else
        (let sign = (if hd s = CHR ''+'' then Some 1 else if hd s = CHR ''-'' then Some (- 1) else None)
         in case sign of None \<Rightarrow> None
            | Some g \<Rightarrow>
               (case read_field 2 0 23 (tl s) of None \<Rightarrow> None
                | Some (h, r) \<Rightarrow>
                   (case Option.bind (read_char (CHR '':'') r) (read_field 2 0 59) of
                      Some (m, []) \<Rightarrow> Some (g * hms h m 0 0)
                    | _ \<Rightarrow> None))))"

definition date_parse :: "string \<Rightarrow> int option" where
  "date_parse s =
     (case read_date s of None \<Rightarrow> None
      | Some (day, r) \<Rightarrow>
         if r = [] then time_clip (day * ms_per_day)
         else (case Option.bind (read_char (CHR ''T'') r) read_clock of None \<Rightarrow> None
               | Some (t, r') \<Rightarrow>
                  (case read_offset r' of None \<Rightarrow> None
                   | Some off \<Rightarrow> time_clip (day * ms_per_day + t - off))))"

definition print_year :: "int \<Rightarrow> string" where
  "print_year y =
     (if 0 \<le> y \<and> y \<le> 9999 then pad_digits 4 (nat y)
      else (if y < 0 then CHR ''-'' else CHR ''+'') # pad_digits 6 (nat \<bar>y\<bar>))"

text \<open>\<open>new Date(t).toISOString()\<close>; \<open>None\<close> is its \<open>RangeError\<close> on an invalid time value.\<close>

definition to_iso :: "int \<Rightarrow> string option" where
  "to_iso t =
     (if - 8640000000000000 \<le> t \<and> t \<le> 8640000000000000 then
        (let d = t div ms_per_day; ms = t mod ms_per_day; y = year_of_day d;
             doy = d - day_from_year y; m = month_of (leap_year y) doy
         in Some (print_year y @ CHR ''-'' # pad_digits 2 m
                  @ CHR ''-'' # pad_digits 2 (nat (doy - month_offset (leap_year y) m + 1))
                  @ CHR ''T'' # pad_digits 2 (nat (ms div 3600000))
                  @ CHR '':'' # pad_digits 2 (nat (ms div 60000 mod 60))
                  @ CHR '':'' # pad_digits 2 (nat (ms div 1000 mod 60))
                  @ CHR ''.'' # pad_digits 3 (nat (ms mod 1000)) @ ''Z''))
      else None)"

subsection \<open>Field lemmas\<close>

lemma digit_val_digit_char [simp]: "d < 10 \<Longrightarrow> digit_val (digit_char d) = Some d"
  by (simp add: digit_val_def)

lemma read_digits_pad [simp]:
  "k < 10 ^ n \<Longrightarrow> read_digits n acc (pad_digits n k @ s) = Some (acc * 10 ^ n + k, s)"
proof (induction n arbitrary: acc k)
  case 0
  then show ?case by simp
next
  case (Suc n)
  have "k div 10 ^ n < 10"
    using Suc.prems by (simp add: less_mult_imp_div_less)
  moreover have "k mod 10 ^ n < 10 ^ n" by simp
  moreover have "(10 * acc + k div 10 ^ n) * 10 ^ n + k mod 10 ^ n = acc * 10 ^ Suc n + k"
    by (simp add: algebra_simps)
  ultimately show ?case using Suc.IH by simp
qed

lemma read_field_pad [simp]:
  assumes "lo \<le> k" "k \<le> hi" "hi < 10 ^ n"
  shows "read_field n lo hi (pad_digits n k @ s) = Some (k, s)"
  using assms by (simp add: read_field_def)

lemma read_char_Cons [simp]: "read_char c (x # xs) = (if x = c then Some xs else None)"
  by (simp add: read_char_def)

lemma read_char_Nil [simp]: "read_char c [] = None"
  by (simp add: read_char_def)

lemma of_char_sign: "(of_char (CHR ''+'') :: nat) = 43" "(of_char (CHR ''-'') :: nat) = 45"
  by simp_all

lemma digit_char_sign [simp]:
  assumes "d < 10"
  shows "digit_char d \<noteq> CHR ''+''" "digit_char d \<noteq> CHR ''-''"
  using of_char_digit_char [OF assms] of_char_sign by fastforce+

subsection \<open>The calendar round trip\<close>

lemma int_div_bounds: "0 < k \<Longrightarrow> k * (x div k) \<le> x \<and> x < k * (x div k) + (k :: int)"
  using mult_div_mod_eq [of k x] pos_mod_sign [of k x] pos_mod_bound [of k x] by linarith

lemma int_div_Suc:
  assumes "0 < (k :: int)"
  shows "(x + 1) div k = x div k + (if (x + 1) mod k = 0 then 1 else 0)"
proof -
  have eq: "k * ((x + 1) div k) + (x + 1) mod k = x + 1" by simp
  note rng = pos_mod_sign [OF assms, of "x + 1"] pos_mod_bound [OF assms, of "x + 1"]
  show ?thesis
  proof (cases "(x + 1) mod k = 0")
    case True
    with eq have "x = k * ((x + 1) div k - 1) + (k - 1)"
      unfolding right_diff_distrib by linarith
    then have "x div k = (x + 1) div k - 1"
      by (rule int_div_pos_eq) (use assms in simp_all)
    with True show ?thesis by simp
  next
    case False
    from eq have "x = k * ((x + 1) div k) + ((x + 1) mod k - 1)" by linarith
    then have "x div k = (x + 1) div k"
      by (rule int_div_pos_eq) (use False rng in simp_all)
    with False show ?thesis by simp
  qed
qed

lemma day_from_year_bounds:
  "400 * day_from_year y \<le> 146097 * (y - 1970) + 800"
  "146097 * (y - 1970) - 800 \<le> 400 * day_from_year y"
  using int_div_bounds [of 4 "y - 1969"] int_div_bounds [of 100 "y - 1901"]
    int_div_bounds [of 400 "y - 1601"]
  unfolding day_from_year_def by simp_all

lemma day_from_year_Suc:
  "day_from_year (y + 1) = day_from_year y + (if leap_year y then 366 else 365)"
proof -
  have m: "(y - 1969 + 1) mod 4 = y mod 4" "(y - 1901 + 1) mod 100 = y mod 100"
    "(y - 1601 + 1) mod 400 = y mod 400"
    using mod_mult_self1 [of y "- 492" 4] mod_mult_self1 [of y "- 19" 100]
      mod_mult_self1 [of y "- 4" 400] by (simp_all add: algebra_simps)
  have d: "y mod 400 = 0 \<Longrightarrow> y mod 100 = 0" "y mod 100 = 0 \<Longrightarrow> y mod 4 = 0"
    using dvd_trans [of 100 400 y] dvd_trans [of 4 100 y] by (simp_all only: dvd_eq_mod_eq_0) simp_all
  have e: "y + 1 - 1969 = y - 1969 + 1" "y + 1 - 1901 = y - 1901 + 1" "y + 1 - 1601 = y - 1601 + 1"
    by linarith+
  have q: "(y + 1 - 1969) div 4 = (y - 1969) div 4 + (if y mod 4 = 0 then 1 else 0)"
    "(y + 1 - 1901) div 100 = (y - 1901) div 100 + (if y mod 100 = 0 then 1 else 0)"
    "(y + 1 - 1601) div 400 = (y - 1601) div 400 + (if y mod 400 = 0 then 1 else 0)"
    unfolding e using int_div_Suc [of 4 "y - 1969"] int_div_Suc [of 100 "y - 1901"]
      int_div_Suc [of 400 "y - 1601"] unfolding m by (simp_all only: zero_less_numeral simp_thms)
  have arith: "365 * (y + 1 - 1970) + (u + a) - (v + b) + (w + c) =
      365 * (y - 1970) + u - v + w + 365 + a - b + c" for u v w a b c :: int
    by (simp add: algebra_simps)
  have "day_from_year (y + 1) = day_from_year y + 365 + (if y mod 4 = 0 then 1 else 0)
      - (if y mod 100 = 0 then 1 else 0) + (if y mod 400 = 0 then 1 else 0)"
    unfolding day_from_year_def q arith ..
  moreover have "X + 365 + (if A then 1 else 0) - (if B then 1 else 0) + (if C then 1 else 0) =
      X + (if A \<and> (\<not> B \<or> C) then 366 else 365)"
    if "C \<Longrightarrow> B" "B \<Longrightarrow> A" for A B C and X :: int
    using that by (cases A; cases B; cases C) simp_all
  note this [OF d]
  ultimately show ?thesis unfolding leap_year_def by (simp only:)
qed

lemma year_of_day_bounds:
  "day_from_year (year_of_day d) \<le> d \<and> d < day_from_year (year_of_day d + 1)"
proof -
  define q where "q = (400 * d) div 146097"
  have q: "146097 * q \<le> 400 * d" "400 * d < 146097 * q + 146097"
    using int_div_bounds [of 146097 "400 * d"] by (simp_all add: q_def)
  have lo: "day_from_year (1970 + q - 1) \<le> d"
    using day_from_year_bounds(1) [of "1970 + q - 1"] q by (simp add: algebra_simps)
  have hi: "d < day_from_year (1970 + q + 2)"
    using day_from_year_bounds(2) [of "1970 + q + 2"] q by (simp add: algebra_simps)
  have eq: "year_of_day d = (if d < day_from_year (1970 + q) then 1970 + q - 1
      else if day_from_year (1970 + q + 1) \<le> d then 1970 + q + 1 else 1970 + q)"
    by (simp only: year_of_day_def Let_def q_def)
  have st: "1970 + q - 1 + 1 = 1970 + q" "1970 + q + 1 + 1 = 1970 + q + 2" by simp_all
  show ?thesis
  proof (cases "d < day_from_year (1970 + q)")
    case True
    then have "year_of_day d = 1970 + q - 1" by (simp only: eq if_True)
    with lo True st show ?thesis by (simp only:)
  next
    case False
    show ?thesis
    proof (cases "day_from_year (1970 + q + 1) \<le> d")
      case True
      with False have "year_of_day d = 1970 + q + 1" by (simp only: eq if_True if_False)
      with hi True st show ?thesis by (simp only:)
    next
      case no: False
      with False have "year_of_day d = 1970 + q" by (simp only: eq if_False)
      with no False show ?thesis by (simp only:) linarith
    qed
  qed
qed

declare month_offset.simps [simp del]

lemma month_offset_values [simp]:
  "month_offset l (Suc 0) = 0" "month_offset l 2 = 31"
  "month_offset l 3 = (if l then 60 else 59)" "month_offset l 4 = (if l then 91 else 90)"
  "month_offset l 5 = (if l then 121 else 120)" "month_offset l 6 = (if l then 152 else 151)"
  "month_offset l 7 = (if l then 182 else 181)" "month_offset l 8 = (if l then 213 else 212)"
  "month_offset l 9 = (if l then 244 else 243)" "month_offset l 10 = (if l then 274 else 273)"
  "month_offset l 11 = (if l then 305 else 304)" "month_offset l 12 = (if l then 335 else 334)"
  by (simp_all add: month_offset.simps)

lemma month_of_bounds:
  assumes "0 \<le> doy" "doy < (if leap then 366 else 365)"
  shows "1 \<le> month_of leap doy \<and> month_of leap doy \<le> 12 \<and>
         month_offset leap (month_of leap doy) \<le> doy \<and> doy - month_offset leap (month_of leap doy) < 31"
  using assms unfolding month_of_def by (cases leap) auto

lemma day_of_year_range:
  "0 \<le> d - day_from_year (year_of_day d)"
  "d - day_from_year (year_of_day d) < (if leap_year (year_of_day d) then 366 else 365)"
  using year_of_day_bounds [of d] day_from_year_Suc [of "year_of_day d"] by (simp_all split: if_splits)

lemma year_of_day_range:
  assumes "\<bar>d\<bar> \<le> 100000000"
  shows "\<bar>year_of_day d\<bar> < 1000000"
proof -
  define y where "y = year_of_day d"
  have "400 * day_from_year y \<le> 40000000000" "- 40000000000 < 400 * day_from_year (y + 1)"
    using year_of_day_bounds [of d] assms by (simp_all add: y_def abs_le_iff)
  then have "146097 * (y - 1970) - 800 \<le> 40000000000" "- 40000000000 < 146097 * (y + 1 - 1970) + 800"
    using day_from_year_bounds(2) [of y] day_from_year_bounds(1) [of "y + 1"] by linarith+
  then show ?thesis unfolding y_def [symmetric] abs_less_iff by simp
qed

lemma read_year_print:
  assumes "\<bar>y\<bar> < 1000000"
  shows "read_year (print_year y @ s) = Some (y, s)"
proof -
  have "nat \<bar>y\<bar> < 10 ^ 6" using assms by simp
  then have six: "read_digits 6 0 (pad_digits 6 (nat \<bar>y\<bar>) @ s) = Some (nat \<bar>y\<bar>, s)"
    by (subst read_digits_pad) simp_all
  show ?thesis
  proof (cases "0 \<le> y \<and> y \<le> 9999")
    case True
    then have "nat y < 10 ^ 4" by (simp add: nat_less_iff)
    then have four: "read_digits 4 0 (pad_digits 4 (nat y) @ s) = Some (nat y, s)"
      by (subst read_digits_pad) simp_all
    obtain d r where d: "pad_digits 4 (nat y) = digit_char d # r" "d < 10"
    proof
      show "pad_digits 4 (nat y) = digit_char (nat y div 10 ^ 3) # pad_digits 3 (nat y mod 10 ^ 3)"
        using pad_digits.simps(2) [of 3 "nat y"] by (simp only: Suc_numeral semiring_norm)
      show "nat y div 10 ^ 3 < 10" using \<open>nat y < 10 ^ 4\<close> by (simp add: less_mult_imp_div_less)
    qed
    with True four show ?thesis by (simp add: print_year_def read_year_def)
  next
    case False
    with six show ?thesis by (auto simp: print_year_def read_year_def)
  qed
qed

text \<open>The time fields of a day.\<close>

lemma clock_fields:
  assumes "ms < 86400000"
  shows "ms div 3600000 < 24" "ms div 60000 mod 60 < 60" "ms div 1000 mod 60 < 60" "ms mod 1000 < 1000"
    and "hms (ms div 3600000) (ms div 60000 mod 60) (ms div 1000 mod 60) (ms mod 1000) = int ms"
proof -
  have h: "ms div 3600000 = ms div 60000 div 60" "ms div 60000 = ms div 1000 div 60"
    by (simp_all add: div_mult2_eq [symmetric])
  have "ms = 1000 * (ms div 1000) + ms mod 1000" by simp
  moreover have "ms div 1000 = 60 * (ms div 60000) + ms div 1000 mod 60" unfolding h(2) by simp
  moreover have "ms div 60000 = 60 * (ms div 3600000) + ms div 60000 mod 60" unfolding h(1) by simp
  ultimately have "ms = 3600000 * (ms div 3600000) + 60000 * (ms div 60000 mod 60)
      + 1000 * (ms div 1000 mod 60) + ms mod 1000" by linarith
  then have "int ms = int (3600000 * (ms div 3600000) + 60000 * (ms div 60000 mod 60)
      + 1000 * (ms div 1000 mod 60) + ms mod 1000)" by (rule arg_cong)
  then show "hms (ms div 3600000) (ms div 60000 mod 60) (ms div 1000 mod 60) (ms mod 1000) = int ms"
    unfolding hms_def of_nat_add of_nat_mult by simp
  show "ms div 3600000 < 24" using assms by (simp add: less_mult_imp_div_less)
qed simp_all

lemma read_clock_print:
  assumes "h < 24" "m < 60" "sec < 60" "l < 1000"
  shows "read_clock (pad_digits 2 h @ CHR '':'' # pad_digits 2 m @ CHR '':'' # pad_digits 2 sec
           @ CHR ''.'' # pad_digits 3 l @ r) = Some (hms h m sec l, r)"
  using assms by (simp add: read_clock_def)

lemma nat_clock_fields:
  assumes "0 \<le> (u :: int)"
  shows "nat (u div 3600000) = nat u div 3600000" "nat (u div 60000 mod 60) = nat u div 60000 mod 60"
    "nat (u div 1000 mod 60) = nat u div 1000 mod 60" "nat (u mod 1000) = nat u mod 1000"
proof -
  obtain n where "u = int n" using assms nonneg_int_cases by blast
  moreover have "int n div 3600000 = int (n div 3600000)" "int n div 60000 mod 60 = int (n div 60000 mod 60)"
    "int n div 1000 mod 60 = int (n div 1000 mod 60)" "int n mod 1000 = int (n mod 1000)"
    by (simp_all only: of_nat_div of_nat_mod of_nat_numeral)
  ultimately show "nat (u div 3600000) = nat u div 3600000" "nat (u div 60000 mod 60) = nat u div 60000 mod 60"
    "nat (u div 1000 mod 60) = nat u div 1000 mod 60" "nat (u mod 1000) = nat u mod 1000"
    by (simp_all only: nat_int)
qed

theorem date_parse_to_iso:
  assumes "to_iso t = Some s"
  shows "date_parse s = Some t"
proof -
  define d where "d = t div ms_per_day"
  define ms where "ms = nat (t mod ms_per_day)"
  define y where "y = year_of_day d"
  define doy where "doy = d - day_from_year y"
  define m where "m = month_of (leap_year y) doy"
  define k where "k = nat (doy - month_offset (leap_year y) m + 1)"
  have rngs: "- 8640000000000000 \<le> t" "t \<le> 8640000000000000" using assms by (auto simp: to_iso_def split: if_splits)
  then have rng: "\<bar>t\<bar> \<le> 8640000000000000" by arith
  have nat_ms: "nat ((t mod ms_per_day) div 3600000) = ms div 3600000"
    "nat ((t mod ms_per_day) div 60000 mod 60) = ms div 60000 mod 60"
    "nat ((t mod ms_per_day) div 1000 mod 60) = ms div 1000 mod 60"
    "nat ((t mod ms_per_day) mod 1000) = ms mod 1000"
    unfolding ms_def by (rule nat_clock_fields, simp add: ms_per_day_def)+
  have s: "s = print_year y @ CHR ''-'' # pad_digits 2 m @ CHR ''-'' # pad_digits 2 k
      @ CHR ''T'' # pad_digits 2 (ms div 3600000) @ CHR '':'' # pad_digits 2 (ms div 60000 mod 60)
      @ CHR '':'' # pad_digits 2 (ms div 1000 mod 60) @ CHR ''.'' # pad_digits 3 (ms mod 1000) @ ''Z''"
  proof -
    have "Some s = to_iso t" using assms by simp
    also have "\<dots> = Some (print_year y @ CHR ''-'' # pad_digits 2 m @ CHR ''-'' # pad_digits 2 k
      @ CHR ''T'' # pad_digits 2 (ms div 3600000) @ CHR '':'' # pad_digits 2 (ms div 60000 mod 60)
      @ CHR '':'' # pad_digits 2 (ms div 1000 mod 60) @ CHR ''.'' # pad_digits 3 (ms mod 1000) @ ''Z'')"
      unfolding to_iso_def Let_def nat_ms k_def m_def doy_def y_def d_def using rngs by (simp only: simp_thms if_True)
    finally show ?thesis by (simp only: option.inject)
  qed
  have t: "t = d * ms_per_day + int ms" and ms: "ms < 86400000"
    unfolding d_def ms_def ms_per_day_def by (simp_all add: nat_less_iff)
  have dabs: "\<bar>d\<bar> \<le> 100000000"
    using rng ms unfolding t ms_per_day_def abs_le_iff by linarith
  have yabs: "\<bar>y\<bar> < 1000000" unfolding y_def by (rule year_of_day_range [OF dabs])
  have doyr: "0 \<le> doy" "doy < (if leap_year y then 366 else 365)"
    using day_of_year_range [of d] unfolding doy_def y_def by auto
  note mb = month_of_bounds [OF doyr, folded m_def]
  then have k1: "1 \<le> k" "k \<le> 31" and kd: "int k = doy - month_offset (leap_year y) m + 1"
    unfolding k_def by auto
  have day: "make_day y m k = d" unfolding make_day_def kd doy_def by simp
  have "read_date s = Some (d, CHR ''T'' # pad_digits 2 (ms div 3600000) @ CHR '':'' # pad_digits 2 (ms div 60000 mod 60)
      @ CHR '':'' # pad_digits 2 (ms div 1000 mod 60) @ CHR ''.'' # pad_digits 3 (ms mod 1000) @ ''Z'')"
    unfolding s read_date_def read_year_print [OF yabs] using mb k1 by (simp add: day)
  then show ?thesis
    using clock_fields [OF ms] rngs
    by (simp add: date_parse_def read_clock_print read_offset_def time_clip_def t)
qed

lemma to_iso_Some_iff: "(\<exists>s. to_iso t = Some s) \<longleftrightarrow> \<bar>t\<bar> \<le> 8640000000000000"
  by (auto simp: to_iso_def Let_def abs_le_iff)

end
