(* ===== verification/Organizations.thy ===== *)
theory Organizations
  imports JS_Date
begin

text \<open>
  Organizations, memberships and workspace ownership: \<open>packages/core/src/organizations.ts\<close>. Roles,
  states and capabilities are strings because the code checks them at run time against its lists
  (\<open>ORGANIZATION_ROLES\<close>, \<open>WORKSPACE_GRANT_ROLES\<close>, \<open>WORKSPACE_CAPABILITIES\<close>) instead of trusting their
  static type. A thrown \<open>OrganizationDomainError\<close> is its code.
\<close>

subsection \<open>Data\<close>

definition ORGANIZATION_ROLES :: "string list" where
  "ORGANIZATION_ROLES = [''owner'', ''administrator'', ''member'', ''billing_manager'']"

definition WORKSPACE_GRANT_ROLES :: "string list" where
  "WORKSPACE_GRANT_ROLES = [''manager'', ''publisher'', ''editor'', ''viewer'']"

record organization =
  org_id :: string
  org_displayName :: string
  org_slug :: "string option"
  org_state :: string
  org_revision :: int
  org_createdAt :: string
  org_updatedAt :: string

record organization_membership =
  mb_id :: string
  mb_organizationId :: string
  mb_userId :: string
  mb_role :: string
  mb_status :: string
  mb_revision :: int
  mb_joinedAt :: string
  mb_endedAt :: "string option"

record workspace_ownership =
  wo_workspaceId :: string
  wo_personalOwnerUserId :: "string option"
  wo_ownerOrganizationId :: "string option"
  wo_revision :: int

record workspace_grant =
  wg_id :: string
  wg_workspaceId :: string
  wg_membershipId :: string
  wg_role :: string
  wg_revision :: int

record proposed_grant =
  pg_workspaceId :: string
  pg_role :: string

record organization_invitation =
  iv_id :: string
  iv_organizationId :: string
  iv_normalizedRecipientAddress :: string
  iv_proposedRole :: string
  iv_proposedWorkspaceGrants :: "proposed_grant list"
  iv_inviterMembershipId :: string
  iv_tokenHash :: string
  iv_expiresAt :: string
  iv_state :: string
  iv_revision :: int

datatype organization_error =
    permission_denied | scope_mismatch | invitation_expired | last_owner_required
  | revision_conflict | transfer_blocked

definition WORKSPACE_CAPABILITIES :: "string \<Rightarrow> string list" where
  "WORKSPACE_CAPABILITIES role =
     (if role = ''manager'' then
        [''read'', ''edit'', ''download_original'', ''publish'', ''manage_connections'', ''manage_schedules'',
         ''export'', ''delete_content'', ''assign_workspace_roles'']
      else if role = ''publisher'' then [''read'', ''edit'', ''download_original'', ''publish'']
      else if role = ''editor'' then [''read'', ''edit'', ''download_original'']
      else if role = ''viewer'' then [''read''] else [])"

subsection \<open>Operations\<close>

definition prepareOrganizationCreation ::
  "string \<Rightarrow> string \<Rightarrow> string \<Rightarrow> string \<Rightarrow> string option \<Rightarrow> string
   \<Rightarrow> organization_error + organization \<times> organization_membership" where
  "prepareOrganizationCreation organizationId membershipId creatorUserId rawName slug now =
     (let displayName = js_trim rawName
      in if \<not> truthy organizationId \<or> \<not> truthy membershipId \<or> \<not> truthy creatorUserId
            \<or> \<not> truthy displayName \<or> date_parse now = None
         then Inl scope_mismatch
         else Inr (\<lparr>org_id = organizationId, org_displayName = displayName, org_slug = slug,
                    org_state = ''active'', org_revision = 1, org_createdAt = now, org_updatedAt = now\<rparr>,
                   \<lparr>mb_id = membershipId, mb_organizationId = organizationId, mb_userId = creatorUserId,
                    mb_role = ''owner'', mb_status = ''active'', mb_revision = 1, mb_joinedAt = now,
                    mb_endedAt = None\<rparr>))"

definition is_identifier :: "string \<Rightarrow> bool" where
  "is_identifier value = nonblank value"

definition valid_revision :: "int \<Rightarrow> bool" where
  "valid_revision value \<longleftrightarrow> safe_int value \<and> 1 \<le> value"

definition validMembership :: "organization_membership \<Rightarrow> bool" where
  "validMembership m \<longleftrightarrow>
     list_all is_identifier [mb_id m, mb_organizationId m, mb_userId m] \<and> valid_revision (mb_revision m) \<and>
     mb_role m \<in> set ORGANIZATION_ROLES \<and> mb_status m \<in> {''active'', ''suspended'', ''ended''}"

definition active_membership :: "organization_membership option \<Rightarrow> bool" where
  "active_membership membership =
     (case membership of None \<Rightarrow> False | Some m \<Rightarrow> validMembership m \<and> mb_status m = ''active'')"

definition validGrant :: "workspace_grant \<Rightarrow> bool" where
  "validGrant grant \<longleftrightarrow>
     list_all is_identifier [wg_id grant, wg_workspaceId grant, wg_membershipId grant] \<and>
     valid_revision (wg_revision grant) \<and> wg_role grant \<in> set WORKSPACE_GRANT_ROLES"

definition validateWorkspaceOwnership :: "workspace_ownership \<Rightarrow> organization_error + workspace_ownership" where
  "validateWorkspaceOwnership ownership =
     (if \<not> is_identifier (wo_workspaceId ownership) \<or> \<not> valid_revision (wo_revision ownership)
         \<or> (case wo_personalOwnerUserId ownership of None \<Rightarrow> False | Some u \<Rightarrow> \<not> is_identifier u)
         \<or> (case wo_ownerOrganizationId ownership of None \<Rightarrow> False | Some u \<Rightarrow> \<not> is_identifier u)
         \<or> truthy_opt (wo_personalOwnerUserId ownership) = truthy_opt (wo_ownerOrganizationId ownership)
      then Inl scope_mismatch else Inr ownership)"

definition hasWorkspaceCapability ::
  "string \<Rightarrow> workspace_ownership \<Rightarrow> organization option \<Rightarrow> organization_membership option
   \<Rightarrow> workspace_grant option \<Rightarrow> string \<Rightarrow> organization_error + bool" where
  "hasWorkspaceCapability actorUserId ownership org membership grant capability =
     try_then (validateWorkspaceOwnership ownership) (\<lambda>_.
       if \<not> is_identifier actorUserId \<or> capability \<notin> set (WORKSPACE_CAPABILITIES ''manager'') then Inr False
       else if wo_personalOwnerUserId ownership = Some actorUserId then Inr True
       else
         (case (org, membership) of
            (Some o', Some m) \<Rightarrow>
              if \<not> truthy_opt (wo_ownerOrganizationId ownership)
                 \<or> wo_ownerOrganizationId ownership \<noteq> Some (org_id o') \<or> org_state o' \<noteq> ''active''
                 \<or> \<not> active_membership (Some m) \<or> mb_userId m \<noteq> actorUserId
                 \<or> wo_ownerOrganizationId ownership \<noteq> Some (mb_organizationId m)
              then Inr False
              else if mb_role m = ''owner'' \<or> mb_role m = ''administrator'' then Inr True
              else
                (case grant of
                   None \<Rightarrow> Inr False
                 | Some g \<Rightarrow>
                     if mb_role m \<noteq> ''member'' \<or> \<not> validGrant g
                        \<or> wg_workspaceId g \<noteq> wo_workspaceId ownership \<or> wg_membershipId g \<noteq> mb_id m
                     then Inr False
                     else Inr (capability \<in> set (WORKSPACE_CAPABILITIES (wg_role g))))
          | _ \<Rightarrow> Inr False))"

definition requireWorkspaceCapability ::
  "string \<Rightarrow> workspace_ownership \<Rightarrow> organization option \<Rightarrow> organization_membership option
   \<Rightarrow> workspace_grant option \<Rightarrow> string \<Rightarrow> organization_error + unit" where
  "requireWorkspaceCapability actorUserId ownership org membership grant capability =
     try_then (hasWorkspaceCapability actorUserId ownership org membership grant capability)
       (\<lambda>b. if b then Inr () else Inl permission_denied)"

definition validateWorkspaceGrant ::
  "workspace_grant \<Rightarrow> workspace_ownership \<Rightarrow> organization_membership \<Rightarrow> organization_error + workspace_grant" where
  "validateWorkspaceGrant grant ownership membership =
     try_then (validateWorkspaceOwnership ownership) (\<lambda>_.
       if \<not> validGrant grant \<or> \<not> active_membership (Some membership)
          \<or> wo_workspaceId ownership \<noteq> wg_workspaceId grant
          \<or> \<not> truthy_opt (wo_ownerOrganizationId ownership)
          \<or> wo_ownerOrganizationId ownership \<noteq> Some (mb_organizationId membership)
          \<or> mb_id membership \<noteq> wg_membershipId grant \<or> mb_role membership \<noteq> ''member''
       then Inl scope_mismatch else Inr grant)"

record recipient_proof =
  rp_userId :: string
  rp_normalizedVerifiedAddress :: string
  rp_tokenHash :: string

text \<open>The \<open>map\<close> over the proposed grants; the first invalid one throws.\<close>

fun acceptance_grants ::
  "string \<Rightarrow> (string \<times> workspace_ownership) list \<Rightarrow> organization_membership \<Rightarrow> nat \<Rightarrow> proposed_grant list
   \<Rightarrow> organization_error + workspace_grant list" where
  "acceptance_grants invitationId owners membership index [] = Inr []"
| "acceptance_grants invitationId owners membership index (proposed # rest) =
     (let grant = \<lparr>wg_id = invitationId @ '':'' @ nat_str index, wg_workspaceId = pg_workspaceId proposed,
            wg_membershipId = mb_id membership, wg_role = pg_role proposed, wg_revision = 1\<rparr>;
          owner = (case js_map_get owners (pg_workspaceId proposed) of Some w \<Rightarrow> w
            | None \<Rightarrow> \<lparr>wo_workspaceId = pg_workspaceId proposed, wo_personalOwnerUserId = None,
                       wo_ownerOrganizationId = None, wo_revision = 0\<rparr>)
      in try_then (validateWorkspaceGrant grant owner membership) (\<lambda>g.
           try_then (acceptance_grants invitationId owners membership (Suc index) rest) (\<lambda>gs. Inr (g # gs))))"

definition invitation_open :: "organization_invitation \<Rightarrow> string \<Rightarrow> bool" where
  "invitation_open invitation now =
     (case (date_parse now, date_parse (iv_expiresAt invitation)) of
        (Some timestamp, Some expires) \<Rightarrow> iv_state invitation = ''pending'' \<and> timestamp < expires
      | _ \<Rightarrow> False)"

definition invitation_authorized ::
  "organization_invitation \<Rightarrow> organization \<Rightarrow> organization_membership \<Rightarrow> recipient_proof \<Rightarrow> string \<Rightarrow> bool" where
  "invitation_authorized invitation org inviter recipient newMembershipId \<longleftrightarrow>
     list_all is_identifier [iv_id invitation, iv_organizationId invitation, iv_inviterMembershipId invitation,
       iv_tokenHash invitation, iv_normalizedRecipientAddress invitation, rp_userId recipient,
       rp_tokenHash recipient, newMembershipId] \<and>
     valid_revision (iv_revision invitation) \<and> valid_revision (org_revision org) \<and>
     iv_proposedRole invitation \<in> {''administrator'', ''member'', ''billing_manager''} \<and>
     org_state org = ''active'' \<and> iv_organizationId invitation = org_id org \<and>
     active_membership (Some inviter) \<and> mb_id inviter = iv_inviterMembershipId invitation \<and>
     mb_organizationId inviter = org_id org \<and> mb_role inviter \<in> {''owner'', ''administrator''} \<and>
     rp_normalizedVerifiedAddress recipient = iv_normalizedRecipientAddress invitation \<and>
     rp_tokenHash recipient = iv_tokenHash invitation \<and>
     \<not> (mb_role inviter = ''administrator'' \<and> iv_proposedRole invitation \<notin> {''member'', ''billing_manager''})"

definition prepareInvitationAcceptance ::
  "organization_invitation \<Rightarrow> organization \<Rightarrow> organization_membership \<Rightarrow> recipient_proof
   \<Rightarrow> organization_membership option \<Rightarrow> workspace_ownership list \<Rightarrow> string \<Rightarrow> string
   \<Rightarrow> organization_error + organization_membership \<times> workspace_grant list \<times> organization_invitation" where
  "prepareInvitationAcceptance invitation org inviter recipient existing workspaceOwnership now newMembershipId =
     (if \<not> invitation_open invitation now then Inl invitation_expired
      else if \<not> invitation_authorized invitation org inviter recipient newMembershipId then Inl permission_denied
      else if (case existing of None \<Rightarrow> False
               | Some e \<Rightarrow> mb_organizationId e \<noteq> org_id org \<or> mb_userId e \<noteq> rp_userId recipient
                           \<or> \<not> validMembership e \<or> mb_status e \<noteq> ''ended'')
      then Inl scope_mismatch
      else
        (let membership = \<lparr>mb_id = (case existing of Some e \<Rightarrow> mb_id e | None \<Rightarrow> newMembershipId),
               mb_organizationId = org_id org, mb_userId = rp_userId recipient,
               mb_role = iv_proposedRole invitation, mb_status = ''active'',
               mb_revision = (case existing of Some e \<Rightarrow> mb_revision e | None \<Rightarrow> 0) + 1,
               mb_joinedAt = now, mb_endedAt = None\<rparr>;
             owners = map (\<lambda>w. (wo_workspaceId w, w)) workspaceOwnership;
             proposed = iv_proposedWorkspaceGrants invitation
         in if length (js_set (map pg_workspaceId proposed)) \<noteq> length proposed then Inl scope_mismatch
            else try_then (acceptance_grants (iv_id invitation) owners membership 0 proposed) (\<lambda>grants.
                   Inr (membership, grants,
                        invitation\<lparr>iv_state := ''accepted'', iv_revision := iv_revision invitation + 1\<rparr>))))"

definition validateMembershipChange ::
  "organization_membership \<Rightarrow> organization_membership \<Rightarrow> organization_membership \<Rightarrow> int
   \<Rightarrow> organization_error + unit" where
  "validateMembershipChange actor current next activeOwnerCount =
     (let changesPrivilegedRole = (mb_role current \<noteq> mb_role next \<and>
            list_ex (\<lambda>role. role = ''owner'' \<or> role = ''administrator'') [mb_role current, mb_role next])
      in if \<not> active_membership (Some actor) \<or> mb_organizationId actor \<noteq> mb_organizationId current
            \<or> mb_id current \<noteq> mb_id next \<or> mb_organizationId current \<noteq> mb_organizationId next
            \<or> mb_userId current \<noteq> mb_userId next then Inl scope_mismatch
         else if \<not> validMembership current \<or> \<not> validMembership next
            \<or> \<not> safe_int activeOwnerCount \<or> activeOwnerCount < 1 then Inl scope_mismatch
         else if mb_role actor \<notin> {''owner'', ''administrator''} then Inl permission_denied
         else if mb_revision next \<noteq> mb_revision current + 1 then Inl revision_conflict
         else if mb_role actor \<noteq> ''owner'' \<and>
            (changesPrivilegedRole \<or> mb_role current \<noteq> ''member'' \<and> mb_role current \<noteq> ''billing_manager'')
         then Inl permission_denied
         else if mb_role current = ''owner'' \<and> mb_status current = ''active'' \<and>
            (mb_role next \<noteq> ''owner'' \<or> mb_status next \<noteq> ''active'') \<and> activeOwnerCount \<le> 1
         then Inl last_owner_required
         else Inr ())"

record ownership_transfer_plan =
  tp_id :: string
  tp_workspaceId :: string
  tp_workspaceRevision :: int
  tp_personalOwnerUserId :: string
  tp_receivingOrganizationId :: string
  tp_receivingOrganizationRevision :: int
  tp_initiatedByUserId :: string
  tp_acceptedByOwnerMembershipId :: string
  tp_postTransferRole :: string
  tp_state :: string

definition validateOwnershipTransferCommit ::
  "ownership_transfer_plan \<Rightarrow> workspace_ownership \<Rightarrow> organization \<Rightarrow> organization_membership \<Rightarrow> bool \<Rightarrow> bool
   \<Rightarrow> organization_error + unit" where
  "validateOwnershipTransferCommit plan ownership org acceptingMembership recentAuthentication dependenciesReady =
     try_then (validateWorkspaceOwnership ownership) (\<lambda>_.
       if \<not> is_identifier (tp_id plan) \<or> \<not> is_identifier (tp_personalOwnerUserId plan)
          \<or> tp_postTransferRole plan \<notin> set WORKSPACE_GRANT_ROLES \<or> tp_state plan \<noteq> ''accepted''
          \<or> \<not> recentAuthentication \<or> \<not> dependenciesReady \<or> org_state org \<noteq> ''active''
       then Inl transfer_blocked
       else if wo_workspaceId ownership \<noteq> tp_workspaceId plan \<or> wo_revision ownership \<noteq> tp_workspaceRevision plan
          \<or> wo_personalOwnerUserId ownership \<noteq> Some (tp_personalOwnerUserId plan)
          \<or> tp_initiatedByUserId plan \<noteq> tp_personalOwnerUserId plan
          \<or> org_id org \<noteq> tp_receivingOrganizationId plan \<or> org_revision org \<noteq> tp_receivingOrganizationRevision plan
          \<or> \<not> active_membership (Some acceptingMembership)
          \<or> mb_id acceptingMembership \<noteq> tp_acceptedByOwnerMembershipId plan
          \<or> mb_organizationId acceptingMembership \<noteq> org_id org \<or> mb_role acceptingMembership \<noteq> ''owner''
       then Inl revision_conflict
       else Inr ())"


subsection \<open>Facts about the operations\<close>

lemma WORKSPACE_CAPABILITIES_mono:
  "set (WORKSPACE_CAPABILITIES ''viewer'') \<subseteq> set (WORKSPACE_CAPABILITIES ''editor'')"
  "set (WORKSPACE_CAPABILITIES ''editor'') \<subseteq> set (WORKSPACE_CAPABILITIES ''publisher'')"
  "set (WORKSPACE_CAPABILITIES ''publisher'') \<subseteq> set (WORKSPACE_CAPABILITIES ''manager'')"
  by (simp_all add: WORKSPACE_CAPABILITIES_def)

lemma WORKSPACE_CAPABILITIES_manager:
  "c \<in> set (WORKSPACE_CAPABILITIES role) \<Longrightarrow> c \<in> set (WORKSPACE_CAPABILITIES ''manager'')"
  by (auto simp: WORKSPACE_CAPABILITIES_def split: if_splits)

lemma validateWorkspaceOwnership_Inr:
  "validateWorkspaceOwnership w = Inr w' \<longleftrightarrow> w' = w \<and> is_identifier (wo_workspaceId w)
     \<and> valid_revision (wo_revision w)
     \<and> ((\<exists>u. wo_personalOwnerUserId w = Some u \<and> is_identifier u \<and> wo_ownerOrganizationId w = None)
       \<or> (\<exists>u. wo_ownerOrganizationId w = Some u \<and> is_identifier u \<and> wo_personalOwnerUserId w = None))"
  by (auto simp: validateWorkspaceOwnership_def is_identifier_def nonblank_truthy split: option.splits)

lemma validateWorkspaceGrant_Inr:
  "validateWorkspaceGrant g w m = Inr g' \<longleftrightarrow> g' = g \<and> validateWorkspaceOwnership w = Inr w
     \<and> validGrant g \<and> active_membership (Some m) \<and> wo_workspaceId w = wg_workspaceId g
     \<and> wo_ownerOrganizationId w = Some (mb_organizationId m) \<and> mb_id m = wg_membershipId g
     \<and> mb_role m = ''member''"
  by (auto simp: validateWorkspaceGrant_def validateWorkspaceOwnership_Inr is_identifier_def nonblank_truthy)

text \<open>
  The reference definition of authority: the role a user has in a workspace, if any. A personal
  owner and the owners and administrators of the owning organization act as managers; an ordinary
  member acts in the role granted to that membership; nobody else has a role.
\<close>

definition effective_role ::
  "string \<Rightarrow> workspace_ownership \<Rightarrow> organization option \<Rightarrow> organization_membership option
   \<Rightarrow> workspace_grant option \<Rightarrow> string option" where
  "effective_role actor w org membership grant =
     (if \<not> is_identifier actor then None
      else case wo_personalOwnerUserId w of
        Some u \<Rightarrow> if u = actor then Some ''manager'' else None
      | None \<Rightarrow>
        (case (org, membership) of
           (Some o', Some m) \<Rightarrow>
             if wo_ownerOrganizationId w = Some (org_id o') \<and> org_state o' = ''active''
                \<and> active_membership (Some m) \<and> mb_userId m = actor \<and> mb_organizationId m = org_id o'
             then if mb_role m \<in> {''owner'', ''administrator''} then Some ''manager''
               else if mb_role m \<noteq> ''member'' then None
               else (case grant of None \<Rightarrow> None
                 | Some g \<Rightarrow> if validGrant g \<and> wg_workspaceId g = wo_workspaceId w \<and> wg_membershipId g = mb_id m
                             then Some (wg_role g) else None)
             else None
         | _ \<Rightarrow> None))"

lemma hasWorkspaceCapability_valid:
  assumes "validateWorkspaceOwnership w = Inr w'"
  shows "hasWorkspaceCapability actor w org membership grant capability =
    Inr (case effective_role actor w org membership grant of None \<Rightarrow> False
         | Some role \<Rightarrow> capability \<in> set (WORKSPACE_CAPABILITIES role))"
proof (cases "is_identifier actor \<and> capability \<in> set (WORKSPACE_CAPABILITIES ''manager'')")
  case False
  then show ?thesis using assms
    by (auto simp: hasWorkspaceCapability_def effective_role_def validateWorkspaceOwnership_Inr
          dest: WORKSPACE_CAPABILITIES_manager split: option.splits)
next
  case True
  then show ?thesis using assms
    by (auto simp: hasWorkspaceCapability_def effective_role_def validateWorkspaceOwnership_Inr
          is_identifier_def nonblank_truthy split: option.splits)
qed

lemma hasWorkspaceCapability_invalid:
  "validateWorkspaceOwnership w = Inl e \<Longrightarrow>
   hasWorkspaceCapability actor w org membership grant capability = Inl e"
  by (simp add: hasWorkspaceCapability_def)

subsubsection \<open>Invitations\<close>

lemma acceptance_grants_Inr:
  assumes "acceptance_grants i owners m k ps = Inr gs" and "g \<in> set gs"
  shows "\<exists>p \<in> set ps. \<exists>w. js_map_get owners (pg_workspaceId p) = Some w
     \<and> validateWorkspaceGrant g w m = Inr g \<and> wg_workspaceId g = pg_workspaceId p
     \<and> wg_role g = pg_role p \<and> wg_membershipId g = mb_id m"
  using assms
proof (induction ps arbitrary: k gs)
  case Nil
  then show ?case by simp
next
  case (Cons p ps)
  then show ?case
    by (auto simp: Let_def validateWorkspaceGrant_Inr validateWorkspaceOwnership_Inr valid_revision_def
          split: option.splits) metis+
qed

lemma acceptance_grants_map:
  assumes "acceptance_grants i owners m k ps = Inr gs"
  shows "map wg_workspaceId gs = map pg_workspaceId ps \<and> map wg_role gs = map pg_role ps"
  using assms by (induction ps arbitrary: k gs) (auto simp: Let_def validateWorkspaceGrant_Inr)

lemma prepareInvitationAcceptance_Inr:
  assumes "prepareInvitationAcceptance ivt org inviter r existing ws now newId = Inr (m, gs, ivt')"
  shows "invitation_open ivt now" and "invitation_authorized ivt org inviter r newId"
    and "m = \<lparr>mb_id = (case existing of Some e \<Rightarrow> mb_id e | None \<Rightarrow> newId),
               mb_organizationId = org_id org, mb_userId = rp_userId r,
               mb_role = iv_proposedRole ivt, mb_status = ''active'',
               mb_revision = (case existing of Some e \<Rightarrow> mb_revision e | None \<Rightarrow> 0) + 1,
               mb_joinedAt = now, mb_endedAt = None\<rparr>"
    and "acceptance_grants (iv_id ivt) (map (\<lambda>w. (wo_workspaceId w, w)) ws) m 0
           (iv_proposedWorkspaceGrants ivt) = Inr gs"
    and "ivt' = ivt\<lparr>iv_state := ''accepted'', iv_revision := iv_revision ivt + 1\<rparr>"
    and "\<And>e. existing = Some e \<Longrightarrow> mb_organizationId e = org_id org \<and> mb_userId e = rp_userId r \<and> mb_status e = ''ended''"
    and "distinct (map pg_workspaceId (iv_proposedWorkspaceGrants ivt))"
proof -
  show "invitation_open ivt now" "invitation_authorized ivt org inviter r newId"
    using assms by (auto simp: prepareInvitationAcceptance_def split: if_splits)
  show "m = \<lparr>mb_id = (case existing of Some e \<Rightarrow> mb_id e | None \<Rightarrow> newId),
               mb_organizationId = org_id org, mb_userId = rp_userId r,
               mb_role = iv_proposedRole ivt, mb_status = ''active'',
               mb_revision = (case existing of Some e \<Rightarrow> mb_revision e | None \<Rightarrow> 0) + 1,
               mb_joinedAt = now, mb_endedAt = None\<rparr>"
    and "acceptance_grants (iv_id ivt) (map (\<lambda>w. (wo_workspaceId w, w)) ws) m 0
           (iv_proposedWorkspaceGrants ivt) = Inr gs"
    and "ivt' = ivt\<lparr>iv_state := ''accepted'', iv_revision := iv_revision ivt + 1\<rparr>"
    using assms by (auto simp: prepareInvitationAcceptance_def Let_def split: if_splits)
  show "\<And>e. existing = Some e \<Longrightarrow> mb_organizationId e = org_id org \<and> mb_userId e = rp_userId r \<and> mb_status e = ''ended''"
    using assms by (auto simp: prepareInvitationAcceptance_def split: if_splits)
  show "distinct (map pg_workspaceId (iv_proposedWorkspaceGrants ivt))"
    using assms by (auto simp: prepareInvitationAcceptance_def Let_def js_set_size_distinct split: if_splits)
      (metis js_set_size_distinct length_map)
qed

subsubsection \<open>The membership of an organization over time\<close>

definition active_owner :: "organization_membership \<Rightarrow> bool" where
  "active_owner m \<longleftrightarrow> mb_role m = ''owner'' \<and> mb_status m = ''active''"

text \<open>The count the adapter passes as \<open>activeOwnerCount\<close> under its lock.\<close>

definition activeOwnerCount :: "organization_membership list \<Rightarrow> nat" where
  "activeOwnerCount ms = length (filter active_owner ms)"

text \<open>
  The adapter's transactions: it loads the memberships of one organization, runs the domain
  function, and stores the result when it did not throw.
\<close>

inductive org_reachable :: "organization \<Rightarrow> organization_membership list \<Rightarrow> bool" for org where
  created: "prepareOrganizationCreation (org_id org) mid creator name slug now = Inr (org', m)
    \<Longrightarrow> org_reachable org [m]"
| changed: "\<lbrakk>org_reachable org ms; actor \<in> set ms; i < length ms;
     validateMembershipChange actor (ms ! i) next (int (activeOwnerCount ms)) = Inr ()\<rbrakk>
    \<Longrightarrow> org_reachable org (ms[i := next])"
| joined: "\<lbrakk>org_reachable org ms; inviter \<in> set ms; mb_userId m \<notin> mb_userId ` set ms;
     newId \<notin> mb_id ` set ms;
     prepareInvitationAcceptance ivt org inviter r None ws now newId = Inr (m, gs, ivt')\<rbrakk>
    \<Longrightarrow> org_reachable org (ms @ [m])"
| rejoined: "\<lbrakk>org_reachable org ms; inviter \<in> set ms; i < length ms;
     prepareInvitationAcceptance ivt org inviter r (Some (ms ! i)) ws now newId = Inr (m, gs, ivt')\<rbrakk>
    \<Longrightarrow> org_reachable org (ms[i := m])"

definition org_invariant :: "organization \<Rightarrow> organization_membership list \<Rightarrow> bool" where
  "org_invariant org ms \<longleftrightarrow> (\<exists>m \<in> set ms. active_owner m)
     \<and> (\<forall>m \<in> set ms. mb_organizationId m = org_id org)
     \<and> distinct (map mb_id ms) \<and> distinct (map mb_userId ms)"

lemma privileged_change:
  assumes "r \<in> set ORGANIZATION_ROLES" and "r' \<in> set ORGANIZATION_ROLES"
  shows "(r \<noteq> r' \<and> (r = ''owner'' \<or> r = ''administrator'' \<or> r' = ''owner'' \<or> r' = ''administrator'')
      \<or> r \<noteq> ''member'' \<and> r \<noteq> ''billing_manager'')
    \<longleftrightarrow> \<not> (r \<in> {''member'', ''billing_manager''} \<and> r' \<in> {''member'', ''billing_manager''})"
  using assms by (auto simp: ORGANIZATION_ROLES_def)

lemma validateMembershipChange_Inr:
  "validateMembershipChange actor current next n = Inr () \<longleftrightarrow>
     active_membership (Some actor) \<and> mb_organizationId actor = mb_organizationId current
     \<and> mb_id current = mb_id next \<and> mb_organizationId current = mb_organizationId next
     \<and> mb_userId current = mb_userId next \<and> validMembership current \<and> validMembership next
     \<and> safe_int n \<and> 1 \<le> n \<and> mb_role actor \<in> {''owner'', ''administrator''}
     \<and> mb_revision next = mb_revision current + 1
     \<and> (mb_role actor = ''owner'' \<or>
         mb_role current \<in> {''member'', ''billing_manager''} \<and> mb_role next \<in> {''member'', ''billing_manager''})
     \<and> (active_owner current \<longrightarrow> active_owner next \<or> 1 < n)"
proof (cases "validMembership current \<and> validMembership next")
  case False
  then show ?thesis by (auto simp: validateMembershipChange_def Let_def)
next
  case True
  then have roles: "mb_role current \<in> set ORGANIZATION_ROLES" "mb_role next \<in> set ORGANIZATION_ROLES"
    by (simp_all add: validMembership_def)
  show ?thesis
  proof (cases "1 \<le> n")
    case False
    then show ?thesis using True by (simp add: validateMembershipChange_def Let_def)
  next
    case pos: True
    show ?thesis
    proof (cases "1 < n")
      case True
      then show ?thesis using \<open>validMembership current \<and> validMembership next\<close>
        by (simp add: validateMembershipChange_def Let_def privileged_change [OF roles] active_owner_def
            if_distrib [where f = "\<lambda>r. r = Inr ()"] cong: if_cong) argo
    next
      case False
      then have "n = 1" using pos by simp
      then show ?thesis using True
        by (simp add: validateMembershipChange_def Let_def privileged_change [OF roles] active_owner_def safe_int_def
            max_safe_int_def if_distrib [where f = "\<lambda>r. r = Inr ()"] cong: if_cong) argo
    qed
  qed
qed

lemma active_owner_survives:
  assumes "i < length ms" and "\<exists>m \<in> set ms. active_owner m"
    and "active_owner (ms ! i) \<longrightarrow> active_owner next \<or> 1 < activeOwnerCount ms"
  shows "\<exists>m \<in> set (ms[i := next]). active_owner m"
proof (cases "active_owner next")
  case True
  then show ?thesis using assms(1) by (meson set_update_memI)
next
  case False
  have split: "ms = take i ms @ ms ! i # drop (Suc i) ms" and upd: "ms[i := next] = take i ms @ next # drop (Suc i) ms"
    using assms(1) by (simp_all add: id_take_nth_drop upd_conv_take_nth_drop)
  have "\<exists>m \<in> set (take i ms @ drop (Suc i) ms). active_owner m"
  proof (cases "active_owner (ms ! i)")
    case True
    then have "1 < length (filter active_owner ms)" using assms(3) False by (simp add: activeOwnerCount_def)
    then have "filter active_owner (take i ms @ drop (Suc i) ms) \<noteq> []"
      using True by (subst (asm) split) auto
    then show ?thesis by (metis filter_empty_conv)
  next
    case not: False
    then show ?thesis using assms(2) by (subst (asm) split) auto
  qed
  then show ?thesis by (subst upd) auto
qed

lemma org_reachable_invariant: "org_reachable org ms \<Longrightarrow> org_invariant org ms"
proof (induction rule: org_reachable.induct)
  case (created mid creator name slug now org' m)
  then show ?case
    by (auto simp: prepareOrganizationCreation_def Let_def org_invariant_def active_owner_def split: if_splits)
next
  case (changed ms actor i "next")
  have "\<exists>m \<in> set (ms[i := next]). active_owner m"
    using changed by (intro active_owner_survives) (auto simp: org_invariant_def validateMembershipChange_Inr)
  moreover have "map mb_id (ms[i := next]) = map mb_id ms" "map mb_userId (ms[i := next]) = map mb_userId ms"
    using changed by (auto simp: validateMembershipChange_Inr map_update list_update_same_conv)
  ultimately show ?case
    using changed by (auto simp: org_invariant_def validateMembershipChange_Inr dest!: set_update_subset_insert [THEN subsetD])
next
  case (joined ms inviter m newId ivt r ws now gs ivt')
  note p = prepareInvitationAcceptance_Inr [OF joined(5)]
  show ?case using joined p(3) by (auto simp: org_invariant_def)
next
  case (rejoined ms inviter i ivt r ws now newId m gs ivt')
  note p = prepareInvitationAcceptance_Inr [OF rejoined(4)]
  have e: "mb_organizationId (ms ! i) = org_id org" "mb_userId (ms ! i) = rp_userId r" "mb_status (ms ! i) = ''ended''"
    using p(6) by auto
  have "\<exists>m \<in> set (ms[i := m]). active_owner m"
    using rejoined e by (intro active_owner_survives) (auto simp: org_invariant_def active_owner_def)
  moreover have "map mb_id (ms[i := m]) = map mb_id ms" "map mb_userId (ms[i := m]) = map mb_userId ms"
    using rejoined e p(3) by (auto simp: map_update list_update_same_conv)
  ultimately show ?case
    using rejoined p(3) by (auto simp: org_invariant_def dest!: set_update_subset_insert [THEN subsetD])
qed


subsection \<open>Properties\<close>

text \<open>The capability check refines the role lookup: it rejects a malformed ownership record with
  the ownership error, and otherwise answers exactly whether the actor's effective role (personal
  owner or active administrator of the owning organization as manager, ordinary active member in the
  role of the matching grant, nobody else) includes the capability.\<close>
theorem hasWorkspaceCapability_effective_role:
  "hasWorkspaceCapability actor w org membership grant capability =
    (case validateWorkspaceOwnership w of
       Inl e \<Rightarrow> Inl e
     | Inr w' \<Rightarrow> Inr (case effective_role actor w' org membership grant of
         None \<Rightarrow> False
       | Some role \<Rightarrow> capability \<in> set (WORKSPACE_CAPABILITIES role)))"
  by (auto simp: hasWorkspaceCapability_valid hasWorkspaceCapability_invalid validateWorkspaceOwnership_Inr
        split: sum.splits)

text \<open>C7: Whatever sequence of accepted membership changes and invitations an organization goes
  through after its creation, it keeps an active owner, every membership stays in the organization, and
  no user holds two memberships.\<close>
theorem org_keeps_active_owner:
  assumes "org_reachable org ms"
  shows "(\<exists>m \<in> set ms. mb_role m = ''owner'' \<and> mb_status m = ''active'')
    \<and> (\<forall>m \<in> set ms. mb_organizationId m = org_id org) \<and> distinct (map mb_userId ms)"
  using org_reachable_invariant [OF assms] by (auto simp: org_invariant_def active_owner_def)

definition sample_org :: organization where
  "sample_org = \<lparr>org_id = ''o1'', org_displayName = ''Studio'', org_slug = None, org_state = ''active'',
     org_revision = 1, org_createdAt = ''2026-01-01T00:00:00.000Z'', org_updatedAt = ''2026-01-01T00:00:00.000Z''\<rparr>"

definition sample_owner :: organization_membership where
  "sample_owner = \<lparr>mb_id = ''m1'', mb_organizationId = ''o1'', mb_userId = ''u1'', mb_role = ''owner'',
     mb_status = ''active'', mb_revision = 1, mb_joinedAt = ''2026-01-01T00:00:00.000Z'', mb_endedAt = None\<rparr>"

definition sample_workspace :: workspace_ownership where
  "sample_workspace = \<lparr>wo_workspaceId = ''w1'', wo_personalOwnerUserId = None,
     wo_ownerOrganizationId = Some ''o1'', wo_revision = 3\<rparr>"

definition sample_invitation :: organization_invitation where
  "sample_invitation = \<lparr>iv_id = ''i1'', iv_organizationId = ''o1'', iv_normalizedRecipientAddress = ''a@b'',
     iv_proposedRole = ''member'', iv_proposedWorkspaceGrants = [\<lparr>pg_workspaceId = ''w1'', pg_role = ''editor''\<rparr>],
     iv_inviterMembershipId = ''m1'', iv_tokenHash = ''h'', iv_expiresAt = ''2026-03-01'', iv_state = ''pending'',
     iv_revision = 1\<rparr>"

definition sample_member :: organization_membership where
  "sample_member = \<lparr>mb_id = ''m2'', mb_organizationId = ''o1'', mb_userId = ''u2'', mb_role = ''member'',
     mb_status = ''active'', mb_revision = 1, mb_joinedAt = ''2026-02-01'', mb_endedAt = None\<rparr>"

definition sample_grant :: workspace_grant where
  "sample_grant = \<lparr>wg_id = ''i1:0'', wg_workspaceId = ''w1'', wg_membershipId = ''m2'', wg_role = ''editor'',
     wg_revision = 1\<rparr>"

lemma sample_created:
  "prepareOrganizationCreation (org_id sample_org) ''m1'' ''u1'' ''Studio'' None ''2026-01-01T00:00:00.000Z''
     = Inr (sample_org, sample_owner)"
  by code_simp

lemma sample_accepted:
  "prepareInvitationAcceptance sample_invitation sample_org sample_owner
     \<lparr>rp_userId = ''u2'', rp_normalizedVerifiedAddress = ''a@b'', rp_tokenHash = ''h''\<rparr> None [sample_workspace]
     ''2026-02-01'' ''m2''
   = Inr (sample_member, [sample_grant], sample_invitation\<lparr>iv_state := ''accepted'', iv_revision := 2\<rparr>)"
  by code_simp

lemma sample_reachable: "org_reachable sample_org [sample_owner, sample_member]"
proof -
  have "org_reachable sample_org [sample_owner]"
    by (rule org_reachable.created [OF sample_created])
  from org_reachable.joined [OF this _ _ _ sample_accepted] show ?thesis
    by (simp add: sample_owner_def sample_member_def)
qed

lemma org_keeps_active_owner_witness:
  "\<exists>ms. org_reachable sample_org ms \<and> length ms = 2 \<and> (\<exists>m \<in> set ms. mb_role m = ''owner'' \<and> mb_status m = ''active'')"
  using org_keeps_active_owner [OF sample_reachable] sample_reachable by (intro exI conjI) auto

text \<open>An accepted membership change by anyone but an owner neither touches nor creates an owner or
  administrator; it keeps the membership's identity and user and advances its revision by one.\<close>
theorem membership_change_no_escalation:
  assumes "validateMembershipChange actor current next n = Inr ()" and "mb_role actor \<noteq> ''owner''"
  shows "mb_role actor = ''administrator'' \<and> mb_role current \<in> {''member'', ''billing_manager''}
    \<and> mb_role next \<in> {''member'', ''billing_manager''} \<and> mb_id next = mb_id current
    \<and> mb_userId next = mb_userId current \<and> mb_revision next = mb_revision current + 1"
  using assms by (auto simp: validateMembershipChange_Inr)

lemma membership_change_no_escalation_witness:
  "validateMembershipChange (sample_owner\<lparr>mb_role := ''administrator''\<rparr>) sample_member
      (sample_member\<lparr>mb_role := ''billing_manager'', mb_revision := 2\<rparr>) 1 = Inr ()
   \<and> mb_role (sample_member\<lparr>mb_role := ''billing_manager'', mb_revision := 2\<rparr>) \<in> {''member'', ''billing_manager''}"
proof -
  have 1: "validateMembershipChange (sample_owner\<lparr>mb_role := ''administrator''\<rparr>) sample_member
      (sample_member\<lparr>mb_role := ''billing_manager'', mb_revision := 2\<rparr>) 1 = Inr ()"
    by code_simp
  have 2: "mb_role (sample_owner\<lparr>mb_role := ''administrator''\<rparr>) \<noteq> ''owner''" by code_simp
  show ?thesis using membership_change_no_escalation [OF 1 2] 1 by simp
qed

text \<open>C8: An accepted invitation never makes an owner, gives one grant per proposed workspace in the
  proposed role, each on a workspace the inviting organization owns, whose capabilities are exactly what
  the capability check then allows the recipient there; and the accepted invitation cannot be used again.\<close>
theorem invitation_acceptance_grants_exactly:
  assumes "prepareInvitationAcceptance ivt org inviter r existing ws now newId = Inr (m, gs, ivt')"
  shows "mb_role m \<noteq> ''owner'' \<and> mb_userId m = rp_userId r
    \<and> map wg_workspaceId gs = map pg_workspaceId (iv_proposedWorkspaceGrants ivt)
    \<and> map wg_role gs = map pg_role (iv_proposedWorkspaceGrants ivt)
    \<and> (\<forall>g \<in> set gs. \<exists>w \<in> set ws. wo_workspaceId w = wg_workspaceId g \<and> wo_ownerOrganizationId w = Some (org_id org)
         \<and> (\<forall>c. hasWorkspaceCapability (rp_userId r) w (Some org) (Some m) (Some g) c
                  = Inr (c \<in> set (WORKSPACE_CAPABILITIES (wg_role g)))))
    \<and> prepareInvitationAcceptance ivt' org inviter r existing ws now newId = Inl invitation_expired"
proof -
  note p = prepareInvitationAcceptance_Inr [OF assms]
  have grants: "\<exists>w \<in> set ws. wo_workspaceId w = wg_workspaceId g \<and> wo_ownerOrganizationId w = Some (org_id org)
      \<and> (\<forall>c. hasWorkspaceCapability (rp_userId r) w (Some org) (Some m) (Some g) c
               = Inr (c \<in> set (WORKSPACE_CAPABILITIES (wg_role g))))" if "g \<in> set gs" for g
  proof -
    obtain p' :: proposed_grant and w where w: "js_map_get (map (\<lambda>w. (wo_workspaceId w, w)) ws) (pg_workspaceId p') = Some w"
      and g: "validateWorkspaceGrant g w m = Inr g"
      using acceptance_grants_Inr [OF p(4) \<open>g \<in> set gs\<close>] by blast
    from w have "w \<in> set ws" by (auto dest: js_map_get_Some_set)
    moreover have "effective_role (rp_userId r) w (Some org) (Some m) (Some g) = Some (wg_role g)"
      using g p(2,3) by (auto simp: validateWorkspaceGrant_Inr validateWorkspaceOwnership_Inr effective_role_def
          invitation_authorized_def)
    ultimately show ?thesis using g
      by (auto simp: validateWorkspaceGrant_Inr hasWorkspaceCapability_valid p(3) intro!: bexI [of _ w])
  qed
  have "prepareInvitationAcceptance ivt' org inviter r existing ws now newId = Inl invitation_expired"
    by (simp add: p(5) prepareInvitationAcceptance_def invitation_open_def split: option.split)
  moreover have "mb_role m \<noteq> ''owner''" using p(2,3) by (auto simp: invitation_authorized_def)
  ultimately show ?thesis using grants acceptance_grants_map [OF p(4)] p(3) by auto
qed

lemma invitation_acceptance_grants_exactly_witness:
  "hasWorkspaceCapability ''u2'' sample_workspace (Some sample_org) (Some sample_member) (Some sample_grant) ''edit''
     = Inr True"
  using invitation_acceptance_grants_exactly [OF sample_accepted]
  by (simp add: sample_grant_def WORKSPACE_CAPABILITIES_def)

text \<open>C9: An ownership transfer commits only as planned: with recent authentication and ready dependencies, an accepted plan of the
  workspace's personal owner, who still owns it, at the planned revisions of the workspace and of the active receiving
  organization, accepted by that very membership the plan names, an active owner of that organization. So every commit of the same plan
  sees the same workspace, organization and membership at the same revisions: once either revision has moved on it is refused.\<close>
theorem ownership_transfer_commit_guarded:
  assumes "validateOwnershipTransferCommit plan w org m ra ready = Inr ()"
  shows "ra \<and> ready \<and> tp_state plan = ''accepted'' \<and> tp_postTransferRole plan \<in> set WORKSPACE_GRANT_ROLES
    \<and> wo_personalOwnerUserId w = Some (tp_personalOwnerUserId plan) \<and> tp_initiatedByUserId plan = tp_personalOwnerUserId plan
    \<and> wo_workspaceId w = tp_workspaceId plan \<and> wo_revision w = tp_workspaceRevision plan \<and> wo_ownerOrganizationId w = None
    \<and> org_id org = tp_receivingOrganizationId plan \<and> org_revision org = tp_receivingOrganizationRevision plan \<and> org_state org = ''active''
    \<and> active_owner m \<and> mb_id m = tp_acceptedByOwnerMembershipId plan \<and> mb_organizationId m = org_id org
    \<and> (\<forall>w' org' m' ra' ready'. wo_revision w' \<noteq> wo_revision w \<or> org_revision org' \<noteq> org_revision org \<or> mb_id m' \<noteq> mb_id m
         \<or> wo_workspaceId w' \<noteq> wo_workspaceId w \<or> org_id org' \<noteq> org_id org \<longrightarrow>
         validateOwnershipTransferCommit plan w' org' m' ra' ready' \<noteq> Inr ())"
proof -
  have tied: "wo_workspaceId v = tp_workspaceId plan \<and> wo_revision v = tp_workspaceRevision plan \<and> org_id o' = tp_receivingOrganizationId plan
      \<and> org_revision o' = tp_receivingOrganizationRevision plan \<and> mb_id n = tp_acceptedByOwnerMembershipId plan"
    if "validateOwnershipTransferCommit plan v o' n a b = Inr ()" for v o' n a b
    using that by (auto simp: validateOwnershipTransferCommit_def split: if_splits)
  moreover have "ra \<and> ready \<and> tp_state plan = ''accepted'' \<and> tp_postTransferRole plan \<in> set WORKSPACE_GRANT_ROLES
    \<and> wo_personalOwnerUserId w = Some (tp_personalOwnerUserId plan) \<and> tp_initiatedByUserId plan = tp_personalOwnerUserId plan
    \<and> wo_ownerOrganizationId w = None \<and> org_state org = ''active'' \<and> active_owner m \<and> mb_organizationId m = org_id org"
    using assms
    by (auto simp: validateOwnershipTransferCommit_def validateWorkspaceOwnership_Inr active_owner_def active_membership_def split: if_splits)
  ultimately show ?thesis using assms by metis
qed

lemma ownership_transfer_commit_guarded_witness:
  "validateOwnershipTransferCommit \<lparr>tp_id = ''t'', tp_workspaceId = ''w1'', tp_workspaceRevision = 3,
      tp_personalOwnerUserId = ''u9'', tp_receivingOrganizationId = ''o1'', tp_receivingOrganizationRevision = 1,
      tp_initiatedByUserId = ''u9'', tp_acceptedByOwnerMembershipId = ''m1'', tp_postTransferRole = ''manager'',
      tp_state = ''accepted''\<rparr>
    (sample_workspace\<lparr>wo_personalOwnerUserId := Some ''u9'', wo_ownerOrganizationId := None\<rparr>) sample_org sample_owner
    True True = Inr () \<and> active_owner sample_owner"
  (is "?commit = _ \<and> _")
proof -
  have commit: "?commit = Inr ()" by code_simp
  show ?thesis using ownership_transfer_commit_guarded [OF commit] commit by blast
qed

end
