(* ===== verification/Collection_Destinations.thy ===== *)
theory Collection_Destinations
  imports JS_Date
begin

text \<open>
  Destination mappings of a collection and the planner that compares the collection with a remote
  gallery: \<open>packages/core/src/collection-destinations.ts\<close> up to \<open>authorizeCollectionPlan\<close>. Settings the
  code checks at run time are strings. A thrown error is its code; \<open>Range_error\<close> is the one
  \<open>toISOString\<close> throws for a date out of range. Messages shown to a person are left out, and each
  manual step is named by a constructor.
\<close>

subsection \<open>Data\<close>

record gallery_capabilities =
  gc_revision :: int
  gc_listMembership :: bool
  gc_completeMembership :: bool
  gc_addMembership :: bool
  gc_removeMembership :: bool
  gc_membershipMayChangeAccess :: bool
  gc_freshnessMs :: js_number

record mapping_selection =
  ms_workId :: string
  ms_publicationId :: "string option"

record field_rule =
  fr_field :: string
  fr_authority :: string

record destination_mapping =
  dm_id :: string
  dm_collectionId :: string
  dm_accountId :: string
  dm_remoteGalleryId :: string
  dm_role :: string
  dm_audience :: string
  dm_authority :: string
  dm_execution :: string
  dm_scope :: string
  dm_selections :: "mapping_selection list"
  dm_reconciliation :: string
  dm_representation :: string
  dm_removalPolicy :: string
  dm_enabled :: bool
  dm_generation :: int
  dm_revision :: int
  dm_initialReviewAt :: "string option"
  dm_fieldRules :: "field_rule list"

record destination_member =
  de_workId :: string
  de_released :: bool
  de_exclusion :: "string option"
  de_publicationId :: "string option"

record resolved_work =
  rw_publicationId :: string
  rw_workId :: "string option"

record membership_observation =
  mo_id :: string
  mo_mappingId :: string
  mo_publicationIds :: "string list"
  mo_resolvedWorks :: "resolved_work list"
  mo_complete :: bool
  mo_observedAt :: string
  mo_source :: string
  mo_evidence :: "string list"

record sync_inputs =
  si_membership :: int
  si_metadata :: int
  si_release :: int
  si_access :: int
  si_mapping :: int
  si_generation :: int
  si_capability :: int

datatype blocked_reason = Selected_not_member | Publication_missing | Unresolved_remote string

datatype manual_step =
    Membership_unverifiable | Refresh_membership | Confirm_on_platform | Writes_unavailable | Review_removals

datatype plan_comparison = unknown | changes_pending | up_to_date | unresolved
datatype plan_verification = api_verified | manually_confirmed | stale | incomplete | unavailable
datatype plan_effect = membership_effect | access_effect

text \<open>The reason an exclusion carries: the fixed one for unreleased works or the member's own.\<close>

datatype exclusion_reason = Not_released | Excluded_because string

record destination_plan =
  cp_id :: string
  cp_mappingId :: string
  cp_inputs :: sync_inputs
  cp_observationId :: string
  cp_createdAt :: string
  cp_expiresAt :: string
  cp_intendedPublicationIds :: "string list"
  cp_additions :: "string list"
  cp_removals :: "string list"
  cp_inboundAdditions :: "string list"
  cp_inboundRemovals :: "string list"
  cp_excluded :: "(string \<times> exclusion_reason) list"
  cp_blocked :: "(string option \<times> blocked_reason) list"
  cp_manualSteps :: "manual_step list"
  cp_effects :: "plan_effect list"
  cp_comparison :: plan_comparison
  cp_verification :: plan_verification
  cp_exact :: bool

datatype destination_error =
    invalid_mapping | gallery_owned | inbound_authority | field_authority | mirror_controlled
  | stale_plan | review_required | blocked_plan | Range_error

subsection \<open>Mapping validation\<close>

definition valid_settings :: "destination_mapping \<Rightarrow> bool" where
  "valid_settings m \<longleftrightarrow> truthy (dm_id m) \<and> truthy (dm_collectionId m) \<and> truthy (dm_accountId m)
     \<and> truthy (dm_remoteGalleryId m) \<and> dm_authority m \<in> {''platform'', ''native'', ''manual''}
     \<and> dm_execution m \<in> {''manual'', ''automatic''} \<and> dm_role m \<in> {''full'', ''preview'', ''followers'', ''custom''}
     \<and> dm_scope m \<in> {''released'', ''selected''} \<and> dm_reconciliation m \<in> {''exact'', ''custom''}
     \<and> dm_removalPolicy m \<in> {''review'', ''propagate''} \<and> truthy (dm_audience m) \<and> truthy (dm_representation m)
     \<and> safe_int (dm_revision m) \<and> 1 \<le> dm_revision m \<and> safe_int (dm_generation m) \<and> 1 \<le> dm_generation m"

definition valid_selections :: "destination_mapping \<Rightarrow> string list \<Rightarrow> bool" where
  "valid_selections m memberIds \<longleftrightarrow>
     length (js_set (map ms_workId (dm_selections m))) = length (dm_selections m)
     \<and> (\<forall>s \<in> set (dm_selections m). ms_workId s \<in> set memberIds)"

definition valid_field_rules :: "destination_mapping \<Rightarrow> bool" where
  "valid_field_rules m \<longleftrightarrow>
     length (js_set (map fr_field (dm_fieldRules m))) = length (dm_fieldRules m)
     \<and> (\<forall>r \<in> set (dm_fieldRules m). fr_field r \<in> {''title'', ''description'', ''cover'', ''order''}
          \<and> fr_authority r \<in> {''platform'', ''native''})"

definition shares_field :: "destination_mapping \<Rightarrow> destination_mapping \<Rightarrow> bool" where
  "shares_field m n \<longleftrightarrow> (\<exists>rule \<in> set (dm_fieldRules m). \<exists>r \<in> set (dm_fieldRules n). fr_field r = fr_field rule)"

definition validateCollectionMapping ::
  "destination_mapping \<Rightarrow> destination_mapping list \<Rightarrow> string list \<Rightarrow> destination_error + unit" where
  "validateCollectionMapping mapping existing memberIds =
     (if \<not> valid_settings mapping then Inl invalid_mapping
      else if \<not> valid_selections mapping memberIds then Inl invalid_mapping
      else if \<not> valid_field_rules mapping then Inl invalid_mapping
      else if \<not> dm_enabled mapping then Inr ()
      else
        (let others = filter (\<lambda>m. dm_enabled m \<and> dm_id m \<noteq> dm_id mapping) existing
         in if list_ex (\<lambda>m. dm_accountId m = dm_accountId mapping
                \<and> dm_remoteGalleryId m = dm_remoteGalleryId mapping) others then Inl gallery_owned
            else if dm_authority mapping = ''platform''
                \<and> list_ex (\<lambda>m. dm_collectionId m = dm_collectionId mapping \<and> dm_authority m = ''platform'') others
            then Inl inbound_authority
            else if list_ex (\<lambda>m. dm_collectionId m = dm_collectionId mapping \<and> shares_field m mapping) others
            then Inl field_authority
            else Inr ()))"

definition assertIndependentCollectionMembership ::
  "string \<Rightarrow> destination_mapping list \<Rightarrow> destination_error + unit" where
  "assertIndependentCollectionMembership collectionId mappings =
     (if list_ex (\<lambda>m. dm_collectionId m = collectionId \<and> dm_enabled m \<and> dm_authority m = ''platform'') mappings
      then Inl mirror_controlled else Inr ())"

subsection \<open>Planning\<close>

text \<open>
  One pass over the members: the publications added to the \<open>intended\<close> set (here as the list of \<open>add\<close>
  calls), the exclusions and the blockers, each in order.
\<close>

fun plan_members ::
  "destination_mapping \<Rightarrow> destination_member list
   \<Rightarrow> string list \<times> (string \<times> exclusion_reason) list \<times> (string option \<times> blocked_reason) list" where
  "plan_members m [] = ([], [], [])"
| "plan_members m (member # rest) =
     (let (intended, excluded, blocked) = plan_members m rest;
          selection = js_map_get (map (\<lambda>s. (ms_workId s, s)) (dm_selections m)) (de_workId member)
      in if dm_scope m = ''selected'' \<and> selection = None then (intended, excluded, blocked)
         else if \<not> de_released member then (intended, (de_workId member, Not_released) # excluded, blocked)
         else if truthy_opt (de_exclusion member) then
           (intended, (de_workId member, Excluded_because (the (de_exclusion member))) # excluded, blocked)
         else
           (let publication = (case selection of
                   Some s \<Rightarrow> (case ms_publicationId s of Some p \<Rightarrow> Some p | None \<Rightarrow> de_publicationId member)
                 | None \<Rightarrow> de_publicationId member)
            in if \<not> truthy_opt publication
               then (intended, excluded, (Some (de_workId member), Publication_missing) # blocked)
               else (the publication # intended, excluded, blocked)))"

definition selection_blockers ::
  "destination_mapping \<Rightarrow> destination_member list \<Rightarrow> (string option \<times> blocked_reason) list" where
  "selection_blockers m members =
     (if dm_scope m = ''selected''
      then map (\<lambda>s. (Some (ms_workId s), Selected_not_member))
             (filter (\<lambda>s. \<not> list_ex (\<lambda>w. de_workId w = ms_workId s) members) (dm_selections m))
      else [])"

definition resolved_work_id :: "membership_observation \<Rightarrow> string \<Rightarrow> string option" where
  "resolved_work_id obs pid =
     (case js_map_get (map (\<lambda>r. (rw_publicationId r, rw_workId r)) (mo_resolvedWorks obs)) pid of
        None \<Rightarrow> None | Some w \<Rightarrow> w)"

text \<open>The constants of the planner, one definition each, in the order of the code.\<close>

definition plan_inputs_match ::
  "destination_mapping \<Rightarrow> sync_inputs \<Rightarrow> gallery_capabilities \<Rightarrow> membership_observation \<Rightarrow> bool" where
  "plan_inputs_match m inputs c obs \<longleftrightarrow> mo_mappingId obs = dm_id m \<and> si_mapping inputs = dm_revision m
     \<and> si_generation inputs = dm_generation m \<and> si_capability inputs = gc_revision c"

definition observation_fresh :: "gallery_capabilities \<Rightarrow> membership_observation \<Rightarrow> string \<Rightarrow> bool" where
  "observation_fresh c obs now_string = (case (date_parse now_string, date_parse (mo_observedAt obs)) of
     (Some now, Some observed) \<Rightarrow> observed \<le> now \<and> int_le_num (now - observed) (gc_freshnessMs c) | _ \<Rightarrow> False)"

definition observation_complete :: "gallery_capabilities \<Rightarrow> membership_observation \<Rightarrow> bool" where
  "observation_complete c obs \<longleftrightarrow> mo_complete obs \<and> gc_listMembership c \<and> gc_completeMembership c"

abbreviation inbound_mapping :: "destination_mapping \<Rightarrow> bool" where
  "inbound_mapping m \<equiv> dm_authority m = ''platform''"

definition planned_members ::
  "destination_mapping \<Rightarrow> destination_member list
   \<Rightarrow> string list \<times> (string \<times> exclusion_reason) list \<times> (string option \<times> blocked_reason) list" where
  "planned_members m members = plan_members m (if inbound_mapping m then [] else members)"

definition intended_ids :: "destination_mapping \<Rightarrow> destination_member list \<Rightarrow> string list" where
  "intended_ids m members = js_set (fst (planned_members m members))"

definition remote_ids :: "membership_observation \<Rightarrow> string list" where
  "remote_ids obs = js_set (mo_publicationIds obs)"

definition planned_additions ::
  "destination_mapping \<Rightarrow> membership_observation \<Rightarrow> destination_member list \<Rightarrow> string list" where
  "planned_additions m obs members = filter (\<lambda>i. i \<notin> set (remote_ids obs)) (intended_ids m members)"

definition planned_removals ::
  "destination_mapping \<Rightarrow> membership_observation \<Rightarrow> destination_member list \<Rightarrow> string list" where
  "planned_removals m obs members =
     (if dm_reconciliation m = ''exact''
      then filter (\<lambda>i. i \<notin> set (intended_ids m members)) (remote_ids obs) else [])"

definition planned_blocked ::
  "destination_mapping \<Rightarrow> membership_observation \<Rightarrow> destination_member list
   \<Rightarrow> (string option \<times> blocked_reason) list" where
  "planned_blocked m obs members =
     selection_blockers m members @ snd (snd (planned_members m members))
     @ (if inbound_mapping m then map (\<lambda>i. (None, Unresolved_remote i))
          (filter (\<lambda>i. \<not> truthy_opt (resolved_work_id obs i)) (remote_ids obs)) else [])"

definition source_works :: "membership_observation \<Rightarrow> string list" where
  "source_works obs = js_set (filter (\<lambda>w. w \<noteq> []) (List.map_filter (resolved_work_id obs) (remote_ids obs)))"

definition native_works :: "destination_member list \<Rightarrow> string list" where
  "native_works members = js_set (map de_workId members)"

definition inbound_additions ::
  "destination_mapping \<Rightarrow> membership_observation \<Rightarrow> destination_member list \<Rightarrow> string list" where
  "inbound_additions m obs members =
     (if inbound_mapping m then filter (\<lambda>w. w \<notin> set (native_works members)) (source_works obs) else [])"

definition inbound_removals ::
  "destination_mapping \<Rightarrow> gallery_capabilities \<Rightarrow> membership_observation \<Rightarrow> destination_member list \<Rightarrow> string
   \<Rightarrow> string list" where
  "inbound_removals m c obs members now =
     (if inbound_mapping m \<and> observation_complete c obs \<and> observation_fresh c obs now
         \<and> planned_blocked m obs members = []
      then filter (\<lambda>w. w \<notin> set (source_works obs)) (native_works members) else [])"

definition manual_steps_of ::
  "destination_mapping \<Rightarrow> gallery_capabilities \<Rightarrow> membership_observation \<Rightarrow> destination_member list \<Rightarrow> string
   \<Rightarrow> manual_step list" where
  "manual_steps_of m c obs members now =
     (if \<not> observation_complete c obs then [Membership_unverifiable] else [])
     @ (if \<not> observation_fresh c obs now then [Refresh_membership] else [])
     @ (if dm_authority m = ''manual'' then [Confirm_on_platform] else [])
     @ (if dm_authority m = ''native'' \<and>
           (planned_additions m obs members \<noteq> [] \<and> \<not> gc_addMembership c
            \<or> planned_removals m obs members \<noteq> [] \<and> \<not> gc_removeMembership c)
        then [Writes_unavailable] else [])
     @ (if dm_removalPolicy m = ''review''
           \<and> (planned_removals m obs members \<noteq> [] \<or> inbound_removals m c obs members now \<noteq> [])
        then [Review_removals] else [])"

definition planned_differences ::
  "destination_mapping \<Rightarrow> gallery_capabilities \<Rightarrow> membership_observation \<Rightarrow> destination_member list \<Rightarrow> string
   \<Rightarrow> nat" where
  "planned_differences m c obs members now =
     (if inbound_mapping m
      then length (inbound_additions m obs members) + length (inbound_removals m c obs members now)
      else length (planned_additions m obs members) + length (planned_removals m obs members))"

definition planned_exact ::
  "destination_mapping \<Rightarrow> gallery_capabilities \<Rightarrow> membership_observation \<Rightarrow> destination_member list \<Rightarrow> string
   \<Rightarrow> bool" where
  "planned_exact m c obs members now \<longleftrightarrow> dm_reconciliation m = ''exact'' \<and> observation_complete c obs
     \<and> observation_fresh c obs now \<and> planned_blocked m obs members = []
     \<and> planned_differences m c obs members now = 0 \<and> mo_source obs = ''api''"

definition planned_verification ::
  "gallery_capabilities \<Rightarrow> membership_observation \<Rightarrow> string \<Rightarrow> plan_verification" where
  "planned_verification c obs now =
     (if \<not> gc_listMembership c then unavailable else if \<not> observation_fresh c obs now then stale
      else if \<not> observation_complete c obs then incomplete
      else if mo_source obs = ''manual'' then manually_confirmed else api_verified)"

text \<open>
  \<open>new Date(observed + c.freshnessMs).toISOString()\<close> may throw; nothing else after the first check does,
  so its place among the evaluations does not matter.
\<close>

definition plan_record ::
  "string \<Rightarrow> destination_mapping \<Rightarrow> sync_inputs \<Rightarrow> gallery_capabilities \<Rightarrow> membership_observation
   \<Rightarrow> destination_member list \<Rightarrow> string \<Rightarrow> string \<Rightarrow> destination_plan" where
  "plan_record planId m inputs c obs members now expires =
     \<lparr>cp_id = planId, cp_mappingId = dm_id m, cp_inputs = inputs, cp_observationId = mo_id obs,
      cp_createdAt = now, cp_expiresAt = expires, cp_intendedPublicationIds = intended_ids m members,
      cp_additions = (if \<not> inbound_mapping m then planned_additions m obs members else []),
      cp_removals = (if \<not> inbound_mapping m \<and> observation_complete c obs \<and> observation_fresh c obs now
         then planned_removals m obs members else []),
      cp_inboundAdditions = inbound_additions m obs members,
      cp_inboundRemovals = inbound_removals m c obs members now,
      cp_excluded = fst (snd (planned_members m members)), cp_blocked = planned_blocked m obs members,
      cp_manualSteps = manual_steps_of m c obs members now,
      cp_effects = (if gc_membershipMayChangeAccess c then [membership_effect, access_effect]
         else [membership_effect]),
      cp_comparison = (if planned_blocked m obs members \<noteq> [] then unresolved
         else if \<not> observation_complete c obs \<or> \<not> observation_fresh c obs now then unknown
         else if planned_differences m c obs members now \<noteq> 0 then changes_pending else up_to_date),
      cp_verification = planned_verification c obs now,
      cp_exact = planned_exact m c obs members now\<rparr>"

definition planCollectionDestination ::
  "string \<Rightarrow> destination_mapping \<Rightarrow> sync_inputs \<Rightarrow> gallery_capabilities \<Rightarrow> membership_observation
   \<Rightarrow> destination_member list \<Rightarrow> string \<Rightarrow> destination_error + destination_plan" where
  "planCollectionDestination planId m inputs c obs members now =
     (case (date_parse now, date_parse (mo_observedAt obs), gc_freshnessMs c) of
        (Some _, Some observed, Finite freshness) \<Rightarrow>
          if \<not> plan_inputs_match m inputs c obs \<or> freshness \<le> 0 then Inl invalid_mapping
          else (case to_iso (observed + freshness) of
            None \<Rightarrow> Inl Range_error
          | Some expires \<Rightarrow> Inr (plan_record planId m inputs c obs members now expires))
      | _ \<Rightarrow> Inl invalid_mapping)"

definition date_before :: "string \<Rightarrow> string \<Rightarrow> bool" where
  "date_before s t = (case (date_parse s, date_parse t) of (Some a, Some b) \<Rightarrow> a < b | _ \<Rightarrow> False)"

definition assertCurrentCollectionPlan ::
  "destination_plan \<Rightarrow> destination_mapping \<Rightarrow> sync_inputs \<Rightarrow> string \<Rightarrow> destination_error + unit" where
  "assertCurrentCollectionPlan plan mapping current now =
     (if \<not> dm_enabled mapping \<or> cp_mappingId plan \<noteq> dm_id mapping \<or> si_mapping current \<noteq> dm_revision mapping
         \<or> si_generation current \<noteq> dm_generation mapping \<or> cp_inputs plan \<noteq> current
         \<or> date_parse now = None \<or> date_before (cp_expiresAt plan) now
      then Inl stale_plan else Inr ())"

definition authorizeCollectionPlan ::
  "destination_plan \<Rightarrow> destination_mapping \<Rightarrow> bool \<Rightarrow> destination_error + unit" where
  "authorizeCollectionPlan plan mapping reviewed =
     (if cp_blocked plan \<noteq> [] \<or> cp_verification plan \<noteq> api_verified then Inl blocked_plan
      else if dm_authority mapping = ''manual'' then Inl blocked_plan
      else if \<not> reviewed \<and> (\<not> truthy_opt (dm_initialReviewAt mapping) \<or> dm_execution mapping \<noteq> ''automatic''
           \<or> access_effect \<in> set (cp_effects plan)
           \<or> dm_removalPolicy mapping = ''review'' \<and> (cp_removals plan \<noteq> [] \<or> cp_inboundRemovals plan \<noteq> []))
      then Inl review_required
      else Inr ())"


subsection \<open>Facts about the planner\<close>

text \<open>The publication a member of the collection stands for at this destination.\<close>

definition member_publication :: "destination_mapping \<Rightarrow> destination_member \<Rightarrow> string option" where
  "member_publication m w =
     (case js_map_get (map (\<lambda>s. (ms_workId s, s)) (dm_selections m)) (de_workId w) of
        Some s \<Rightarrow> (case ms_publicationId s of Some p \<Rightarrow> Some p | None \<Rightarrow> de_publicationId w)
      | None \<Rightarrow> de_publicationId w)"

definition member_eligible :: "destination_mapping \<Rightarrow> destination_member \<Rightarrow> bool" where
  "member_eligible m w \<longleftrightarrow> (dm_scope m = ''selected'' \<longrightarrow> de_workId w \<in> ms_workId ` set (dm_selections m))
     \<and> de_released w \<and> \<not> truthy_opt (de_exclusion w)"

lemma plan_members_intended:
  "set (fst (plan_members m ws)) =
     {p. p \<noteq> [] \<and> (\<exists>w \<in> set ws. member_eligible m w \<and> member_publication m w = Some p)}"
proof (induction ws)
  case Nil
  then show ?case by simp
next
  case (Cons w ws)
  define sel where "sel = js_map_get (map (\<lambda>s. (ms_workId s, s)) (dm_selections m)) (de_workId w)"
  have none: "sel = None \<longleftrightarrow> de_workId w \<notin> ms_workId ` set (dm_selections m)"
    by (auto simp: sel_def js_map_get_None_iff image_image)
  have pub: "member_publication m w = (case sel of
                 Some s \<Rightarrow> (case ms_publicationId s of Some p \<Rightarrow> Some p | None \<Rightarrow> de_publicationId w)
               | None \<Rightarrow> de_publicationId w)" by (simp add: member_publication_def sel_def)
  obtain i e b where rest: "plan_members m ws = (i, e, b)" by (cases "plan_members m ws")
  have step: "fst (plan_members m (w # ws)) =
      (if member_eligible m w \<and> truthy_opt (member_publication m w) then the (member_publication m w) # i else i)"
    using none rest by (auto simp: sel_def [symmetric] pub [symmetric] member_eligible_def)
  show ?case
    using Cons.IH rest unfolding step by (cases "member_publication m w") auto
qed

lemma intended_ids_set:
  "set (intended_ids m members) = (if inbound_mapping m then {} else
     {p. p \<noteq> [] \<and> (\<exists>w \<in> set members. member_eligible m w \<and> member_publication m w = Some p)})"
  by (simp add: intended_ids_def planned_members_def plan_members_intended)

lemma source_works_set:
  "set (source_works obs) = {w. w \<noteq> [] \<and> (\<exists>i \<in> set (mo_publicationIds obs). resolved_work_id obs i = Some w)}"
  by (force simp: source_works_def remote_ids_def map_filter_def)

lemma plan_fields:
  assumes "planCollectionDestination planId m inputs c obs members now = Inr plan"
  shows "plan_inputs_match m inputs c obs"
    and "cp_mappingId plan = dm_id m" and "cp_inputs plan = inputs"
    and "cp_intendedPublicationIds plan = intended_ids m members"
    and "cp_additions plan = (if \<not> inbound_mapping m then planned_additions m obs members else [])"
    and "cp_removals plan = (if \<not> inbound_mapping m \<and> observation_complete c obs \<and> observation_fresh c obs now
         then planned_removals m obs members else [])"
    and "cp_inboundAdditions plan = inbound_additions m obs members"
    and "cp_inboundRemovals plan = inbound_removals m c obs members now"
    and "cp_blocked plan = planned_blocked m obs members"
    and "cp_comparison plan = (if planned_blocked m obs members \<noteq> [] then unresolved
         else if \<not> observation_complete c obs \<or> \<not> observation_fresh c obs now then unknown
         else if planned_differences m c obs members now \<noteq> 0 then changes_pending else up_to_date)"
    and "cp_verification plan = planned_verification c obs now"
    and "cp_exact plan = planned_exact m c obs members now"
proof -
  obtain expires where "plan = plan_record planId m inputs c obs members now expires \<and> plan_inputs_match m inputs c obs"
    using assms by (auto simp: planCollectionDestination_def split: option.splits js_number.splits if_split_asm)
  then show "plan_inputs_match m inputs c obs"
    and "cp_mappingId plan = dm_id m" and "cp_inputs plan = inputs"
    and "cp_intendedPublicationIds plan = intended_ids m members"
    and "cp_additions plan = (if \<not> inbound_mapping m then planned_additions m obs members else [])"
    and "cp_removals plan = (if \<not> inbound_mapping m \<and> observation_complete c obs \<and> observation_fresh c obs now
         then planned_removals m obs members else [])"
    and "cp_inboundAdditions plan = inbound_additions m obs members"
    and "cp_inboundRemovals plan = inbound_removals m c obs members now"
    and "cp_blocked plan = planned_blocked m obs members"
    and "cp_comparison plan = (if planned_blocked m obs members \<noteq> [] then unresolved
         else if \<not> observation_complete c obs \<or> \<not> observation_fresh c obs now then unknown
         else if planned_differences m c obs members now \<noteq> 0 then changes_pending else up_to_date)"
    and "cp_verification plan = planned_verification c obs now"
    and "cp_exact plan = planned_exact m c obs members now"
    by (simp_all only: plan_record_def destination_plan.select_convs)
qed

lemma observed_sets:
  "set (remote_ids obs) = set (mo_publicationIds obs)" "set (native_works members) = de_workId ` set members"
  by (simp_all add: remote_ids_def native_works_def)

lemma verified_complete_fresh:
  "planned_verification c obs now \<in> {api_verified, manually_confirmed} \<longleftrightarrow>
     observation_complete c obs \<and> observation_fresh c obs now"
  by (auto simp: planned_verification_def observation_complete_def)

lemma unblocked_resolved:
  "planned_blocked m obs members = [] \<Longrightarrow> inbound_mapping m \<Longrightarrow> i \<in> set (mo_publicationIds obs) \<Longrightarrow>
   \<exists>w. w \<noteq> [] \<and> resolved_work_id obs i = Some w"
  by (auto simp: planned_blocked_def filter_empty_conv observed_sets truthy_opt_def split: option.splits)

subsection \<open>Mappings that share a store\<close>

text \<open>Two enabled mappings do not compete for a gallery, an inbound mirror or a native field.\<close>

definition compatible_mappings :: "destination_mapping \<Rightarrow> destination_mapping \<Rightarrow> bool" where
  "compatible_mappings a b \<longleftrightarrow>
     \<not> (dm_accountId a = dm_accountId b \<and> dm_remoteGalleryId a = dm_remoteGalleryId b)
     \<and> (dm_collectionId a = dm_collectionId b \<longrightarrow>
          \<not> (inbound_mapping a \<and> inbound_mapping b) \<and> \<not> shares_field a b)"

definition mappings_exclusive :: "destination_mapping list \<Rightarrow> bool" where
  "mappings_exclusive ms \<longleftrightarrow> distinct (map dm_id ms) \<and> (\<forall>a \<in> set ms. \<forall>b \<in> set ms.
     dm_enabled a \<and> dm_enabled b \<and> dm_id a \<noteq> dm_id b \<longrightarrow> compatible_mappings a b)"

lemma shares_field_sym: "shares_field a b \<longleftrightarrow> shares_field b a"
  by (auto simp: shares_field_def) metis+

lemma compatible_sym: "compatible_mappings a b \<longleftrightarrow> compatible_mappings b a"
  by (auto simp: compatible_mappings_def shares_field_sym)

lemma validateCollectionMapping_Inr:
  "validateCollectionMapping m existing memberIds = Inr () \<longleftrightarrow>
     valid_settings m \<and> valid_selections m memberIds \<and> valid_field_rules m
     \<and> (dm_enabled m \<longrightarrow> (\<forall>n \<in> set existing. dm_enabled n \<and> dm_id n \<noteq> dm_id m \<longrightarrow> compatible_mappings n m))"
  by (auto simp: validateCollectionMapping_def Let_def list_ex_iff compatible_mappings_def split: if_splits)

text \<open>Storing a validated mapping: it replaces the one with its id, or is added.\<close>

definition store_mapping :: "destination_mapping \<Rightarrow> destination_mapping list \<Rightarrow> destination_mapping list" where
  "store_mapping m ms = m # filter (\<lambda>n. dm_id n \<noteq> dm_id m) ms"

inductive mappings_reachable :: "destination_mapping list \<Rightarrow> bool" where
  start: "mappings_reachable []"
| saved: "mappings_reachable ms \<Longrightarrow> validateCollectionMapping m ms memberIds = Inr ()
    \<Longrightarrow> mappings_reachable (store_mapping m ms)"
| deleted: "mappings_reachable ms \<Longrightarrow> mappings_reachable (filter (\<lambda>n. dm_id n \<noteq> i) ms)"

lemma mappings_reachable_exclusive: "mappings_reachable ms \<Longrightarrow> mappings_exclusive ms"
proof (induction rule: mappings_reachable.induct)
  case start
  then show ?case by (simp add: mappings_exclusive_def)
next
  case (saved ms m memberIds)
  then show ?case
    by (auto simp: mappings_exclusive_def store_mapping_def validateCollectionMapping_Inr compatible_sym
        distinct_map_filter)
next
  case (deleted ms i)
  then show ?case by (auto simp: mappings_exclusive_def distinct_map_filter)
qed


subsection \<open>Properties\<close>

text \<open>C10: An outbound plan adds only missing publications and removes only present ones that are not
  intended; every intended publication belongs to a released, unexcluded member in scope. Applying it
  leaves a gallery with every intended publication, and, when the observation was complete and fresh
  and the mapping is exact, with nothing else; otherwise nothing is removed.\<close>
theorem outbound_plan_reaches_intended:
  assumes "planCollectionDestination planId m inputs c obs members now = Inr plan"
    and "dm_authority m \<noteq> ''platform''"
  shows "set (cp_additions plan) \<inter> set (mo_publicationIds obs) = {}
    \<and> set (cp_removals plan) \<subseteq> set (mo_publicationIds obs)
    \<and> set (cp_removals plan) \<inter> set (cp_intendedPublicationIds plan) = {}
    \<and> (\<forall>p \<in> set (cp_intendedPublicationIds plan). \<exists>w \<in> set members. de_released w \<and> \<not> truthy_opt (de_exclusion w)
         \<and> (dm_scope m = ''selected'' \<longrightarrow> de_workId w \<in> ms_workId ` set (dm_selections m))
         \<and> member_publication m w = Some p)
    \<and> set (cp_intendedPublicationIds plan)
        \<subseteq> set (mo_publicationIds obs) - set (cp_removals plan) \<union> set (cp_additions plan)
    \<and> (if dm_reconciliation m = ''exact'' \<and> cp_verification plan \<in> {api_verified, manually_confirmed}
       then set (mo_publicationIds obs) - set (cp_removals plan) \<union> set (cp_additions plan)
              = set (cp_intendedPublicationIds plan)
       else cp_removals plan = [])"
  using assms(2)
  by (auto simp: plan_fields [OF assms(1)] verified_complete_fresh [simplified] planned_additions_def
      planned_removals_def observed_sets intended_ids_set member_eligible_def)

definition sample_mapping :: destination_mapping where
  "sample_mapping = \<lparr>dm_id = ''m'', dm_collectionId = ''c'', dm_accountId = ''a'', dm_remoteGalleryId = ''g'',
     dm_role = ''full'', dm_audience = ''all'', dm_authority = ''native'', dm_execution = ''manual'',
     dm_scope = ''released'', dm_selections = [], dm_reconciliation = ''exact'', dm_representation = ''full'',
     dm_removalPolicy = ''review'', dm_enabled = True, dm_generation = 1, dm_revision = 2,
     dm_initialReviewAt = None, dm_fieldRules = []\<rparr>"

definition sample_inputs :: sync_inputs where
  "sample_inputs = \<lparr>si_membership = 1, si_metadata = 1, si_release = 1, si_access = 1, si_mapping = 2,
     si_generation = 1, si_capability = 5\<rparr>"

definition sample_capabilities :: gallery_capabilities where
  "sample_capabilities = \<lparr>gc_revision = 5, gc_listMembership = True, gc_completeMembership = True,
     gc_addMembership = True, gc_removeMembership = True, gc_membershipMayChangeAccess = False,
     gc_freshnessMs = Finite 3600000\<rparr>"

definition sample_observation :: membership_observation where
  "sample_observation = \<lparr>mo_id = ''o'', mo_mappingId = ''m'', mo_publicationIds = [''p2'', ''p9''],
     mo_resolvedWorks = [\<lparr>rw_publicationId = ''p2'', rw_workId = Some ''w2''\<rparr>,
        \<lparr>rw_publicationId = ''p9'', rw_workId = Some ''w9''\<rparr>], mo_complete = True,
     mo_observedAt = ''2026-01-01T00:00:00.000Z'', mo_source = ''api'', mo_evidence = []\<rparr>"

definition sample_members :: "destination_member list" where
  "sample_members =
    [\<lparr>de_workId = ''w1'', de_released = True, de_exclusion = None, de_publicationId = Some ''p1''\<rparr>,
     \<lparr>de_workId = ''w2'', de_released = True, de_exclusion = None, de_publicationId = Some ''p2''\<rparr>,
     \<lparr>de_workId = ''w3'', de_released = False, de_exclusion = None, de_publicationId = Some ''p3''\<rparr>]"

definition sample_now :: string where
  "sample_now = ''2026-01-01T00:30:00.000Z''"

definition sample_plan :: "string \<Rightarrow> destination_plan" where
  "sample_plan authority =
     (let outbound = (authority = ''native'') in
      \<lparr>cp_id = ''plan'', cp_mappingId = ''m'', cp_inputs = sample_inputs, cp_observationId = ''o'',
       cp_createdAt = sample_now, cp_expiresAt = ''2026-01-01T01:00:00.000Z'',
       cp_intendedPublicationIds = (if outbound then [''p1'', ''p2''] else []),
       cp_additions = (if outbound then [''p1''] else []), cp_removals = (if outbound then [''p9''] else []),
       cp_inboundAdditions = (if outbound then [] else [''w9'']),
       cp_inboundRemovals = (if outbound then [] else [''w1'', ''w3'']),
       cp_excluded = (if outbound then [(''w3'', Not_released)] else []), cp_blocked = [],
       cp_manualSteps = [Review_removals], cp_effects = [membership_effect], cp_comparison = changes_pending,
       cp_verification = api_verified, cp_exact = False\<rparr>)"

lemma sample_dates:
  "date_parse ''2026-01-01T00:00:00.000Z'' = Some 1767225600000"
  "date_parse ''2026-01-01T00:30:00.000Z'' = Some 1767227400000"
  "to_iso 1767229200000 = Some ''2026-01-01T01:00:00.000Z''"
  by code_simp+

lemmas sample_defs = sample_mapping_def sample_inputs_def sample_capabilities_def sample_observation_def
  sample_members_def sample_now_def sample_plan_def

lemmas planner_defs = planCollectionDestination_def plan_record_def plan_inputs_match_def observation_fresh_def
  observation_complete_def planned_members_def intended_ids_def remote_ids_def planned_additions_def
  planned_removals_def planned_blocked_def selection_blockers_def source_works_def native_works_def
  inbound_additions_def inbound_removals_def manual_steps_of_def planned_differences_def planned_exact_def
  planned_verification_def resolved_work_id_def js_map_get_def map_filter_simps

lemma sample_outbound_ok:
  "planCollectionDestination ''plan'' sample_mapping sample_inputs sample_capabilities sample_observation
     sample_members sample_now = Inr (sample_plan ''native'')"
  by (simp add: planner_defs sample_defs sample_dates)

lemma sample_inbound_ok:
  "planCollectionDestination ''plan'' (sample_mapping\<lparr>dm_authority := ''platform''\<rparr>) sample_inputs
     sample_capabilities sample_observation sample_members sample_now = Inr (sample_plan ''platform'')"
  by (simp add: planner_defs sample_defs sample_dates)

lemma outbound_plan_reaches_intended_witness:
  "set (mo_publicationIds sample_observation) - set (cp_removals (sample_plan ''native''))
     \<union> set (cp_additions (sample_plan ''native'')) = {''p1'', ''p2''}"
proof -
  have 1: "dm_authority sample_mapping \<noteq> ''platform''" by (simp add: sample_mapping_def)
  have 2: "dm_reconciliation sample_mapping = ''exact'' \<and>
      cp_verification (sample_plan ''native'') \<in> {api_verified, manually_confirmed}"
    by (simp add: sample_plan_def sample_mapping_def)
  have 3: "cp_intendedPublicationIds (sample_plan ''native'') = [''p1'', ''p2'']" by (simp add: sample_plan_def)
  show ?thesis using outbound_plan_reaches_intended [OF sample_outbound_ok 1] unfolding if_P [OF 2] 3 by simp
qed

text \<open>C11: An inbound plan changes no remote gallery. It removes works from the collection only when the
  observation was complete and fresh and every remote publication was resolved, and then applying it
  turns the collection's works into exactly those the remote gallery shows.\<close>
theorem inbound_plan_mirrors_source:
  assumes "planCollectionDestination planId m inputs c obs members now = Inr plan"
    and "dm_authority m = ''platform''"
  shows "cp_additions plan = [] \<and> cp_removals plan = []
    \<and> (cp_inboundRemovals plan \<noteq> [] \<longrightarrow> cp_verification plan \<in> {api_verified, manually_confirmed}
         \<and> (\<forall>i \<in> set (mo_publicationIds obs). \<exists>w. w \<noteq> [] \<and> resolved_work_id obs i = Some w))
    \<and> (cp_blocked plan = [] \<and> cp_verification plan \<in> {api_verified, manually_confirmed} \<longrightarrow>
         de_workId ` set members - set (cp_inboundRemovals plan) \<union> set (cp_inboundAdditions plan)
           = {w. w \<noteq> [] \<and> (\<exists>i \<in> set (mo_publicationIds obs). resolved_work_id obs i = Some w)})"
proof -
  have "\<exists>w. w \<noteq> [] \<and> resolved_work_id obs i = Some w"
    if "cp_inboundRemovals plan \<noteq> []" "i \<in> set (mo_publicationIds obs)" for i
    using that assms(2) unblocked_resolved [of m obs members i]
    by (auto simp: plan_fields [OF assms(1)] inbound_removals_def split: if_splits)
  moreover have "observation_complete c obs \<and> observation_fresh c obs now" if "cp_inboundRemovals plan \<noteq> []"
    using that by (auto simp: plan_fields [OF assms(1)] inbound_removals_def split: if_splits)
  moreover have "de_workId ` set members - set (cp_inboundRemovals plan) \<union> set (cp_inboundAdditions plan)
           = {w. w \<noteq> [] \<and> (\<exists>i \<in> set (mo_publicationIds obs). resolved_work_id obs i = Some w)}"
    if "cp_blocked plan = []" "cp_verification plan \<in> {api_verified, manually_confirmed}"
  proof -
    have cf: "observation_complete c obs \<and> observation_fresh c obs now"
      using that(2) by (simp only: plan_fields(11) [OF assms(1)] verified_complete_fresh)
    have "set (cp_inboundRemovals plan) = de_workId ` set members - set (source_works obs)"
      using cf that(1) assms(2) by (auto simp: plan_fields [OF assms(1)] inbound_removals_def observed_sets)
    moreover have "set (cp_inboundAdditions plan) = set (source_works obs) - de_workId ` set members"
      using assms(2) by (auto simp: plan_fields [OF assms(1)] inbound_additions_def observed_sets)
    ultimately show ?thesis unfolding source_works_set [symmetric] by auto
  qed
  moreover have "cp_additions plan = [] \<and> cp_removals plan = []"
    using assms(2) by (simp add: plan_fields [OF assms(1)])
  moreover have "cp_verification plan \<in> {api_verified, manually_confirmed}"
    if "observation_complete c obs \<and> observation_fresh c obs now"
    using that unfolding plan_fields(11) [OF assms(1)] verified_complete_fresh .
  ultimately show ?thesis by (intro conjI impI) simp_all
qed

lemma inbound_plan_mirrors_source_witness:
  "de_workId ` set sample_members - set (cp_inboundRemovals (sample_plan ''platform''))
     \<union> set (cp_inboundAdditions (sample_plan ''platform'')) =
   {w. w \<noteq> [] \<and> (\<exists>i \<in> set (mo_publicationIds sample_observation). resolved_work_id sample_observation i = Some w)}
   \<and> cp_inboundRemovals (sample_plan ''platform'') = [''w1'', ''w3'']"
proof -
  have 1: "dm_authority (sample_mapping\<lparr>dm_authority := ''platform''\<rparr>) = ''platform''" by simp
  have 2: "cp_blocked (sample_plan ''platform'') = [] \<and>
      cp_verification (sample_plan ''platform'') \<in> {api_verified, manually_confirmed}"
    by (simp add: sample_plan_def)
  have 3: "cp_inboundRemovals (sample_plan ''platform'') = [''w1'', ''w3'']" by (simp add: sample_plan_def)
  show ?thesis using inbound_plan_mirrors_source [OF sample_inbound_ok 1] 2 3 by blast
qed

text \<open>C12: However mappings are saved after validation and deleted, no two enabled mappings ever share a
  remote gallery, mirror the same collection inbound, or claim the same native field of a collection.\<close>
theorem validated_mappings_stay_exclusive:
  assumes "mappings_reachable ms" and "a \<in> set ms" and "b \<in> set ms" and "a \<noteq> b"
    and "dm_enabled a" and "dm_enabled b"
  shows "\<not> (dm_accountId a = dm_accountId b \<and> dm_remoteGalleryId a = dm_remoteGalleryId b)
    \<and> (dm_collectionId a = dm_collectionId b \<longrightarrow>
         \<not> (dm_authority a = ''platform'' \<and> dm_authority b = ''platform'')
         \<and> fr_field ` set (dm_fieldRules a) \<inter> fr_field ` set (dm_fieldRules b) = {})"
proof -
  have "mappings_exclusive ms" by (rule mappings_reachable_exclusive [OF assms(1)])
  moreover from this have "dm_id a \<noteq> dm_id b"
    using assms(2-4) by (auto simp: mappings_exclusive_def dest: distinct_map_inj)
  ultimately have "compatible_mappings a b" using assms by (auto simp: mappings_exclusive_def)
  moreover have "fr_field ` set (dm_fieldRules a) \<inter> fr_field ` set (dm_fieldRules b) = {}" if "\<not> shares_field a b"
    using that unfolding shares_field_def by force
  ultimately show ?thesis by (auto simp: compatible_mappings_def)
qed

lemma validated_mappings_stay_exclusive_witness:
  "\<exists>ms. mappings_reachable ms \<and> length ms = 2 \<and> (\<forall>a \<in> set ms. \<forall>b \<in> set ms. a \<noteq> b \<longrightarrow>
     \<not> (dm_accountId a = dm_accountId b \<and> dm_remoteGalleryId a = dm_remoteGalleryId b))"
proof -
  define other where "other = sample_mapping\<lparr>dm_id := ''n'', dm_remoteGalleryId := ''h''\<rparr>"
  have "validateCollectionMapping sample_mapping [] [] = Inr ()" by code_simp
  from mappings_reachable.saved [OF mappings_reachable.start this] have 1: "mappings_reachable [sample_mapping]"
    by (simp add: store_mapping_def)
  have "validateCollectionMapping other [sample_mapping] [] = Inr ()" unfolding other_def by code_simp
  from mappings_reachable.saved [OF 1 this] have 2: "mappings_reachable [other, sample_mapping]"
    by (simp add: store_mapping_def other_def sample_mapping_def)
  have en: "dm_enabled x" if "x \<in> set [other, sample_mapping]" for x
    using that by (auto simp: other_def sample_mapping_def)
  show ?thesis
    using validated_mappings_stay_exclusive [OF 2] 2 en by (intro exI [of _ "[other, sample_mapping]"]) auto
qed

end
