(* ===== verification/JS_Json.thy ===== *)
theory JS_Json
  imports Ubeeq_Prelude
begin

text \<open>
  \<open>JSON.stringify\<close> on the values the code turns into keys: strings, integral numbers and arrays of
  them (ECMA-262, QuoteJSONString). Code units are below 256, so there are no surrogates. The rendering
  of a string is injective, also when more text follows it, so arrays of strings used as keys do not
  collide.
\<close>

definition hex_char :: "nat \<Rightarrow> char" where
  "hex_char d = (if d < 10 then char_of (48 + d) else char_of (87 + d))"

definition json_char :: "char \<Rightarrow> string" where
  "json_char c =
     (let n = (of_char c :: nat) in
      if n = 8 then [CHR 0x5C, CHR ''b''] else if n = 9 then [CHR 0x5C, CHR ''t'']
      else if n = 10 then [CHR 0x5C, CHR ''n''] else if n = 12 then [CHR 0x5C, CHR ''f'']
      else if n = 13 then [CHR 0x5C, CHR ''r''] else if n = 34 then [CHR 0x5C, CHR 0x22]
      else if n = 92 then [CHR 0x5C, CHR 0x5C]
      else if n < 32 then [CHR 0x5C, CHR ''u'', CHR ''0'', CHR ''0'', hex_char (n div 16), hex_char (n mod 16)]
      else [c])"

definition json_string :: "string \<Rightarrow> string" where
  "json_string s = CHR 0x22 # concat (map json_char s) @ [CHR 0x22]"

definition int_str :: "int \<Rightarrow> string" where
  "int_str n = (if n < 0 then CHR ''-'' # nat_str (nat (- n)) else nat_str (nat n))"

fun json_items :: "string list \<Rightarrow> string" where
  "json_items [] = ''''"
| "json_items [x] = x"
| "json_items (x # xs) = x @ '','' @ json_items xs"

text \<open>\<open>json_array\<close> takes the rendered elements.\<close>

definition json_array :: "string list \<Rightarrow> string" where
  "json_array xs = ''['' @ json_items xs @ '']''"

text \<open>A decoder of one character of a rendered string; the result is \<open>None\<close> at the closing quote.\<close>

definition unhex :: "char \<Rightarrow> nat" where
  "unhex c = (let n = of_char c in if n < 58 then n - 48 else n - 87)"

definition unescape :: "char \<Rightarrow> string \<Rightarrow> (char \<times> string) option" where
  "unescape b s =
     (if b = CHR ''b'' then Some (char_of (8::nat), s) else if b = CHR ''t'' then Some (char_of (9::nat), s)
      else if b = CHR ''n'' then Some (char_of (10::nat), s) else if b = CHR ''f'' then Some (char_of (12::nat), s)
      else if b = CHR ''r'' then Some (char_of (13::nat), s)
      else if b = CHR 0x22 then Some (CHR 0x22, s) else if b = CHR 0x5C then Some (CHR 0x5C, s)
      else (case s of x # y # h # l # t \<Rightarrow> Some (char_of (16 * unhex h + unhex l), t) | _ \<Rightarrow> None))"

definition json_read :: "string \<Rightarrow> (char \<times> string) option" where
  "json_read s = (case s of [] \<Rightarrow> None
     | a # t \<Rightarrow> if a = CHR 0x22 then None else if a \<noteq> CHR 0x5C then Some (a, t)
               else (case t of [] \<Rightarrow> None | b # u \<Rightarrow> unescape b u))"

lemma unhex_hex_char [simp]: "d < 16 \<Longrightarrow> unhex (hex_char d) = d"
  by (auto simp: unhex_def hex_char_def Let_def)

lemma char_eq_iff_code: "c = d \<longleftrightarrow> (of_char c :: nat) = of_char d"
  by (metis char_of_char)

lemma json_read_json_char [simp]: "json_read (json_char c @ s) = Some (c, s)"
proof -
  define n where "n = (of_char c :: nat)"
  have c: "c = char_of n" by (simp add: n_def)
  have n: "16 * (n div 16) + n mod 16 = n" by simp
  have plain: "c \<noteq> CHR 0x22" "c \<noteq> CHR 0x5C" if "n \<noteq> 34" "n \<noteq> 92"
    using that by (auto simp: char_eq_iff_code n_def)
  have ctrl: "unhex (hex_char (n div 16)) = n div 16" if "n < 32" using that by simp
  show ?thesis
    using plain ctrl n c
    by (auto simp: json_char_def json_read_def unescape_def Let_def n_def [symmetric] char_eq_iff_code)
qed

lemma json_read_quote [simp]: "json_read (CHR 0x22 # s) = None"
  by (simp add: json_read_def)

lemma json_body_prefix:
  "concat (map json_char s) @ CHR 0x22 # x = concat (map json_char t) @ CHR 0x22 # y \<Longrightarrow> s = t \<and> x = y"
proof (induction s arbitrary: t)
  case Nil
  show ?case
  proof (cases t)
    case Nil
    with Nil.prems show ?thesis by simp
  next
    case (Cons b t')
    from Nil.prems have "json_read (CHR 0x22 # x) = json_read (concat (map json_char t) @ CHR 0x22 # y)" by simp
    then show ?thesis by (simp add: Cons)
  qed
next
  case (Cons a s)
  have r: "json_read (concat (map json_char t) @ CHR 0x22 # y) = Some (a, concat (map json_char s) @ CHR 0x22 # x)"
    by (simp add: Cons.prems [symmetric])
  show ?case
  proof (cases t)
    case Nil
    with r show ?thesis by simp
  next
    case c: (Cons b t')
    with r have "a = b" "concat (map json_char s) @ CHR 0x22 # x = concat (map json_char t') @ CHR 0x22 # y"
      by simp_all
    with Cons.IH c show ?thesis by blast
  qed
qed

lemma json_string_append_eq [simp]: "json_string s @ x = json_string t @ y \<longleftrightarrow> s = t \<and> x = y"
  using json_body_prefix [of s x t y] by (auto simp: json_string_def)

lemma json_string_inject [simp]: "json_string s = json_string t \<longleftrightarrow> s = t"
  using json_string_append_eq [of s "[]" t "[]"] by simp

end
