(* ===== verification/Collection_Execution.thy ===== *)
theory Collection_Execution
  imports Collection_Destinations JS_Json
begin

text \<open>
  The outbound executor \<open>executeCollectionDestinationPlan\<close> of
  \<open>packages/core/src/collection-destinations.ts\<close>, against an arbitrary \<open>CollectionSyncExecutionPort\<close>.
  The port is not part of the program: it is a parameter, given by how it answers each request after
  the interactions so far (any deterministic stateful port is one, and every claim holds for all of
  them). The state the executor threads is that history of interactions, the executor's \<open>run\<close> record
  and its \<open>mapping\<close> variable. A request may be answered by a thrown error.
\<close>

subsection \<open>Data\<close>

datatype receipt_kind = add_kind | remove_kind
datatype receipt_state = prepared | confirmed | failed_receipt | uncertain

record operation_receipt =
  or_key :: string
  or_kind :: receipt_kind
  or_publicationId :: string
  or_state :: receipt_state
  or_remoteReceipt :: "string option"

datatype execution_state = queued | running | partially_applied | failed_run | paused | verified | unverified

record sync_execution =
  se_id :: string
  se_planId :: string
  se_mappingId :: string
  se_state :: execution_state
  se_operations :: "operation_receipt list"
  se_startedAt :: "string option"
  se_completedAt :: "string option"
  se_readbackObservationId :: "string option"

record current_view =
  cu_mapping :: destination_mapping
  cu_inputs :: sync_inputs
  cu_archived :: bool
  cu_connected :: bool
  cu_capabilities :: gallery_capabilities

datatype reconcile_result = reconciled_confirmed | not_applied | unknown_outcome

text \<open>An error is one of the domain's or whatever else the port throws.\<close>

datatype sync_error = Destination_error destination_error | Port_error string

subsection \<open>The port\<close>

datatype sync_event =
    Ev_exclusive destination_mapping
  | Ev_now string
  | Ev_current string "sync_error + current_view"
  | Ev_lease destination_mapping "sync_error + unit"
  | Ev_get string "sync_error + sync_execution option"
  | Ev_save sync_execution "sync_error + unit"
  | Ev_effects "sync_error + unit"
  | Ev_reconcile destination_mapping operation_receipt "sync_error + reconcile_result"
  | Ev_prepare destination_mapping operation_receipt "bool list"
  | Ev_write destination_mapping operation_receipt "sync_error + string option"
  | Ev_observe destination_mapping "sync_error + membership_observation option"

type_synonym sync_history = "sync_event list"

text \<open>
  \<open>sp_exclusive\<close> says whether the two leases were obtained. \<open>sp_callbacks\<close> is what the adapter does with
  the \<open>assertCurrent\<close> callback of \<open>writeMembership\<close> before it issues the request: how often it calls it
  and whether it swallows the callback's error each time; \<open>sp_write\<close> is the request itself.
\<close>

record sync_port =
  sp_exclusive :: "sync_history \<Rightarrow> destination_mapping \<Rightarrow> sync_error option"
  sp_now :: "sync_history \<Rightarrow> string"
  sp_current :: "sync_history \<Rightarrow> string \<Rightarrow> sync_error + current_view"
  sp_lease :: "sync_history \<Rightarrow> destination_mapping \<Rightarrow> sync_error + unit"
  sp_get :: "sync_history \<Rightarrow> string \<Rightarrow> sync_error + sync_execution option"
  sp_save :: "sync_history \<Rightarrow> sync_execution \<Rightarrow> sync_error + unit"
  sp_effects :: "sync_history \<Rightarrow> destination_plan \<Rightarrow> bool \<Rightarrow> sync_error + unit"
  sp_reconcile :: "sync_history \<Rightarrow> destination_mapping \<Rightarrow> operation_receipt \<Rightarrow> sync_error + reconcile_result"
  sp_callbacks :: "sync_history \<Rightarrow> destination_mapping \<Rightarrow> operation_receipt \<Rightarrow> bool list"
  sp_write :: "sync_history \<Rightarrow> destination_mapping \<Rightarrow> operation_receipt \<Rightarrow> sync_error + string option"
  sp_observe :: "sync_history \<Rightarrow> destination_mapping \<Rightarrow> sync_error + membership_observation option"

subsection \<open>Sequencing\<close>

text \<open>One request: its answer is recorded at the end of the history.\<close>

definition ask :: "(sync_history \<Rightarrow> 'r) \<Rightarrow> ('r \<Rightarrow> sync_event) \<Rightarrow> sync_history \<Rightarrow> 'r \<times> sync_history" where
  "ask f ev h = (let r = f h in (r, h @ [ev r]))"

definition ask_now :: "sync_port \<Rightarrow> sync_history \<Rightarrow> (sync_error + string) \<times> sync_history" where
  "ask_now port h = (let (t, h') = ask (sp_now port) Ev_now h in (Inr t, h'))"

definition domain_check :: "destination_error + 'a \<Rightarrow> sync_error + 'a" where
  "domain_check r = (case r of Inl e \<Rightarrow> Inl (Destination_error e) | Inr x \<Rightarrow> Inr x)"

subsection \<open>The executor\<close>

text \<open>\<open>check\<close>: everything that must hold immediately before a remote write.\<close>

definition write_supported :: "destination_plan \<Rightarrow> current_view \<Rightarrow> bool" where
  "write_supported plan c \<longleftrightarrow>
     \<not> (cp_additions plan \<noteq> [] \<and> \<not> gc_addMembership (cu_capabilities c)
        \<or> cp_removals plan \<noteq> [] \<and> \<not> gc_removeMembership (cu_capabilities c))"

definition current_check :: "destination_plan \<Rightarrow> bool \<Rightarrow> current_view \<Rightarrow> string \<Rightarrow> destination_error + unit" where
  "current_check plan reviewed c now =
     try_then (assertCurrentCollectionPlan plan (cu_mapping c) (cu_inputs c) now) (\<lambda>_.
       if cu_archived c \<or> \<not> cu_connected c then Inl stale_plan
       else if dm_authority (cu_mapping c) \<noteq> ''native'' then Inl blocked_plan
       else if \<not> write_supported plan c then Inl blocked_plan
       else authorizeCollectionPlan plan (cu_mapping c) reviewed)"

definition check_step ::
  "sync_port \<Rightarrow> destination_plan \<Rightarrow> bool \<Rightarrow> sync_history \<Rightarrow> (sync_error + destination_mapping) \<times> sync_history" where
  "check_step port plan reviewed =
     eff_bind (ask (\<lambda>h. sp_current port h (cp_mappingId plan)) (Ev_current (cp_mappingId plan))) (\<lambda>c.
     eff_bind (ask_now port) (\<lambda>now.
     eff_bind (eff_lift (domain_check (current_check plan reviewed c now))) (\<lambda>_.
     eff_bind (ask (\<lambda>h. sp_effects port h plan reviewed) Ev_effects) (\<lambda>_.
     eff_bind (ask (\<lambda>h. sp_lease port h (cu_mapping c)) (Ev_lease (cu_mapping c))) (\<lambda>_.
     eff_return (cu_mapping c))))))"

text \<open>The initial receipts of a run and the key of each.\<close>

definition kind_str :: "receipt_kind \<Rightarrow> string" where
  "kind_str k = (case k of add_kind \<Rightarrow> ''add'' | remove_kind \<Rightarrow> ''remove'')"

definition operation_key :: "destination_mapping \<Rightarrow> destination_plan \<Rightarrow> receipt_kind \<Rightarrow> string \<Rightarrow> string" where
  "operation_key mapping plan kind publicationId =
     json_array [json_string (dm_id mapping), int_str (dm_generation mapping), json_string (cp_id plan),
       json_string (kind_str kind), json_string publicationId]"

definition initial_operations :: "destination_mapping \<Rightarrow> destination_plan \<Rightarrow> operation_receipt list" where
  "initial_operations mapping plan =
     map (\<lambda>(kind, publicationId). \<lparr>or_key = operation_key mapping plan kind publicationId, or_kind = kind,
            or_publicationId = publicationId, or_state = prepared, or_remoteReceipt = None\<rparr>)
       (map (\<lambda>p. (add_kind, p)) (cp_additions plan) @ map (\<lambda>p. (remove_kind, p)) (cp_removals plan))"

definition initial_run :: "destination_mapping \<Rightarrow> destination_plan \<Rightarrow> sync_execution" where
  "initial_run mapping plan =
     \<lparr>se_id = cp_id plan, se_planId = cp_id plan, se_mappingId = dm_id mapping, se_state = queued,
      se_operations = initial_operations mapping plan, se_startedAt = None, se_completedAt = None,
      se_readbackObservationId = None\<rparr>"

text \<open>The state of the operation loop.\<close>

record loop_state =
  ls_history :: sync_history
  ls_run :: sync_execution
  ls_mapping :: destination_mapping

definition on_port ::
  "(sync_history \<Rightarrow> (sync_error + 'a) \<times> sync_history) \<Rightarrow> loop_state \<Rightarrow> (sync_error + 'a) \<times> loop_state" where
  "on_port f s = (let (r, h) = f (ls_history s) in (r, s\<lparr>ls_history := h\<rparr>))"

definition save_run :: "sync_port \<Rightarrow> loop_state \<Rightarrow> (sync_error + unit) \<times> loop_state" where
  "save_run port s = on_port (ask (\<lambda>h. sp_save port h (ls_run s)) (Ev_save (ls_run s))) s"

definition set_operation ::
  "nat \<Rightarrow> (operation_receipt \<Rightarrow> operation_receipt) \<Rightarrow> loop_state \<Rightarrow> (sync_error + unit) \<times> loop_state" where
  "set_operation i f s =
     (Inr (), s\<lparr>ls_run := (ls_run s)\<lparr>se_operations :=
        (se_operations (ls_run s))[i := f (se_operations (ls_run s) ! i)]\<rparr>\<rparr>)"

definition set_state :: "execution_state \<Rightarrow> loop_state \<Rightarrow> (sync_error + unit) \<times> loop_state" where
  "set_state st s = (Inr (), s\<lparr>ls_run := (ls_run s)\<lparr>se_state := st\<rparr>\<rparr>)"

definition recheck :: "sync_port \<Rightarrow> destination_plan \<Rightarrow> bool \<Rightarrow> loop_state \<Rightarrow> (sync_error + unit) \<times> loop_state" where
  "recheck port plan reviewed =
     eff_bind (on_port (check_step port plan reviewed)) (\<lambda>m s. (Inr (), s\<lparr>ls_mapping := m\<rparr>))"

text \<open>\<open>writeMembership\<close>: the adapter's calls of \<open>assertCurrent\<close>, then the provider request.\<close>

fun callback_steps ::
  "sync_port \<Rightarrow> destination_plan \<Rightarrow> bool \<Rightarrow> bool list \<Rightarrow> sync_history \<Rightarrow> (sync_error + unit) \<times> sync_history" where
  "callback_steps port plan reviewed [] h = (Inr (), h)"
| "callback_steps port plan reviewed (swallow # rest) h =
     (case check_step port plan reviewed h of
        (Inl e, h') \<Rightarrow> if swallow then callback_steps port plan reviewed rest h' else (Inl e, h')
      | (Inr _, h') \<Rightarrow> callback_steps port plan reviewed rest h')"

definition write_step ::
  "sync_port \<Rightarrow> destination_plan \<Rightarrow> bool \<Rightarrow> destination_mapping \<Rightarrow> operation_receipt
   \<Rightarrow> sync_history \<Rightarrow> (sync_error + string option) \<times> sync_history" where
  "write_step port plan reviewed m operation h =
     (let bs = sp_callbacks port h m operation
      in eff_bind (callback_steps port plan reviewed bs)
           (\<lambda>_. ask (\<lambda>h. sp_write port h m operation) (Ev_write m operation))
           (h @ [Ev_prepare m operation bs]))"

datatype loop_outcome = Next_operation | Return_run

text \<open>The body of the \<open>try\<close> for the operation with index \<open>i\<close>.\<close>

definition operation_body ::
  "sync_port \<Rightarrow> destination_plan \<Rightarrow> bool \<Rightarrow> nat \<Rightarrow> loop_state \<Rightarrow> (sync_error + loop_outcome) \<times> loop_state" where
  "operation_body port plan reviewed i =
     eff_bind (recheck port plan reviewed) (\<lambda>_ s.
     eff_bind (on_port (ask (\<lambda>h. sp_reconcile port h (ls_mapping s) (se_operations (ls_run s) ! i))
                            (Ev_reconcile (ls_mapping s) (se_operations (ls_run s) ! i)))) (\<lambda>result.
       case result of
         reconciled_confirmed \<Rightarrow>
           eff_bind (set_operation i (or_state_update (\<lambda>_. confirmed))) (\<lambda>_.
           eff_bind (save_run port) (\<lambda>_. eff_return Next_operation))
       | unknown_outcome \<Rightarrow>
           eff_bind (set_operation i (or_state_update (\<lambda>_. uncertain))) (\<lambda>_.
           eff_bind (set_state partially_applied) (\<lambda>_.
           eff_bind (save_run port) (\<lambda>_. eff_return Return_run)))
       | not_applied \<Rightarrow>
           eff_bind (set_operation i (or_state_update (\<lambda>_. prepared))) (\<lambda>_.
           eff_bind (save_run port) (\<lambda>_.
           eff_bind (recheck port plan reviewed) (\<lambda>_ s.
           eff_bind (on_port (write_step port plan reviewed (ls_mapping s) (se_operations (ls_run s) ! i))) (\<lambda>receipt.
           eff_bind (set_operation i (\<lambda>o'. o'\<lparr>or_remoteReceipt := receipt, or_state := confirmed\<rparr>)) (\<lambda>_.
           eff_bind (save_run port) (\<lambda>_. eff_return Next_operation))) s)))) s)"

definition operation_step ::
  "sync_port \<Rightarrow> destination_plan \<Rightarrow> bool \<Rightarrow> nat \<Rightarrow> loop_state \<Rightarrow> (sync_error + loop_outcome) \<times> loop_state" where
  "operation_step port plan reviewed i s =
     (case operation_body port plan reviewed i s of
        (Inr outcome, s') \<Rightarrow> (Inr outcome, s')
      | (Inl error, s') \<Rightarrow>
          eff_bind (set_operation i (or_state_update (\<lambda>_. uncertain))) (\<lambda>_.
          eff_bind (set_state (if error = Destination_error stale_plan then paused else partially_applied)) (\<lambda>_.
          eff_bind (save_run port) (\<lambda>_. eff_return Return_run))) s')"

fun operation_loop ::
  "sync_port \<Rightarrow> destination_plan \<Rightarrow> bool \<Rightarrow> nat list \<Rightarrow> loop_state \<Rightarrow> (sync_error + loop_outcome) \<times> loop_state" where
  "operation_loop port plan reviewed [] s = (Inr Next_operation, s)"
| "operation_loop port plan reviewed (i # rest) s =
     (if or_state (se_operations (ls_run s) ! i) = confirmed then operation_loop port plan reviewed rest s
      else eff_bind (operation_step port plan reviewed i) (\<lambda>outcome.
        case outcome of Return_run \<Rightarrow> eff_return Return_run
        | Next_operation \<Rightarrow> operation_loop port plan reviewed rest) s)"

text \<open>The readback after the loop.\<close>

definition readback_equal :: "destination_mapping \<Rightarrow> string list \<Rightarrow> string list \<Rightarrow> bool" where
  "readback_equal m intendedIds remoteIds =
     (let intended = js_set intendedIds; remote = js_set remoteIds
      in if dm_reconciliation m = ''exact''
         then length remote = length intended \<and> list_all (\<lambda>i. i \<in> set remote) intended
         else list_all (\<lambda>i. i \<in> set remote) intended)"

definition readback_verified ::
  "destination_plan \<Rightarrow> destination_mapping \<Rightarrow> membership_observation option \<Rightarrow> current_view \<Rightarrow> string \<Rightarrow> bool \<Rightarrow> bool" where
  "readback_verified plan mapping observation current now_string currentPlan \<longleftrightarrow>
     currentPlan \<and> \<not> cu_archived current \<and> cu_connected current
     \<and> (case observation of None \<Rightarrow> False
        | Some obs \<Rightarrow> mo_mappingId obs = dm_id mapping \<and> mo_source obs = ''api'' \<and> mo_complete obs
            \<and> gc_completeMembership (cu_capabilities current)
            \<and> (case (date_parse (mo_observedAt obs), date_parse now_string) of
                 (Some observedAt, Some now) \<Rightarrow> observedAt \<le> now
                   \<and> int_le_num (now - observedAt) (gc_freshnessMs (cu_capabilities current))
               | _ \<Rightarrow> False)
            \<and> readback_equal (cu_mapping current) (cp_intendedPublicationIds plan) (mo_publicationIds obs))"

definition finish_run ::
  "sync_port \<Rightarrow> destination_plan \<Rightarrow> loop_state \<Rightarrow> (sync_error + unit) \<times> loop_state" where
  "finish_run port plan s =
     eff_bind (on_port (ask (\<lambda>h. sp_observe port h (ls_mapping s)) (Ev_observe (ls_mapping s)))) (\<lambda>observation.
     eff_bind (on_port (ask (\<lambda>h. sp_current port h (dm_id (ls_mapping s))) (Ev_current (dm_id (ls_mapping s))))) (\<lambda>current.
     eff_bind (on_port (ask_now port)) (\<lambda>now.
     eff_bind (on_port (ask_now port)) (\<lambda>now2.
     let currentPlan = (assertCurrentCollectionPlan plan (cu_mapping current) (cu_inputs current) now2 = Inr ())
     in eff_bind (on_port (ask_now port)) (\<lambda>now3 s'.
          save_run port (s'\<lparr>ls_run := (ls_run s')
            \<lparr>se_readbackObservationId := map_option mo_id observation,
             se_state := (if readback_verified plan (ls_mapping s) observation current now currentPlan
                          then verified else unverified),
             se_completedAt := Some now3\<rparr>\<rparr>)))))) s"

text \<open>The operation run under the leases.\<close>

definition execute_locked ::
  "sync_port \<Rightarrow> destination_plan \<Rightarrow> bool \<Rightarrow> sync_history \<Rightarrow> (sync_error + sync_execution) \<times> sync_history" where
  "execute_locked port plan reviewed =
     eff_bind (check_step port plan reviewed) (\<lambda>mapping.
     eff_bind (ask (\<lambda>h. sp_get port h (cp_id plan)) (Ev_get (cp_id plan))) (\<lambda>saved.
     if (case saved of Some r \<Rightarrow> se_state r = verified | None \<Rightarrow> False) then eff_return (the saved)
     else
      (let run = (case saved of Some r \<Rightarrow> r | None \<Rightarrow> initial_run mapping plan)
       in eff_bind (case se_startedAt run of Some t \<Rightarrow> eff_return t | None \<Rightarrow> ask_now port) (\<lambda>started h.
            (let s = \<lparr>ls_history = h, ls_run = run\<lparr>se_state := running, se_startedAt := Some started\<rparr>,
                      ls_mapping = mapping\<rparr>;
                 (r, s') = eff_bind (save_run port) (\<lambda>_ s1.
                    eff_bind (operation_loop port plan reviewed [0..<length (se_operations (ls_run s1))]) (\<lambda>outcome s2.
                      case outcome of Return_run \<Rightarrow> (Inr (), s2) | Next_operation \<Rightarrow> finish_run port plan s2) s1) s
             in (case r of Inl e \<Rightarrow> Inl e | Inr _ \<Rightarrow> Inr (ls_run s'), ls_history s'))))))"

definition executeCollectionDestinationPlan ::
  "sync_port \<Rightarrow> destination_plan \<Rightarrow> destination_mapping \<Rightarrow> bool \<Rightarrow> sync_history
   \<Rightarrow> (sync_error + sync_execution) \<times> sync_history" where
  "executeCollectionDestinationPlan port plan mapping reviewed h =
     (case sp_exclusive port h mapping of
        Some e \<Rightarrow> (Inl e, h @ [Ev_exclusive mapping])
      | None \<Rightarrow> execute_locked port plan reviewed (h @ [Ev_exclusive mapping]))"


subsection \<open>Facts about the steps\<close>

text \<open>What a request to the port adds to the history, with no provider write among it.\<close>

fun is_write :: "sync_event \<Rightarrow> bool" where
  "is_write (Ev_write m operation r) = True"
| "is_write _ = False"

definition check_event :: "sync_event \<Rightarrow> bool" where
  "check_event e = (case e of Ev_current i r \<Rightarrow> True | Ev_now t \<Rightarrow> True | Ev_effects r \<Rightarrow> True | Ev_lease m r \<Rightarrow> True
     | _ \<Rightarrow> False)"

lemma check_event_no_write: "list_all check_event es \<Longrightarrow> \<not> list_ex is_write es"
  by (induction es) (auto simp: check_event_def split: sync_event.splits)

text \<open>The events of a check that succeeded with mapping \<open>m\<close>.\<close>

definition passed_check :: "destination_plan \<Rightarrow> bool \<Rightarrow> destination_mapping \<Rightarrow> sync_event list \<Rightarrow> bool" where
  "passed_check plan reviewed m es \<longleftrightarrow> (\<exists>c now. m = cu_mapping c \<and> current_check plan reviewed c now = Inr ()
     \<and> es = [Ev_current (cp_mappingId plan) (Inr c), Ev_now now, Ev_effects (Inr ()), Ev_lease m (Inr ())])"

lemma check_step_history:
  assumes "check_step port plan reviewed h = (r, h')"
  shows "\<exists>es. h' = h @ es \<and> list_all check_event es \<and> (\<forall>m. r = Inr m \<longrightarrow> passed_check plan reviewed m es)"
  using assms unfolding check_step_def
  by (elim eff_bindE)
    (auto simp: ask_def ask_now_def Let_def eff_lift_def eff_return_def domain_check_def check_event_def passed_check_def
      split: sum.splits)

lemma callback_steps_history:
  "callback_steps port plan reviewed bs h = (r, h') \<Longrightarrow> \<exists>es. h' = h @ es \<and> list_all check_event es"
proof (induction bs arbitrary: h)
  case Nil
  then show ?case by simp
next
  case (Cons b bs)
  obtain r1 h1 where c: "check_step port plan reviewed h = (r1, h1)" by (cases "check_step port plan reviewed h")
  then obtain es where es: "h1 = h @ es" "list_all check_event es" using check_step_history by blast
  show ?case
  proof (cases "callback_steps port plan reviewed bs h1 = (r, h')")
    case True
    then show ?thesis using Cons.IH [OF True] es by auto
  next
    case False
    then show ?thesis using Cons.prems c es by (auto split: sum.splits if_splits)
  qed
qed

text \<open>
  A write is justified by what precedes it: reconciliation found the operation not applied, the run with
  the prepared receipt was saved, and then a full check passed for the very mapping written to; nothing
  but further checks happened since.
\<close>

definition justified_write ::
  "destination_plan \<Rightarrow> bool \<Rightarrow> sync_event list \<Rightarrow> destination_mapping \<Rightarrow> operation_receipt \<Rightarrow> bool" where
  "justified_write plan reviewed pre m operation \<longleftrightarrow>
     (\<exists>before m0 o0 run checked bs callbacks.
        pre = before @ [Ev_reconcile m0 o0 (Inr not_applied), Ev_save run (Inr ())] @ checked
                @ [Ev_prepare m operation bs] @ callbacks
        \<and> operation = o0\<lparr>or_state := prepared\<rparr> \<and> operation \<in> set (se_operations run)
        \<and> passed_check plan reviewed m checked \<and> list_all check_event callbacks)"

definition writes_justified :: "destination_plan \<Rightarrow> bool \<Rightarrow> sync_event list \<Rightarrow> bool" where
  "writes_justified plan reviewed es \<longleftrightarrow> (\<forall>pre m operation r post.
     es = pre @ Ev_write m operation r # post \<longrightarrow> justified_write plan reviewed pre m operation)"

lemma justified_write_prefix:
  "justified_write plan reviewed pre m operation \<Longrightarrow> justified_write plan reviewed (xs @ pre) m operation"
  unfolding justified_write_def by (metis append_assoc)

lemma writes_justified_no_write: "\<not> list_ex is_write es \<Longrightarrow> writes_justified plan reviewed es"
  by (auto simp: writes_justified_def)

lemma writes_justified_append:
  assumes "writes_justified plan reviewed xs" and "writes_justified plan reviewed ys"
  shows "writes_justified plan reviewed (xs @ ys)"
  unfolding writes_justified_def
proof (intro allI impI)
  fix pre m operation r post
  assume "xs @ ys = pre @ Ev_write m operation r # post"
  then consider us where "xs = pre @ us" "us @ ys = Ev_write m operation r # post"
    | us where "pre = xs @ us" "ys = us @ Ev_write m operation r # post"
    by (auto simp: append_eq_append_conv2)
  then show "justified_write plan reviewed pre m operation"
  proof cases
    case 1
    then show ?thesis
    proof (cases us)
      case Nil
      then show ?thesis using 1 assms(2) justified_write_prefix [of plan reviewed "[]" m operation pre]
        by (auto simp: writes_justified_def)
    next
      case (Cons a list)
      then show ?thesis using 1 assms(1) by (auto simp: writes_justified_def)
    qed
  next
    case 2
    then show ?thesis using assms(2) by (auto simp: writes_justified_def intro: justified_write_prefix)
  qed
qed

lemma writes_justified_write:
  "\<not> list_ex is_write pre \<Longrightarrow> justified_write plan reviewed pre m operation \<Longrightarrow>
   writes_justified plan reviewed (pre @ [Ev_write m operation r])"
  by (auto simp: writes_justified_def append_eq_append_conv2 Cons_eq_append_conv append_eq_Cons_conv)


text \<open>A step of the loop that only adds justified writes to the history.\<close>

definition adds_justified ::
  "destination_plan \<Rightarrow> bool \<Rightarrow> (loop_state \<Rightarrow> (sync_error + 'a) \<times> loop_state) \<Rightarrow> bool" where
  "adds_justified plan reviewed f \<longleftrightarrow> (\<forall>s r s'. f s = (r, s') \<longrightarrow>
     (\<exists>es. ls_history s' = ls_history s @ es \<and> writes_justified plan reviewed es))"

lemma adds_justifiedD:
  "adds_justified plan reviewed f \<Longrightarrow> f s = (r, s') \<Longrightarrow>
   \<exists>es. ls_history s' = ls_history s @ es \<and> writes_justified plan reviewed es"
  by (auto simp: adds_justified_def)

lemma adds_justified_bind [inv_intros]:
  assumes "adds_justified plan reviewed f" and "\<And>x. adds_justified plan reviewed (g x)"
  shows "adds_justified plan reviewed (eff_bind f g)"
  unfolding adds_justified_def
proof (intro allI impI)
  fix s r s'
  assume "eff_bind f g s = (r, s')"
  then show "\<exists>es. ls_history s' = ls_history s @ es \<and> writes_justified plan reviewed es"
  proof (cases rule: eff_bindE)
    case (throws e)
    then show ?thesis using assms(1) by (blast dest: adds_justifiedD)
  next
    case (continues x s1)
    obtain es1 where 1: "ls_history s1 = ls_history s @ es1" "writes_justified plan reviewed es1"
      using adds_justifiedD [OF assms(1) continues(1)] by blast
    obtain es2 where 2: "ls_history s' = ls_history s1 @ es2" "writes_justified plan reviewed es2"
      using adds_justifiedD [OF assms(2) continues(2)] by blast
    show ?thesis using 1 2 by (auto intro: writes_justified_append)
  qed
qed

lemma adds_justified_return [inv_intros]: "adds_justified plan reviewed (eff_return x)"
  by (auto simp: adds_justified_def eff_return_def writes_justified_def)

lemma adds_justified_pure [inv_intros]:
  "adds_justified plan reviewed (set_operation i f)" "adds_justified plan reviewed (set_state st)"
  by (auto simp: adds_justified_def set_operation_def set_state_def writes_justified_def)

lemma save_run_eq:
  "save_run port s = (let r = sp_save port (ls_history s) (ls_run s) in (r, s\<lparr>ls_history := ls_history s @ [Ev_save (ls_run s) r]\<rparr>))"
  by (simp add: save_run_def on_port_def ask_def Let_def)

lemma adds_justified_save [inv_intros]: "adds_justified plan reviewed (save_run port)"
  by (auto simp: adds_justified_def save_run_eq Let_def intro!: writes_justified_no_write)

lemma adds_justified_ask:
  assumes "\<And>x. \<not> is_write (ev x)"
  shows "adds_justified plan reviewed (on_port (ask f ev))"
  using assms by (auto simp: adds_justified_def on_port_def ask_def Let_def intro!: writes_justified_no_write)

lemma recheck_history:
  assumes "recheck port plan reviewed s = (r, s')"
  shows "\<exists>es. ls_history s' = ls_history s @ es \<and> list_all check_event es \<and> ls_run s' = ls_run s
    \<and> (r = Inr () \<longrightarrow> passed_check plan reviewed (ls_mapping s') es)"
proof -
  obtain r1 h1 where c: "check_step port plan reviewed (ls_history s) = (r1, h1)"
    by (cases "check_step port plan reviewed (ls_history s)")
  obtain es where "h1 = ls_history s @ es" "list_all check_event es" "\<forall>m. r1 = Inr m \<longrightarrow> passed_check plan reviewed m es"
    using check_step_history [OF c] by blast
  then show ?thesis using assms c
    by (cases r1) (auto simp: recheck_def eff_bind_def on_port_def)
qed

lemma adds_justified_recheck [inv_intros]: "adds_justified plan reviewed (recheck port plan reviewed)"
  unfolding adds_justified_def
  by (metis recheck_history check_event_no_write writes_justified_no_write)

lemma write_step_history:
  assumes "write_step port plan reviewed m operation h = (r, h')"
  shows "\<exists>bs cs ws. h' = h @ [Ev_prepare m operation bs] @ cs @ ws \<and> list_all check_event cs
    \<and> (ws = [] \<or> (\<exists>w. ws = [Ev_write m operation w]))"
proof -
  let ?bs = "sp_callbacks port h m operation"
  let ?h = "h @ [Ev_prepare m operation ?bs]"
  obtain r1 h1 where c: "callback_steps port plan reviewed ?bs ?h = (r1, h1)"
    by (cases "callback_steps port plan reviewed ?bs ?h")
  obtain es where es: "h1 = ?h @ es" "list_all check_event es" using callback_steps_history [OF c] by blast
  show ?thesis
  proof (cases r1)
    case (Inl e)
    then have "h' = ?h @ es" using assms c es by (simp add: write_step_def Let_def eff_bind_def)
    then show ?thesis using es by (metis append_assoc append_Nil2)
  next
    case (Inr u)
    then have "h' = ?h @ es @ [Ev_write m operation r]"
      using assms c es by (auto simp: write_step_def Let_def eff_bind_def ask_def)
    then show ?thesis using es by (metis append_assoc)
  qed
qed

text \<open>The part of the body after reconciliation answered that the operation is not applied.\<close>

lemma not_applied_tail:
  assumes "eff_bind (set_operation i (or_state_update (\<lambda>_. prepared))) (\<lambda>_.
           eff_bind (save_run port) (\<lambda>_.
           eff_bind (recheck port plan reviewed) (\<lambda>_ s.
           eff_bind (on_port (write_step port plan reviewed (ls_mapping s) (se_operations (ls_run s) ! i))) (\<lambda>receipt.
           eff_bind (set_operation i (\<lambda>o'. o'\<lparr>or_remoteReceipt := receipt, or_state := confirmed\<rparr>)) (\<lambda>_.
           eff_bind (save_run port) (\<lambda>_. eff_return Next_operation))) s))) s = (r, s')"
    and "i < length (se_operations (ls_run s))"
    and "rec = Ev_reconcile m0 (se_operations (ls_run s) ! i) (Inr not_applied)"
  shows "\<exists>es. ls_history s' = ls_history s @ es \<and> writes_justified plan reviewed (rec # es)"
proof -
  let ?o = "(se_operations (ls_run s) ! i)\<lparr>or_state := prepared\<rparr>"
  let ?run = "(ls_run s)\<lparr>se_operations := (se_operations (ls_run s))[i := ?o]\<rparr>"
  define rest where "rest = (\<lambda>receipt. eff_bind (set_operation i (\<lambda>o'. o'\<lparr>or_remoteReceipt := receipt, or_state := confirmed\<rparr>))
      (\<lambda>_. eff_bind (save_run port) (\<lambda>_. (eff_return Next_operation :: loop_state \<Rightarrow> (sync_error + loop_outcome) \<times> loop_state))))"
  have rest: "adds_justified plan reviewed (rest receipt)" for receipt
    unfolding rest_def by (intro inv_intros)
  define s1 where "s1 = s\<lparr>ls_run := ?run\<rparr>"
  have "eff_bind (save_run port) (\<lambda>_.
           eff_bind (recheck port plan reviewed) (\<lambda>_ s.
           eff_bind (on_port (write_step port plan reviewed (ls_mapping s) (se_operations (ls_run s) ! i))) rest s)) s1 = (r, s')"
    using assms(1) by (simp add: rest_def set_operation_def eff_bind_def [of "set_operation _ _"] s1_def)
  then show ?thesis
  proof (cases rule: eff_bindE)
    case (throws e)
    then show ?thesis
      by (auto simp: save_run_eq Let_def s1_def assms(3) intro!: exI [of _ "[Ev_save ?run (Inl e)]"] writes_justified_no_write)
  next
    case (continues x s2)
    then have s2: "ls_history s2 = ls_history s @ [Ev_save ?run (Inr ())]" "ls_run s2 = ?run"
      by (auto simp: save_run_eq Let_def s1_def)
    from continues(2) show ?thesis
    proof (cases rule: eff_bindE)
      case (throws e)
      then obtain es where "ls_history s' = ls_history s2 @ es" "list_all check_event es"
        using recheck_history by blast
      then show ?thesis using s2 check_event_no_write [of es]
        by (intro exI [of _ "[Ev_save ?run (Inr ())] @ es"]) (auto simp: assms(3) intro!: writes_justified_no_write)
    next
      case (continues y s3)
      obtain checked where ck: "ls_history s3 = ls_history s2 @ checked" "list_all check_event checked"
          "ls_run s3 = ?run" "passed_check plan reviewed (ls_mapping s3) checked"
        using recheck_history [OF continues(1)] s2 by auto
      have op: "se_operations (ls_run s3) ! i = ?o" using ck(3) assms(2) by simp
      define pre where "pre = rec # Ev_save ?run (Inr ()) # checked"
      have final: "\<exists>es. ls_history s' = ls_history s @ es \<and> writes_justified plan reviewed (rec # es)"
        if "ls_history s4 = ls_history s3 @ [Ev_prepare (ls_mapping s3) ?o bs] @ cs @ ws" "list_all check_event cs"
          "ws = [] \<or> (\<exists>w. ws = [Ev_write (ls_mapping s3) ?o w])"
          "ls_history s' = ls_history s4 @ es" "writes_justified plan reviewed es" for s4 bs cs ws es
      proof -
        let ?pre = "pre @ [Ev_prepare (ls_mapping s3) ?o bs] @ cs"
        have nw: "\<not> list_ex is_write ?pre"
          using check_event_no_write [OF ck(2)] check_event_no_write [OF that(2)] by (simp add: pre_def assms(3))
        have "?o \<in> set (se_operations ?run)" using assms(2) by (simp add: set_update_memI)
        then have "justified_write plan reviewed ?pre (ls_mapping s3) ?o"
          unfolding justified_write_def using ck(4) that(2)
          by (intro exI [of _ "[]"] exI [of _ m0] exI [of _ "se_operations (ls_run s) ! i"] exI [of _ ?run]
              exI [of _ checked] exI [of _ bs] exI [of _ cs]) (simp add: pre_def assms(3))
        then have "writes_justified plan reviewed (?pre @ ws)"
          using that(3) nw writes_justified_write writes_justified_no_write by (metis append_Nil2)
        then have "writes_justified plan reviewed ((?pre @ ws) @ es)"
          using that(5) by (rule writes_justified_append)
        then show ?thesis using that(1,4) ck(1) s2(1)
          by (intro exI [of _ "Ev_save ?run (Inr ()) # checked @ [Ev_prepare (ls_mapping s3) ?o bs] @ cs @ ws @ es"])
            (simp add: pre_def)
      qed
      from continues(2) [unfolded op] show ?thesis
      proof (cases rule: eff_bindE)
        case (throws e)
        obtain h4 r4 where w: "write_step port plan reviewed (ls_mapping s3) ?o (ls_history s3) = (r4, h4)"
          by (cases "write_step port plan reviewed (ls_mapping s3) ?o (ls_history s3)")
        with throws have "ls_history s' = h4" by (auto simp: on_port_def)
        moreover obtain bs cs ws where "h4 = ls_history s3 @ [Ev_prepare (ls_mapping s3) ?o bs] @ cs @ ws"
            "list_all check_event cs" "ws = [] \<or> (\<exists>w. ws = [Ev_write (ls_mapping s3) ?o w])"
          using write_step_history [OF w] by blast
        ultimately show ?thesis using final [of s' bs cs ws "[]"] by (simp add: writes_justified_no_write)
      next
        case (continues z s4)
        obtain h4 r4 where w: "write_step port plan reviewed (ls_mapping s3) ?o (ls_history s3) = (r4, h4)"
          by (cases "write_step port plan reviewed (ls_mapping s3) ?o (ls_history s3)")
        with continues have "ls_history s4 = h4" by (auto simp: on_port_def)
        with write_step_history [OF w] adds_justifiedD [OF rest continues(2)] show ?thesis
          by (metis final)
      qed
    qed
  qed
qed

lemma operation_body_justified:
  assumes "operation_body port plan reviewed i s = (r, s')" and "i < length (se_operations (ls_run s))"
  shows "\<exists>es. ls_history s' = ls_history s @ es \<and> writes_justified plan reviewed es"
  using assms(1) unfolding operation_body_def
proof (cases rule: eff_bindE)
  case (throws e)
  then show ?thesis by (blast dest: adds_justifiedD [OF adds_justified_recheck])
next
  case (continues x s1)
  obtain es where es: "ls_history s1 = ls_history s @ es" "list_all check_event es" "ls_run s1 = ls_run s"
    using recheck_history [OF continues(1)] by blast
  have nw: "writes_justified plan reviewed es" by (intro writes_justified_no_write check_event_no_write es(2))
  let ?o = "se_operations (ls_run s1) ! i"
  from continues(2) show ?thesis
  proof (cases rule: eff_bindE)
    case (throws e)
    then show ?thesis using es nw check_event_no_write [OF es(2)]
      by (auto simp: on_port_def ask_def Let_def intro!: writes_justified_append writes_justified_no_write)
  next
    case (continues result s2)
    then have s2: "ls_history s2 = ls_history s1 @ [Ev_reconcile (ls_mapping s1) ?o (Inr result)]" "ls_run s2 = ls_run s1"
      by (auto simp: on_port_def ask_def Let_def)
    have "\<exists>es2. ls_history s' = ls_history s2 @ es2
        \<and> writes_justified plan reviewed (Ev_reconcile (ls_mapping s1) ?o (Inr result) # es2)"
    proof (cases result)
      case not_applied
      show ?thesis
      proof (rule not_applied_tail)
        show "i < length (se_operations (ls_run s2))" using assms(2) es(3) s2(2) by simp
        show "Ev_reconcile (ls_mapping s1) ?o (Inr result) = Ev_reconcile (ls_mapping s1) (se_operations (ls_run s2) ! i) (Inr not_applied)"
          using s2(2) not_applied by simp
      qed (use continues(2) not_applied in simp)
    next
      case reconciled_confirmed
      have "adds_justified plan reviewed (eff_bind (set_operation i (or_state_update (\<lambda>_. confirmed))) (\<lambda>_.
           eff_bind (save_run port) (\<lambda>_. eff_return Next_operation)))" by (intro inv_intros)
      from adds_justifiedD [OF this, of s2 r s'] continues(2) reconciled_confirmed
      obtain es2 where "ls_history s' = ls_history s2 @ es2" "writes_justified plan reviewed es2" by auto
      then show ?thesis
        using writes_justified_append [OF writes_justified_no_write [of "[Ev_reconcile (ls_mapping s1) ?o (Inr result)]"]]
        by auto
    next
      case unknown_outcome
      have "adds_justified plan reviewed (eff_bind (set_operation i (or_state_update (\<lambda>_. uncertain))) (\<lambda>_.
           eff_bind (set_state partially_applied) (\<lambda>_.
           eff_bind (save_run port) (\<lambda>_. eff_return Return_run))))" by (intro inv_intros)
      from adds_justifiedD [OF this, of s2 r s'] continues(2) unknown_outcome
      obtain es2 where "ls_history s' = ls_history s2 @ es2" "writes_justified plan reviewed es2" by auto
      then show ?thesis
        using writes_justified_append [OF writes_justified_no_write [of "[Ev_reconcile (ls_mapping s1) ?o (Inr result)]"]]
        by auto
    qed
    then show ?thesis using es(1) s2(1) nw writes_justified_append by fastforce
  qed
qed


text \<open>The shape of the list of operations: the loop changes only receipts and states.\<close>

lemma operation_step_justified:
  assumes "operation_step port plan reviewed i s = (r, s')" and "i < length (se_operations (ls_run s))"
  shows "\<exists>es. ls_history s' = ls_history s @ es \<and> writes_justified plan reviewed es"
proof -
  obtain r1 s1 where b: "operation_body port plan reviewed i s = (r1, s1)" by (cases "operation_body port plan reviewed i s")
  obtain es where es: "ls_history s1 = ls_history s @ es" "writes_justified plan reviewed es"
    using operation_body_justified [OF b assms(2)] by blast
  show ?thesis
  proof (cases r1)
    case (Inr outcome)
    then show ?thesis using assms(1) b es by (simp add: operation_step_def)
  next
    case (Inl error)
    let ?catch = "eff_bind (set_operation i (or_state_update (\<lambda>_. uncertain))) (\<lambda>_.
          eff_bind (set_state (if error = Destination_error stale_plan then paused else partially_applied)) (\<lambda>_.
          eff_bind (save_run port) (\<lambda>_. eff_return Return_run)))"
    have "adds_justified plan reviewed ?catch" by (intro inv_intros)
    from adds_justifiedD [OF this, of s1 r s'] assms(1) b Inl
    obtain es2 where "ls_history s' = ls_history s1 @ es2" "writes_justified plan reviewed es2"
      by (auto simp: operation_step_def)
    then show ?thesis using es by (auto intro: writes_justified_append)
  qed
qed


subsubsection \<open>What the loop leaves unchanged\<close>

text \<open>
  A step for operation \<open>i\<close> keeps every other operation and the number of operations; \<open>confirms\<close> says
  that it ends the try block normally only with the operation confirmed.
\<close>

definition touches_only :: "nat \<Rightarrow> (loop_state \<Rightarrow> (sync_error + 'a) \<times> loop_state) \<Rightarrow> bool" where
  "touches_only i f \<longleftrightarrow> (\<forall>s r s'. f s = (r, s') \<longrightarrow>
     length (se_operations (ls_run s')) = length (se_operations (ls_run s))
     \<and> (\<forall>j. j \<noteq> i \<longrightarrow> se_operations (ls_run s') ! j = se_operations (ls_run s) ! j))"

lemma touches_only_bind [inv_intros]:
  "touches_only i f \<Longrightarrow> (\<And>x. touches_only i (g x)) \<Longrightarrow> touches_only i (eff_bind f g)"
  unfolding touches_only_def by (intro allI impI, elim eff_bindE) (metis, metis)

lemma touches_only_bind_state [inv_intros]:
  "touches_only i f \<Longrightarrow> (\<And>x s0. touches_only i (g x s0)) \<Longrightarrow> touches_only i (eff_bind f (\<lambda>x s. g x s s))"
  unfolding touches_only_def by (intro allI impI, elim eff_bindE) (metis, metis)

lemma touches_only_return [inv_intros]: "touches_only i (eff_return x)"
  by (auto simp: touches_only_def eff_return_def)

lemma touches_only_set [inv_intros]: "touches_only i (set_operation i f)" "touches_only i (set_state st)"
  by (auto simp: touches_only_def set_operation_def set_state_def)

lemma touches_only_port [inv_intros]: "touches_only i (on_port f)"
  by (auto simp: touches_only_def on_port_def split: prod.splits)

lemma touches_only_save [inv_intros]: "touches_only i (save_run port)"
  by (auto simp: touches_only_def save_run_eq Let_def)

lemma touches_only_recheck [inv_intros]: "touches_only i (recheck port plan reviewed)"
  unfolding touches_only_def by (metis recheck_history)

lemma operation_body_touches: "touches_only i (operation_body port plan reviewed i)"
  unfolding operation_body_def
  by (intro inv_intros, split reconcile_result.split) (intro conjI impI inv_intros)


lemma operation_step_touches: "touches_only i (operation_step port plan reviewed i)"
proof -
  have catch: "touches_only i (eff_bind (set_operation i (or_state_update (\<lambda>_. uncertain))) (\<lambda>_.
          eff_bind (set_state (if error = Destination_error stale_plan then paused else partially_applied)) (\<lambda>_.
          eff_bind (save_run port) (\<lambda>_. eff_return Return_run))))" for error
    by (intro inv_intros)
  show ?thesis
    unfolding touches_only_def
  proof (intro allI impI)
    fix s r s'
    assume step: "operation_step port plan reviewed i s = (r, s')"
    obtain r1 s1 where b: "operation_body port plan reviewed i s = (r1, s1)"
      by (cases "operation_body port plan reviewed i s")
    note body = operation_body_touches [unfolded touches_only_def, rule_format, OF b]
    show "length (se_operations (ls_run s')) = length (se_operations (ls_run s))
      \<and> (\<forall>j. j \<noteq> i \<longrightarrow> se_operations (ls_run s') ! j = se_operations (ls_run s) ! j)"
    proof (cases r1)
      case (Inr outcome)
      then show ?thesis using step b body by (simp add: operation_step_def)
    next
      case (Inl error)
      then show ?thesis
        using step b body catch [of error, unfolded touches_only_def, rule_format, of s1 r s']
        by (simp add: operation_step_def)
    qed
  qed
qed

lemma confirm_tail:
  assumes "eff_bind (set_operation i f) (\<lambda>_. eff_bind (save_run port) (\<lambda>_. eff_return Next_operation)) s = (Inr x, s')"
    and "i < length (se_operations (ls_run s))"
  shows "se_operations (ls_run s') ! i = f (se_operations (ls_run s) ! i)"
  using assms by (auto simp: eff_bind_def set_operation_def save_run_eq Let_def eff_return_def split: sum.splits)

lemma touches_length:
  "touches_only i f \<Longrightarrow> f s = (r, s') \<Longrightarrow> length (se_operations (ls_run s')) = length (se_operations (ls_run s))"
  by (auto simp: touches_only_def)

lemma operation_body_confirms:
  assumes "operation_body port plan reviewed i s = (Inr Next_operation, s')" and i: "i < length (se_operations (ls_run s))"
  shows "or_state (se_operations (ls_run s') ! i) = confirmed"
  using assms(1) unfolding operation_body_def
proof (cases rule: eff_bindE)
  case (throws e)
  then show ?thesis by simp
next
  case c1: (continues x s1)
  have l1: "i < length (se_operations (ls_run s1))"
    using touches_length [OF touches_only_recheck c1(1)] i by simp
  from c1(2) show ?thesis
  proof (cases rule: eff_bindE)
    case (throws e)
    then show ?thesis by simp
  next
    case c2: (continues result s2)
    have l2: "i < length (se_operations (ls_run s2))"
      using touches_length [OF touches_only_port c2(1)] l1 by simp
    show ?thesis
    proof (cases result)
      case reconciled_confirmed
      then show ?thesis using confirm_tail [of i "or_state_update (\<lambda>_. confirmed)" port s2] c2(2) l2 by simp
    next
      case unknown_outcome
      then show ?thesis using c2(2)
        by (auto simp: eff_bind_def set_operation_def set_state_def save_run_eq Let_def eff_return_def split: sum.splits)
    next
      case not_applied
      obtain t1 t2 t3 t4 t5 t6 receipt where
          t: "set_operation i (or_state_update (\<lambda>_. prepared)) s2 = (Inr (), t1)"
          "save_run port t1 = (Inr (), t2)" "recheck port plan reviewed t2 = (Inr (), t3)"
          "on_port (write_step port plan reviewed (ls_mapping t3) (se_operations (ls_run t3) ! i)) t3 = (Inr receipt, t4)"
          "set_operation i (\<lambda>o'. o'\<lparr>or_remoteReceipt := receipt, or_state := confirmed\<rparr>) t4 = (Inr (), t5)"
          "save_run port t5 = (Inr (), t6)" "t6 = s'"
        using c2(2) not_applied by (auto elim!: eff_bind_InrE simp: eff_return_def)
      have "i < length (se_operations (ls_run t4))"
        using l2 touches_length [OF touches_only_set(1) t(1)] touches_length [OF touches_only_save t(2)]
          touches_length [OF touches_only_recheck t(3)] touches_length [OF touches_only_port t(4)] by simp
      then show ?thesis using t(5-7) by (auto simp: set_operation_def save_run_eq Let_def)
    qed
  qed
qed

lemma operation_step_confirms:
  "operation_step port plan reviewed i s = (Inr Next_operation, s') \<Longrightarrow> i < length (se_operations (ls_run s)) \<Longrightarrow>
   or_state (se_operations (ls_run s') ! i) = confirmed"
  by (auto simp: operation_step_def eff_bind_def set_operation_def set_state_def save_run_eq Let_def eff_return_def
      intro: operation_body_confirms split: prod.splits sum.splits)

lemma operation_loop_facts:
  assumes "operation_loop port plan reviewed is s = (r, s')"
    and "\<forall>i \<in> set is. i < length (se_operations (ls_run s))" and "distinct is"
  shows "(\<exists>es. ls_history s' = ls_history s @ es \<and> writes_justified plan reviewed es)
    \<and> length (se_operations (ls_run s')) = length (se_operations (ls_run s))
    \<and> (\<forall>j. j \<notin> set is \<longrightarrow> se_operations (ls_run s') ! j = se_operations (ls_run s) ! j)
    \<and> (r = Inr Next_operation \<longrightarrow> (\<forall>i \<in> set is. or_state (se_operations (ls_run s') ! i) = confirmed))"
  using assms
proof (induction "is" arbitrary: s)
  case Nil
  then show ?case by (auto simp: writes_justified_def)
next
  case (Cons i js)
  show ?case
  proof (cases "or_state (se_operations (ls_run s) ! i) = confirmed")
    case True
    with Cons.prems(1) have "operation_loop port plan reviewed js s = (r, s')" by simp
    from Cons.IH [OF this] Cons.prems(2,3) True show ?thesis by auto
  next
    case False
    with Cons.prems(1) have "eff_bind (operation_step port plan reviewed i) (\<lambda>outcome.
        case outcome of Return_run \<Rightarrow> eff_return Return_run
        | Next_operation \<Rightarrow> operation_loop port plan reviewed js) s = (r, s')" by simp
    then show ?thesis
    proof (cases rule: eff_bindE)
      case (throws e)
      then show ?thesis
        using operation_step_justified [OF throws(1)] Cons.prems(2) operation_step_touches [of i port plan reviewed]
        unfolding touches_only_def by fastforce
    next
      case (continues outcome s1)
      have t: "length (se_operations (ls_run s1)) = length (se_operations (ls_run s))"
          "\<And>j. j \<noteq> i \<Longrightarrow> se_operations (ls_run s1) ! j = se_operations (ls_run s) ! j"
        using operation_step_touches [of i port plan reviewed] continues(1) unfolding touches_only_def by auto
      obtain es where es: "ls_history s1 = ls_history s @ es" "writes_justified plan reviewed es"
        using operation_step_justified [OF continues(1)] Cons.prems(2) by auto
      show ?thesis
      proof (cases outcome)
        case Return_run
        then show ?thesis using continues(2) es t by (auto simp: eff_return_def)
      next
        case Next_operation
        then have loop: "operation_loop port plan reviewed js s1 = (r, s')" using continues(2) by simp
        have ih: "(\<exists>es. ls_history s' = ls_history s1 @ es \<and> writes_justified plan reviewed es)
            \<and> length (se_operations (ls_run s')) = length (se_operations (ls_run s1))
            \<and> (\<forall>j. j \<notin> set js \<longrightarrow> se_operations (ls_run s') ! j = se_operations (ls_run s1) ! j)
            \<and> (r = Inr Next_operation \<longrightarrow> (\<forall>i \<in> set js. or_state (se_operations (ls_run s') ! i) = confirmed))"
          using Cons.prems(2,3) t(1) by (intro Cons.IH [OF loop]) auto
        moreover have "or_state (se_operations (ls_run s1) ! i) = confirmed"
          using operation_step_confirms continues(1) Next_operation Cons.prems(2) by auto
        ultimately show ?thesis using es t Cons.prems(3) by (auto intro: writes_justified_append)
      qed
    qed
  qed
qed


lemma finish_run_history:
  assumes "finish_run port plan s = (r, s')"
  shows "\<exists>es. ls_history s' = ls_history s @ es \<and> \<not> list_ex is_write es
    \<and> (r = Inr () \<longrightarrow> se_operations (ls_run s') = se_operations (ls_run s)
         \<and> (\<exists>obs c n1 n2 n3. es = [Ev_observe (ls_mapping s) (Inr obs), Ev_current (dm_id (ls_mapping s)) (Inr c),
              Ev_now n1, Ev_now n2, Ev_now n3, Ev_save (ls_run s') (Inr ())]
            \<and> (se_state (ls_run s') = verified \<longrightarrow> readback_verified plan (ls_mapping s) obs c n1
                 (assertCurrentCollectionPlan plan (cu_mapping c) (cu_inputs c) n2 = Inr ()))))"
  using assms unfolding finish_run_def Let_def
  by (elim eff_bindE) (auto simp: on_port_def ask_def ask_now_def Let_def save_run_eq split: if_splits)

lemma execute_lockedE:
  assumes "execute_locked port plan reviewed h = (r, h')"
  obtains (refused) e es where "r = Inl e" "h' = h @ es" "\<not> list_ex is_write es"
    | (already) es run where "r = Inr run" "h' = h @ es @ [Ev_get (cp_id plan) (Inr (Some run))]"
        "se_state run = verified" "\<not> list_ex is_write es"
    | (ran) es s s' r' where "\<not> list_ex is_write es" "ls_history s = h @ es"
        "eff_bind (save_run port) (\<lambda>_ s1.
           eff_bind (operation_loop port plan reviewed [0..<length (se_operations (ls_run s1))]) (\<lambda>outcome s2.
             case outcome of Return_run \<Rightarrow> (Inr (), s2) | Next_operation \<Rightarrow> finish_run port plan s2) s1) s = (r', s')"
        "se_state (ls_run s) = running"
        "r = (case r' of Inl e \<Rightarrow> Inl e | Inr _ \<Rightarrow> Inr (ls_run s'))" "h' = ls_history s'"
  using assms unfolding execute_locked_def
proof (cases rule: eff_bindE)
  case (throws e)
  then show ?thesis using refused check_step_history check_event_no_write by metis
next
  case c1: (continues m h1)
  obtain es1 where es1: "h1 = h @ es1" "\<not> list_ex is_write es1"
    using check_step_history [OF c1(1)] check_event_no_write by blast
  from c1(2) show ?thesis
  proof (cases rule: eff_bindE)
    case (throws e)
    then show ?thesis using es1 refused [of e "es1 @ [Ev_get (cp_id plan) (Inl e)]"] by (auto simp: ask_def Let_def)
  next
    case c2: (continues saved h2)
    then have h2: "h2 = h @ es1 @ [Ev_get (cp_id plan) (Inr saved)]" using es1 by (auto simp: ask_def Let_def)
    show ?thesis
    proof (cases "case saved of Some r \<Rightarrow> se_state r = verified | None \<Rightarrow> False")
      case True
      then show ?thesis using c2(2) h2 es1 already [of "the saved" es1]
        by (auto simp: eff_return_def split: option.splits)
    next
      case False
      define run where "run = (case saved of Some r \<Rightarrow> r | None \<Rightarrow> initial_run m plan)"
      have c3: "eff_bind (case se_startedAt run of Some t \<Rightarrow> eff_return t | None \<Rightarrow> ask_now port) (\<lambda>started h.
            (let s = \<lparr>ls_history = h, ls_run = run\<lparr>se_state := running, se_startedAt := Some started\<rparr>,
                      ls_mapping = m\<rparr>;
                 (r, s') = eff_bind (save_run port) (\<lambda>_ s1.
                    eff_bind (operation_loop port plan reviewed [0..<length (se_operations (ls_run s1))]) (\<lambda>outcome s2.
                      case outcome of Return_run \<Rightarrow> (Inr (), s2) | Next_operation \<Rightarrow> finish_run port plan s2) s1) s
             in (case r of Inl e \<Rightarrow> Inl e | Inr _ \<Rightarrow> Inr (ls_run s'), ls_history s'))) h2 = (r, h')"
        using c2(2) False by (simp add: run_def Let_def)
      from c3 show ?thesis
      proof (cases rule: eff_bindE)
        case (throws e)
        then show ?thesis by (auto simp: eff_return_def ask_now_def ask_def Let_def split: option.splits)
      next
        case c4: (continues started h3)
        obtain es3 where es3: "h3 = h2 @ es3" "\<not> list_ex is_write es3"
          using c4(1) by (auto simp: eff_return_def ask_now_def ask_def Let_def split: option.splits)
        let ?s = "\<lparr>ls_history = h3, ls_run = run\<lparr>se_state := running, se_startedAt := Some started\<rparr>, ls_mapping = m\<rparr>"
        obtain r' s' where b: "eff_bind (save_run port) (\<lambda>_ s1.
                    eff_bind (operation_loop port plan reviewed [0..<length (se_operations (ls_run s1))]) (\<lambda>outcome s2.
                      case outcome of Return_run \<Rightarrow> (Inr (), s2) | Next_operation \<Rightarrow> finish_run port plan s2) s1) ?s = (r', s')"
          by (rule prod.exhaust)
        have res: "r = (case r' of Inl e \<Rightarrow> Inl e | Inr _ \<Rightarrow> Inr (ls_run s'))" "h' = ls_history s'"
          using c4(2) unfolding Let_def b prod.case by simp_all
        show ?thesis
        proof (rule ran [OF _ _ b _ res])
          show "\<not> list_ex is_write (es1 @ [Ev_get (cp_id plan) (Inr saved)] @ es3)" using es1 es3 by simp
          show "ls_history ?s = h @ es1 @ [Ev_get (cp_id plan) (Inr saved)] @ es3" using es3 h2 by simp
          show "se_state (ls_run ?s) = running" by simp
        qed
      qed
    qed
  qed
qed

lemma execute_writes_justified:
  assumes "execute_locked port plan reviewed h = (r, h')"
  shows "\<exists>es. h' = h @ es \<and> writes_justified plan reviewed es"
  using assms
proof (cases rule: execute_lockedE)
  case (refused e es)
  then show ?thesis using writes_justified_no_write by blast
next
  case (already es run)
  then show ?thesis
    by (intro exI [of _ "es @ [Ev_get (cp_id plan) (Inr (Some run))]"]) (simp add: writes_justified_no_write)
next
  case (ran es s s' r')
  have "adds_justified plan reviewed (save_run port)" by (intro inv_intros)
  from ran(3) have "\<exists>es. ls_history s' = ls_history s @ es \<and> writes_justified plan reviewed es"
  proof (cases rule: eff_bindE)
    case (throws e)
    then show ?thesis by (blast dest: adds_justifiedD [OF adds_justified_save])
  next
    case (continues x s1)
    obtain es1 where 1: "ls_history s1 = ls_history s @ es1" "writes_justified plan reviewed es1"
      using adds_justifiedD [OF adds_justified_save continues(1)] by blast
    from continues(2) obtain es2 where "ls_history s' = ls_history s1 @ es2" "writes_justified plan reviewed es2"
    proof (cases rule: eff_bindE)
      case (throws e)
      then show ?thesis using operation_loop_facts [OF throws(1)] that by auto
    next
      case (continues outcome s2)
      obtain es2 where 2: "ls_history s2 = ls_history s1 @ es2" "writes_justified plan reviewed es2"
        using operation_loop_facts [OF continues(1)] by auto
      show ?thesis
      proof (cases outcome)
        case Return_run
        then show ?thesis using continues(2) 2 that by simp
      next
        case Next_operation
        then obtain es3 where "ls_history s' = ls_history s2 @ es3" "\<not> list_ex is_write es3"
          using finish_run_history [of port plan s2 r' s'] continues(2) by auto
        then show ?thesis using 2 that [of "es2 @ es3"] writes_justified_append writes_justified_no_write by auto
      qed
    qed
    then show ?thesis using 1 writes_justified_append by auto
  qed
  then show ?thesis using ran writes_justified_append writes_justified_no_write by fastforce
qed

lemma readback_equal_sets:
  "readback_equal m is rs \<Longrightarrow> set is \<subseteq> set rs \<and> (dm_reconciliation m = ''exact'' \<longrightarrow> set rs = set is)"
proof -
  assume a: "readback_equal m is rs"
  then have sub: "set is \<subseteq> set rs" by (auto simp: readback_equal_def Let_def list_all_iff split: if_splits)
  have "set rs = set is" if "dm_reconciliation m = ''exact''"
  proof -
    have "card (set rs) = card (set is)" using a that by (simp add: readback_equal_def Let_def length_js_set)
    then show ?thesis using sub by (metis List.finite_set card_subset_eq)
  qed
  then show ?thesis using sub by blast
qed


subsection \<open>A port over a real gallery\<close>

text \<open>
  A port whose provider keeps a set of publications and applies each write: the gallery is what the
  history makes of the initial one. It answers every request, reconciles by looking, and reads back
  what is there.
\<close>

definition gallery_event :: "string set \<Rightarrow> sync_event \<Rightarrow> string set" where
  "gallery_event g e = (case e of
     Ev_write m operation (Inr _) \<Rightarrow>
       (case or_kind operation of add_kind \<Rightarrow> insert (or_publicationId operation) g
        | remove_kind \<Rightarrow> g - {or_publicationId operation})
   | _ \<Rightarrow> g)"

definition gallery_after :: "string set \<Rightarrow> sync_history \<Rightarrow> string set" where
  "gallery_after g h = foldl gallery_event g h"

definition operation_applied :: "string set \<Rightarrow> operation_receipt \<Rightarrow> bool" where
  "operation_applied g operation = (case or_kind operation of
     add_kind \<Rightarrow> or_publicationId operation \<in> g | remove_kind \<Rightarrow> or_publicationId operation \<notin> g)"

definition honest_port :: "current_view \<Rightarrow> string \<Rightarrow> string list \<Rightarrow> sync_port" where
  "honest_port c t ids = \<lparr>sp_exclusive = \<lambda>h m. None, sp_now = \<lambda>h. t, sp_current = \<lambda>h i. Inr c,
     sp_lease = \<lambda>h m. Inr (), sp_get = \<lambda>h i. Inr None, sp_save = \<lambda>h r. Inr (),
     sp_effects = \<lambda>h p b. Inr (),
     sp_reconcile = \<lambda>h m operation. Inr (if operation_applied (gallery_after (set ids) h) operation
        then reconciled_confirmed else not_applied),
     sp_callbacks = \<lambda>h m operation. [False], sp_write = \<lambda>h m operation. Inr None,
     sp_observe = \<lambda>h m. Inr (Some \<lparr>mo_id = ''readback'', mo_mappingId = dm_id m,
        mo_publicationIds = sorted_list_of_set (gallery_after (set ids) h), mo_resolvedWorks = [],
        mo_complete = True, mo_observedAt = t, mo_source = ''api'', mo_evidence = []\<rparr>)\<rparr>"

definition apply_operation :: "string set \<Rightarrow> operation_receipt \<Rightarrow> string set" where
  "apply_operation g operation = (case or_kind operation of
     add_kind \<Rightarrow> insert (or_publicationId operation) g | remove_kind \<Rightarrow> g - {or_publicationId operation})"

lemma gallery_after_append [simp]: "gallery_after g (h @ es) = gallery_after (gallery_after g h) es"
  by (simp add: gallery_after_def)

lemma gallery_after_Nil [simp]: "gallery_after g [] = g"
  by (simp add: gallery_after_def)

lemma gallery_after_Cons [simp]: "gallery_after g (e # es) = gallery_after (gallery_event g e) es"
  by (simp add: gallery_after_def)

lemma gallery_event_simps [simp]:
  "gallery_event g (Ev_exclusive m) = g" "gallery_event g (Ev_now t) = g" "gallery_event g (Ev_current i r) = g"
  "gallery_event g (Ev_lease m u) = g" "gallery_event g (Ev_get i r2) = g" "gallery_event g (Ev_save run u) = g"
  "gallery_event g (Ev_effects u) = g" "gallery_event g (Ev_reconcile m operation r3) = g"
  "gallery_event g (Ev_prepare m operation bs) = g" "gallery_event g (Ev_observe m r4) = g"
  "gallery_event g (Ev_write m operation (Inr x)) = apply_operation g operation"
  by (simp_all add: gallery_event_def apply_operation_def)

lemma finite_gallery_after: "finite g \<Longrightarrow> finite (gallery_after g h)"
proof (induction h arbitrary: g)
  case Nil
  then show ?case by simp
next
  case (Cons e h)
  have "finite (gallery_event g e)"
    using Cons.prems by (cases e) (auto simp: gallery_event_def split: sum.splits receipt_kind.splits)
  then show ?case using Cons.IH by simp
qed

lemma honest_port_answers [simp]:
  "sp_exclusive (honest_port c t ids) h m = None" "sp_now (honest_port c t ids) h = t"
  "sp_current (honest_port c t ids) h i = Inr c" "sp_lease (honest_port c t ids) h m = Inr ()"
  "sp_get (honest_port c t ids) h i = Inr None" "sp_save (honest_port c t ids) h run = Inr ()"
  "sp_effects (honest_port c t ids) h plan b = Inr ()"
  "sp_reconcile (honest_port c t ids) h m operation =
     Inr (if operation_applied (gallery_after (set ids) h) operation then reconciled_confirmed else not_applied)"
  "sp_callbacks (honest_port c t ids) h m operation = [False]"
  "sp_write (honest_port c t ids) h m operation = Inr None"
  "sp_observe (honest_port c t ids) h m = Inr (Some \<lparr>mo_id = ''readback'', mo_mappingId = dm_id m,
     mo_publicationIds = sorted_list_of_set (gallery_after (set ids) h), mo_resolvedWorks = [],
     mo_complete = True, mo_observedAt = t, mo_source = ''api'', mo_evidence = []\<rparr>)"
  by (simp_all add: honest_port_def)

lemma honest_check:
  assumes "current_check plan reviewed c t = Inr ()"
  shows "check_step (honest_port c t ids) plan reviewed h = (Inr (cu_mapping c), h @ [Ev_current (cp_mappingId plan) (Inr c),
     Ev_now t, Ev_effects (Inr ()), Ev_lease (cu_mapping c) (Inr ())])"
  using assms by (simp add: check_step_def eff_bind_def ask_def ask_now_def eff_lift_def eff_return_def domain_check_def
      Let_def)

lemma honest_operation:
  assumes "current_check plan reviewed c t = Inr ()" and "i < length (se_operations (ls_run s))"
  shows "\<exists>s'. operation_step (honest_port c t ids) plan reviewed i s = (Inr Next_operation, s')
    \<and> gallery_after (set ids) (ls_history s') =
        apply_operation (gallery_after (set ids) (ls_history s)) (se_operations (ls_run s) ! i)
    \<and> ls_mapping s' = cu_mapping c"
proof (cases "operation_applied (gallery_after (set ids) (ls_history s)) (se_operations (ls_run s) ! i)")
  case True
  then have "apply_operation (gallery_after (set ids) (ls_history s)) (se_operations (ls_run s) ! i) = gallery_after (set ids) (ls_history s)"
    by (auto simp: apply_operation_def operation_applied_def split: receipt_kind.splits)
  then show ?thesis using True
    by (simp add: operation_step_def operation_body_def eff_bind_def recheck_def on_port_def honest_check [OF assms(1)]
        ask_def Let_def save_run_eq set_operation_def eff_return_def)
next
  case False
  have app: "apply_operation g (o'\<lparr>or_state := st\<rparr>) = apply_operation g o'" for g o' st
    by (cases "or_kind o'") (simp_all add: apply_operation_def)
  show ?thesis using False assms(2)
    by (simp add: operation_step_def operation_body_def eff_bind_def recheck_def on_port_def honest_check [OF assms(1)]
        ask_def Let_def save_run_eq set_operation_def eff_return_def write_step_def app)
qed


lemma honest_loop:
  assumes "current_check plan reviewed c t = Inr ()" and "\<forall>i \<in> set is. i < length (se_operations (ls_run s))"
    and "distinct is" and "\<forall>i \<in> set is. or_state (se_operations (ls_run s) ! i) \<noteq> confirmed"
    and "ls_mapping s = cu_mapping c"
  shows "\<exists>s'. operation_loop (honest_port c t ids) plan reviewed is s = (Inr Next_operation, s')
    \<and> gallery_after (set ids) (ls_history s') =
        foldl apply_operation (gallery_after (set ids) (ls_history s)) (map ((!) (se_operations (ls_run s))) is)
    \<and> ls_mapping s' = cu_mapping c"
  using assms(2-)
proof (induction "is" arbitrary: s)
  case Nil
  then show ?case by simp
next
  case (Cons i js)
  obtain s1 where s1: "operation_step (honest_port c t ids) plan reviewed i s = (Inr Next_operation, s1)"
      "gallery_after (set ids) (ls_history s1) =
        apply_operation (gallery_after (set ids) (ls_history s)) (se_operations (ls_run s) ! i)"
      "ls_mapping s1 = cu_mapping c"
    using honest_operation [OF assms(1), of i s ids] Cons.prems by auto
  have t: "length (se_operations (ls_run s1)) = length (se_operations (ls_run s))"
      "\<And>j. j \<noteq> i \<Longrightarrow> se_operations (ls_run s1) ! j = se_operations (ls_run s) ! j"
    using operation_step_touches [of i "honest_port c t ids" plan reviewed] s1(1) unfolding touches_only_def by auto
  have same: "se_operations (ls_run s1) ! j = se_operations (ls_run s) ! j" if "j \<in> set js" for j
    using that Cons.prems(2) by (intro t(2)) auto
  obtain s' where s': "operation_loop (honest_port c t ids) plan reviewed js s1 = (Inr Next_operation, s')"
      "gallery_after (set ids) (ls_history s') =
        foldl apply_operation (gallery_after (set ids) (ls_history s1)) (map ((!) (se_operations (ls_run s1))) js)"
      "ls_mapping s' = cu_mapping c"
    using Cons.IH [of s1] Cons.prems s1(3) t(1) same by auto
  have ops: "map ((!) (se_operations (ls_run s1))) js = map ((!) (se_operations (ls_run s))) js"
    using same by simp
  show ?case using Cons.prems(3) s1(1,2) s'
    by (intro exI [of _ s']) (simp add: eff_bind_def ops)
qed

lemma apply_initial_operations:
  "foldl apply_operation g (initial_operations m plan) = g \<union> set (cp_additions plan) - set (cp_removals plan)"
proof -
  have add: "foldl apply_operation g (map (\<lambda>p. \<lparr>or_key = f p, or_kind = add_kind, or_publicationId = p,
      or_state = prepared, or_remoteReceipt = None\<rparr>) ps) = g \<union> set ps" for g f ps
    by (induction ps arbitrary: g) (auto simp: apply_operation_def)
  have rem: "foldl apply_operation g (map (\<lambda>p. \<lparr>or_key = f p, or_kind = remove_kind, or_publicationId = p,
      or_state = prepared, or_remoteReceipt = None\<rparr>) ps) = g - set ps" for g f ps
    by (induction ps arbitrary: g) (auto simp: apply_operation_def)
  show ?thesis by (simp add: initial_operations_def comp_def add rem)
qed

lemma honest_execution:
  assumes "current_check plan reviewed c t = Inr ()" and "m = cu_mapping c"
    and "gc_completeMembership (cu_capabilities c)" and "int_le_num 0 (gc_freshnessMs (cu_capabilities c))"
    and g_def: "g = set ids \<union> set (cp_additions plan) - set (cp_removals plan)"
    and "set (cp_intendedPublicationIds plan) \<subseteq> g"
    and "dm_reconciliation m = ''exact'' \<longrightarrow> g = set (cp_intendedPublicationIds plan)"
  shows "\<exists>run h'. executeCollectionDestinationPlan (honest_port c t ids) plan m reviewed [] = (Inr run, h')
    \<and> se_state run = verified \<and> gallery_after (set ids) h' = g"
proof -
  let ?port = "honest_port c t ids"
  note chk = honest_check [OF assms(1), of ids]
  define h0 where "h0 = [Ev_exclusive m] @ [Ev_current (cp_mappingId plan) (Inr c), Ev_now t, Ev_effects (Inr ()),
     Ev_lease (cu_mapping c) (Inr ())] @ [Ev_get (cp_id plan) (Inr None), Ev_now t]"
  define run where "run = (initial_run (cu_mapping c) plan)\<lparr>se_state := running, se_startedAt := Some t\<rparr>"
  define s1 where "s1 = \<lparr>ls_history = h0 @ [Ev_save run (Inr ())], ls_run = run, ls_mapping = cu_mapping c\<rparr>"
  have ops: "se_operations (ls_run s1) = initial_operations (cu_mapping c) plan"
    by (simp add: s1_def run_def initial_run_def)
  have prep: "\<forall>i \<in> set [0..<length (se_operations (ls_run s1))]. or_state (se_operations (ls_run s1) ! i) \<noteq> confirmed"
    unfolding ops by (auto simp: initial_operations_def nth_append)
  have h0: "gallery_after (set ids) (ls_history s1) = set ids"
    by (simp add: s1_def h0_def)
  have "\<exists>s'. operation_loop ?port plan reviewed [0..<length (se_operations (ls_run s1))] s1 = (Inr Next_operation, s')
    \<and> gallery_after (set ids) (ls_history s') = foldl apply_operation (gallery_after (set ids) (ls_history s1))
        (map ((!) (se_operations (ls_run s1))) [0..<length (se_operations (ls_run s1))])
    \<and> ls_mapping s' = cu_mapping c"
    by (rule honest_loop [OF assms(1) _ _ prep]) (simp_all add: s1_def)
  then obtain s2 where s2: "operation_loop ?port plan reviewed [0..<length (se_operations (ls_run s1))] s1 = (Inr Next_operation, s2)"
      "gallery_after (set ids) (ls_history s2) = g" "ls_mapping s2 = cu_mapping c"
    unfolding h0 map_nth unfolding ops apply_initial_operations g_def [symmetric] by blast
  have fin: "finite g" by (simp add: g_def)
  have cur: "assertCurrentCollectionPlan plan (cu_mapping c) (cu_inputs c) t = Inr ()" "\<not> cu_archived c" "cu_connected c"
    using assms(1) by (auto simp: current_check_def split: if_splits)
  then obtain n where n: "date_parse t = Some n"
    by (auto simp: assertCurrentCollectionPlan_def split: if_splits)
  have eq: "readback_equal (cu_mapping c) (cp_intendedPublicationIds plan) (sorted_list_of_set g)"
    using assms(2,6,7) fin
    by (auto simp: readback_equal_def Let_def list_all_iff length_js_set)
  define s' where "s' = snd (finish_run ?port plan s2)"
  have f: "finish_run ?port plan s2 = (Inr (), s') \<and> se_state (ls_run s') = verified
      \<and> gallery_after (set ids) (ls_history s') = g"
    using s2(2,3) cur n eq assms(2,3,4)
    by (simp add: s'_def finish_run_def eff_bind_def on_port_def ask_def ask_now_def Let_def save_run_eq readback_verified_def)
  have "executeCollectionDestinationPlan ?port plan m reviewed [] = (Inr (ls_run s'), ls_history s')"
    using f s2(1)
    by (simp add: executeCollectionDestinationPlan_def execute_locked_def eff_bind_def chk ask_def Let_def ask_now_def
        save_run_eq h0_def run_def s1_def initial_run_def)
  then show ?thesis using f by blast
qed


subsection \<open>Runs that stop early\<close>

lemma operation_body_returns:
  assumes "operation_body port plan reviewed i s = (Inr Return_run, s')"
  shows "se_state (ls_run s') = partially_applied"
  using assms unfolding operation_body_def
  by (auto elim!: eff_bind_InrE simp: eff_return_def set_operation_def set_state_def save_run_eq Let_def
      split: reconcile_result.splits)

lemma operation_step_returns:
  assumes "operation_step port plan reviewed i s = (Inr Return_run, s')"
  shows "se_state (ls_run s') \<in> {partially_applied, paused}"
proof -
  obtain r1 s1 where b: "operation_body port plan reviewed i s = (r1, s1)" by (rule prod.exhaust)
  show ?thesis
  proof (cases r1)
    case (Inr outcome)
    then show ?thesis using assms b by (auto simp: operation_step_def dest: operation_body_returns)
  next
    case (Inl error)
    then show ?thesis using assms b
      by (auto simp: operation_step_def eff_return_def set_operation_def set_state_def save_run_eq Let_def
          elim!: eff_bind_InrE)
  qed
qed

lemma operation_loop_returns:
  "operation_loop port plan reviewed is s = (Inr Return_run, s') \<Longrightarrow> se_state (ls_run s') \<in> {partially_applied, paused}"
proof (induction "is" arbitrary: s)
  case Nil
  then show ?case by simp
next
  case (Cons i js)
  then show ?case
    by (auto simp: eff_return_def dest: operation_step_returns split: if_splits loop_outcome.splits
        elim!: eff_bind_InrE)
qed

lemma current_check_Inr:
  assumes "current_check plan reviewed c now = Inr ()"
  shows "dm_enabled (cu_mapping c)" "cp_mappingId plan = dm_id (cu_mapping c)" "cu_inputs c = cp_inputs plan"
    "\<not> date_before (cp_expiresAt plan) now" "\<not> cu_archived c" "cu_connected c" "dm_authority (cu_mapping c) = ''native''"
    "cp_blocked plan = []" "cp_verification plan = api_verified"
    "reviewed \<or> dm_execution (cu_mapping c) = ''automatic'' \<and> access_effect \<notin> set (cp_effects plan)"
  using assms
  by (auto simp: current_check_def assertCurrentCollectionPlan_def authorizeCollectionPlan_def split: if_splits)

lemma execute_Inr_cases:
  assumes "executeCollectionDestinationPlan port plan mapping reviewed h = (r, h')"
  obtains e where "r = Inl e" "h' = h @ [Ev_exclusive mapping]"
    | "execute_locked port plan reviewed (h @ [Ev_exclusive mapping]) = (r, h')"
  using assms by (auto simp: executeCollectionDestinationPlan_def split: option.splits)

subsection \<open>A sample execution\<close>

text \<open>The outbound plan of the sample mapping, executed half a minute after it was made.\<close>

definition sample_view :: current_view where
  "sample_view = \<lparr>cu_mapping = sample_mapping, cu_inputs = sample_inputs, cu_archived = False, cu_connected = True,
     cu_capabilities = sample_capabilities\<rparr>"

definition sample_time :: string where
  "sample_time = ''2026-01-01T00:30:30.000Z''"

definition sample_port :: sync_port where
  "sample_port = honest_port sample_view sample_time (mo_publicationIds sample_observation)"

lemma sample_check: "current_check (sample_plan ''native'') True sample_view sample_time = Inr ()"
proof -
  have "date_parse sample_time = Some 1767227430000" "date_parse ''2026-01-01T01:00:00.000Z'' = Some 1767229200000"
    by code_simp+
  then show ?thesis
    by (simp add: current_check_def assertCurrentCollectionPlan_def authorizeCollectionPlan_def write_supported_def
        date_before_def sample_plan_def sample_view_def sample_mapping_def sample_inputs_def sample_capabilities_def)
qed

lemma sample_lists:
  "cp_additions (sample_plan ''native'') = [''p1'']" "cp_removals (sample_plan ''native'') = [''p9'']"
  "cp_intendedPublicationIds (sample_plan ''native'') = [''p1'', ''p2'']"
  by (simp_all add: sample_plan_def)

lemma sample_executes:
  "\<exists>run h'. executeCollectionDestinationPlan sample_port (sample_plan ''native'') sample_mapping True [] = (Inr run, h')
    \<and> se_state run = verified \<and> gallery_after {''p2'', ''p9''} h' = {''p1'', ''p2''}"
proof -
  have "cu_mapping sample_view = sample_mapping" "gc_completeMembership (cu_capabilities sample_view)"
    "int_le_num 0 (gc_freshnessMs (cu_capabilities sample_view))"
    by (simp_all add: sample_view_def sample_capabilities_def)
  moreover have ids: "set (mo_publicationIds sample_observation) = {''p2'', ''p9''}"
    by (simp add: sample_observation_def)
  moreover have "{''p1'', ''p2''} = set (mo_publicationIds sample_observation) \<union> set (cp_additions (sample_plan ''native''))
      - set (cp_removals (sample_plan ''native''))"
    by (auto simp: ids sample_lists)
  ultimately show ?thesis
    using honest_execution [OF sample_check, of sample_mapping "{''p1'', ''p2''}" "mo_publicationIds sample_observation"]
    by (simp add: sample_lists sample_port_def)
qed

lemma gallery_after_no_write: "\<not> list_ex is_write h \<Longrightarrow> gallery_after g h = g"
proof (induction h arbitrary: g)
  case Nil
  then show ?case by simp
next
  case (Cons e h)
  then show ?case by (cases e) simp_all
qed

subsection \<open>Properties\<close>

text \<open>C13: Whatever the port answers, each provider write of an execution comes after, in this order: a
  reconciliation that found this operation not applied, a saved run holding its prepared receipt, and a
  check that passed against freshly loaded state for the very mapping written to (enabled, native,
  connected, not archived, inputs unchanged, not expired, unblocked, API-verified, reviewed or automatic
  without access changes, effects validated, lease held); only further checks come in between.\<close>
theorem write_only_after_current_check:
  assumes "executeCollectionDestinationPlan port plan mapping reviewed h
    = (res, h @ pre @ Ev_write m operation r # post)"
  shows "\<exists>before m0 o0 run c now bs callbacks.
    pre = before @ [Ev_reconcile m0 o0 (Inr not_applied), Ev_save run (Inr ()),
      Ev_current (cp_mappingId plan) (Inr c), Ev_now now, Ev_effects (Inr ()), Ev_lease m (Inr ()),
      Ev_prepare m operation bs] @ callbacks
    \<and> \<not> list_ex is_write callbacks \<and> operation = o0\<lparr>or_state := prepared\<rparr> \<and> operation \<in> set (se_operations run)
    \<and> m = cu_mapping c \<and> dm_enabled m \<and> dm_authority m = ''native'' \<and> \<not> cu_archived c \<and> cu_connected c
    \<and> cu_inputs c = cp_inputs plan \<and> \<not> date_before (cp_expiresAt plan) now
    \<and> cp_blocked plan = [] \<and> cp_verification plan = api_verified
    \<and> (reviewed \<or> dm_execution m = ''automatic'' \<and> access_effect \<notin> set (cp_effects plan))"
proof -
  from assms have "justified_write plan reviewed pre m operation"
  proof (cases rule: execute_Inr_cases)
    case (1 e)
    then show ?thesis by (cases pre) auto
  next
    case 2
    obtain es where es: "h @ pre @ Ev_write m operation r # post = (h @ [Ev_exclusive mapping]) @ es"
        "writes_justified plan reviewed es"
      using execute_writes_justified [OF 2] by blast
    have "writes_justified plan reviewed ([Ev_exclusive mapping] @ es)"
      by (intro writes_justified_append es(2) writes_justified_no_write) simp
    moreover have "[Ev_exclusive mapping] @ es = pre @ Ev_write m operation r # post" using es(1) by simp
    ultimately show ?thesis unfolding writes_justified_def by blast
  qed
  then obtain before m0 o0 run checked bs callbacks where j:
      "pre = before @ [Ev_reconcile m0 o0 (Inr not_applied), Ev_save run (Inr ())] @ checked
                @ [Ev_prepare m operation bs] @ callbacks"
      "operation = o0\<lparr>or_state := prepared\<rparr>" "operation \<in> set (se_operations run)"
      "passed_check plan reviewed m checked" "list_all check_event callbacks"
    unfolding justified_write_def by blast
  then obtain c now where c: "m = cu_mapping c" "current_check plan reviewed c now = Inr ()"
      "checked = [Ev_current (cp_mappingId plan) (Inr c), Ev_now now, Ev_effects (Inr ()), Ev_lease m (Inr ())]"
    unfolding passed_check_def by blast
  show ?thesis
    using j c(1,3) current_check_Inr [OF c(2)] check_event_no_write [OF j(5)]
    by (intro exI [of _ before] exI [of _ m0] exI [of _ o0] exI [of _ run] exI [of _ c] exI [of _ now] exI [of _ bs]
        exI [of _ callbacks]) auto
qed

lemma write_only_after_current_check_witness:
  "\<exists>pre m operation r post. snd (executeCollectionDestinationPlan sample_port (sample_plan ''native'') sample_mapping True [])
     = pre @ Ev_write m operation r # post \<and> dm_enabled m \<and> dm_authority m = ''native''"
proof -
  obtain run h' where ex: "executeCollectionDestinationPlan sample_port (sample_plan ''native'') sample_mapping True [] = (Inr run, h')"
      "gallery_after {''p2'', ''p9''} h' = {''p1'', ''p2''}"
    using sample_executes by blast
  have "list_ex is_write h'"
  proof (rule ccontr)
    assume "\<not> list_ex is_write h'"
    then have "{''p1'', ''p2''} = {''p2'', ''p9''}" using ex(2) gallery_after_no_write by metis
    then show False by (simp add: doubleton_eq_iff)
  qed
  then obtain e where e: "e \<in> set h'" "is_write e" unfolding list_ex_iff by blast
  then obtain pre post where "h' = pre @ e # post" using split_list by metis
  moreover obtain m operation r where "e = Ev_write m operation r" using e(2) by (cases e) simp_all
  ultimately have h': "h' = pre @ Ev_write m operation r # post" by simp
  then have "executeCollectionDestinationPlan sample_port (sample_plan ''native'') sample_mapping True []
      = (Inr run, [] @ pre @ Ev_write m operation r # post)" using ex(1) by simp
  from write_only_after_current_check [OF this] have "dm_enabled m \<and> dm_authority m = ''native''" by blast
  then show ?thesis using ex(1) h' by (intro exI [of _ pre] exI [of _ m] exI [of _ operation] exI [of _ r] exI [of _ post]) simp
qed

text \<open>C14: An execution ends verified only when it found a verified run already stored (then it wrote
  nothing), or when every operation is confirmed and a complete API readback, against unchanged inputs,
  showed every intended publication and, for an exact mapping, nothing else.\<close>
theorem verified_only_by_readback:
  assumes "executeCollectionDestinationPlan port plan mapping reviewed h = (Inr run, h')"
    and "se_state run = verified"
  shows "(\<exists>pre. h' = h @ pre @ [Ev_get (cp_id plan) (Inr (Some run))] \<and> \<not> list_ex is_write pre)
    \<or> (\<exists>pre m obs c n1 n2 n3. h' = h @ pre @ [Ev_observe m (Inr (Some obs)), Ev_current (dm_id m) (Inr c),
          Ev_now n1, Ev_now n2, Ev_now n3, Ev_save run (Inr ())]
        \<and> (\<forall>operation \<in> set (se_operations run). or_state operation = confirmed)
        \<and> mo_mappingId obs = dm_id m \<and> mo_complete obs \<and> mo_source obs = ''api''
        \<and> cu_inputs c = cp_inputs plan \<and> dm_enabled (cu_mapping c) \<and> cu_connected c
        \<and> set (cp_intendedPublicationIds plan) \<subseteq> set (mo_publicationIds obs)
        \<and> (dm_reconciliation (cu_mapping c) = ''exact'' \<longrightarrow>
             set (mo_publicationIds obs) = set (cp_intendedPublicationIds plan)))"
  using assms(1)
proof (cases rule: execute_Inr_cases)
  case (1 e)
  then show ?thesis by simp
next
  case 2
  then show ?thesis
  proof (cases rule: execute_lockedE)
    case (refused e es)
    then show ?thesis by simp
  next
    case (already es run')
    then show ?thesis by (intro disjI1 exI [of _ "Ev_exclusive mapping # es"]) simp
  next
    case (ran es s s' r')
    then have run: "run = ls_run s'" "r' = Inr ()" by (auto split: sum.splits)
    obtain u s1 where s1: "save_run port s = (Inr u, s1)"
      "eff_bind (operation_loop port plan reviewed [0..<length (se_operations (ls_run s1))]) (\<lambda>outcome s2.
             case outcome of Return_run \<Rightarrow> (Inr (), s2) | Next_operation \<Rightarrow> finish_run port plan s2) s1 = (Inr (), s')"
      using ran(3) unfolding run(2) by (rule eff_bind_InrE)
    obtain outcome s2 where s2: "operation_loop port plan reviewed [0..<length (se_operations (ls_run s1))] s1 = (Inr outcome, s2)"
        "(case outcome of Return_run \<Rightarrow> (Inr (), s2) | Next_operation \<Rightarrow> finish_run port plan s2) = (Inr (), s')"
      using s1(2) by (rule eff_bind_InrE)
    show ?thesis
    proof (cases outcome)
      case Return_run
      then show ?thesis using s2 run(1) assms(2) by (auto dest: operation_loop_returns)
    next
      case Next_operation
      note loop = operation_loop_facts [OF s2(1)]
      obtain es2 where es2: "ls_history s2 = ls_history s1 @ es2" using loop by auto
      have conf: "\<forall>operation \<in> set (se_operations (ls_run s2)). or_state operation = confirmed"
        using loop Next_operation by (auto simp: in_set_conv_nth)
      obtain es1 where es1: "ls_history s1 = ls_history s @ es1" using s1(1) by (auto simp: save_run_eq Let_def)
      have f: "finish_run port plan s2 = (Inr (), s')" using s2(2) Next_operation by simp
      from finish_run_history [OF f] obtain obs c n1 n2 n3 where fin:
          "ls_history s' = ls_history s2 @ [Ev_observe (ls_mapping s2) (Inr obs), Ev_current (dm_id (ls_mapping s2)) (Inr c),
              Ev_now n1, Ev_now n2, Ev_now n3, Ev_save (ls_run s') (Inr ())]"
          "se_operations (ls_run s') = se_operations (ls_run s2)"
          "readback_verified plan (ls_mapping s2) obs c n1
                 (assertCurrentCollectionPlan plan (cu_mapping c) (cu_inputs c) n2 = Inr ())"
        using assms(2) run(1) by auto
      then obtain ob where ob: "obs = Some ob" by (auto simp: readback_verified_def split: option.splits)
      have cur: "assertCurrentCollectionPlan plan (cu_mapping c) (cu_inputs c) n2 = Inr ()"
        using fin(3) by (simp add: readback_verified_def)
      have "h' = h @ (Ev_exclusive mapping # es @ es1 @ es2) @ [Ev_observe (ls_mapping s2) (Inr (Some ob)), Ev_current (dm_id (ls_mapping s2)) (Inr c),
              Ev_now n1, Ev_now n2, Ev_now n3, Ev_save run (Inr ())]"
        using ran(2,6) es1 es2 fin(1) run(1) ob by simp
      moreover have "mo_mappingId ob = dm_id (ls_mapping s2) \<and> mo_complete ob \<and> mo_source ob = ''api'' \<and> cu_connected c"
        and "readback_equal (cu_mapping c) (cp_intendedPublicationIds plan) (mo_publicationIds ob)"
        using fin(3) ob by (auto simp: readback_verified_def)
      moreover have "cu_inputs c = cp_inputs plan" "dm_enabled (cu_mapping c)"
        using cur by (auto simp: assertCurrentCollectionPlan_def split: if_splits)
      ultimately show ?thesis
        using readback_equal_sets [of "cu_mapping c" "cp_intendedPublicationIds plan" "mo_publicationIds ob"] conf fin(2) run(1)
        by (intro disjI2 exI [of _ "Ev_exclusive mapping # es @ es1 @ es2"] exI [of _ "ls_mapping s2"] exI [of _ ob]
            exI [of _ c] exI [of _ n1] exI [of _ n2] exI [of _ n3]) auto
    qed
  qed
qed

lemma verified_only_by_readback_witness:
  "\<exists>run h' e. executeCollectionDestinationPlan sample_port (sample_plan ''native'') sample_mapping True [] = (Inr run, h')
     \<and> e \<in> set h' \<and> (e = Ev_get (cp_id (sample_plan ''native'')) (Inr (Some run)) \<or> e = Ev_save run (Inr ()))"
proof -
  obtain run h' where ex: "executeCollectionDestinationPlan sample_port (sample_plan ''native'') sample_mapping True [] = (Inr run, h')"
      "se_state run = verified"
    using sample_executes by blast
  from verified_only_by_readback [OF ex]
  have "\<exists>e. e \<in> set h' \<and> (e = Ev_get (cp_id (sample_plan ''native'')) (Inr (Some run)) \<or> e = Ev_save run (Inr ()))"
    by (elim disjE exE conjE) auto
  then show ?thesis using ex(1) by blast
qed

text \<open>C15: Planning and executing compose: for an outbound plan made from an observation of a gallery that
  still passes the check, executing it against a provider that applies its writes always ends, verified,
  with every intended publication in the gallery, and with exactly those for an exact mapping.\<close>
theorem planned_execution_reaches_gallery:
  assumes "planCollectionDestination planId m inputs c obs members now = Inr plan"
    and "current_check plan reviewed view t = Inr ()" and "cu_mapping view = m"
    and "gc_completeMembership (cu_capabilities view)" and "int_le_num 0 (gc_freshnessMs (cu_capabilities view))"
  shows "\<exists>run h'. executeCollectionDestinationPlan (honest_port view t (mo_publicationIds obs)) plan m reviewed []
      = (Inr run, h') \<and> se_state run = verified
    \<and> set (cp_intendedPublicationIds plan) \<subseteq> gallery_after (set (mo_publicationIds obs)) h'
    \<and> (dm_reconciliation m = ''exact'' \<longrightarrow>
         gallery_after (set (mo_publicationIds obs)) h' = set (cp_intendedPublicationIds plan))"
proof -
  let ?g = "set (mo_publicationIds obs) \<union> set (cp_additions plan) - set (cp_removals plan)"
  note chk = current_check_Inr [OF assms(2), unfolded assms(3)]
  have out: "\<not> inbound_mapping m" using chk(7) by simp
  have cf: "observation_complete c obs \<and> observation_fresh c obs now"
    using chk(9) verified_complete_fresh [of c obs now] by (simp add: plan_fields [OF assms(1)])
  have sub: "set (cp_intendedPublicationIds plan) \<subseteq> ?g"
    using out by (auto simp: plan_fields [OF assms(1)] planned_additions_def planned_removals_def observed_sets)
  have eq: "dm_reconciliation m = ''exact'' \<longrightarrow> ?g = set (cp_intendedPublicationIds plan)"
    using out cf by (auto simp: plan_fields [OF assms(1)] planned_additions_def planned_removals_def observed_sets)
  show ?thesis
    using honest_execution [OF assms(2) assms(3) [symmetric] assms(4,5) refl sub, unfolded assms(3), OF eq] sub eq by auto
qed


lemma planned_execution_reaches_gallery_witness:
  "\<exists>run h'. executeCollectionDestinationPlan sample_port (sample_plan ''native'') sample_mapping True [] = (Inr run, h')
     \<and> gallery_after (set (mo_publicationIds sample_observation)) h' = {''p1'', ''p2''}"
proof -
  have "cu_mapping sample_view = sample_mapping" "gc_completeMembership (cu_capabilities sample_view)"
    "int_le_num 0 (gc_freshnessMs (cu_capabilities sample_view))" "dm_reconciliation sample_mapping = ''exact''"
    by (simp_all add: sample_view_def sample_capabilities_def sample_mapping_def)
  then show ?thesis
    using planned_execution_reaches_gallery [OF sample_outbound_ok sample_check, folded sample_port_def]
    by (auto simp: sample_lists)
qed

end
