(* ===== verification/Content_Blocks.thy ===== *)
theory Content_Blocks
  imports JS_Json Complex_Main
begin

text \<open>
  Structured content: \<open>packages/core/src/content-blocks.ts\<close>, \<open>content-asset-references.ts\<close>, the asset
  identities of \<open>content-media.ts\<close> and \<open>validateContentBlocks\<close> of \<open>core/src/index.ts\<close>. Untyped input is
  a JSON value: an object is its own enumerable properties in order, a number is finite. (Cycles, which
  the code also rejects, do not occur among JSON values.)
\<close>

subsection \<open>JSON values\<close>

datatype json = J_null | J_bool bool | J_num rat | J_str string | J_arr "json list" | J_obj "(string \<times> json) list"

text \<open>\<open>row.k\<close>; \<open>None\<close> is \<open>undefined\<close>. \<open>a ?? b\<close> skips \<open>undefined\<close> and \<open>null\<close>.\<close>

definition jget :: "(string \<times> json) list \<Rightarrow> string \<Rightarrow> json option" where
  "jget row k = map_of row k"

definition nullish :: "json option \<Rightarrow> bool" where
  "nullish v \<longleftrightarrow> v = None \<or> v = Some J_null"

definition coalesce :: "json option \<Rightarrow> json option \<Rightarrow> json option" where
  "coalesce a b = (if nullish a then b else a)"

definition jstring :: "json option \<Rightarrow> string option" where
  "jstring v = (case v of Some (J_str s) \<Rightarrow> Some s | _ \<Rightarrow> None)"

fun children_of :: "json \<Rightarrow> json list option" where
  "children_of (J_arr xs) = Some xs"
| "children_of (J_obj kvs) = Some (map snd kvs)"
| "children_of _ = None"

lemma jget_size: "jget row k = Some v \<Longrightarrow> size v < size (J_obj row)"
proof (induction row)
  case Nil
  then show ?case by (simp add: jget_def)
next
  case (Cons p row)
  then show ?case by (cases p) (fastforce simp: jget_def split: if_splits)
qed

text \<open>The number of values and the container depth of a JSON value.\<close>

fun json_nodes :: "json \<Rightarrow> nat" where
  "json_nodes (J_arr xs) = Suc (sum_list (map json_nodes xs))"
| "json_nodes (J_obj kvs) = Suc (sum_list (map (\<lambda>(k, v). json_nodes v) kvs))"
| "json_nodes _ = 1"

fun json_depth :: "json \<Rightarrow> nat" where
  "json_depth (J_arr xs) = Suc (foldr max (map json_depth xs) 0)"
| "json_depth (J_obj kvs) = Suc (foldr max (map (\<lambda>(k, v). json_depth v) kvs) 0)"
| "json_depth _ = 0"

lemma map_pair_snd: "map (\<lambda>(k, v). f v) kvs = map f (map snd kvs)"
  by (induction kvs) auto

lemma children_nodes: "children_of v = Some cs \<Longrightarrow> json_nodes v = Suc (sum_list (map json_nodes cs))"
  by (cases v) (auto simp: map_pair_snd simp del: map_map)

lemma children_depth: "children_of v = Some cs \<Longrightarrow> json_depth v = Suc (foldr max (map json_depth cs) 0)"
  by (cases v) (auto simp: map_pair_snd simp del: map_map)

lemma no_children: "children_of v = None \<Longrightarrow> json_nodes v = 1 \<and> json_depth v = 0"
  by (cases v) auto

subsection \<open>The structure check\<close>

record parse_options =
  po_unbounded :: bool
  po_maxDepth :: "int option"
  po_maxNodes :: "int option"

datatype content_error = Content_input_error | Content_block_id_required | Content_block_duplicate string | Content_block_level string

text \<open>
  The loop over the stack of frames; a frame is the values its iterator still yields and its depth. The
  state is the remaining node budget.
\<close>

function structure_loop :: "int \<Rightarrow> int \<Rightarrow> (json list \<times> int) list \<Rightarrow> content_error + int" where
  "structure_loop maxDepth remaining [] = Inr remaining"
| "structure_loop maxDepth remaining (([], depth) # stack) = structure_loop maxDepth remaining stack"
| "structure_loop maxDepth remaining ((v # vs, depth) # stack) =
     (if remaining - 1 < 0 then Inl Content_input_error
      else case children_of v of
        None \<Rightarrow> structure_loop maxDepth (remaining - 1) ((vs, depth) # stack)
      | Some cs \<Rightarrow>
          if depth + 1 > maxDepth then Inl Content_input_error
          else structure_loop maxDepth (remaining - 1) ((cs, depth + 1) # (vs, depth) # stack))"
  by pat_completeness auto
termination
  by (relation "measure (\<lambda>(m, r, stack). sum_list (map (\<lambda>f. 1 + 2 * sum_list (map json_nodes (fst f))) stack))")
    (auto simp: children_nodes no_children)

definition checkStructure :: "json \<Rightarrow> parse_options \<Rightarrow> content_error + unit" where
  "checkStructure value options =
     (let maxDepth = (case po_maxDepth options of Some d \<Rightarrow> d | None \<Rightarrow> 64);
          maxNodes = (case po_maxNodes options of Some n \<Rightarrow> n | None \<Rightarrow> 10000)
      in if \<not> safe_int maxDepth \<or> maxDepth < 1 \<or> maxDepth > 128 \<or> \<not> safe_int maxNodes \<or> maxNodes < 1
         then Inl Content_input_error
         else if maxNodes - 1 < 0 then Inl Content_input_error
         else (case children_of value of
           None \<Rightarrow> Inr ()
         | Some cs \<Rightarrow>
             if 1 > maxDepth then Inl Content_input_error
             else try_then (structure_loop maxDepth (maxNodes - 1) [(cs, 1)]) (\<lambda>_. Inr ())))"

text \<open>What the loop decides: whether all pending values fit the budget and the depth limit.\<close>

definition pending_nodes :: "(json list \<times> int) list \<Rightarrow> nat" where
  "pending_nodes stack = sum_list (map (\<lambda>f. sum_list (map json_nodes (fst f))) stack)"

definition fits :: "int \<Rightarrow> int \<Rightarrow> json \<Rightarrow> bool" where
  "fits maxDepth d v \<longleftrightarrow> json_depth v = 0 \<or> d + int (json_depth v) \<le> maxDepth"

lemma nodes_pos [simp]: "0 < json_nodes v"
  by (cases v) auto

lemma foldr_max_le: "foldr max (map f xs) 0 \<le> (n::nat) \<longleftrightarrow> (\<forall>x \<in> set xs. f x \<le> n)"
  by (induction xs) auto

lemma fits_leaf: "children_of v = None \<Longrightarrow> fits m d v"
  by (simp add: fits_def no_children)

lemma fits_children:
  assumes "children_of v = Some cs"
  shows "fits m d v \<longleftrightarrow> d + 1 \<le> m \<and> (\<forall>c \<in> set cs. fits m (d + 1) c)"
proof (cases "d + 1 \<le> m")
  case True
  have "fits m d v \<longleftrightarrow> foldr max (map json_depth cs) 0 \<le> nat (m - d - 1)"
    using True by (auto simp: fits_def children_depth [OF assms])
  also have "\<dots> \<longleftrightarrow> (\<forall>c \<in> set cs. json_depth c \<le> nat (m - d - 1))" by (rule foldr_max_le)
  also have "\<dots> \<longleftrightarrow> (\<forall>c \<in> set cs. fits m (d + 1) c)"
    using True by (intro ball_cong) (auto simp: fits_def)
  finally show ?thesis using True by simp
next
  case False
  then show ?thesis by (auto simp: fits_def children_depth [OF assms])
qed

lemma structure_loop_Inr:
  "0 \<le> remaining \<Longrightarrow> (\<exists>r. structure_loop m remaining stack = Inr r) \<longleftrightarrow>
     int (pending_nodes stack) \<le> remaining \<and> (\<forall>f \<in> set stack. \<forall>v \<in> set (fst f). fits m (snd f) v)"
proof (induction m remaining stack rule: structure_loop.induct)
  case (1 m remaining)
  then show ?case by (simp add: pending_nodes_def)
next
  case (2 m remaining depth stack)
  then show ?case by (simp add: pending_nodes_def)
next
  case (3 m remaining v vs depth stack)
  have pos: "1 \<le> int (json_nodes v)" using nodes_pos [of v] by linarith
  show ?case
  proof (cases "remaining - 1 < 0")
    case True
    then have "\<not> int (pending_nodes ((v # vs, depth) # stack)) \<le> remaining"
      using pos 3(3) unfolding pending_nodes_def by simp
    with True show ?thesis by simp
  next
    case False
    show ?thesis
    proof (cases "children_of v")
      case None
      with 3(1) [OF False None] False show ?thesis
        by (simp add: pending_nodes_def no_children fits_leaf) linarith
    next
      case (Some cs)
      show ?thesis
      proof (cases "depth + 1 > m")
        case True
        with False Some show ?thesis by (simp add: fits_children [OF Some])
      next
        case f: False
        with 3(2) [OF False Some f] False Some show ?thesis
          by (simp add: pending_nodes_def children_nodes [OF Some] fits_children [OF Some]) linarith
      qed
    qed
  qed
qed

definition limits_valid :: "int \<Rightarrow> int \<Rightarrow> bool" where
  "limits_valid maxDepth maxNodes \<longleftrightarrow> 1 \<le> maxDepth \<and> maxDepth \<le> 128 \<and> 1 \<le> maxNodes \<and> maxNodes \<le> max_safe_int"

lemma checkStructure_iff:
  "checkStructure v opts = Inr () \<longleftrightarrow>
     (let d = (case po_maxDepth opts of Some d \<Rightarrow> d | None \<Rightarrow> 64);
          n = (case po_maxNodes opts of Some n \<Rightarrow> n | None \<Rightarrow> 10000)
      in limits_valid d n \<and> int (json_nodes v) \<le> n \<and> int (json_depth v) \<le> d)"
proof -
  define d where "d = (case po_maxDepth opts of Some d \<Rightarrow> d | None \<Rightarrow> 64)"
  define n where "n = (case po_maxNodes opts of Some n \<Rightarrow> n | None \<Rightarrow> 10000)"
  show ?thesis
  proof (cases "limits_valid d n")
    case False
    then have "\<not> safe_int d \<or> d < 1 \<or> d > 128 \<or> \<not> safe_int n \<or> n < 1"
      by (auto simp: limits_valid_def safe_int_def max_safe_int_def)
    with False show ?thesis by (simp add: checkStructure_def d_def [symmetric] n_def [symmetric])
  next
    case True
    then have ok: "\<not> (\<not> safe_int d \<or> d < 1 \<or> d > 128 \<or> \<not> safe_int n \<or> n < 1)" "\<not> n - 1 < 0" "\<not> 1 > d"
      by (auto simp: limits_valid_def safe_int_def max_safe_int_def)
    show ?thesis
    proof (cases "children_of v")
      case None
      with ok True show ?thesis
        by (simp add: checkStructure_def d_def [symmetric] n_def [symmetric] no_children limits_valid_def)
    next
      case (Some cs)
      have "checkStructure v opts = Inr () \<longleftrightarrow> (\<exists>r. structure_loop d (n - 1) [(cs, 1)] = Inr r)"
        using ok Some by (simp add: checkStructure_def d_def [symmetric] n_def [symmetric])
      also have "\<dots> \<longleftrightarrow> int (sum_list (map json_nodes cs)) \<le> n - 1 \<and> (\<forall>c \<in> set cs. fits d 1 c)"
        using ok by (subst structure_loop_Inr) (simp_all add: pending_nodes_def)
      also have "\<dots> \<longleftrightarrow> int (json_nodes v) \<le> n \<and> fits d 0 v"
        using ok by (auto simp: children_nodes [OF Some] fits_children [OF Some])
      also have "fits d 0 v \<longleftrightarrow> int (json_depth v) \<le> d"
        using ok by (auto simp: fits_def)
      finally show ?thesis using True by (simp add: d_def [symmetric] n_def [symmetric])
    qed
  qed
qed

subsection \<open>Blocks\<close>

record block_fields =
  bf_id :: string
  bf_type :: string
  bf_text :: "string option"
  bf_level :: "rat option"
  bf_assetId :: "string option"
  bf_fileId :: "string option"
  bf_caption :: "string option"
  bf_quote :: "string option"
  bf_author :: "string option"
  bf_url :: "string option"
  bf_mimeType :: "string option"
  bf_title :: "string option"
  bf_label :: "string option"
  bf_html :: "string option"
  bf_data :: "json option"

datatype content_block = Content_block (cb_fields: block_fields) (cb_children: "content_block list option")

definition supported_types :: "string list" where
  "supported_types = [''section'', ''heading'', ''paragraph'', ''image'', ''video'', ''audio'', ''quote'',
     ''divider'', ''embed'', ''file'', ''link'', ''credit'', ''grouping'', ''carousel'', ''pdf_preview'',
     ''html_fragment'', ''gallery_preview'', ''premium_promotion'', ''selected_portfolio'', ''gallery_list'',
     ''update_list'', ''page_link'']"

text \<open>A string with something left after trimming; a string cut to a length; the same unless unbounded.\<close>

definition trimmed_id :: "json option \<Rightarrow> string option" where
  "trimmed_id v = (case jstring v of Some s \<Rightarrow> if nonblank s then Some (js_trim s) else None | None \<Rightarrow> None)"

definition limited :: "nat \<Rightarrow> json option \<Rightarrow> string option" where
  "limited n v = map_option (take n) (jstring v)"

definition limited_unless :: "bool \<Rightarrow> nat \<Rightarrow> json option \<Rightarrow> string option" where
  "limited_unless unbounded n v = (if unbounded then jstring v else limited n v)"

definition block_level :: "json option \<Rightarrow> rat option" where
  "block_level v = (case v of Some (J_num x) \<Rightarrow> Some (of_int (max 1 (min 6 \<lfloor>x\<rfloor>))) | _ \<Rightarrow> None)"

definition block_data :: "json option \<Rightarrow> json option" where
  "block_data v = (case v of Some (J_obj kvs) \<Rightarrow> Some (J_obj kvs) | _ \<Rightarrow> None)"

definition row_type :: "(string \<times> json) list \<Rightarrow> string" where
  "row_type row = (case jstring (jget row ''type'') of Some s \<Rightarrow> js_trim s | None \<Rightarrow> [])"

definition row_id :: "string \<Rightarrow> nat \<Rightarrow> (string \<times> json) list \<Rightarrow> string" where
  "row_id parent index row = (case trimmed_id (coalesce (jget row ''blockId'') (jget row ''id'')) of
     Some s \<Rightarrow> s | None \<Rightarrow> parent @ row_type row @ ''-'' @ nat_str (index + 1))"

definition row_fields :: "bool \<Rightarrow> string \<Rightarrow> nat \<Rightarrow> (string \<times> json) list \<Rightarrow> block_fields" where
  "row_fields unbounded parent index row =
     \<lparr> bf_id = row_id parent index row, bf_type = row_type row,
       bf_text = limited_unless unbounded 20000 (jget row ''text''),
       bf_level = block_level (jget row ''level''),
       bf_assetId = trimmed_id (coalesce (jget row ''mediaId'') (jget row ''assetId'')),
       bf_fileId = trimmed_id (jget row ''fileId''),
       bf_caption = limited 2000 (jget row ''caption''),
       bf_quote = limited_unless unbounded 4000 (jget row ''quote''),
       bf_author = limited 200 (jget row ''author''),
       bf_url = limited 2048 (jget row ''url''),
       bf_mimeType = limited 255 (jget row ''mimeType''),
       bf_title = limited 300 (jget row ''title''),
       bf_label = limited 300 (jget row ''label''),
       bf_html = limited_unless unbounded 50000 (jget row ''html''),
       bf_data = block_data (coalesce (jget row ''payload'') (jget row ''data'')) \<rparr>"

definition row_children :: "(string \<times> json) list \<Rightarrow> json option" where
  "row_children row = coalesce (jget row ''blocks'') (jget row ''children'')"

lemma row_children_size: "row_children row = Some v \<Longrightarrow> size v < size (J_obj row)"
  by (auto simp: row_children_def coalesce_def split: if_splits dest: jget_size)

fun is_array :: "json option \<Rightarrow> bool" where
  "is_array (Some (J_arr xs)) = True"
| "is_array _ = False"

definition keep_children :: "json option \<Rightarrow> content_block list \<Rightarrow> content_block list option" where
  "keep_children input children = (if children \<noteq> [] \<or> is_array input then Some children else None)"

text \<open>The recursive \<open>parse\<close>: of an input value, of the elements of an array, of one element.\<close>

function (sequential) parse_blocks :: "bool \<Rightarrow> string \<Rightarrow> json option \<Rightarrow> content_block list"
  and parse_items :: "bool \<Rightarrow> string \<Rightarrow> nat \<Rightarrow> json list \<Rightarrow> content_block list"
  and parse_item :: "bool \<Rightarrow> string \<Rightarrow> nat \<Rightarrow> json \<Rightarrow> content_block list" where
  "parse_blocks u parent (Some (J_arr xs)) = parse_items u parent 0 xs"
| "parse_blocks u parent v = []"
| "parse_items u parent i [] = []"
| "parse_items u parent i (x # xs) = parse_item u parent i x @ parse_items u parent (Suc i) xs"
| "parse_item u parent i (J_obj row) =
     (if row_type row \<notin> set supported_types then []
      else [Content_block (row_fields u parent i row)
              (keep_children (row_children row)
                (parse_blocks u (row_id parent i row @ ''/'') (row_children row)))])"
| "parse_item u parent i x = []"
  by pat_completeness auto
termination
  by (relation "measure (\<lambda>x. case x of
        Inl (u, p, v) \<Rightarrow> (case v of None \<Rightarrow> 0 | Some j \<Rightarrow> size j)
      | Inr (Inl (u, p, i, xs)) \<Rightarrow> size_list size xs
      | Inr (Inr (u, p, i, j)) \<Rightarrow> size j)")
    (auto split: option.splits dest: row_children_size)

definition parseContentBlocks :: "json \<Rightarrow> parse_options \<Rightarrow> content_error + content_block list" where
  "parseContentBlocks value options =
     try_then (checkStructure value options) (\<lambda>_. Inr (parse_blocks (po_unbounded options) [] (Some value)))"

text \<open>The stored form: the renamed keys follow the other properties, absent ones are absent.\<close>

definition opt_field :: "string \<Rightarrow> json option \<Rightarrow> (string \<times> json) list" where
  "opt_field k v = (case v of None \<Rightarrow> [] | Some x \<Rightarrow> [(k, x)])"

definition opt_text :: "string \<Rightarrow> string option \<Rightarrow> (string \<times> json) list" where
  "opt_text k v = opt_field k (map_option J_str v)"

definition stored_row :: "block_fields \<Rightarrow> json option \<Rightarrow> (string \<times> json) list" where
  "stored_row f blocks =
     (''type'', J_str (bf_type f)) # opt_text ''text'' (bf_text f) @ opt_field ''level'' (map_option J_num (bf_level f))
     @ opt_text ''fileId'' (bf_fileId f) @ opt_text ''caption'' (bf_caption f) @ opt_text ''quote'' (bf_quote f)
     @ opt_text ''author'' (bf_author f) @ opt_text ''url'' (bf_url f) @ opt_text ''mimeType'' (bf_mimeType f)
     @ opt_text ''title'' (bf_title f) @ opt_text ''label'' (bf_label f) @ opt_text ''html'' (bf_html f)
     @ (''blockId'', J_str (bf_id f))
     # (if truthy_opt (bf_assetId f) then opt_text ''mediaId'' (bf_assetId f) else [])
     @ opt_field ''payload'' (bf_data f) @ opt_field ''blocks'' blocks"

fun stored_block :: "content_block \<Rightarrow> json" where
  "stored_block (Content_block f cs) = J_obj (stored_row f (map_option (\<lambda>bs. J_arr (map stored_block bs)) cs))"

definition toStoredPostBlocks :: "content_block list \<Rightarrow> json" where
  "toStoredPostBlocks bs = J_arr (map stored_block bs)"

definition parseStoredPostBlocks :: "json \<Rightarrow> parse_options \<Rightarrow> content_error + json" where
  "parseStoredPostBlocks value options =
     try_then (parseContentBlocks value options) (\<lambda>bs. Inr (toStoredPostBlocks bs))"

subsection \<open>Reading a stored block back\<close>

lemma jget_opt_field [simp]:
  "jget (opt_field k v @ r) j = (if j = k then (case v of Some x \<Rightarrow> Some x | None \<Rightarrow> jget r j) else jget r j)"
  "jget (opt_field k v) j = (if j = k then v else None)"
  by (auto simp: jget_def opt_field_def split: option.splits)

lemma jget_opt_text [simp]:
  "jget (opt_text k v @ r) j = (if j = k then (case v of Some x \<Rightarrow> Some (J_str x) | None \<Rightarrow> jget r j) else jget r j)"
  by (auto simp: opt_text_def split: option.splits)

lemma jget_Cons [simp]: "jget ((k, v) # r) j = (if j = k then Some v else jget r j)"
  by (simp add: jget_def)

lemma jget_Nil [simp]: "jget [] j = None"
  by (simp add: jget_def)

lemma jget_if_append [simp]: "jget ((if b then a else []) @ r) j = (if b then jget (a @ r) j else jget r j)"
  by simp

text \<open>What parsing establishes about the fields of a block.\<close>

definition trimmed :: "string \<Rightarrow> bool" where
  "trimmed s \<longleftrightarrow> nonblank s \<and> js_trim s = s"

definition fields_wf :: "bool \<Rightarrow> block_fields \<Rightarrow> bool" where
  "fields_wf u f \<longleftrightarrow>
     trimmed (bf_id f) \<and> bf_type f \<in> set supported_types \<and>
     pred_option trimmed (bf_assetId f) \<and> pred_option trimmed (bf_fileId f) \<and>
     pred_option (\<lambda>s. u \<or> length s \<le> 20000) (bf_text f) \<and>
     pred_option (\<lambda>s. length s \<le> 2000) (bf_caption f) \<and>
     pred_option (\<lambda>s. u \<or> length s \<le> 4000) (bf_quote f) \<and>
     pred_option (\<lambda>s. length s \<le> 200) (bf_author f) \<and>
     pred_option (\<lambda>s. length s \<le> 2048) (bf_url f) \<and>
     pred_option (\<lambda>s. length s \<le> 255) (bf_mimeType f) \<and>
     pred_option (\<lambda>s. length s \<le> 300) (bf_title f) \<and>
     pred_option (\<lambda>s. length s \<le> 300) (bf_label f) \<and>
     pred_option (\<lambda>s. u \<or> length s \<le> 50000) (bf_html f) \<and>
     pred_option (\<lambda>l. l \<in> {1, 2, 3, 4, 5, 6}) (bf_level f) \<and>
     pred_option (\<lambda>d. \<exists>kvs. d = J_obj kvs) (bf_data f)"

fun block_wf :: "bool \<Rightarrow> content_block \<Rightarrow> bool" where
  "block_wf u (Content_block f cs) \<longleftrightarrow>
     fields_wf u f \<and> (case cs of None \<Rightarrow> True | Some bs \<Rightarrow> list_all (block_wf u) bs)"

lemma dropWhile_same: "dropWhile P xs = xs \<longleftrightarrow> xs = [] \<or> \<not> P (hd xs)"
proof (cases xs)
  case (Cons x ys)
  have "length (dropWhile P ys) < length (x # ys)"
    using length_dropWhile_le [of P ys] by simp
  then have "dropWhile P ys \<noteq> x # ys" by (metis less_irrefl)
  with Cons show ?thesis by simp
qed simp

lemma trim_same_iff: "s \<noteq> [] \<Longrightarrow> js_trim s = s \<longleftrightarrow> \<not> js_space (hd s) \<and> \<not> js_space (last s)"
proof
  assume s: "s \<noteq> []" and eq: "js_trim s = s"
  have len: "length (js_trim s) \<le> length (dropWhile js_space s)"
    by (simp add: js_trim_def) (metis length_dropWhile_le length_rev)
  then have "length (dropWhile js_space s) = length s"
    using eq length_dropWhile_le [of js_space s] by simp
  then have d: "dropWhile js_space s = s"
    by (metis append_eq_append_conv append_self_conv2 takeWhile_dropWhile_id)
  with s have h: "\<not> js_space (hd s)" by (simp add: dropWhile_same)
  from eq d have "dropWhile js_space (rev s) = rev s" by (metis js_trim_def rev_rev_ident)
  with s have "\<not> js_space (last s)" by (simp add: dropWhile_same hd_rev)
  with h show "\<not> js_space (hd s) \<and> \<not> js_space (last s)" by simp
next
  assume "s \<noteq> []" and "\<not> js_space (hd s) \<and> \<not> js_space (last s)"
  then have "dropWhile js_space s = s" "dropWhile js_space (rev s) = rev s"
    by (simp_all add: dropWhile_same hd_rev)
  then show "js_trim s = s" by (simp add: js_trim_def)
qed

lemma js_trim_idem [simp]: "js_trim (js_trim s) = js_trim s"
proof (cases "js_trim s = []")
  case True
  moreover have "js_trim [] = []" by (simp add: js_trim_def)
  ultimately show ?thesis by simp
next
  case False
  define t where "t = dropWhile js_space s"
  define r where "r = dropWhile js_space (rev t)"
  have r: "js_trim s = rev r" by (simp add: js_trim_def t_def r_def)
  with False have ne: "r \<noteq> []" by simp
  then have "\<not> js_space (hd r)" unfolding r_def by (rule hd_dropWhile)
  moreover have "t = rev r @ rev (takeWhile js_space (rev t))"
    unfolding r_def by (metis rev_append rev_rev_ident takeWhile_dropWhile_id)
  then have "hd t = hd (rev r)" "t \<noteq> []" using ne by (metis hd_append rev_is_Nil_conv, metis append_is_Nil_conv rev_is_Nil_conv)
  then have "\<not> js_space (hd (rev r))" unfolding t_def by (metis hd_dropWhile)
  ultimately show ?thesis using ne by (simp add: r trim_same_iff last_rev)
qed

lemma trimmed_iff: "trimmed s \<longleftrightarrow> s \<noteq> [] \<and> \<not> js_space (hd s) \<and> \<not> js_space (last s)"
proof (cases "s = []")
  case False
  have "nonblank s" if "\<not> js_space (hd s)" using that False by (auto simp: nonblank_iff)
  with False show ?thesis by (auto simp: trimmed_def trim_same_iff)
qed (simp add: trimmed_def)

lemma trimmed_js_trim: "nonblank s \<Longrightarrow> trimmed (js_trim s)"
  by (simp add: trimmed_def nonblank_js_trim)

lemma supported_trimmed: "t \<in> set supported_types \<Longrightarrow> trimmed t"
  by (auto simp: trimmed_iff supported_types_def js_space_def)

lemma nat_str_last: "nat_str n \<noteq> [] \<and> \<not> js_space (last (nat_str n))"
proof -
  have d: "\<not> js_space (digit_char (k mod 10))" "k < 10 \<Longrightarrow> \<not> js_space (digit_char k)" for k
    by (simp_all add: js_space_def)
  show ?thesis using d [of n] by (subst (1 2) nat_str.simps) auto
qed

lemma row_id_trimmed:
  assumes "row_type row \<in> set supported_types" "parent = [] \<or> \<not> js_space (hd parent)"
  shows "trimmed (row_id parent i row)"
proof (cases "trimmed_id (coalesce (jget row ''blockId'') (jget row ''id''))")
  case None
  have "hd (parent @ row_type row @ ''-'' @ nat_str (i + 1)) = (if parent = [] then hd (row_type row) else hd parent)"
    using supported_trimmed [OF assms(1)] by (simp add: trimmed_iff)
  then show ?thesis
    using None assms supported_trimmed [OF assms(1)] nat_str_last [of "i + 1"]
    by (auto simp: trimmed_iff row_id_def)
next
  case (Some s)
  then show ?thesis
    by (auto simp: row_id_def trimmed_id_def trimmed_js_trim split: option.splits if_splits)
qed

lemma trimmed_id_wf: "pred_option trimmed (trimmed_id v)"
  by (auto simp: trimmed_id_def trimmed_js_trim split: option.splits)

lemma limited_wf: "pred_option (\<lambda>s. length s \<le> n) (limited n v)"
  by (auto simp: limited_def option.pred_map pred_option_def)

lemma limited_unless_wf: "pred_option (\<lambda>s. u \<or> length s \<le> n) (limited_unless u n v)"
  by (auto simp: limited_unless_def limited_def pred_option_def)

lemma block_level_wf: "pred_option (\<lambda>l. l \<in> {1, 2, 3, 4, 5, 6}) (block_level v)"
proof (cases v)
  case (Some j)
  have "max 1 (min 6 z) \<in> {1, 2, 3, 4, 5, 6::int}" for z by auto
  moreover have "of_int z \<in> {1, 2, 3, 4, 5, 6::rat}" if "z \<in> {1, 2, 3, 4, 5, 6::int}" for z
    using that by auto
  ultimately have "of_int (max 1 (min 6 \<lfloor>x\<rfloor>)) \<in> {1, 2, 3, 4, 5, 6::rat}" for x :: rat by blast
  with Some show ?thesis by (simp add: block_level_def split: json.split)
qed (simp add: block_level_def)

lemma block_data_wf: "pred_option (\<lambda>d. \<exists>kvs. d = J_obj kvs) (block_data v)"
  by (auto simp: block_data_def split: option.split json.split)

lemma row_fields_wf:
  assumes "row_type row \<in> set supported_types" "parent = [] \<or> \<not> js_space (hd parent)"
  shows "fields_wf u (row_fields u parent i row)"
  using assms(1) row_id_trimmed [OF assms] 
  by (simp add: fields_wf_def row_fields_def trimmed_id_wf limited_wf limited_unless_wf block_level_wf [simplified]
      block_data_wf)

lemma parse_wf:
  "parent = [] \<or> \<not> js_space (hd parent) \<Longrightarrow> list_all (block_wf u) (parse_blocks u parent v)"
  "parent = [] \<or> \<not> js_space (hd parent) \<Longrightarrow> list_all (block_wf u) (parse_items u parent i xs)"
  "parent = [] \<or> \<not> js_space (hd parent) \<Longrightarrow> list_all (block_wf u) (parse_item u parent i x)"
proof (induction u parent v and u parent i xs and u parent i x rule: parse_blocks_parse_items_parse_item.induct)
  case (5 u parent i row)
  show ?case
  proof (cases "row_type row \<in> set supported_types")
    case True
    have "row_id parent i row \<noteq> []" "\<not> js_space (hd (row_id parent i row))"
      using row_id_trimmed [OF True 5(2)] by (auto simp: trimmed_iff)
    with 5(1) True row_fields_wf [OF True 5(2)] show ?thesis by (simp add: keep_children_def)
  qed simp
qed simp_all

lemma trimmed_id_str [simp]: "trimmed s \<Longrightarrow> trimmed_id (Some (J_str s)) = Some s"
  by (simp add: trimmed_id_def jstring_def trimmed_def)

lemma limited_str: "pred_option (\<lambda>s. length s \<le> n) o' \<Longrightarrow> limited n (map_option J_str o') = o'"
  by (cases o') (simp_all add: limited_def jstring_def)

lemma limited_unless_str: "pred_option (\<lambda>s. u \<or> length s \<le> n) o' \<Longrightarrow> limited_unless u n (map_option J_str o') = o'"
  by (cases o') (auto simp: limited_unless_def limited_def jstring_def)

lemma trimmed_id_opt: "pred_option trimmed v \<Longrightarrow> trimmed_id (map_option J_str v) = v"
  by (cases v) (simp_all add: trimmed_id_def jstring_def trimmed_def)

lemma block_level_opt: "pred_option (\<lambda>l. l \<in> {1, 2, 3, 4, 5, 6}) v \<Longrightarrow> block_level (map_option J_num v) = v"
  by (cases v) (auto simp: block_level_def)

lemma block_data_opt: "pred_option (\<lambda>d. \<exists>kvs. d = J_obj kvs) v \<Longrightarrow> block_data v = v"
  by (cases v) (auto simp: block_data_def)

lemma jget_stored_row:
  fixes f :: block_fields and b
  defines "r \<equiv> stored_row f b"
  shows "jget r ''type'' = Some (J_str (bf_type f))" "jget r ''blockId'' = Some (J_str (bf_id f))"
    "jget r ''text'' = map_option J_str (bf_text f)" "jget r ''level'' = map_option J_num (bf_level f)"
    "jget r ''fileId'' = map_option J_str (bf_fileId f)" "jget r ''caption'' = map_option J_str (bf_caption f)"
    "jget r ''quote'' = map_option J_str (bf_quote f)" "jget r ''author'' = map_option J_str (bf_author f)"
    "jget r ''url'' = map_option J_str (bf_url f)" "jget r ''mimeType'' = map_option J_str (bf_mimeType f)"
    "jget r ''title'' = map_option J_str (bf_title f)" "jget r ''label'' = map_option J_str (bf_label f)"
    "jget r ''html'' = map_option J_str (bf_html f)" "jget r ''payload'' = bf_data f" "jget r ''blocks'' = b"
    "jget r ''data'' = None" "jget r ''children'' = None" "jget r ''assetId'' = None"
    "bf_assetId f \<noteq> Some [] \<Longrightarrow> jget r ''mediaId'' = map_option J_str (bf_assetId f)"
  unfolding r_def stored_row_def
  by (auto simp: jget_opt_text [where r = "[]", simplified] split: option.splits)

lemma fields_stored:
  assumes "fields_wf u f"
  shows "row_fields u p i (stored_row f b) = f" "row_type (stored_row f b) = bf_type f" "row_id p i (stored_row f b) = bf_id f"
proof -
  have a: "bf_assetId f \<noteq> Some []" using assms by (auto simp: fields_wf_def trimmed_def)
  have t: "bf_type f \<in> set supported_types" using assms by (simp add: fields_wf_def)
  note g = jget_stored_row(1-18) [of f b] jget_stored_row(19) [OF a, of b]
  show ty: "row_type (stored_row f b) = bf_type f"
    using supported_trimmed [OF t] by (simp add: row_type_def g jstring_def trimmed_def)
  show ri: "row_id p i (stored_row f b) = bf_id f"
    using assms by (simp add: row_id_def g coalesce_def nullish_def fields_wf_def)
  have co: "trimmed_id (coalesce (map_option J_str v) None) = v" if "pred_option trimmed v" for v
    using that by (cases v) (simp_all add: coalesce_def nullish_def, simp add: trimmed_id_def jstring_def)
  have da: "coalesce v None = v" if "pred_option (\<lambda>d. \<exists>kvs. d = J_obj kvs) v" for v
    using that by (auto simp: coalesce_def nullish_def)
  have "row_fields u p i (stored_row f b) =
     \<lparr> bf_id = bf_id f, bf_type = bf_type f, bf_text = bf_text f, bf_level = bf_level f, bf_assetId = bf_assetId f,
       bf_fileId = bf_fileId f, bf_caption = bf_caption f, bf_quote = bf_quote f, bf_author = bf_author f,
       bf_url = bf_url f, bf_mimeType = bf_mimeType f, bf_title = bf_title f, bf_label = bf_label f,
       bf_html = bf_html f, bf_data = bf_data f \<rparr>"
    using assms unfolding fields_wf_def
    by (simp add: row_fields_def ty ri g co da limited_str limited_unless_str trimmed_id_opt block_level_opt block_data_opt
        del: insert_iff)
  then show "row_fields u p i (stored_row f b) = f" by simp
qed

lemma row_children_stored: "row_children (stored_row f (map_option J_arr b)) = map_option J_arr b"
  by (simp add: row_children_def jget_stored_row coalesce_def nullish_def)

lemma parse_items_stored:
  "(\<And>b i. b \<in> set bs \<Longrightarrow> parse_item u p i (stored_block b) = [b]) \<Longrightarrow>
     parse_items u p i (map stored_block bs) = bs"
  by (induction bs arbitrary: i) simp_all

lemma parse_item_stored: "block_wf u b \<Longrightarrow> parse_item u p i (stored_block b) = [b]"
proof (induction b arbitrary: p i)
  case (Content_block f cs)
  then have wf: "fields_wf u f" and t: "bf_type f \<in> set supported_types"
    by (simp_all add: fields_wf_def)
  show ?case
  proof (cases cs)
    case None
    have "row_children (stored_row f None) = None" using row_children_stored [of f None] by simp
    with None t show ?thesis
      by (simp add: fields_stored [OF wf] keep_children_def)
  next
    case (Some bs)
    have "parse_items u q 0 (map stored_block bs) = bs" for q
      using Content_block Some by (intro parse_items_stored) (simp add: list_all_iff)
    moreover have "row_children (stored_row f (Some (J_arr (map stored_block bs)))) = Some (J_arr (map stored_block bs))"
      using row_children_stored [of f "Some (map stored_block bs)"] by simp
    ultimately show ?thesis using Some t
      by (simp add: fields_stored [OF wf] keep_children_def)
  qed
qed

lemma parse_blocks_stored:
  "list_all (block_wf u) bs \<Longrightarrow> parse_blocks u p (Some (toStoredPostBlocks bs)) = bs"
  by (simp add: toStoredPostBlocks_def) (rule parse_items_stored, simp add: parse_item_stored list_all_iff)

lemma parseContentBlocks_wf:
  "parseContentBlocks v opts = Inr bs \<Longrightarrow> list_all (block_wf (po_unbounded opts)) bs"
  by (auto simp: parseContentBlocks_def parse_wf)

subsection \<open>Asset references\<close>

definition media_row :: "json option \<Rightarrow> (string \<times> json) list option" where
  "media_row v = (case v of Some (J_obj row) \<Rightarrow> Some row | _ \<Rightarrow> None)"

definition media_id :: "(string \<times> json) list \<Rightarrow> string option" where
  "media_id row = trimmed_id (coalesce (jget row ''mediaId'') (jget row ''assetId''))"

text \<open>The identities one media reference names: its asset, and the item it is compared with.\<close>

definition media_ids :: "json \<Rightarrow> string list" where
  "media_ids v = (case media_row (Some v) of None \<Rightarrow> []
     | Some row \<Rightarrow> (case media_id row of None \<Rightarrow> []
       | Some a \<Rightarrow> a # (case media_row (jget row ''comparison'') of None \<Rightarrow> []
         | Some c \<Rightarrow> (case media_row (coalesce (jget c ''comparisonItem'') (jget c ''item'')) of None \<Rightarrow> []
           | Some item \<Rightarrow> (case media_id item of None \<Rightarrow> [] | Some b \<Rightarrow> [b])))))"

definition mediaReferenceIds :: "json \<Rightarrow> string list" where
  "mediaReferenceIds v = (case v of J_arr xs \<Rightarrow> concat (map media_ids xs) | _ \<Rightarrow> [])"

definition set_add :: "'a \<Rightarrow> 'a list \<Rightarrow> 'a list" where
  "set_add x xs = (if x \<in> set xs then xs else xs @ [x])"

lemma set_set_add [simp]: "set (set_add x xs) = insert x (set xs)"
  by (auto simp: set_add_def)

lemma distinct_set_add [simp]: "distinct xs \<Longrightarrow> distinct (set_add x xs)"
  by (simp add: set_add_def)

definition child_list :: "content_block \<Rightarrow> content_block list" where
  "child_list b = (case cb_children b of Some cs \<Rightarrow> cs | None \<Rightarrow> [])"

fun block_count :: "content_block \<Rightarrow> nat" where
  "block_count (Content_block f cs) = Suc (case cs of Some bs \<Rightarrow> sum_list (map block_count bs) | None \<Rightarrow> 0)"

lemma block_count_children: "block_count b = Suc (sum_list (map block_count (child_list b)))"
  by (cases b) (simp add: child_list_def split: option.split)

lemma block_count_rev: "sum_list (map block_count (rev bs)) = sum_list (map block_count bs)"
  by (induction bs) simp_all

text \<open>The stack is kept with its top first, so children are pushed reversed.\<close>

function asset_loop :: "content_block list \<Rightarrow> string list \<Rightarrow> string list" where
  "asset_loop [] ids = ids"
| "asset_loop (b # stack) ids =
     asset_loop (rev (child_list b) @ stack)
       (case bf_assetId (cb_fields b) of Some a \<Rightarrow> if truthy a then set_add a ids else ids | None \<Rightarrow> ids)"
  by pat_completeness auto
termination
  by (relation "measure (\<lambda>(stack, ids). sum_list (map block_count stack))")
    (auto simp: block_count_children block_count_rev)

definition contentAssetReferences :: "json \<Rightarrow> json \<Rightarrow> content_error + string list" where
  "contentAssetReferences body media =
     try_then (parseContentBlocks body \<lparr> po_unbounded = True, po_maxDepth = None, po_maxNodes = None \<rparr>)
       (\<lambda>blocks. Inr (foldl (\<lambda>ids a. set_add a ids) (asset_loop (rev blocks) []) (mediaReferenceIds media)))"

text \<open>All blocks of a tree, parents first.\<close>

fun all_blocks :: "content_block \<Rightarrow> content_block list" where
  "all_blocks (Content_block f cs) =
     Content_block f cs # (case cs of Some bs \<Rightarrow> concat (map all_blocks bs) | None \<Rightarrow> [])"

definition block_assets :: "content_block list \<Rightarrow> string set" where
  "block_assets bs = {a. truthy a \<and> (\<exists>b \<in> set bs. \<exists>c \<in> set (all_blocks b). bf_assetId (cb_fields c) = Some a)}"

lemma all_blocks_children: "all_blocks b = b # concat (map all_blocks (child_list b))"
  by (cases b) (simp add: child_list_def split: option.split)

lemma block_assets_Cons:
  "block_assets (b # bs) =
     (case bf_assetId (cb_fields b) of Some a \<Rightarrow> if truthy a then {a} else {} | None \<Rightarrow> {}) \<union> block_assets (child_list b)
     \<union> block_assets bs"
proof -
  have ex: "(\<exists>c \<in> set (all_blocks b). P c) \<longleftrightarrow> P b \<or> (\<exists>d \<in> set (child_list b). \<exists>c \<in> set (all_blocks d). P c)" for P
    by (subst all_blocks_children) auto
  show ?thesis unfolding block_assets_def list.set ball_simps bex_simps ex
    by (cases "bf_assetId (cb_fields b)") auto
qed

lemma block_assets_append: "block_assets (as @ bs) = block_assets as \<union> block_assets bs"
  by (auto simp: block_assets_def)

lemma block_assets_rev: "block_assets (rev bs) = block_assets bs"
  by (simp add: block_assets_def)

lemma asset_loop_set: "set (asset_loop stack ids) = set ids \<union> block_assets stack"
  by (induction stack ids rule: asset_loop.induct)
    (auto simp: block_assets_Cons block_assets_append block_assets_rev block_assets_def [of "[]"] split: option.split)

lemma asset_loop_distinct: "distinct ids \<Longrightarrow> distinct (asset_loop stack ids)"
  by (induction stack ids rule: asset_loop.induct) (simp_all split: option.split)

lemma fold_set_add: "set (foldl (\<lambda>ids a. set_add a ids) ids as) = set ids \<union> set as"
  "distinct ids \<Longrightarrow> distinct (foldl (\<lambda>ids a. set_add a ids) ids as)"
  by (induction as arbitrary: ids) auto

subsection \<open>Validation of a block tree\<close>

definition valid_level :: "rat option \<Rightarrow> bool" where
  "valid_level v = (case v of None \<Rightarrow> True | Some l \<Rightarrow> of_int \<lfloor>l\<rfloor> = l \<and> 1 \<le> l)"

function visit_blocks :: "content_block list \<Rightarrow> string list \<Rightarrow> content_error + string list" where
  "visit_blocks [] ids = Inr ids"
| "visit_blocks (b # bs) ids =
     (let f = cb_fields b in
      if \<not> nonblank (bf_id f) then Inl Content_block_id_required
      else if bf_id f \<in> set ids then Inl (Content_block_duplicate (bf_id f))
      else if \<not> valid_level (bf_level f) then Inl (Content_block_level (bf_id f))
      else try_then (visit_blocks (child_list b) (bf_id f # ids)) (\<lambda>ids'. visit_blocks bs ids'))"
  by pat_completeness auto
termination
  by (relation "measure (\<lambda>(bs, ids). sum_list (map block_count bs))") (auto simp: block_count_children)

definition validateContentBlocks :: "content_block list \<Rightarrow> content_error + unit" where
  "validateContentBlocks blocks = try_then (visit_blocks blocks []) (\<lambda>_. Inr ())"

definition tree_ids :: "content_block list \<Rightarrow> string list" where
  "tree_ids bs = map (\<lambda>b. bf_id (cb_fields b)) (concat (map all_blocks bs))"

definition tree_ok :: "content_block list \<Rightarrow> bool" where
  "tree_ok bs \<longleftrightarrow> (\<forall>b \<in> set (concat (map all_blocks bs)).
     nonblank (bf_id (cb_fields b)) \<and> valid_level (bf_level (cb_fields b)))"

lemma tree_Cons:
  "tree_ids (b # bs) = bf_id (cb_fields b) # tree_ids (child_list b) @ tree_ids bs"
  "tree_ok (b # bs) \<longleftrightarrow> nonblank (bf_id (cb_fields b)) \<and> valid_level (bf_level (cb_fields b)) \<and>
     tree_ok (child_list b) \<and> tree_ok bs"
  by (auto simp: tree_ids_def tree_ok_def all_blocks_children [of b])

lemma visit_blocks_Inr:
  "distinct ids \<Longrightarrow> visit_blocks bs ids = Inr r \<longleftrightarrow>
     tree_ok bs \<and> distinct (tree_ids bs) \<and> set (tree_ids bs) \<inter> set ids = {} \<and> r = rev (tree_ids bs) @ ids"
proof (induction bs ids arbitrary: r rule: visit_blocks.induct)
  case (1 ids)
  then show ?case by (auto simp: tree_ids_def tree_ok_def)
next
  case (2 b bs ids)
  let ?f = "cb_fields b"
  show ?case
  proof (cases "nonblank (bf_id ?f) \<and> bf_id ?f \<notin> set ids \<and> valid_level (bf_level ?f)")
    case False
    then show ?thesis by (auto simp: tree_Cons Let_def)
  next
    case True
    note inner = "2.IH"(1) [OF refl]
    have c: "visit_blocks (child_list b) (bf_id ?f # ids) = Inr r' \<longleftrightarrow>
       tree_ok (child_list b) \<and> distinct (tree_ids (child_list b)) \<and>
       set (tree_ids (child_list b)) \<inter> set (bf_id ?f # ids) = {} \<and> r' = rev (tree_ids (child_list b)) @ bf_id ?f # ids" for r'
      using inner True 2(3) by simp
    have d: "visit_blocks bs r' = Inr r \<longleftrightarrow>
       tree_ok bs \<and> distinct (tree_ids bs) \<and> set (tree_ids bs) \<inter> set r' = {} \<and> r = rev (tree_ids bs) @ r'"
      if "visit_blocks (child_list b) (bf_id ?f # ids) = Inr r'" for r'
    proof -
      from that c have "distinct r'" using True 2(3) by auto
      with "2.IH"(2) [OF refl _ _ _ that] True show ?thesis by blast
    qed
    have "visit_blocks (b # bs) ids = Inr r \<longleftrightarrow>
       (\<exists>r'. visit_blocks (child_list b) (bf_id ?f # ids) = Inr r' \<and> visit_blocks bs r' = Inr r)"
      using True by (simp add: Let_def)
    also have "\<dots> \<longleftrightarrow> tree_ok (b # bs) \<and> distinct (tree_ids (b # bs)) \<and> set (tree_ids (b # bs)) \<inter> set ids = {}
       \<and> r = rev (tree_ids (b # bs)) @ ids"
      using c d True by (auto simp: tree_Cons)
    finally show ?thesis .
  qed
qed

subsection \<open>Properties\<close>

text \<open>The structure preflight decides exactly the declared budget: input is parsed precisely when the
  limits themselves are admissible (depth 1 to 128, a positive safe node budget), the input has at most
  maxNodes values and nests at most maxDepth containers; otherwise the one structural error is raised.\<close>

theorem content_preflight_exact:
  "parseContentBlocks v opts =
     (let d = (case po_maxDepth opts of Some d \<Rightarrow> d | None \<Rightarrow> 64);
          n = (case po_maxNodes opts of Some n \<Rightarrow> n | None \<Rightarrow> 10000)
      in if limits_valid d n \<and> int (json_nodes v) \<le> n \<and> int (json_depth v) \<le> d
         then Inr (parse_blocks (po_unbounded opts) [] (Some v)) else Inl Content_input_error)"
proof -
  have loop: "structure_loop m r st = Inl e \<Longrightarrow> e = Content_input_error" for m r st e
    by (induction m r st rule: structure_loop.induct) (auto split: if_splits option.splits)
  have "checkStructure v opts = Inr () \<or> checkStructure v opts = Inl Content_input_error"
  proof (cases "checkStructure v opts")
    case (Inl e)
    then have "e = Content_input_error"
      by (auto simp: checkStructure_def Let_def try_then_Inl_iff dest: loop split: if_splits option.splits)
    with Inl show ?thesis by simp
  qed simp
  then show ?thesis using checkStructure_iff [of v opts]
    by (auto simp: parseContentBlocks_def Let_def)
qed

definition sample_options :: parse_options where
  "sample_options = \<lparr> po_unbounded = False, po_maxDepth = None, po_maxNodes = None \<rparr>"

definition sample_body :: json where
  "sample_body = J_arr [
     J_obj [(''type'', J_str '' section ''), (''id'', J_str '' a ''), (''level'', J_num (15 / 2)),
       (''children'', J_arr [J_obj [(''type'', J_str ''image''), (''assetId'', J_str ''m1'')],
                           J_obj [(''type'', J_str ''unknown'')]])],
     J_str ''x'']"

text \<open>C16: Storing loses nothing: parsing the stored form of a parsed document, under options with the same
  bounds on text and limits the stored form fits, gives the document back, with its identities, trimmed
  references, cut texts, clamped levels, metadata and children (an empty child list included).\<close>

theorem stored_blocks_read_back:
  assumes "parseContentBlocks v opts = Inr bs" and "po_unbounded opts' = po_unbounded opts"
    and "checkStructure (toStoredPostBlocks bs) opts' = Inr ()"
  shows "parseContentBlocks (toStoredPostBlocks bs) opts' = Inr bs"
  using assms parse_blocks_stored [OF parseContentBlocks_wf [OF assms(1)]]
  by (simp add: parseContentBlocks_def)

definition sample_blocks :: "content_block list" where
  "sample_blocks = parse_blocks False [] (Some sample_body)"




text \<open>C17: Whatever the input, a parsed block carries a non-blank trimmed identity and reference ids, a supported
  type, texts within their limits, a heading level between 1 and 6 and object metadata, at every depth.\<close>

theorem parsed_blocks_well_formed:
  assumes "parseContentBlocks v opts = Inr bs" and "b \<in> set (concat (map all_blocks bs))"
  shows "fields_wf (po_unbounded opts) (cb_fields b)"
proof -
  have "block_wf u c \<Longrightarrow> b \<in> set (all_blocks c) \<Longrightarrow> fields_wf u (cb_fields b)" for u c
    by (induction c) (auto simp: list_all_iff split: option.splits)
  with assms(2) parseContentBlocks_wf [OF assms(1)] show ?thesis by (auto simp: list_all_iff)
qed

text \<open>C18: The collected references are exactly the asset identities of the body's blocks at any depth and of the media
  references with their comparison items, each once; a rejected body gives no references.\<close>

theorem asset_references_exact:
  "contentAssetReferences body media = Inr ids \<Longrightarrow>
     distinct ids \<and> (\<exists>bs. parseContentBlocks body \<lparr> po_unbounded = True, po_maxDepth = None, po_maxNodes = None \<rparr> = Inr bs
       \<and> set ids = block_assets bs \<union> set (mediaReferenceIds media))"
  by (auto simp: contentAssetReferences_def fold_set_add asset_loop_set asset_loop_distinct block_assets_rev)

text \<open>C19: Validation accepts a block tree precisely when every block has a non-blank identity and, where it has
  one, a positive whole level, and no identity occurs twice anywhere in the tree.\<close>

theorem validate_content_iff:
  "validateContentBlocks bs = Inr () \<longleftrightarrow> tree_ok bs \<and> distinct (tree_ids bs)"
  using visit_blocks_Inr [of "[]" bs] by (cases "visit_blocks bs []") (auto simp: validateContentBlocks_def)

lemma sample_body_structure: "checkStructure sample_body sample_options = Inr ()"
  by (simp add: checkStructure_iff sample_options_def sample_body_def limits_valid_def max_safe_int_def)

lemma sample_parsed: "parseContentBlocks sample_body sample_options = Inr sample_blocks"
  using sample_body_structure by (simp add: parseContentBlocks_def sample_blocks_def sample_options_def)

lemma digit_one: "nat_str (Suc 0) = ''1''"
  by code_simp

lemmas parse_sample_simps = digit_one sample_blocks_def sample_body_def row_type_def jstring_def js_trim_def js_space_def
  supported_types_def row_fields_def row_id_def trimmed_id_def nonblank_def coalesce_def nullish_def limited_def
  limited_unless_def block_level_def block_data_def row_children_def keep_children_def

lemma sample_blocks_eval: "sample_blocks =
  [Content_block \<lparr> bf_id = ''a'', bf_type = ''section'', bf_text = None, bf_level = Some 6, bf_assetId = None,
     bf_fileId = None, bf_caption = None, bf_quote = None, bf_author = None, bf_url = None, bf_mimeType = None,
     bf_title = None, bf_label = None, bf_html = None, bf_data = None \<rparr>
    (Some [Content_block \<lparr> bf_id = ''a/image-1'', bf_type = ''image'', bf_text = None, bf_level = None,
       bf_assetId = Some ''m1'', bf_fileId = None, bf_caption = None, bf_quote = None, bf_author = None, bf_url = None,
       bf_mimeType = None, bf_title = None, bf_label = None, bf_html = None, bf_data = None \<rparr> None])]"
  by (simp add: parse_sample_simps)

lemma sample_stored_structure: "checkStructure (toStoredPostBlocks sample_blocks) sample_options = Inr ()"
  by (simp add: checkStructure_iff sample_options_def sample_blocks_eval limits_valid_def max_safe_int_def
      toStoredPostBlocks_def stored_row_def opt_text_def opt_field_def)

theorem stored_blocks_read_back_witness:
  "parseContentBlocks (toStoredPostBlocks sample_blocks) sample_options = Inr sample_blocks"
  using stored_blocks_read_back [OF sample_parsed refl sample_stored_structure] .

theorem parsed_blocks_well_formed_witness:
  "list_all (\<lambda>b. fields_wf False (cb_fields b)) (concat (map all_blocks sample_blocks))"
  unfolding list_all_iff using parsed_blocks_well_formed [OF sample_parsed] by (simp add: sample_options_def)

definition sample_media :: json where
  "sample_media = J_arr [J_obj [(''mediaId'', J_str '' p1 ''), (''comparison'', J_obj [(''item'', J_obj [(''assetId'', J_str ''p2'')])])],
     J_obj [(''caption'', J_str ''no asset'')]]"

theorem asset_references_exact_witness:
  "contentAssetReferences sample_body sample_media = Inr [''m1'', ''p1'', ''p2''] \<and>
   distinct [''m1'', ''p1'', ''p2'']"
proof -
  have 1: "parseContentBlocks sample_body \<lparr> po_unbounded = True, po_maxDepth = None, po_maxNodes = None \<rparr> =
      Inr (parse_blocks True [] (Some sample_body))"
    using sample_body_structure by (simp add: parseContentBlocks_def checkStructure_iff sample_options_def)
  have 2: "contentAssetReferences sample_body sample_media = Inr [''m1'', ''p1'', ''p2'']"
    unfolding contentAssetReferences_def 1
    by (simp add: parse_sample_simps sample_media_def child_list_def mediaReferenceIds_def media_ids_def media_row_def
        media_id_def set_add_def)
  from 2 asset_references_exact [OF 2] show ?thesis by blast
qed

end
