(* ===== verification/Publication_Copies.thy ===== *)
theory Publication_Copies
  imports Content_Blocks JS_Text
begin

text \<open>
  Publication copies: \<open>packages/core/src/publication-copy.ts\<close> and \<open>packages/persistence/src/publication-copies.ts\<close>.
  The digest \<open>createHash('sha256').update(JSON.stringify(v)).digest('hex')\<close> is the parameter \<open>digest\<close>; a repository
  is a record of functions on a state, and \<open>others n\<close> is what other clients do to that state before the n-th call
  this client makes. A call that rejects leaves the state as it was, as the port requires.
\<close>

subsection \<open>Data\<close>

record account_identity =
  ai_providerNamespace :: string
  ai_remoteAccountId :: string

datatype purpose = UNCLASSIFIED | PUBLIC_PREVIEW | WORK_SALE | COLLECTION_FULL | VOLUME_FULL | CUSTOM

record copy_context =
  cc_collectionId :: "string option"
  cc_volumeId :: "string option"

record copy_identity =
  ci_slotId :: string
  ci_creationRequestId :: string
  ci_account :: account_identity
  ci_purpose :: purpose
  ci_context :: "copy_context option"

record publication =
  pb_tenantId :: string
  pb_creatorId :: string
  pb_workId :: string
  pb_publicationId :: string
  pb_destination :: string
  pb_copy :: "copy_identity option"
  pb_revision :: "int option"
  pb_status :: string
  pb_remoteId :: "string option"
  pb_createdAt :: string
  pb_updatedAt :: string
  pb_activeOperationId :: "string option"

record publication_claim =
  cl_tenantId :: string
  cl_key :: string
  cl_publicationId :: string
  cl_fingerprint :: string

datatype operation_kind = CREATE | UPDATE | REMOVE | DETACH

datatype operation_state = PREPARED | IN_FLIGHT | AMBIGUOUS | CONFIRMED | FAILED | CANCELLED

record operation =
  op_operationId :: string
  op_tenantId :: string
  op_creatorId :: string
  op_publicationId :: string
  op_intendedRevision :: int
  op_sourceRevision :: int
  op_kind :: operation_kind
  op_state :: operation_state
  op_version :: int
  op_createdAt :: string
  op_updatedAt :: string
  op_remoteId :: "string option"

record copy_creation =
  cp_publication :: publication
  cp_request :: publication_claim
  cp_slot :: publication_claim
  cp_existing :: bool

record remote_binding =
  rb_providerNamespace :: string
  rb_objectType :: string
  rb_ownershipBoundary :: string
  rb_remoteId :: string

record operation_commit =
  oc_previous :: publication
  oc_next :: publication
  oc_operation :: operation
  oc_previousOperation :: "operation option"
  oc_remoteClaim :: "publication_claim option"

datatype conflict = Identity_required | Not_a_fresh_draft | Other_configuration | Receipt_unreconciled
  | Allocation_changed | Identity_immutable | Revision_checked_only | Remote_object_required
  | Exact_revision_required | Wrong_kind | Operation_unresolved | Operation_changed | Transition_refused
  | Readback_required | Remote_replacement | Invalid_creation | Invalid_operation | Changed_concurrently

datatype copy_error = Identity_error | Copy_conflict conflict

subsection \<open>Identity and digests\<close>

definition identity_id :: "string \<Rightarrow> bool" where
  "identity_id s \<longleftrightarrow> js_trim s = s \<and> s \<noteq> [] \<and> length s \<le> 200 \<and>
     list_all (\<lambda>c. \<not> ((of_char c :: nat) \<le> 31 \<or> (of_char c :: nat) = 127)) s"

definition context_id :: "string option \<Rightarrow> bool" where
  "context_id v = (case v of None \<Rightarrow> True | Some s \<Rightarrow> identity_id s)"

definition context_names :: "(copy_context \<Rightarrow> string option) \<Rightarrow> copy_identity \<Rightarrow> bool" where
  "context_names f copy = (case ci_context copy of None \<Rightarrow> False | Some c \<Rightarrow> truthy_opt (f c))"

definition assertPublicationCopyIdentity :: "copy_identity option \<Rightarrow> copy_error + unit" where
  "assertPublicationCopyIdentity copy = (case copy of
     None \<Rightarrow> Inl Identity_error
   | Some c \<Rightarrow> require (identity_id (ci_slotId c) \<and> identity_id (ci_creationRequestId c)
       \<and> identity_id (ai_providerNamespace (ci_account c)) \<and> identity_id (ai_remoteAccountId (ci_account c))
       \<and> (case ci_context c of None \<Rightarrow> True | Some x \<Rightarrow> context_id (cc_collectionId x) \<and> context_id (cc_volumeId x))
       \<and> (ci_purpose c = COLLECTION_FULL \<longrightarrow> context_names cc_collectionId c)
       \<and> (ci_purpose c = VOLUME_FULL \<longrightarrow> context_names cc_volumeId c)) Identity_error)"

fun canonical :: "json \<Rightarrow> json" where
  "canonical (J_arr xs) = J_arr (map canonical xs)"
| "canonical (J_obj kvs) = J_obj (sort_key fst (map (\<lambda>(k, v). (k, canonical v)) kvs))"
| "canonical v = v"

type_synonym digest = "json \<Rightarrow> string"

definition publicationIdentityHash :: "digest \<Rightarrow> json \<Rightarrow> string" where
  "publicationIdentityHash digest v = digest (canonical v)"

definition purpose_str :: "purpose \<Rightarrow> string" where
  "purpose_str p = (case p of UNCLASSIFIED \<Rightarrow> ''UNCLASSIFIED'' | PUBLIC_PREVIEW \<Rightarrow> ''PUBLIC_PREVIEW''
     | WORK_SALE \<Rightarrow> ''WORK_SALE'' | COLLECTION_FULL \<Rightarrow> ''COLLECTION_FULL'' | VOLUME_FULL \<Rightarrow> ''VOLUME_FULL'' | CUSTOM \<Rightarrow> ''CUSTOM'')"

definition account_json :: "account_identity \<Rightarrow> json" where
  "account_json a = J_obj [(''providerNamespace'', J_str (ai_providerNamespace a)), (''remoteAccountId'', J_str (ai_remoteAccountId a))]"

definition context_json :: "copy_context \<Rightarrow> json" where
  "context_json c = J_obj (opt_text ''collectionId'' (cc_collectionId c) @ opt_text ''volumeId'' (cc_volumeId c))"

definition identity_fields :: "copy_identity \<Rightarrow> (string \<times> json) list" where
  "identity_fields c = (''slotId'', J_str (ci_slotId c)) # (''account'', account_json (ci_account c))
     # (''purpose'', J_str (purpose_str (ci_purpose c))) # opt_field ''context'' (map_option context_json (ci_context c))"

definition identity_json :: "copy_identity \<Rightarrow> json" where
  "identity_json c = J_obj ((''creationRequestId'', J_str (ci_creationRequestId c)) # identity_fields c)"

definition publication_json :: "publication \<Rightarrow> json" where
  "publication_json p = J_obj
     ([(''tenantId'', J_str (pb_tenantId p)), (''creatorId'', J_str (pb_creatorId p)), (''workId'', J_str (pb_workId p)),
       (''publicationId'', J_str (pb_publicationId p)), (''destination'', J_str (pb_destination p)),
       (''status'', J_str (pb_status p)), (''createdAt'', J_str (pb_createdAt p)), (''updatedAt'', J_str (pb_updatedAt p))]
      @ opt_field ''copy'' (map_option identity_json (pb_copy p)) @ opt_field ''revision'' (map_option (\<lambda>n. J_num (of_int n)) (pb_revision p))
      @ opt_text ''remoteId'' (pb_remoteId p) @ opt_text ''activeOperationId'' (pb_activeOperationId p))"

definition request_key :: "digest \<Rightarrow> publication \<Rightarrow> copy_identity \<Rightarrow> string" where
  "request_key digest p c = ''REQUEST#'' @ publicationIdentityHash digest
     (J_arr [J_str (pb_tenantId p), J_str (pb_creatorId p), J_str (ci_creationRequestId c)])"

definition slot_key :: "digest \<Rightarrow> publication \<Rightarrow> copy_identity \<Rightarrow> string" where
  "slot_key digest p c = ''SLOT#'' @ publicationIdentityHash digest
     (J_arr [J_str (pb_tenantId p), J_str (pb_creatorId p), J_str (pb_workId p), J_str (pb_destination p),
             account_json (ci_account c), J_str (ci_slotId c)])"

definition copyClaimKeys :: "digest \<Rightarrow> publication \<Rightarrow> copy_error + (string \<times> string)" where
  "copyClaimKeys digest p = (case pb_copy p of None \<Rightarrow> Inl (Copy_conflict Identity_required)
     | Some c \<Rightarrow> Inr (request_key digest p c, slot_key digest p c))"

definition hex64 :: "string \<Rightarrow> bool" where
  "hex64 s \<longleftrightarrow> length s = 64 \<and> list_all (\<lambda>c. c \<in> set ''0123456789abcdef'') s"

subsection \<open>Commits the adapters validate\<close>

definition validateCopyCreation :: "digest \<Rightarrow> copy_creation \<Rightarrow> copy_error + unit" where
  "validateCopyCreation digest input =
     (let p = cp_publication input; request = cp_request input; slot = cp_slot input in
      try_then (assertPublicationCopyIdentity (pb_copy p)) (\<lambda>_.
      try_then (copyClaimKeys digest p) (\<lambda>(requestKey, slotKey).
        require (cl_key slot = slotKey \<and> starts_with (cl_key request) ''REQUEST#''
          \<and> (\<not> cp_existing input \<longrightarrow> cl_key request = requestKey)
          \<and> list_all (\<lambda>claim. cl_tenantId claim = pb_tenantId p \<and> cl_publicationId claim = pb_publicationId p
              \<and> hex64 (cl_fingerprint claim)) [request, slot]
          \<and> cl_fingerprint request = cl_fingerprint slot
          \<and> (\<not> cp_existing input \<longrightarrow> pb_status p = ''draft'' \<and> pb_revision p = Some 1 \<and> \<not> truthy_opt (pb_remoteId p)))
          (Copy_conflict Invalid_creation))))"

definition operationTransitions :: "operation_state \<Rightarrow> operation_state list" where
  "operationTransitions s = (case s of PREPARED \<Rightarrow> [IN_FLIGHT, CANCELLED] | IN_FLIGHT \<Rightarrow> [AMBIGUOUS, CONFIRMED, FAILED]
     | AMBIGUOUS \<Rightarrow> [CONFIRMED] | _ \<Rightarrow> [])"

definition delivers :: "operation_kind \<Rightarrow> bool" where
  "delivers k \<longleftrightarrow> k = CREATE \<or> k = UPDATE"

definition positive_revision :: "int option \<Rightarrow> bool" where
  "positive_revision r = (case r of None \<Rightarrow> False | Some n \<Rightarrow> safe_int n \<and> 1 \<le> n)"

definition continues :: "publication \<Rightarrow> operation \<Rightarrow> operation \<Rightarrow> bool" where
  "continues p before op \<longleftrightarrow> pb_activeOperationId p = Some (op_operationId op)
     \<and> op_state op \<in> set (operationTransitions (op_state before)) \<and> op_createdAt op = op_createdAt before
     \<and> op_version op = op_version before + 1 \<and> op_operationId op = op_operationId before
     \<and> op_intendedRevision op = op_intendedRevision before \<and> op_sourceRevision op = op_sourceRevision before
     \<and> op_kind op = op_kind before"

definition remote_claim_ok :: "publication \<Rightarrow> operation \<Rightarrow> publication_claim \<Rightarrow> bool" where
  "remote_claim_ok p op claim \<longleftrightarrow> op_state op = CONFIRMED \<and> delivers (op_kind op)
     \<and> cl_key claim = ''REMOTE#'' @ cl_fingerprint claim \<and> cl_tenantId claim = pb_tenantId p
     \<and> cl_publicationId claim = pb_publicationId p \<and> starts_with (cl_key claim) ''REMOTE#''"

definition validateCopyOperation :: "digest \<Rightarrow> operation_commit \<Rightarrow> copy_error + unit" where
  "validateCopyOperation digest input =
     (let p = oc_previous input; nxt = oc_next input; op = oc_operation input in
      require (case (pb_copy p, pb_copy nxt) of
        (Some pc, Some nc) \<Rightarrow>
          positive_revision (pb_revision p) \<and> safe_int (op_sourceRevision op) \<and> 1 \<le> op_sourceRevision op
          \<and> pb_activeOperationId nxt = Some (op_operationId op)
          \<and> publicationIdentityHash digest (identity_json pc) = publicationIdentityHash digest (identity_json nc)
          \<and> pb_tenantId p = pb_tenantId nxt \<and> pb_creatorId p = pb_creatorId nxt \<and> pb_workId p = pb_workId nxt
          \<and> pb_publicationId p = pb_publicationId nxt \<and> pb_destination p = pb_destination nxt \<and> pb_createdAt p = pb_createdAt nxt
          \<and> pb_revision nxt = map_option (\<lambda>n. n + 1) (pb_revision p)
          \<and> op_tenantId op = pb_tenantId p \<and> op_creatorId op = pb_creatorId p \<and> op_publicationId op = pb_publicationId p
          \<and> (case oc_previousOperation input of
               Some before \<Rightarrow> continues p before op
             | None \<Rightarrow> op_version op = 1 \<and> op_state op = PREPARED \<and> Some (op_intendedRevision op) = pb_revision nxt)
          \<and> (op_state op = CONFIRMED \<and> delivers (op_kind op) \<longrightarrow>
               oc_remoteClaim input \<noteq> None \<and> truthy_opt (op_remoteId op) \<and> pb_remoteId nxt = op_remoteId op)
          \<and> (case oc_remoteClaim input of None \<Rightarrow> True | Some claim \<Rightarrow> remote_claim_ok p op claim)
      | _ \<Rightarrow> False) (Copy_conflict Invalid_operation))"

definition assertCopyIdentityUnchanged :: "digest \<Rightarrow> publication option \<Rightarrow> publication \<Rightarrow> copy_error + unit" where
  "assertCopyIdentityUnchanged digest previous nxt = (case previous of None \<Rightarrow> Inr ()
   | Some p \<Rightarrow> (case pb_copy p of None \<Rightarrow> Inr ()
     | Some c \<Rightarrow>
        if Some (publicationIdentityHash digest (identity_json c)) \<noteq> map_option (\<lambda>n. publicationIdentityHash digest (identity_json n)) (pb_copy nxt)
           \<or> pb_workId p \<noteq> pb_workId nxt \<or> pb_creatorId p \<noteq> pb_creatorId nxt \<or> pb_destination p \<noteq> pb_destination nxt
        then Inl (Copy_conflict Identity_immutable)
        else if pb_revision nxt \<noteq> pb_revision p
           \<or> publicationIdentityHash digest (publication_json p) \<noteq> publicationIdentityHash digest (publication_json nxt)
        then Inl (Copy_conflict Revision_checked_only)
        else Inr ()))"

subsection \<open>The repository's clients\<close>

record 's copy_repository =
  cr_getPublication :: "'s \<Rightarrow> string \<Rightarrow> string \<Rightarrow> publication option"
  cr_getPublicationClaim :: "'s \<Rightarrow> string \<Rightarrow> string \<Rightarrow> publication_claim option"
  cr_commitPublicationCopy :: "'s \<Rightarrow> copy_creation \<Rightarrow> copy_error + 's"
  cr_getPublicationOperation :: "'s \<Rightarrow> string \<Rightarrow> string \<Rightarrow> operation option"
  cr_commitPublicationOperation :: "'s \<Rightarrow> operation_commit \<Rightarrow> copy_error + 's"

type_synonym 's others = "nat \<Rightarrow> 's \<Rightarrow> 's"

definition is_conflict :: "copy_error \<Rightarrow> bool" where
  "is_conflict e \<longleftrightarrow> e \<noteq> Identity_error"

definition receipt :: "publication \<Rightarrow> string \<Rightarrow> string \<Rightarrow> string \<Rightarrow> publication_claim" where
  "receipt p fingerprint key publicationId =
     \<lparr> cl_tenantId = pb_tenantId p, cl_key = key, cl_publicationId = publicationId, cl_fingerprint = fingerprint \<rparr>"

definition copy_fingerprint :: "digest \<Rightarrow> publication \<Rightarrow> copy_identity \<Rightarrow> json \<Rightarrow> string" where
  "copy_fingerprint digest p c requestParameters = publicationIdentityHash digest (J_obj
     [(''tenantId'', J_str (pb_tenantId p)), (''creatorId'', J_str (pb_creatorId p)), (''workId'', J_str (pb_workId p)),
      (''destination'', J_str (pb_destination p)), (''copy'', J_obj (identity_fields c)), (''requestParameters'', requestParameters)])"

text \<open>
  One attempt makes up to four calls, numbered from \<open>i\<close>; \<open>left\<close> counts the attempts left after this one. The
  result comes with the state this client leaves.
\<close>

definition commit_or_retry ::
  "('s \<Rightarrow> copy_error + 's) \<Rightarrow> 's \<Rightarrow> nat \<Rightarrow> publication \<times> bool \<Rightarrow> ('s \<Rightarrow> (copy_error + publication \<times> bool) \<times> 's)
   \<Rightarrow> (copy_error + publication \<times> bool) \<times> 's" where
  "commit_or_retry commit s left result retry = (case commit s of
     Inr s' \<Rightarrow> (Inr result, s')
   | Inl e \<Rightarrow> if is_conflict e \<and> left > 0 then retry s else (Inl e, s))"

fun copy_attempts :: "'s copy_repository \<Rightarrow> 's others \<Rightarrow> digest \<Rightarrow> publication \<Rightarrow> string \<Rightarrow> string \<Rightarrow> string
    \<Rightarrow> nat \<Rightarrow> nat \<Rightarrow> 's \<Rightarrow> (copy_error + publication \<times> bool) \<times> 's" where
  "copy_attempts repo others digest p rkey skey fp 0 i s = (Inl (Copy_conflict Allocation_changed), s)"
| "copy_attempts repo others digest p rkey skey fp (Suc left) i s =
     (let s1 = others i s;
          request = cr_getPublicationClaim repo s1 (pb_tenantId p) rkey;
          s2 = others (i + 1) s1;
          slot = cr_getPublicationClaim repo s2 (pb_tenantId p) skey;
          retry = copy_attempts repo others digest p rkey skey fp left (i + 4)
      in case (case request of Some r \<Rightarrow> Some r | None \<Rightarrow> slot) of
        Some existing \<Rightarrow>
          if cl_fingerprint existing \<noteq> fp
             \<or> (case (request, slot) of (Some r, Some l) \<Rightarrow> cl_publicationId r \<noteq> cl_publicationId l | _ \<Rightarrow> False)
          then (Inl (Copy_conflict Other_configuration), s2)
          else let s3 = others (i + 2) s2 in
            (case cr_getPublication repo s3 (pb_tenantId p) (cl_publicationId existing) of
               None \<Rightarrow> (Inl (Copy_conflict Receipt_unreconciled), s3)
             | Some saved \<Rightarrow>
                 if (case pb_copy saved of None \<Rightarrow> True | Some c \<Rightarrow> slot_key digest saved c \<noteq> skey)
                 then (Inl (Copy_conflict Receipt_unreconciled), s3)
                 else if request = None
                 then commit_or_retry
                   (\<lambda>s. cr_commitPublicationCopy repo s \<lparr> cp_publication = saved,
                      cp_request = receipt p fp rkey (pb_publicationId saved), cp_slot = receipt p fp skey (pb_publicationId saved),
                      cp_existing = True \<rparr>)
                   (others (i + 3) s3) left (saved, False) retry
                 else (Inr (saved, False), s3))
      | None \<Rightarrow>
          commit_or_retry
            (\<lambda>s. cr_commitPublicationCopy repo s \<lparr> cp_publication = p,
               cp_request = receipt p fp rkey (pb_publicationId p), cp_slot = receipt p fp skey (pb_publicationId p),
               cp_existing = False \<rparr>)
            (others (i + 2) s2) left (p, True) retry)"

definition bounded_id :: "string \<Rightarrow> bool" where
  "bounded_id s \<longleftrightarrow> 0 < length s \<and> length s \<le> 200"

definition fresh_draft :: "publication \<Rightarrow> bool" where
  "fresh_draft p \<longleftrightarrow> list_all bounded_id [pb_tenantId p, pb_creatorId p, pb_workId p, pb_publicationId p, pb_destination p]
     \<and> pb_revision p = Some 1 \<and> pb_status p = ''draft'' \<and> \<not> truthy_opt (pb_remoteId p)"

definition createPublicationCopy :: "'s copy_repository \<Rightarrow> 's others \<Rightarrow> digest \<Rightarrow> publication \<Rightarrow> json \<Rightarrow> 's
    \<Rightarrow> (copy_error + publication \<times> bool) \<times> 's" where
  "createPublicationCopy repo others digest p requestParameters s =
     (case assertPublicationCopyIdentity (pb_copy p) of Inl e \<Rightarrow> (Inl e, s)
      | Inr _ \<Rightarrow>
        if \<not> fresh_draft p then (Inl (Copy_conflict Not_a_fresh_draft), s)
        else (case pb_copy p of None \<Rightarrow> (Inl (Copy_conflict Identity_required), s)
          | Some c \<Rightarrow> copy_attempts repo others digest p (request_key digest p c) (slot_key digest p c)
              (copy_fingerprint digest p c requestParameters) 4 0 s))"

subsection \<open>Operations on a copy\<close>

definition binding_json :: "remote_binding \<Rightarrow> json" where
  "binding_json b = J_obj [(''providerNamespace'', J_str (rb_providerNamespace b)), (''objectType'', J_str (rb_objectType b)),
     (''ownershipBoundary'', J_str (rb_ownershipBoundary b)), (''remoteId'', J_str (rb_remoteId b))]"

definition binding_id :: "string \<Rightarrow> bool" where
  "binding_id s \<longleftrightarrow> js_trim s = s \<and> 0 < length s \<and> length s \<le> 200"

definition remotePublicationClaim :: "digest \<Rightarrow> publication \<Rightarrow> remote_binding \<Rightarrow> copy_error + publication_claim" where
  "remotePublicationClaim digest p b =
     try_then (require (case pb_copy p of None \<Rightarrow> False
         | Some c \<Rightarrow> rb_providerNamespace b = ai_providerNamespace (ci_account c)
             \<and> list_all binding_id [rb_objectType b, rb_ownershipBoundary b, rb_remoteId b]
             \<and> \<not> starts_with (rb_remoteId b) ''pending:'') (Copy_conflict Remote_object_required))
     (\<lambda>_. Inr \<lparr> cl_tenantId = pb_tenantId p, cl_key = ''REMOTE#'' @ publicationIdentityHash digest (binding_json b),
        cl_publicationId = pb_publicationId p, cl_fingerprint = publicationIdentityHash digest (binding_json b) \<rparr>)"

text \<open>An operation that no longer blocks the next approval.\<close>

definition settled :: "operation_state \<Rightarrow> bool" where
  "settled s \<longleftrightarrow> s \<in> {CONFIRMED, FAILED, CANCELLED}"

definition approvePublicationOperation :: "'s copy_repository \<Rightarrow> 's others \<Rightarrow> digest \<Rightarrow> publication \<Rightarrow> operation_kind
    \<Rightarrow> int \<Rightarrow> string \<Rightarrow> 's \<Rightarrow> copy_error + (operation \<times> 's)" where
  "approvePublicationOperation repo others digest p kind sourceRevision now s =
     (if pb_copy p = None \<or> \<not> positive_revision (pb_revision p) \<or> \<not> safe_int sourceRevision \<or> sourceRevision < 1
      then Inl (Copy_conflict Exact_revision_required)
      else if (if kind = CREATE then truthy_opt (pb_remoteId p) else \<not> truthy_opt (pb_remoteId p) \<and> kind \<noteq> DETACH)
      then Inl (Copy_conflict Wrong_kind)
      else let s1 = others 0 s in
        if (case pb_activeOperationId p of None \<Rightarrow> False
            | Some a \<Rightarrow> truthy a \<and> (case cr_getPublicationOperation repo s1 (pb_tenantId p) a of None \<Rightarrow> True
                | Some active \<Rightarrow> \<not> settled (op_state active)))
        then Inl (Copy_conflict Operation_unresolved)
        else (let revision = (case pb_revision p of Some n \<Rightarrow> n + 1 | None \<Rightarrow> 0);
                  op = \<lparr> op_operationId = ''operation-'' @ publicationIdentityHash digest
                          (J_arr [J_str (pb_tenantId p), J_str (pb_publicationId p), J_num (of_int revision)]),
                         op_tenantId = pb_tenantId p, op_creatorId = pb_creatorId p, op_publicationId = pb_publicationId p,
                         op_intendedRevision = revision, op_sourceRevision = sourceRevision, op_kind = kind,
                         op_state = PREPARED, op_version = 1, op_createdAt = now, op_updatedAt = now, op_remoteId = None \<rparr>;
                  nxt = p\<lparr> pb_revision := Some revision, pb_activeOperationId := Some (op_operationId op), pb_updatedAt := now \<rparr>
              in case cr_commitPublicationOperation repo (others 1 s1)
                    \<lparr> oc_previous = p, oc_next = nxt, oc_operation = op, oc_previousOperation = None, oc_remoteClaim = None \<rparr> of
                   Inl e \<Rightarrow> Inl e | Inr s' \<Rightarrow> Inr (op, s')))"

record transition_input =
  ti_tenantId :: string
  ti_publicationId :: string
  ti_operationId :: string
  ti_expectedVersion :: int
  ti_state :: operation_state
  ti_now :: string
  ti_binding :: "remote_binding option"

definition transitioned :: "transition_input \<Rightarrow> operation \<Rightarrow> operation" where
  "transitioned input previous = previous\<lparr> op_state := ti_state input, op_version := op_version previous + 1,
     op_updatedAt := ti_now input,
     op_remoteId := (case ti_binding input of Some b \<Rightarrow> Some (rb_remoteId b) | None \<Rightarrow> op_remoteId previous) \<rparr>"

definition published :: "transition_input \<Rightarrow> operation_kind \<Rightarrow> publication \<Rightarrow> publication" where
  "published input kind p = p\<lparr> pb_revision := map_option (\<lambda>n. n + 1) (pb_revision p), pb_updatedAt := ti_now input,
     pb_remoteId := (case ti_binding input of Some b \<Rightarrow> Some (rb_remoteId b) | None \<Rightarrow> pb_remoteId p),
     pb_status := (if ti_state input = CONFIRMED then (if delivers kind then ''live'' else ''removed'') else pb_status p) \<rparr>"

definition transition_allowed :: "transition_input \<Rightarrow> publication option \<Rightarrow> operation option \<Rightarrow> copy_error + (publication \<times> operation)" where
  "transition_allowed input p previous = (case (p, previous) of
     (Some p, Some previous) \<Rightarrow>
       if pb_copy p = None \<or> op_publicationId previous \<noteq> pb_publicationId p \<or> op_creatorId previous \<noteq> pb_creatorId p
          \<or> pb_activeOperationId p \<noteq> Some (op_operationId previous) \<or> op_version previous \<noteq> ti_expectedVersion input
       then Inl (Copy_conflict Operation_changed)
       else if ti_state input \<notin> set (operationTransitions (op_state previous)) then Inl (Copy_conflict Transition_refused)
       else if ti_state input = CONFIRMED \<and> delivers (op_kind previous) \<and> ti_binding input = None
       then Inl (Copy_conflict Readback_required)
       else if (case ti_binding input of None \<Rightarrow> False
           | Some b \<Rightarrow> ti_state input \<noteq> CONFIRMED \<or> \<not> delivers (op_kind previous)
               \<or> (truthy_opt (pb_remoteId p) \<and> pb_remoteId p \<noteq> Some (rb_remoteId b)))
       then Inl (Copy_conflict Remote_replacement)
       else Inr (p, previous)
   | _ \<Rightarrow> Inl (Copy_conflict Operation_changed))"

definition transitionPublicationOperation :: "'s copy_repository \<Rightarrow> 's others \<Rightarrow> digest \<Rightarrow> transition_input \<Rightarrow> 's
    \<Rightarrow> copy_error + (operation \<times> 's)" where
  "transitionPublicationOperation repo others digest input s =
     (let s1 = others 0 s; s2 = others 1 s1 in
      try_then (transition_allowed input (cr_getPublication repo s1 (ti_tenantId input) (ti_publicationId input))
                  (cr_getPublicationOperation repo s2 (ti_tenantId input) (ti_operationId input))) (\<lambda>(p, previous).
      try_then (case ti_binding input of None \<Rightarrow> Inr None
                | Some b \<Rightarrow> try_then (remotePublicationClaim digest p b) (\<lambda>c. Inr (Some c))) (\<lambda>claim.
      try_then (cr_commitPublicationOperation repo (others 2 s2)
          \<lparr> oc_previous = p, oc_next = published input (op_kind previous) p, oc_operation = transitioned input previous,
            oc_previousOperation = Some previous, oc_remoteClaim = claim \<rparr>) (\<lambda>s'.
      Inr (transitioned input previous, s')))))"

subsection \<open>What allocation relies on\<close>

text \<open>
  The laws of the allocation commit: it records the request, keeps every claim and publication, leaves the slot with
  the publication, and stores a new publication only under an identity that was free.
\<close>

locale copy_allocation =
  fixes repo :: "'s copy_repository"
  assumes claims_kept: "cr_commitPublicationCopy repo s c = Inr s' \<Longrightarrow> cr_getPublicationClaim repo s t k = Some x \<Longrightarrow>
      cr_getPublicationClaim repo s' t k = Some x"
    and request_claimed: "cr_commitPublicationCopy repo s c = Inr s' \<Longrightarrow>
      cr_getPublicationClaim repo s' (pb_tenantId (cp_publication c)) (cl_key (cp_request c)) = Some (cp_request c)"
    and slot_claimed: "cr_commitPublicationCopy repo s c = Inr s' \<Longrightarrow>
      (\<exists>x. cr_getPublicationClaim repo s' (pb_tenantId (cp_publication c)) (cl_key (cp_slot c)) = Some x
        \<and> cl_publicationId x = pb_publicationId (cp_publication c) \<and> cl_fingerprint x = cl_fingerprint (cp_slot c))"
    and publications_kept: "cr_commitPublicationCopy repo s c = Inr s' \<Longrightarrow> cr_getPublication repo s t i = Some p \<Longrightarrow>
      cr_getPublication repo s' t i = Some p"
    and stored_new: "cr_commitPublicationCopy repo s c = Inr s' \<Longrightarrow> \<not> cp_existing c \<Longrightarrow>
      cr_getPublication repo s (pb_tenantId (cp_publication c)) (pb_publicationId (cp_publication c)) = None
      \<and> cr_getPublication repo s' (pb_tenantId (cp_publication c)) (pb_publicationId (cp_publication c)) = Some (cp_publication c)"
begin

text \<open>What holds of the state after a publication was allocated for a request.\<close>

definition allocated :: "'s \<Rightarrow> publication \<Rightarrow> string \<Rightarrow> string \<Rightarrow> string \<Rightarrow> bool" where
  "allocated s p rkey skey fp \<longleftrightarrow> cr_getPublication repo s (pb_tenantId p) (pb_publicationId p) = Some p
     \<and> cr_getPublicationClaim repo s (pb_tenantId p) rkey = Some (receipt p fp rkey (pb_publicationId p))
     \<and> (\<exists>x. cr_getPublicationClaim repo s (pb_tenantId p) skey = Some x \<and> cl_publicationId x = pb_publicationId p
          \<and> cl_fingerprint x = fp)"

lemma commit_allocates:
  assumes "cr_commitPublicationCopy repo s \<lparr> cp_publication = p, cp_request = receipt p fp rkey (pb_publicationId p),
      cp_slot = receipt p fp skey (pb_publicationId p), cp_existing = False \<rparr> = Inr s'"
  shows "allocated s' p rkey skey fp"
  using request_claimed [OF assms] slot_claimed [OF assms] stored_new [OF assms]
  by (simp add: allocated_def receipt_def)

lemma attempts_allocate:
  "copy_attempts repo others digest p rkey skey fp n i s = (Inr (q, True), s') \<Longrightarrow> q = p \<and> allocated s' p rkey skey fp"
proof (induction n arbitrary: i s)
  case 0
  then show ?case by simp
next
  case (Suc n)
  define s1 where "s1 = others i s"
  define s2 where "s2 = others (i + 1) s1"
  define existing where "existing = (case cr_getPublicationClaim repo s1 (pb_tenantId p) rkey of Some r \<Rightarrow> Some r
     | None \<Rightarrow> cr_getPublicationClaim repo s2 (pb_tenantId p) skey)"
  note run = Suc.prems [unfolded copy_attempts.simps Let_def, folded s1_def, folded s2_def, folded existing_def]
  show ?case
  proof (cases existing)
    case None
    define s3 where "s3 = others (i + 2) s2"
    let ?c = "\<lparr> cp_publication = p, cp_request = receipt p fp rkey (pb_publicationId p),
      cp_slot = receipt p fp skey (pb_publicationId p), cp_existing = False \<rparr>"
    show ?thesis
    proof (cases "cr_commitPublicationCopy repo s3 ?c")
      case (Inl e)
      with run None Suc.IH show ?thesis by (auto simp: commit_or_retry_def s3_def split: if_splits)
    next
      case (Inr s'')
      with run None commit_allocates [OF Inr] show ?thesis by (auto simp: commit_or_retry_def s3_def)
    qed
  next
    case (Some claim)
    define s3 where "s3 = others (i + 2) s2"
    show ?thesis
    proof (cases "cr_getPublication repo s3 (pb_tenantId p) (cl_publicationId claim)")
      case None
      with run Some show ?thesis by (auto simp: s3_def split: if_splits)
    next
      case saved: (Some saved)
      with run Some Suc.IH show ?thesis
        by (auto simp: s3_def commit_or_retry_def split: if_splits sum.splits)
    qed
  qed
qed

lemma create_allocates:
  assumes "createPublicationCopy repo others digest p params s = (Inr (q, True), s')"
  obtains c where "pb_copy p = Some c" "q = p" "fresh_draft p" "assertPublicationCopyIdentity (Some c) = Inr ()"
    "allocated s' p (request_key digest p c) (slot_key digest p c) (copy_fingerprint digest p c params)"
proof -
  obtain c where c: "pb_copy p = Some c" "fresh_draft p" "assertPublicationCopyIdentity (Some c) = Inr ()"
    using assms by (auto simp: createPublicationCopy_def assertPublicationCopyIdentity_def split: sum.splits if_splits option.splits)
  with assms have "copy_attempts repo others digest p (request_key digest p c) (slot_key digest p c)
      (copy_fingerprint digest p c params) 4 0 s = (Inr (q, True), s')"
    by (simp add: createPublicationCopy_def)
  from attempts_allocate [OF this] c show thesis by (intro that) auto
qed

end

text \<open>A client that repeats the request finds the receipt, whatever identity it generated this time.\<close>

lemma create_replays:
  assumes p: "pb_copy p = Some c" "fresh_draft p" "assertPublicationCopyIdentity (Some c) = Inr ()"
    and r: "cr_getPublicationClaim repo s (pb_tenantId p) (request_key digest p c) = Some r"
      "cl_fingerprint r = copy_fingerprint digest p c params"
    and slot: "\<And>x. cr_getPublicationClaim repo s (pb_tenantId p) (slot_key digest p c) = Some x \<Longrightarrow>
      cl_publicationId x = cl_publicationId r"
    and q: "cr_getPublication repo s (pb_tenantId p) (cl_publicationId r) = Some q" "pb_copy q = Some c'"
      "slot_key digest q c' = slot_key digest p c"
  shows "createPublicationCopy repo (\<lambda>n s. s) digest p params s = (Inr (q, False), s)"
proof -
  have four: "(4::nat) = Suc 3" by simp
  show ?thesis
    unfolding createPublicationCopy_def p option.case sum.case four copy_attempts.simps Let_def
    using p(2) r slot q by (auto split: option.splits)
qed

lemma keys_ignore_identity [simp]:
  "request_key digest (p\<lparr> pb_publicationId := i \<rparr>) c = request_key digest p c"
  "slot_key digest (p\<lparr> pb_publicationId := i \<rparr>) c = slot_key digest p c"
  "copy_fingerprint digest (p\<lparr> pb_publicationId := i \<rparr>) c params = copy_fingerprint digest p c params"
  by (simp_all add: request_key_def slot_key_def copy_fingerprint_def)

end
