(* ===== verification/Content_Store.thy ===== *)
theory Content_Store
  imports Publication_Copies
begin

text \<open>
  The creator content store: the records of \<open>packages/persistence/src/creator-content.ts\<close> with the product fields the
  services read, \<open>creator-content-restore.ts\<close>, and every operation of \<open>MemoryCreatorContentStore\<close>
  (\<open>memory-creator-content.ts\<close>), the reference adapter. One HOL function per method: a query is a function of the
  state, a mutation returns the new state or the thrown error, which leaves the state as it was. Tables are lists in
  the order of the arrays. Timestamps are canonical ISO texts and titles compare by code unit. The records are values:
  what the code protects by cloning cannot change under a reader here.
\<close>

subsection \<open>Records\<close>

record work =
  wk_tenantId :: string
  wk_creatorId :: string
  wk_workId :: string
  wk_title :: string
  wk_description :: "string option"
  wk_tags :: "string list"
  wk_slug :: string
  wk_slugHistory :: "string list"
  wk_status :: string
  wk_revision :: int
  wk_createdAt :: string
  wk_updatedAt :: string
  wk_archivedAt :: "string option"
  wk_deletedAt :: "string option"
  wk_primaryAssetId :: "string option"
  wk_body :: "json option"
  wk_media :: "json option"

record stored_object =
  so_bucket :: string
  so_key :: string
  so_versionId :: string
  so_contentType :: string
  so_byteLength :: int
  so_checksum :: string
  so_scope :: string

record rendition =
  rn_id :: string
  rn_sourceVersionId :: string
  rn_role :: string
  rn_storage :: stored_object

record processing =
  pr_state :: string
  pr_sourceVersionId :: string
  pr_completedAt :: string
  pr_metadata :: "(string \<times> json) list"
  pr_renditions :: "rendition list"

record asset =
  ca_tenantId :: string
  ca_creatorId :: string
  ca_assetId :: string
  ca_status :: string
  ca_mimeType :: string
  ca_sizeBytes :: int
  ca_checksumSha256 :: string
  ca_storage :: stored_object
  ca_createdAt :: string
  ca_updatedAt :: string
  ca_processingJobId :: "string option"
  ca_processing :: "processing option"

record attachment =
  at_workId :: string
  at_assetId :: string
  at_role :: string
  at_position :: int

record publication_intent =
  in_tenantId :: string
  in_creatorId :: "string option"
  in_workId :: string
  in_publicationIntentId :: string
  in_updatedAt :: string

record collection =
  co_tenantId :: string
  co_creatorId :: string
  co_collectionId :: string
  co_title :: string
  co_slug :: string
  co_slugHistory :: "string list"
  co_status :: string
  co_updatedAt :: string
  co_revision :: "int option"
  co_coverAssetId :: "string option"
  co_deletedAt :: "string option"

record collection_work =
  cw_collectionId :: string
  cw_workId :: string
  cw_position :: int
  cw_addedAt :: string

record discovery =
  dp_tenantId :: string
  dp_creatorId :: "string option"
  dp_workId :: string

record source_receipt =
  sr_tenantId :: string
  sr_creatorId :: string
  sr_receiptId :: string
  sr_sourceIdentity :: string
  sr_workId :: string
  sr_assetId :: string
  sr_checksum :: string

record restore_receipt =
  rr_restoreId :: string
  rr_fingerprint :: string
  rr_tenantId :: string
  rr_creatorId :: string
  rr_completedAt :: string

record content_restore =
  re_restoreId :: string
  re_fingerprint :: string
  re_tenantId :: string
  re_creatorId :: string
  re_works :: "work list"
  re_assets :: "asset list"
  re_attachments :: "attachment list"
  re_publications :: "publication list"
  re_intents :: "publication_intent list"
  re_collections :: "collection list"
  re_collectionWorks :: "collection_work list"
  re_discovery :: "discovery list"

record asset_commit =
  ac_previousRevision :: int
  ac_work :: work
  ac_asset :: asset
  ac_attachment :: attachment

record reuse_commit =
  ru_previousRevision :: int
  ru_work :: work
  ru_sourceWorkId :: string
  ru_expectedAsset :: asset
  ru_attachment :: attachment
  ru_receipt :: source_receipt

record memory_store =
  ms_works :: "work list"
  ms_canonicalAssets :: "asset list"
  ms_workAssets :: "(string \<times> attachment) list"
  ms_publications :: "publication list"
  ms_publicationIntents :: "publication_intent list"
  ms_creatorCollections :: "collection list"
  ms_collectionWorks :: "(string \<times> collection_work) list"
  ms_workDiscovery :: "discovery list"
  ms_sourceReceipts :: "source_receipt list"
  ms_contentRestores :: "restore_receipt list"
  ms_publicationClaims :: "publication_claim list"
  ms_publicationOperations :: "operation list"

definition empty_store :: memory_store where
  "empty_store = \<lparr> ms_works = [], ms_canonicalAssets = [], ms_workAssets = [], ms_publications = [],
     ms_publicationIntents = [], ms_creatorCollections = [], ms_collectionWorks = [], ms_workDiscovery = [],
     ms_sourceReceipts = [], ms_contentRestores = [], ms_publicationClaims = [], ms_publicationOperations = [] \<rparr>"

datatype store_error = Commit_error | Content_rejected content_error | Copy_rejected copy_error | Collection_not_found

text \<open>\<open>sort((a, b) => b.k.localeCompare(a.k))\<close>: stable, the greatest key first.\<close>

definition sort_desc :: "('a \<Rightarrow> 'k::linorder) \<Rightarrow> 'a list \<Rightarrow> 'a list" where
  "sort_desc f xs = rev (sort_key f (rev xs))"

abbreviation work_key :: "work \<Rightarrow> string \<times> string" where "work_key w \<equiv> (wk_tenantId w, wk_workId w)"
abbreviation asset_key :: "asset \<Rightarrow> string \<times> string" where "asset_key a \<equiv> (ca_tenantId a, ca_assetId a)"
abbreviation member_key :: "string \<times> attachment \<Rightarrow> string \<times> string \<times> string" where
  "member_key m \<equiv> (fst m, at_workId (snd m), at_assetId (snd m))"
abbreviation publication_key :: "publication \<Rightarrow> string \<times> string" where "publication_key p \<equiv> (pb_tenantId p, pb_publicationId p)"
abbreviation intent_key :: "publication_intent \<Rightarrow> string \<times> string" where "intent_key i \<equiv> (in_tenantId i, in_publicationIntentId i)"
abbreviation collection_key :: "collection \<Rightarrow> string \<times> string" where "collection_key c \<equiv> (co_tenantId c, co_collectionId c)"
abbreviation discovery_key :: "discovery \<Rightarrow> string \<times> string" where "discovery_key d \<equiv> (dp_tenantId d, dp_workId d)"
abbreviation receipt_key :: "source_receipt \<Rightarrow> string \<times> string" where "receipt_key r \<equiv> (sr_tenantId r, sr_receiptId r)"
abbreviation restore_key :: "restore_receipt \<Rightarrow> string \<times> string" where "restore_key r \<equiv> (rr_tenantId r, rr_restoreId r)"
abbreviation claim_key :: "publication_claim \<Rightarrow> string \<times> string" where "claim_key c \<equiv> (cl_tenantId c, cl_key c)"
abbreviation op_key :: "operation \<Rightarrow> string \<times> string" where "op_key c \<equiv> (op_tenantId c, op_operationId c)"

definition find_key :: "('a \<Rightarrow> 'k) \<Rightarrow> 'k \<Rightarrow> 'a list \<Rightarrow> 'a option" where
  "find_key key k rows = List.find (\<lambda>r. key r = k) rows"

text \<open>\<open>filter\<close> out the record with the key and \<open>push\<close>; \<open>map\<close> the found record to another.\<close>

definition put_row :: "('a \<Rightarrow> 'k) \<Rightarrow> 'a \<Rightarrow> 'a list \<Rightarrow> 'a list" where
  "put_row key r rows = filter (\<lambda>x. key x \<noteq> key r) rows @ [r]"

fun replace_row :: "('a \<Rightarrow> 'k) \<Rightarrow> 'a \<Rightarrow> 'a list \<Rightarrow> 'a list" where
  "replace_row key r [] = []"
| "replace_row key r (x # xs) = (if key x = key r then r # xs else x # replace_row key r xs)"

subsection \<open>Works and assets\<close>

definition gone :: "string \<Rightarrow> bool" where
  "gone status \<longleftrightarrow> status \<in> set [''deleted'', ''archived'']"

definition getWork :: "memory_store \<Rightarrow> string \<Rightarrow> string \<Rightarrow> work option" where
  "getWork s tenantId workId = find_key work_key (tenantId, workId) (ms_works s)"

definition listWorksByCreator :: "memory_store \<Rightarrow> string \<Rightarrow> string \<Rightarrow> bool \<Rightarrow> work list" where
  "listWorksByCreator s tenantId creatorId includeDeleted =
     sort_desc wk_updatedAt (filter (\<lambda>w. wk_tenantId w = tenantId \<and> wk_creatorId w = creatorId
       \<and> (includeDeleted \<or> wk_status w \<noteq> ''deleted'')) (ms_works s))"

definition createWork :: "memory_store \<Rightarrow> work \<Rightarrow> memory_store" where
  "createWork s w = s\<lparr> ms_works := put_row work_key w (ms_works s) \<rparr>"

definition updateWork :: "memory_store \<Rightarrow> work \<Rightarrow> memory_store" where
  "updateWork s w = createWork s w"

definition commitWorkRevision :: "memory_store \<Rightarrow> work \<Rightarrow> int \<Rightarrow> store_error + memory_store" where
  "commitWorkRevision s w expectedRevision = (case find_key work_key (work_key w) (ms_works s) of
     None \<Rightarrow> Inl Commit_error
   | Some previous \<Rightarrow>
       if wk_revision previous \<noteq> expectedRevision \<or> wk_revision w \<noteq> expectedRevision + 1
          \<or> wk_creatorId previous \<noteq> wk_creatorId w then Inl Commit_error
       else Inr (s\<lparr> ms_works := replace_row work_key w (ms_works s) \<rparr>))"

definition getCanonicalAsset :: "memory_store \<Rightarrow> string \<Rightarrow> string \<Rightarrow> asset option" where
  "getCanonicalAsset s tenantId assetId = find_key asset_key (tenantId, assetId) (ms_canonicalAssets s)"

definition listCanonicalAssetsByWork :: "memory_store \<Rightarrow> string \<Rightarrow> string \<Rightarrow> (asset \<times> attachment) list" where
  "listCanonicalAssetsByWork s tenantId workId =
     List.map_filter (\<lambda>m. map_option (\<lambda>a. (a, snd m)) (getCanonicalAsset s tenantId (at_assetId (snd m))))
       (sort_key (\<lambda>m. at_position (snd m)) (filter (\<lambda>m. fst m = tenantId \<and> at_workId (snd m) = workId) (ms_workAssets s)))"

definition listCanonicalAssetsByCreator :: "memory_store \<Rightarrow> string \<Rightarrow> string \<Rightarrow> asset list" where
  "listCanonicalAssetsByCreator s tenantId creatorId =
     filter (\<lambda>a. ca_tenantId a = tenantId \<and> ca_creatorId a = creatorId) (ms_canonicalAssets s)"

definition createCanonicalAsset :: "memory_store \<Rightarrow> asset \<Rightarrow> memory_store" where
  "createCanonicalAsset s a = s\<lparr> ms_canonicalAssets := put_row asset_key a (ms_canonicalAssets s) \<rparr>"

definition updateCanonicalAsset :: "memory_store \<Rightarrow> asset \<Rightarrow> memory_store" where
  "updateCanonicalAsset s a = createCanonicalAsset s a"

definition attachAssetToWork :: "memory_store \<Rightarrow> string \<Rightarrow> attachment \<Rightarrow> memory_store" where
  "attachAssetToWork s tenantId m = s\<lparr> ms_workAssets := put_row member_key (tenantId, m) (ms_workAssets s) \<rparr>"

definition detachAssetFromWork :: "memory_store \<Rightarrow> string \<Rightarrow> string \<Rightarrow> string \<Rightarrow> memory_store" where
  "detachAssetFromWork s tenantId workId assetId =
     s\<lparr> ms_workAssets := filter (\<lambda>m. member_key m \<noteq> (tenantId, workId, assetId)) (ms_workAssets s) \<rparr>"

text \<open>The members of a Work in array order and \<open>members.length ? Math.max(...positions) + 1 : 0\<close>.\<close>

definition members_of :: "memory_store \<Rightarrow> string \<Rightarrow> string \<Rightarrow> attachment list" where
  "members_of s tenantId workId = map snd (filter (\<lambda>m. fst m = tenantId \<and> at_workId (snd m) = workId) (ms_workAssets s))"

fun next_position :: "int list \<Rightarrow> int" where
  "next_position [] = 0"
| "next_position (p # ps) = fold max ps p + 1"

definition commitAssetAttachment :: "memory_store \<Rightarrow> asset_commit \<Rightarrow> store_error + memory_store" where
  "commitAssetAttachment s input =
     (let work = ac_work input; asset = ac_asset input; attachment = ac_attachment input in
      case find_key work_key (work_key work) (ms_works s) of
        None \<Rightarrow> Inl Commit_error
      | Some previous \<Rightarrow>
          if wk_revision previous \<noteq> ac_previousRevision input \<or> wk_revision work \<noteq> ac_previousRevision input + 1
             \<or> wk_creatorId previous \<noteq> wk_creatorId work \<or> wk_status previous = ''deleted''
             \<or> ca_tenantId asset \<noteq> wk_tenantId work \<or> ca_creatorId asset \<noteq> wk_creatorId work
             \<or> at_workId attachment \<noteq> wk_workId work \<or> at_assetId attachment \<noteq> ca_assetId asset
             \<or> list_ex (\<lambda>a. asset_key a = asset_key asset) (ms_canonicalAssets s)
          then Inl Commit_error
          else if at_position attachment \<noteq> next_position (map at_position (members_of s (wk_tenantId work) (wk_workId work)))
          then Inl Commit_error
          else Inr (s\<lparr> ms_works := replace_row work_key work (ms_works s),
                       ms_canonicalAssets := ms_canonicalAssets s @ [asset],
                       ms_workAssets := ms_workAssets s @ [(wk_tenantId work, attachment)] \<rparr>))"

definition getSourceReceipt :: "memory_store \<Rightarrow> string \<Rightarrow> string \<Rightarrow> source_receipt option" where
  "getSourceReceipt s tenantId receiptId = find_key receipt_key (tenantId, receiptId) (ms_sourceReceipts s)"

definition reuse_admitted :: "reuse_commit \<Rightarrow> work \<Rightarrow> asset \<Rightarrow> bool" where
  "reuse_admitted input previous asset =
     (let work = ru_work input; r = ru_receipt input; e = ru_expectedAsset input in
      wk_creatorId previous = wk_creatorId work \<and> \<not> gone (wk_status previous)
      \<and> ca_creatorId asset = wk_creatorId work \<and> ca_status asset \<noteq> ''deleted'' \<and> ca_checksumSha256 asset = sr_checksum r
      \<and> ca_tenantId e = wk_tenantId work \<and> ca_creatorId e = wk_creatorId work
      \<and> sr_tenantId r = wk_tenantId work \<and> sr_creatorId r = wk_creatorId work \<and> sr_workId r = wk_workId work
      \<and> sr_assetId r = ca_assetId asset \<and> truthy (sr_receiptId r) \<and> truthy (sr_sourceIdentity r) \<and> hex64 (sr_checksum r)
      \<and> at_workId (ru_attachment input) = wk_workId work \<and> at_assetId (ru_attachment input) = ca_assetId asset)"

definition reuse_current :: "memory_store \<Rightarrow> reuse_commit \<Rightarrow> work \<Rightarrow> asset \<Rightarrow> bool" where
  "reuse_current s input previous asset =
     (let work = ru_work input; members = members_of s (wk_tenantId work) (wk_workId work) in
      (case find_key work_key (wk_tenantId work, ru_sourceWorkId input) (ms_works s) of
         None \<Rightarrow> False
       | Some source \<Rightarrow> wk_creatorId source = wk_creatorId work \<and> \<not> gone (wk_status source))
      \<and> list_ex (\<lambda>m. member_key m = (wk_tenantId work, ru_sourceWorkId input, ca_assetId asset)) (ms_workAssets s)
      \<and> asset = ru_expectedAsset input \<and> wk_revision previous = ru_previousRevision input
      \<and> safe_int (ru_previousRevision input) \<and> 1 \<le> ru_previousRevision input \<and> wk_revision work = ru_previousRevision input + 1
      \<and> \<not> list_ex (\<lambda>m. at_assetId m = ca_assetId asset) members
      \<and> at_position (ru_attachment input) = next_position (map at_position members))"

definition commitSourceReuse :: "memory_store \<Rightarrow> reuse_commit \<Rightarrow> store_error + memory_store" where
  "commitSourceReuse s input =
     (let work = ru_work input; r = ru_receipt input in
      case (find_key work_key (work_key work) (ms_works s),
            find_key asset_key (wk_tenantId work, ca_assetId (ru_expectedAsset input)) (ms_canonicalAssets s)) of
        (Some previous, Some asset) \<Rightarrow>
          if \<not> reuse_admitted input previous asset then Inl Commit_error
          else (case find_key receipt_key (receipt_key r) (ms_sourceReceipts s) of
            Some saved \<Rightarrow>
              if r \<noteq> saved \<or> \<not> list_ex (\<lambda>m. at_assetId m = sr_assetId r) (members_of s (wk_tenantId work) (wk_workId work))
              then Inl Commit_error else Inr s
          | None \<Rightarrow>
              if \<not> reuse_current s input previous asset then Inl Commit_error
              else Inr (s\<lparr> ms_works := replace_row work_key work (ms_works s),
                           ms_workAssets := ms_workAssets s @ [(wk_tenantId work, ru_attachment input)],
                           ms_sourceReceipts := ms_sourceReceipts s @ [r] \<rparr>))
      | _ \<Rightarrow> Inl Commit_error)"

subsection \<open>Publications\<close>

definition listPublicationsByWork :: "memory_store \<Rightarrow> string \<Rightarrow> string \<Rightarrow> publication list" where
  "listPublicationsByWork s tenantId workId =
     sort_desc pb_updatedAt (filter (\<lambda>p. pb_tenantId p = tenantId \<and> pb_workId p = workId) (ms_publications s))"

definition listPublicationsByDestination :: "memory_store \<Rightarrow> string \<Rightarrow> string \<Rightarrow> publication list" where
  "listPublicationsByDestination s tenantId destination =
     sort_desc pb_updatedAt (filter (\<lambda>p. pb_tenantId p = tenantId \<and> pb_destination p = destination) (ms_publications s))"

definition getPublication :: "memory_store \<Rightarrow> string \<Rightarrow> string \<Rightarrow> publication option" where
  "getPublication s tenantId publicationId = find_key publication_key (tenantId, publicationId) (ms_publications s)"

definition getPublicationClaim :: "memory_store \<Rightarrow> string \<Rightarrow> string \<Rightarrow> publication_claim option" where
  "getPublicationClaim s tenantId key = find_key claim_key (tenantId, key) (ms_publicationClaims s)"

definition changed_concurrently :: "copy_error" where
  "changed_concurrently = Copy_conflict Changed_concurrently"

definition live_work :: "memory_store \<Rightarrow> publication \<Rightarrow> work option" where
  "live_work s p = (case find_key work_key (pb_tenantId p, pb_workId p) (ms_works s) of None \<Rightarrow> None
     | Some w \<Rightarrow> if wk_creatorId w \<noteq> pb_creatorId p \<or> gone (wk_status w) then None else Some w)"

definition commitPublicationCopy :: "digest \<Rightarrow> memory_store \<Rightarrow> copy_creation \<Rightarrow> copy_error + memory_store" where
  "commitPublicationCopy digest s input =
     try_then (validateCopyCreation digest input) (\<lambda>_.
       let p = cp_publication input; request = cp_request input; slot = cp_slot input;
           current = getPublication s (pb_tenantId p) (pb_publicationId p);
           slotClaim = getPublicationClaim s (pb_tenantId p) (cl_key slot)
       in if live_work s p = None then Inl changed_concurrently
          else if getPublicationClaim s (pb_tenantId p) (cl_key request) \<noteq> None then Inl changed_concurrently
          else if (if cp_existing input
                   then current = None \<or> (case slotClaim of None \<Rightarrow> True
                     | Some c \<Rightarrow> cl_publicationId c \<noteq> pb_publicationId p \<or> cl_fingerprint c \<noteq> cl_fingerprint slot)
                   else current \<noteq> None \<or> slotClaim \<noteq> None) then Inl changed_concurrently
          else Inr (if cp_existing input
                    then s\<lparr> ms_publicationClaims := ms_publicationClaims s @ [request] \<rparr>
                    else s\<lparr> ms_publications := ms_publications s @ [p],
                            ms_publicationClaims := ms_publicationClaims s @ [slot, request] \<rparr>))"

definition getPublicationOperation :: "memory_store \<Rightarrow> string \<Rightarrow> string \<Rightarrow> operation option" where
  "getPublicationOperation s tenantId operationId = find_key op_key (tenantId, operationId) (ms_publicationOperations s)"

definition commitPublicationOperation :: "digest \<Rightarrow> memory_store \<Rightarrow> operation_commit \<Rightarrow> copy_error + memory_store" where
  "commitPublicationOperation digest s input =
     try_then (validateCopyOperation digest input) (\<lambda>_.
       let previous = oc_previous input; nxt = oc_next input; op = oc_operation input;
           current = getPublication s (pb_tenantId previous) (pb_publicationId previous);
           saved = getPublicationOperation s (op_tenantId op) (op_operationId op)
       in if current \<noteq> Some previous \<or> pb_revision nxt \<noteq> map_option (\<lambda>n. n + 1) (pb_revision previous)
             \<or> (case live_work s nxt of None \<Rightarrow> True
                | Some w \<Rightarrow> op_state op = IN_FLIGHT \<and> wk_revision w \<noteq> op_sourceRevision op)
             \<or> saved \<noteq> oc_previousOperation input
          then Inl changed_concurrently
          else if (case oc_remoteClaim input of None \<Rightarrow> False
              | Some claim \<Rightarrow> (case getPublicationClaim s (cl_tenantId claim) (cl_key claim) of None \<Rightarrow> False
                  | Some binding \<Rightarrow> cl_publicationId binding \<noteq> pb_publicationId nxt))
          then Inl changed_concurrently
          else Inr (s\<lparr> ms_publications := replace_row publication_key nxt (ms_publications s),
              ms_publicationOperations := put_row op_key op (ms_publicationOperations s),
              ms_publicationClaims := (case oc_remoteClaim input of None \<Rightarrow> ms_publicationClaims s
                | Some claim \<Rightarrow> if getPublicationClaim s (cl_tenantId claim) (cl_key claim) = None
                    then ms_publicationClaims s @ [claim] else ms_publicationClaims s) \<rparr>))"

text \<open>
  \<open>validatePublication\<close> is a hook of the product: here it may reject, and others may act on the store while it runs.
\<close>

definition upsertPublication :: "digest \<Rightarrow> (publication option \<Rightarrow> publication \<Rightarrow> copy_error + unit) \<Rightarrow> (memory_store \<Rightarrow> memory_store)
    \<Rightarrow> memory_store \<Rightarrow> publication \<Rightarrow> copy_error + memory_store" where
  "upsertPublication digest validatePublication others s p =
     try_then (assertCopyIdentityUnchanged digest (getPublication s (pb_tenantId p) (pb_publicationId p)) p) (\<lambda>_.
     try_then (validatePublication (getPublication s (pb_tenantId p) (pb_publicationId p)) p) (\<lambda>_.
       let s' = others s in
       try_then (assertCopyIdentityUnchanged digest (getPublication s' (pb_tenantId p) (pb_publicationId p)) p) (\<lambda>_.
         Inr (s'\<lparr> ms_publications := put_row publication_key p (ms_publications s') \<rparr>))))"

definition listPublicationIntentsByWork :: "memory_store \<Rightarrow> string \<Rightarrow> string \<Rightarrow> publication_intent list" where
  "listPublicationIntentsByWork s tenantId workId =
     sort_desc in_updatedAt (filter (\<lambda>i. in_tenantId i = tenantId \<and> in_workId i = workId) (ms_publicationIntents s))"

definition getPublicationIntent :: "memory_store \<Rightarrow> string \<Rightarrow> string \<Rightarrow> publication_intent option" where
  "getPublicationIntent s tenantId publicationIntentId = find_key intent_key (tenantId, publicationIntentId) (ms_publicationIntents s)"

definition upsertPublicationIntent :: "memory_store \<Rightarrow> publication_intent \<Rightarrow> memory_store" where
  "upsertPublicationIntent s i = s\<lparr> ms_publicationIntents := put_row intent_key i (ms_publicationIntents s) \<rparr>"

definition deletePublicationIntent :: "memory_store \<Rightarrow> string \<Rightarrow> string \<Rightarrow> memory_store" where
  "deletePublicationIntent s tenantId publicationIntentId =
     s\<lparr> ms_publicationIntents := filter (\<lambda>i. intent_key i \<noteq> (tenantId, publicationIntentId)) (ms_publicationIntents s) \<rparr>"

subsection \<open>Collections and discovery\<close>

definition getCreatorCollection :: "memory_store \<Rightarrow> string \<Rightarrow> string \<Rightarrow> collection option" where
  "getCreatorCollection s tenantId collectionId = find_key collection_key (tenantId, collectionId) (ms_creatorCollections s)"

definition listCreatorCollections :: "memory_store \<Rightarrow> string \<Rightarrow> string \<Rightarrow> bool \<Rightarrow> collection list" where
  "listCreatorCollections s tenantId creatorId includeDeleted =
     sort_key co_title (filter (\<lambda>c. co_tenantId c = tenantId \<and> co_creatorId c = creatorId
       \<and> (includeDeleted \<or> co_status c \<noteq> ''deleted'')) (ms_creatorCollections s))"

definition createCreatorCollection :: "memory_store \<Rightarrow> collection \<Rightarrow> memory_store" where
  "createCreatorCollection s c = s\<lparr> ms_creatorCollections := put_row collection_key c (ms_creatorCollections s) \<rparr>"

definition updateCreatorCollection :: "memory_store \<Rightarrow> collection \<Rightarrow> memory_store" where
  "updateCreatorCollection s c = createCreatorCollection s c"

definition listCollectionWorks :: "memory_store \<Rightarrow> string \<Rightarrow> string \<Rightarrow> collection_work list" where
  "listCollectionWorks s tenantId collectionId = (case getCreatorCollection s tenantId collectionId of None \<Rightarrow> []
     | Some _ \<Rightarrow> sort_key cw_position (map snd (filter (\<lambda>m. fst m = tenantId \<and> cw_collectionId (snd m) = collectionId) (ms_collectionWorks s))))"

definition replaceCollectionWorks :: "memory_store \<Rightarrow> string \<Rightarrow> string \<Rightarrow> collection_work list \<Rightarrow> store_error + memory_store" where
  "replaceCollectionWorks s tenantId collectionId works =
     (if getCreatorCollection s tenantId collectionId = None then Inl Collection_not_found
      else Inr (s\<lparr> ms_collectionWorks :=
        filter (\<lambda>m. \<not> (fst m = tenantId \<and> cw_collectionId (snd m) = collectionId)) (ms_collectionWorks s)
        @ map (Pair tenantId) works \<rparr>))"

definition getWorkDiscoveryParticipation :: "memory_store \<Rightarrow> string \<Rightarrow> string \<Rightarrow> discovery option" where
  "getWorkDiscoveryParticipation s tenantId workId = find_key discovery_key (tenantId, workId) (ms_workDiscovery s)"

definition upsertWorkDiscoveryParticipation :: "memory_store \<Rightarrow> discovery \<Rightarrow> memory_store" where
  "upsertWorkDiscoveryParticipation s d = s\<lparr> ms_workDiscovery := put_row discovery_key d (ms_workDiscovery s) \<rparr>"

subsection \<open>Restore\<close>

text \<open>One identity per record, in the tenant, of the creator where the record names one.\<close>

definition ids_ok :: "content_restore \<Rightarrow> ('a \<Rightarrow> string) \<Rightarrow> ('a \<Rightarrow> string) \<Rightarrow> ('a \<Rightarrow> string option) \<Rightarrow> 'a list \<Rightarrow> bool" where
  "ids_ok input key tenant creator rows \<longleftrightarrow> distinct (map key rows) \<and>
     list_all (\<lambda>r. nonblank (key r) \<and> tenant r = re_tenantId input \<and> (creator r = None \<or> creator r = Some (re_creatorId input))) rows"

definition relation_ok :: "('a \<Rightarrow> string) \<Rightarrow> string list \<Rightarrow> ('a \<Rightarrow> string) \<Rightarrow> string list \<Rightarrow> ('a \<Rightarrow> int) \<Rightarrow> 'a list \<Rightarrow> bool" where
  "relation_ok parent parents child children position rows \<longleftrightarrow>
     list_all (\<lambda>r. parent r \<in> set parents \<and> child r \<in> set children \<and> safe_int (position r) \<and> 0 \<le> position r) rows
     \<and> distinct (map (\<lambda>r. (parent r, position r)) rows) \<and> distinct (map (\<lambda>r. (parent r, child r)) rows)"

definition json_or_null :: "json option \<Rightarrow> json" where
  "json_or_null v = (case v of Some j \<Rightarrow> j | None \<Rightarrow> J_null)"

fun works_use_attached :: "content_restore \<Rightarrow> work list \<Rightarrow> store_error + unit" where
  "works_use_attached input [] = Inr ()"
| "works_use_attached input (w # ws) =
     (let attached = map at_assetId (filter (\<lambda>r. at_workId r = wk_workId w) (re_attachments input)) in
      if (case wk_primaryAssetId w of None \<Rightarrow> False | Some a \<Rightarrow> a \<notin> set attached) then Inl Commit_error
      else (case contentAssetReferences (json_or_null (wk_body w)) (json_or_null (wk_media w)) of
        Inl e \<Rightarrow> Inl (Content_rejected e)
      | Inr ids \<Rightarrow> if list_ex (\<lambda>i. i \<notin> set attached) ids then Inl Commit_error else works_use_attached input ws))"

definition restore_graph_ok :: "content_restore \<Rightarrow> bool" where
  "restore_graph_ok input \<longleftrightarrow>
     truthy (re_restoreId input) \<and> truthy (re_tenantId input) \<and> truthy (re_creatorId input) \<and> hex64 (re_fingerprint input)
     \<and> ids_ok input wk_workId wk_tenantId (\<lambda>w. Some (wk_creatorId w)) (re_works input)
     \<and> ids_ok input ca_assetId ca_tenantId (\<lambda>a. Some (ca_creatorId a)) (re_assets input)
     \<and> ids_ok input co_collectionId co_tenantId (\<lambda>c. Some (co_creatorId c)) (re_collections input)
     \<and> ids_ok input pb_publicationId pb_tenantId (\<lambda>p. Some (pb_creatorId p)) (re_publications input)
     \<and> ids_ok input in_publicationIntentId in_tenantId in_creatorId (re_intents input)
     \<and> ids_ok input dp_workId dp_tenantId dp_creatorId (re_discovery input)
     \<and> relation_ok at_workId (map wk_workId (re_works input)) at_assetId (map ca_assetId (re_assets input)) at_position (re_attachments input)
     \<and> relation_ok cw_collectionId (map co_collectionId (re_collections input)) cw_workId (map wk_workId (re_works input))
         cw_position (re_collectionWorks input)"

definition restore_refs_ok :: "content_restore \<Rightarrow> bool" where
  "restore_refs_ok input \<longleftrightarrow>
     list_all (\<lambda>c. case co_coverAssetId c of None \<Rightarrow> True | Some a \<Rightarrow> a \<in> set (map ca_assetId (re_assets input))) (re_collections input)
     \<and> list_all (\<lambda>i. i \<in> set (map wk_workId (re_works input)))
         (map pb_workId (re_publications input) @ map in_workId (re_intents input) @ map dp_workId (re_discovery input))"

definition validateCreatorContentRestore :: "content_restore \<Rightarrow> store_error + unit" where
  "validateCreatorContentRestore input =
     try_then (require (restore_graph_ok input) Commit_error) (\<lambda>_.
     try_then (works_use_attached input (re_works input)) (\<lambda>_.
     require (restore_refs_ok input) Commit_error))"

definition getContentRestore :: "memory_store \<Rightarrow> string \<Rightarrow> string \<Rightarrow> restore_receipt option" where
  "getContentRestore s tenantId restoreId = find_key restore_key (tenantId, restoreId) (ms_contentRestores s)"

definition collides :: "content_restore \<Rightarrow> ('a \<Rightarrow> string \<times> string) \<Rightarrow> 'a list \<Rightarrow> string list \<Rightarrow> bool" where
  "collides input key current incoming = list_ex (\<lambda>i. (re_tenantId input, i) \<in> set (map key current)) incoming"

definition restore_conflicts :: "memory_store \<Rightarrow> content_restore \<Rightarrow> bool" where
  "restore_conflicts s input \<longleftrightarrow>
     collides input work_key (ms_works s) (map wk_workId (re_works input))
     \<or> collides input asset_key (ms_canonicalAssets s) (map ca_assetId (re_assets input))
     \<or> collides input collection_key (ms_creatorCollections s) (map co_collectionId (re_collections input))
     \<or> collides input publication_key (ms_publications s) (map pb_publicationId (re_publications input))
     \<or> collides input intent_key (ms_publicationIntents s) (map in_publicationIntentId (re_intents input))
     \<or> collides input (\<lambda>m. (fst m, at_workId (snd m))) (ms_workAssets s) (map wk_workId (re_works input))
     \<or> collides input (\<lambda>m. (fst m, cw_collectionId (snd m))) (ms_collectionWorks s) (map co_collectionId (re_collections input))
     \<or> collides input discovery_key (ms_workDiscovery s) (map wk_workId (re_works input))"

definition commitContentRestore :: "memory_store \<Rightarrow> content_restore \<Rightarrow> string \<Rightarrow> store_error + (restore_receipt \<times> memory_store)" where
  "commitContentRestore s input completedAt =
     try_then (validateCreatorContentRestore input) (\<lambda>_.
       case getContentRestore s (re_tenantId input) (re_restoreId input) of
         Some existing \<Rightarrow>
           if rr_fingerprint existing \<noteq> re_fingerprint input \<or> rr_creatorId existing \<noteq> re_creatorId input then Inl Commit_error
           else Inr (existing, s)
       | None \<Rightarrow>
           if restore_conflicts s input then Inl Commit_error
           else (let receipt = \<lparr> rr_restoreId = re_restoreId input, rr_fingerprint = re_fingerprint input,
                   rr_tenantId = re_tenantId input, rr_creatorId = re_creatorId input, rr_completedAt = completedAt \<rparr>
             in Inr (receipt, s\<lparr> ms_works := ms_works s @ re_works input,
               ms_canonicalAssets := ms_canonicalAssets s @ re_assets input,
               ms_workAssets := ms_workAssets s @ map (Pair (re_tenantId input)) (re_attachments input),
               ms_publications := ms_publications s @ re_publications input,
               ms_publicationIntents := ms_publicationIntents s @ re_intents input,
               ms_creatorCollections := ms_creatorCollections s @ re_collections input,
               ms_collectionWorks := ms_collectionWorks s @ map (Pair (re_tenantId input)) (re_collectionWorks input),
               ms_workDiscovery := ms_workDiscovery s @ re_discovery input,
               ms_contentRestores := ms_contentRestores s @ [receipt] \<rparr>)))"

subsection \<open>Tables keyed by identity\<close>

lemma find_key_Some: "find_key key k rows = Some r \<Longrightarrow> r \<in> set rows \<and> key r = k"
  by (auto simp: find_key_def dest: find_SomeD)

lemma find_key_None: "find_key key k rows = None \<longleftrightarrow> k \<notin> key ` set rows"
  by (auto simp: find_key_def find_None_iff)

lemma find_key_ex: "k \<in> key ` set rows \<Longrightarrow> \<exists>r. find_key key k rows = Some r"
  by (metis find_key_None option.exhaust)

lemma find_key_append: "find_key key k (xs @ ys) = (case find_key key k xs of None \<Rightarrow> find_key key k ys | Some r \<Rightarrow> Some r)"
  unfolding find_key_def by (rule find_append)

lemma find_key_snoc:
  "find_key key k (xs @ [a]) = (case find_key key k xs of None \<Rightarrow> if key a = k then Some a else None | Some r \<Rightarrow> Some r)"
  unfolding find_key_append by (auto simp: find_key_def split: option.split)

lemma find_key_mem: "distinct (map key rows) \<Longrightarrow> r \<in> set rows \<Longrightarrow> find_key key (key r) rows = Some r"
  unfolding find_key_def by (rule find_unique) (auto dest: distinct_map_inj)

lemma find_key_put [store_simps]: "find_key key k (put_row key r rows) = (if k = key r then Some r else find_key key k rows)"
proof (cases "k = key r")
  case True
  then show ?thesis
    unfolding find_key_def put_row_def by (simp add: find_append find_filter_none)
next
  case False
  then have "List.find (\<lambda>x. key x = k) (filter (\<lambda>x. key x \<noteq> key r) rows) = List.find (\<lambda>x. key x = k) rows"
    by (intro find_filter_same) auto
  with False show ?thesis
    by (simp add: find_key_def put_row_def find_append split: option.split)
qed

lemma find_key_replace [store_simps]:
  "find_key key k (replace_row key r rows) =
     (if k = key r \<and> k \<in> key ` set rows then Some r else find_key key k rows)"
  by (induction rows) (auto simp: find_key_def)

lemma keys_replace [simp]: "map key (replace_row key r rows) = map key rows"
  by (induction rows) auto

lemma keys_replace_set [simp]: "key ` set (replace_row key r rows) = key ` set rows"
  by (metis keys_replace list.set_map)

lemma keys_put [simp]: "key ` set (put_row key r rows) = insert (key r) (key ` set rows)"
  by (auto simp: put_row_def)

lemma distinct_put [intro, simp]: "distinct (map key rows) \<Longrightarrow> distinct (map key (put_row key r rows))"
  by (auto simp: put_row_def distinct_map inj_on_def)

lemma distinct_filter_keys: "distinct (map key rows) \<Longrightarrow> distinct (map key (filter P rows))"
  by (auto simp: distinct_map inj_on_def)

lemma set_put: "x \<in> set (put_row key r rows) \<longleftrightarrow> x = r \<or> (x \<in> set rows \<and> key x \<noteq> key r)"
  by (auto simp: put_row_def)

lemma set_replace: "set (replace_row key r rows) \<subseteq> insert r (set rows)"
  by (induction rows) auto

subsection \<open>The store's invariant\<close>

text \<open>One record per identity in every table whose key the store maintains. The attachments have an invariant of their own below.\<close>

definition keyed :: "memory_store \<Rightarrow> bool" where
  "keyed s \<longleftrightarrow> distinct (map work_key (ms_works s)) \<and> distinct (map asset_key (ms_canonicalAssets s))
     \<and> distinct (map publication_key (ms_publications s))
     \<and> distinct (map intent_key (ms_publicationIntents s)) \<and> distinct (map collection_key (ms_creatorCollections s))
     \<and> distinct (map discovery_key (ms_workDiscovery s)) \<and> distinct (map receipt_key (ms_sourceReceipts s))
     \<and> distinct (map restore_key (ms_contentRestores s)) \<and> distinct (map claim_key (ms_publicationClaims s))
     \<and> distinct (map op_key (ms_publicationOperations s))"

text \<open>
  Claims and operations belong to stored publications, and a confirmed delivery holds the claim of its remote object.
\<close>

definition remote_claimed :: "memory_store \<Rightarrow> operation \<Rightarrow> bool" where
  "remote_claimed s op \<longleftrightarrow> (\<exists>c \<in> set (ms_publicationClaims s). cl_tenantId c = op_tenantId op
     \<and> cl_publicationId c = op_publicationId op \<and> starts_with (cl_key c) ''REMOTE#'')"

definition bound :: "memory_store \<Rightarrow> bool" where
  "bound s \<longleftrightarrow>
     (\<forall>c \<in> set (ms_publicationClaims s). (cl_tenantId c, cl_publicationId c) \<in> publication_key ` set (ms_publications s))
     \<and> (\<forall>op \<in> set (ms_publicationOperations s).
          (op_tenantId op, op_publicationId op) \<in> publication_key ` set (ms_publications s)
          \<and> (op_state op = CONFIRMED \<and> delivers (op_kind op) \<longrightarrow> remote_claimed s op))"

definition store_inv :: "memory_store \<Rightarrow> bool" where
  "store_inv s \<longleftrightarrow> keyed s \<and> bound s"

text \<open>Every attachment refers to a stored asset, which a Work has once.\<close>

definition attached_stored :: "memory_store \<Rightarrow> bool" where
  "attached_stored s \<longleftrightarrow> (\<forall>m \<in> set (ms_workAssets s). (fst m, at_assetId (snd m)) \<in> asset_key ` set (ms_canonicalAssets s))"

definition attachments_ok :: "memory_store \<Rightarrow> bool" where
  "attachments_ok s \<longleftrightarrow> attached_stored s \<and> distinct (map member_key (ms_workAssets s))"

text \<open>Every mutation of the store, with any arguments.\<close>

inductive store_step :: "digest \<Rightarrow> memory_store \<Rightarrow> memory_store \<Rightarrow> bool" for digest where
  createWork: "store_step digest s (createWork s w)"
| commitWorkRevision: "commitWorkRevision s w n = Inr s' \<Longrightarrow> store_step digest s s'"
| createCanonicalAsset: "store_step digest s (createCanonicalAsset s a)"
| attachAssetToWork: "store_step digest s (attachAssetToWork s t m)"
| detachAssetFromWork: "store_step digest s (detachAssetFromWork s t w a)"
| commitAssetAttachment: "commitAssetAttachment s ac = Inr s' \<Longrightarrow> store_step digest s s'"
| commitSourceReuse: "commitSourceReuse s ru = Inr s' \<Longrightarrow> store_step digest s s'"
| commitPublicationCopy: "commitPublicationCopy digest s cc = Inr s' \<Longrightarrow> store_step digest s s'"
| commitPublicationOperation: "commitPublicationOperation digest s oc = Inr s' \<Longrightarrow> store_step digest s s'"
| upsertPublication: "upsertPublication digest v (\<lambda>x. x) s p = Inr s' \<Longrightarrow> store_step digest s s'"
| upsertPublicationIntent: "store_step digest s (upsertPublicationIntent s i)"
| deletePublicationIntent: "store_step digest s (deletePublicationIntent s t pid)"
| createCreatorCollection: "store_step digest s (createCreatorCollection s c)"
| replaceCollectionWorks: "replaceCollectionWorks s t cid ws = Inr s' \<Longrightarrow> store_step digest s s'"
| upsertWorkDiscoveryParticipation: "store_step digest s (upsertWorkDiscoveryParticipation s d)"
| commitContentRestore: "commitContentRestore s re now = Inr (rr, s') \<Longrightarrow> store_step digest s s'"

inductive_cases store_step_cases: "store_step digest s s'"

text \<open>\<open>attachAssetToWork\<close> itself does not look the asset up; a careful client attaches stored assets only.\<close>

definition attaches_unstored :: "memory_store \<Rightarrow> memory_store \<Rightarrow> bool" where
  "attaches_unstored s s' \<longleftrightarrow> (\<exists>t m. s' = attachAssetToWork s t m \<and> getCanonicalAsset s t (at_assetId m) = None)"

definition careful_step :: "digest \<Rightarrow> memory_store \<Rightarrow> memory_store \<Rightarrow> bool" where
  "careful_step digest s s' \<longleftrightarrow> store_step digest s s' \<and> \<not> attaches_unstored s s'"

text \<open>The successful outcome of each conditional commit.\<close>

lemma commitWorkRevision_Inr:
  "commitWorkRevision s w n = Inr s' \<Longrightarrow> (\<exists>previous. getWork s (wk_tenantId w) (wk_workId w) = Some previous
     \<and> wk_revision previous = n \<and> wk_revision w = n + 1 \<and> wk_creatorId previous = wk_creatorId w)
     \<and> s' = s\<lparr> ms_works := replace_row work_key w (ms_works s) \<rparr>"
  by (auto simp: commitWorkRevision_def getWork_def split: option.splits if_splits)

lemma commitAssetAttachment_Inr:
  assumes "commitAssetAttachment s input = Inr s'"
  obtains previous where "getWork s (wk_tenantId (ac_work input)) (wk_workId (ac_work input)) = Some previous"
    "wk_revision previous = ac_previousRevision input" "wk_revision (ac_work input) = ac_previousRevision input + 1"
    "wk_status previous \<noteq> ''deleted''" "wk_creatorId previous = wk_creatorId (ac_work input)"
    "ca_tenantId (ac_asset input) = wk_tenantId (ac_work input)" "ca_creatorId (ac_asset input) = wk_creatorId (ac_work input)"
    "at_workId (ac_attachment input) = wk_workId (ac_work input)" "at_assetId (ac_attachment input) = ca_assetId (ac_asset input)"
    "asset_key (ac_asset input) \<notin> asset_key ` set (ms_canonicalAssets s)"
    "at_position (ac_attachment input) = next_position (map at_position (members_of s (wk_tenantId (ac_work input)) (wk_workId (ac_work input))))"
    "s' = s\<lparr> ms_works := replace_row work_key (ac_work input) (ms_works s),
       ms_canonicalAssets := ms_canonicalAssets s @ [ac_asset input],
       ms_workAssets := ms_workAssets s @ [(wk_tenantId (ac_work input), ac_attachment input)] \<rparr>"
proof -
  obtain previous where f: "find_key work_key (work_key (ac_work input)) (ms_works s) = Some previous"
    using assms by (auto simp: commitAssetAttachment_def Let_def split: option.splits)
  have new: "\<not> list_ex (\<lambda>a. asset_key a = asset_key (ac_asset input)) (ms_canonicalAssets s)"
    using assms f by (auto simp: commitAssetAttachment_def Let_def split: if_splits)
  then have "asset_key (ac_asset input) \<notin> asset_key ` set (ms_canonicalAssets s)"
    unfolding list_ex_iff by (metis (no_types, lifting) imageE)
  with assms f new show thesis
    by (intro that [of previous]) (simp_all add: commitAssetAttachment_def Let_def getWork_def split: if_splits)
qed

lemma commitSourceReuse_Inr:
  assumes "commitSourceReuse s input = Inr s'"
  obtains (again) "s' = s" "ru_receipt input \<in> set (ms_sourceReceipts s)"
      "\<exists>m \<in> set (members_of s (wk_tenantId (ru_work input)) (wk_workId (ru_work input))). at_assetId m = sr_assetId (ru_receipt input)"
  | (fresh) previous asset where
      "getWork s (wk_tenantId (ru_work input)) (wk_workId (ru_work input)) = Some previous"
      "getCanonicalAsset s (wk_tenantId (ru_work input)) (ca_assetId (ru_expectedAsset input)) = Some asset"
      "reuse_admitted input previous asset" "reuse_current s input previous asset"
      "receipt_key (ru_receipt input) \<notin> receipt_key ` set (ms_sourceReceipts s)"
      "s' = s\<lparr> ms_works := replace_row work_key (ru_work input) (ms_works s),
         ms_workAssets := ms_workAssets s @ [(wk_tenantId (ru_work input), ru_attachment input)],
         ms_sourceReceipts := ms_sourceReceipts s @ [ru_receipt input] \<rparr>"
proof -
  let ?w = "ru_work input" and ?r = "ru_receipt input"
  obtain previous asset where f: "find_key work_key (work_key ?w) (ms_works s) = Some previous"
      "find_key asset_key (wk_tenantId ?w, ca_assetId (ru_expectedAsset input)) (ms_canonicalAssets s) = Some asset"
    using assms by (auto simp: commitSourceReuse_def Let_def split: option.splits)
  note ok = assms [unfolded commitSourceReuse_def Let_def f option.case prod.case]
  have a: "reuse_admitted input previous asset" using ok by (simp split: if_splits)
  show thesis
  proof (cases "find_key receipt_key (receipt_key ?r) (ms_sourceReceipts s)")
    case None
    with ok a have c: "reuse_current s input previous asset" by (simp split: if_splits)
    have n: "receipt_key ?r \<notin> receipt_key ` set (ms_sourceReceipts s)" using None by (rule iffD1 [OF find_key_None])
    from ok a None c have "s' = s\<lparr> ms_works := replace_row work_key ?w (ms_works s),
         ms_workAssets := ms_workAssets s @ [(wk_tenantId ?w, ru_attachment input)],
         ms_sourceReceipts := ms_sourceReceipts s @ [?r] \<rparr>" by simp
    with f a c n show thesis by (intro fresh) (simp_all add: getWork_def getCanonicalAsset_def)
  next
    case (Some saved)
    with ok a have "?r = saved" "s' = s"
      "list_ex (\<lambda>m. at_assetId m = sr_assetId ?r) (members_of s (wk_tenantId ?w) (wk_workId ?w))"
      by (auto split: if_splits)
    with Some show thesis by (intro again) (auto simp: list_ex_iff dest: find_key_Some)
  qed
qed

lemma commitPublicationCopy_Inr:
  assumes "commitPublicationCopy digest s input = Inr s'"
  defines "p \<equiv> cp_publication input"
  obtains (attach) c where "cp_existing input" "validateCopyCreation digest input = Inr ()"
      "getPublication s (pb_tenantId p) (pb_publicationId p) \<noteq> None"
      "getPublicationClaim s (pb_tenantId p) (cl_key (cp_request input)) = None"
      "getPublicationClaim s (pb_tenantId p) (cl_key (cp_slot input)) = Some c" "cl_publicationId c = pb_publicationId p"
      "cl_fingerprint c = cl_fingerprint (cp_slot input)"
      "s' = s\<lparr> ms_publicationClaims := ms_publicationClaims s @ [cp_request input] \<rparr>"
  | (allocate) "\<not> cp_existing input" "validateCopyCreation digest input = Inr ()"
      "getPublication s (pb_tenantId p) (pb_publicationId p) = None"
      "getPublicationClaim s (pb_tenantId p) (cl_key (cp_request input)) = None"
      "getPublicationClaim s (pb_tenantId p) (cl_key (cp_slot input)) = None"
      "s' = s\<lparr> ms_publications := ms_publications s @ [p],
         ms_publicationClaims := ms_publicationClaims s @ [cp_slot input, cp_request input] \<rparr>"
proof -
  have v: "validateCopyCreation digest input = Inr ()"
    using assms(1) by (auto simp: commitPublicationCopy_def)
  note ok = assms(1) [unfolded commitPublicationCopy_def v try_then_simps Let_def, folded p_def]
  have r: "getPublicationClaim s (pb_tenantId p) (cl_key (cp_request input)) = None"
    using ok by (simp split: if_splits)
  show thesis
  proof (cases "cp_existing input")
    case True
    with ok r obtain c where "getPublicationClaim s (pb_tenantId p) (cl_key (cp_slot input)) = Some c"
      "cl_publicationId c = pb_publicationId p" "cl_fingerprint c = cl_fingerprint (cp_slot input)"
      by (auto split: if_splits option.splits)
    with ok r True v show thesis by (intro attach [of c]) (simp_all split: if_splits)
  next
    case False
    with ok r v show thesis by (intro allocate) (simp_all split: if_splits)
  qed
qed

lemma guards_Inr: "(if A then Inl e else if B then Inl e' else Inr x) = Inr y \<longleftrightarrow> \<not> A \<and> \<not> B \<and> x = y"
  by simp

lemma commitPublicationOperation_Inr:
  assumes "commitPublicationOperation digest s input = Inr s'"
  defines "op \<equiv> oc_operation input" and "p \<equiv> oc_previous input" and "n \<equiv> oc_next input"
  obtains w where "validateCopyOperation digest input = Inr ()"
    "getPublication s (pb_tenantId p) (pb_publicationId p) = Some p" "live_work s n = Some w"
    "op_state op = IN_FLIGHT \<longrightarrow> wk_revision w = op_sourceRevision op"
    "getPublicationOperation s (op_tenantId op) (op_operationId op) = oc_previousOperation input"
    "\<And>c b. oc_remoteClaim input = Some c \<Longrightarrow> getPublicationClaim s (cl_tenantId c) (cl_key c) = Some b \<Longrightarrow>
        cl_publicationId b = pb_publicationId n"
    "s' = s\<lparr> ms_publications := replace_row publication_key n (ms_publications s),
        ms_publicationOperations := put_row op_key op (ms_publicationOperations s),
        ms_publicationClaims := (case oc_remoteClaim input of None \<Rightarrow> ms_publicationClaims s
          | Some claim \<Rightarrow> if getPublicationClaim s (cl_tenantId claim) (cl_key claim) = None
              then ms_publicationClaims s @ [claim] else ms_publicationClaims s) \<rparr>"
proof -
  have v: "validateCopyOperation digest input = Inr ()"
    using assms(1) by (auto simp: commitPublicationOperation_def)
  note ok = assms(1) [unfolded commitPublicationOperation_def v try_then_simps Let_def, folded op_def p_def n_def, unfolded guards_Inr]
  obtain w where w: "live_work s n = Some w" "op_state op = IN_FLIGHT \<longrightarrow> wk_revision w = op_sourceRevision op"
    using ok by (cases "live_work s n") auto
  have rc: "cl_publicationId b = pb_publicationId n" if "oc_remoteClaim input = Some c" "getPublicationClaim s (cl_tenantId c) (cl_key c) = Some b" for c b
    using conjunct1 [OF conjunct2 [OF ok]] that by simp
  show thesis
  proof (rule that [of w])
    show "s' = s\<lparr> ms_publications := replace_row publication_key n (ms_publications s),
        ms_publicationOperations := put_row op_key op (ms_publicationOperations s),
        ms_publicationClaims := (case oc_remoteClaim input of None \<Rightarrow> ms_publicationClaims s
          | Some claim \<Rightarrow> if getPublicationClaim s (cl_tenantId claim) (cl_key claim) = None
              then ms_publicationClaims s @ [claim] else ms_publicationClaims s) \<rparr>"
      using conjunct2 [OF conjunct2 [OF ok]] by (rule sym)
  qed (use v w rc conjunct1 [OF ok] in blast)+
qed

lemma upsertPublication_Inr:
  assumes "upsertPublication digest v others s p = Inr s'"
  shows "s' = (others s)\<lparr> ms_publications := put_row publication_key p (ms_publications (others s)) \<rparr>"
    and "assertCopyIdentityUnchanged digest (getPublication (others s) (pb_tenantId p) (pb_publicationId p)) p = Inr ()"
  using assms by (auto simp: upsertPublication_def Let_def)

lemma commitContentRestore_Inr:
  assumes "commitContentRestore s input now = Inr (rr, s')"
  obtains (again) "s' = s" "getContentRestore s (re_tenantId input) (re_restoreId input) = Some rr"
      "rr_fingerprint rr = re_fingerprint input" "rr_creatorId rr = re_creatorId input"
  | (fresh) "getContentRestore s (re_tenantId input) (re_restoreId input) = None" "\<not> restore_conflicts s input"
      "restore_graph_ok input" "restore_refs_ok input" "works_use_attached input (re_works input) = Inr ()"
      "rr = \<lparr> rr_restoreId = re_restoreId input, rr_fingerprint = re_fingerprint input,
         rr_tenantId = re_tenantId input, rr_creatorId = re_creatorId input, rr_completedAt = now \<rparr>"
      "s' = s\<lparr> ms_works := ms_works s @ re_works input, ms_canonicalAssets := ms_canonicalAssets s @ re_assets input,
         ms_workAssets := ms_workAssets s @ map (Pair (re_tenantId input)) (re_attachments input),
         ms_publications := ms_publications s @ re_publications input,
         ms_publicationIntents := ms_publicationIntents s @ re_intents input,
         ms_creatorCollections := ms_creatorCollections s @ re_collections input,
         ms_collectionWorks := ms_collectionWorks s @ map (Pair (re_tenantId input)) (re_collectionWorks input),
         ms_workDiscovery := ms_workDiscovery s @ re_discovery input,
         ms_contentRestores := ms_contentRestores s @ [rr] \<rparr>"
proof -
  have v: "validateCreatorContentRestore input = Inr ()"
    using assms by (auto simp: commitContentRestore_def)
  then have g: "restore_graph_ok input" "restore_refs_ok input" "works_use_attached input (re_works input) = Inr ()"
    by (auto simp: validateCreatorContentRestore_def)
  note ok = assms [unfolded commitContentRestore_def v try_then_simps]
  show thesis
  proof (cases "getContentRestore s (re_tenantId input) (re_restoreId input)")
    case None
    have c: "\<not> restore_conflicts s input" using ok None by (auto split: if_splits)
    show thesis
      by (rule fresh [OF None c g]) (use ok None c in \<open>auto simp: Let_def\<close>)
  next
    case (Some saved)
    with ok show thesis by (intro again) (simp_all split: if_splits)
  qed
qed

lemma distinct_keyed_append:
  "distinct (map f xs) \<Longrightarrow> distinct (map f ys) \<Longrightarrow> f ` set xs \<inter> f ` set ys = {} \<Longrightarrow> distinct (map f (xs @ ys))"
  by simp

text \<open>New rows in one tenant, none of whose identities is stored.\<close>

lemma restored_rows:
  assumes "ids_ok input key tenant creator rows" "\<not> collides input (\<lambda>r. (tenant r, key r)) current (map key rows)"
    "distinct (map (\<lambda>r. (tenant r, key r)) current)"
  shows "distinct (map (\<lambda>r. (tenant r, key r)) (current @ rows))"
proof (rule distinct_keyed_append)
  show "distinct (map (\<lambda>r. (tenant r, key r)) rows)"
    using assms(1) by (auto simp: ids_ok_def distinct_map inj_on_def)
  show "(\<lambda>r. (tenant r, key r)) ` set current \<inter> (\<lambda>r. (tenant r, key r)) ` set rows = {}"
  proof -
    have new: "(tenant r, key r) \<notin> (\<lambda>r. (tenant r, key r)) ` set current" if r: "r \<in> set rows" for r
    proof
      assume c: "(tenant r, key r) \<in> (\<lambda>r. (tenant r, key r)) ` set current"
      have t: "tenant r = re_tenantId input" "key r \<in> set (map key rows)"
        using r assms(1) by (auto simp: ids_ok_def list_all_iff)
      from c have "(re_tenantId input, key r) \<in> set (map (\<lambda>r. (tenant r, key r)) current)" unfolding t(1) by simp
      with t(2) assms(2) show False unfolding collides_def list_ex_iff by blast
    qed
    show ?thesis
    proof (rule equals0I)
      fix x assume x: "x \<in> (\<lambda>r. (tenant r, key r)) ` set current \<inter> (\<lambda>r. (tenant r, key r)) ` set rows"
      from IntD2 [OF x] obtain r where r: "x = (tenant r, key r)" "r \<in> set rows" by (rule imageE)
      from new [OF r(2)] IntD1 [OF x, unfolded r(1)] show False by (rule notE)
    qed
  qed
qed (rule assms(3))

lemma restore_members:
  assumes "distinct (map member_key (ms_workAssets s))" "restore_graph_ok input" "\<not> restore_conflicts s input"
  shows "distinct (map member_key (ms_workAssets s @ map (Pair (re_tenantId input)) (re_attachments input)))"
proof (rule distinct_keyed_append)
  note ids = assms(2) [unfolded restore_graph_ok_def]
  note nc = assms(3) [unfolded restore_conflicts_def]
  show "distinct (map member_key (map (Pair (re_tenantId input)) (re_attachments input)))"
    using ids by (auto simp: relation_ok_def distinct_map inj_on_def comp_def)
  have "at_workId m \<in> set (map wk_workId (re_works input))" if "m \<in> set (re_attachments input)" for m
    using ids that by (auto simp: relation_ok_def list_all_iff)
  moreover have "(re_tenantId input, i) \<notin> (\<lambda>m. (fst m, at_workId (snd m))) ` set (ms_workAssets s)"
    if "i \<in> set (map wk_workId (re_works input))" for i
    using nc that unfolding collides_def list_ex_iff list.set_map by blast
  ultimately have "(re_tenantId input, at_workId m) \<notin> (\<lambda>m. (fst m, at_workId (snd m))) ` set (ms_workAssets s)"
    if "m \<in> set (re_attachments input)" for m using that by blast
  then show "member_key ` set (ms_workAssets s) \<inter> member_key ` set (map (Pair (re_tenantId input)) (re_attachments input)) = {}"
    by (fastforce simp: image_iff)
qed (rule assms(1))

lemma restore_keyed:
  assumes "keyed s" "commitContentRestore s input now = Inr (rr, s')"
  shows "keyed s'"
  using assms(2)
proof (cases rule: commitContentRestore_Inr)
  case again
  with assms(1) show ?thesis by simp
next
  case fresh
  note k = assms(1) [unfolded keyed_def]
  note ids = fresh(3) [unfolded restore_graph_ok_def]
  note nc = fresh(2) [unfolded restore_conflicts_def]
  have "distinct (map restore_key (ms_contentRestores s @ [rr]))"
    using k fresh(1) by (auto simp: find_key_None fresh(6) getContentRestore_def)
  moreover have "distinct (map discovery_key (ms_workDiscovery s @ re_discovery input))"
  proof (rule restored_rows [of input dp_workId dp_tenantId dp_creatorId])
    have "set (map dp_workId (re_discovery input)) \<subseteq> set (map wk_workId (re_works input))"
      using fresh(4) by (auto simp: restore_refs_ok_def list_all_iff)
    then show "\<not> collides input discovery_key (ms_workDiscovery s) (map dp_workId (re_discovery input))"
      using nc unfolding collides_def list_ex_iff by blast
  qed (use ids k in simp_all)
  moreover have "distinct (map work_key (ms_works s @ re_works input))"
    using ids nc k by (intro restored_rows [of input wk_workId wk_tenantId "\<lambda>w. Some (wk_creatorId w)"]) blast+
  moreover have "distinct (map asset_key (ms_canonicalAssets s @ re_assets input))"
    using ids nc k by (intro restored_rows [of input ca_assetId ca_tenantId "\<lambda>a. Some (ca_creatorId a)"]) blast+
  moreover have "distinct (map publication_key (ms_publications s @ re_publications input))"
    using ids nc k by (intro restored_rows [of input pb_publicationId pb_tenantId "\<lambda>p. Some (pb_creatorId p)"]) blast+
  moreover have "distinct (map intent_key (ms_publicationIntents s @ re_intents input))"
    using ids nc k by (intro restored_rows [of input in_publicationIntentId in_tenantId in_creatorId]) blast+
  moreover have "distinct (map collection_key (ms_creatorCollections s @ re_collections input))"
    using ids nc k by (intro restored_rows [of input co_collectionId co_tenantId "\<lambda>c. Some (co_creatorId c)"]) blast+
  ultimately show ?thesis using k unfolding fresh(7) keyed_def
    by (simp del: map_append distinct_append)
qed

lemma reuse_member_fresh:
  assumes "reuse_admitted input previous asset" "reuse_current s input previous asset"
  shows "member_key (wk_tenantId (ru_work input), ru_attachment input) \<notin> member_key ` set (ms_workAssets s)"
proof
  assume "member_key (wk_tenantId (ru_work input), ru_attachment input) \<in> member_key ` set (ms_workAssets s)"
  then obtain m where "m \<in> set (ms_workAssets s)" "member_key m = member_key (wk_tenantId (ru_work input), ru_attachment input)"
    by auto
  moreover from assms(1) have "at_workId (ru_attachment input) = wk_workId (ru_work input)" "at_assetId (ru_attachment input) = ca_assetId asset"
    by (simp_all add: reuse_admitted_def Let_def)
  ultimately have "snd m \<in> set (members_of s (wk_tenantId (ru_work input)) (wk_workId (ru_work input)))" "at_assetId (snd m) = ca_assetId asset"
    by (auto simp: members_of_def)
  with assms(2) show False by (auto simp: reuse_current_def Let_def list_ex_iff)
qed

lemma validCopyCreation_keys:
  assumes "validateCopyCreation digest input = Inr ()"
  shows "cl_tenantId (cp_request input) = pb_tenantId (cp_publication input)" "cl_tenantId (cp_slot input) = pb_tenantId (cp_publication input)"
    "cl_publicationId (cp_request input) = pb_publicationId (cp_publication input)" "cl_publicationId (cp_slot input) = pb_publicationId (cp_publication input)"
    "cl_key (cp_request input) \<noteq> cl_key (cp_slot input)"
proof -
  have s: "\<not> starts_with (slot_key digest p c) ''REQUEST#''" for p c by (simp add: slot_key_def starts_with_def)
  show "cl_tenantId (cp_request input) = pb_tenantId (cp_publication input)" "cl_tenantId (cp_slot input) = pb_tenantId (cp_publication input)"
    "cl_publicationId (cp_request input) = pb_publicationId (cp_publication input)" "cl_publicationId (cp_slot input) = pb_publicationId (cp_publication input)"
    using assms by (auto simp: validateCopyCreation_def Let_def)
  show "cl_key (cp_request input) \<noteq> cl_key (cp_slot input)"
  proof -
    have r: "starts_with (cl_key (cp_request input)) ''REQUEST#''"
      using assms by (auto simp: validateCopyCreation_def Let_def)
    have "\<exists>c. slot_key digest (cp_publication input) c = cl_key (cp_slot input)"
      using assms by (cases "pb_copy (cp_publication input)") (auto simp: validateCopyCreation_def Let_def copyClaimKeys_def)
    with r s show ?thesis by metis
  qed
qed

lemma store_step_keyed:
  assumes "store_step digest s s'" "keyed s"
  shows "keyed s'"
  using assms(1)
proof (cases rule: store_step.cases)
  case (commitAssetAttachment ac)
  from commitAssetAttachment show ?thesis
  proof (rule commitAssetAttachment_Inr)
    assume new: "asset_key (ac_asset ac) \<notin> asset_key ` set (ms_canonicalAssets s)"
      and s': "s' = s\<lparr> ms_works := replace_row work_key (ac_work ac) (ms_works s),
         ms_canonicalAssets := ms_canonicalAssets s @ [ac_asset ac],
         ms_workAssets := ms_workAssets s @ [(wk_tenantId (ac_work ac), ac_attachment ac)] \<rparr>"
    show ?thesis using new assms(2) unfolding s' keyed_def by simp
  qed
next
  case (commitSourceReuse ru)
  from commitSourceReuse show ?thesis
  proof (cases rule: commitSourceReuse_Inr)
    case again
    with assms(2) show ?thesis by simp
  next
    case (fresh previous asset)
    with assms(2) show ?thesis unfolding fresh(6) keyed_def by simp
  qed
next
  case (commitPublicationCopy cc)
  from commitPublicationCopy show ?thesis
  proof (cases rule: commitPublicationCopy_Inr)
    case (attach c)
    have t: "cl_tenantId (cp_request cc) = pb_tenantId (cp_publication cc)"
      using validCopyCreation_keys [OF attach(2)] by simp
    with attach(4) assms(2) show ?thesis unfolding attach(8) keyed_def
      by (simp add: find_key_None getPublicationClaim_def)
  next
    case allocate
    have t: "cl_tenantId (cp_request cc) = pb_tenantId (cp_publication cc)" "cl_tenantId (cp_slot cc) = pb_tenantId (cp_publication cc)"
      "cl_key (cp_request cc) \<noteq> cl_key (cp_slot cc)"
      using validCopyCreation_keys [OF allocate(2)] by auto
    with allocate(3-5) assms(2) show ?thesis unfolding allocate(6) keyed_def
      by (simp add: find_key_None getPublicationClaim_def getPublication_def)
  qed
next
  case (commitPublicationOperation oc)
  from commitPublicationOperation show ?thesis
  proof (rule commitPublicationOperation_Inr)
    assume s': "s' = s\<lparr> ms_publications := replace_row publication_key (oc_next oc) (ms_publications s),
        ms_publicationOperations := put_row op_key (oc_operation oc) (ms_publicationOperations s),
        ms_publicationClaims := (case oc_remoteClaim oc of None \<Rightarrow> ms_publicationClaims s
          | Some claim \<Rightarrow> if getPublicationClaim s (cl_tenantId claim) (cl_key claim) = None
              then ms_publicationClaims s @ [claim] else ms_publicationClaims s) \<rparr>"
    show ?thesis using assms(2) unfolding s' keyed_def
      by (simp add: find_key_None getPublicationClaim_def split: option.split)
  qed
next
  case (commitContentRestore re now rr)
  with assms(2) show ?thesis by (blast intro: restore_keyed)
next
  case (upsertPublication v p)
  from assms(2) show ?thesis unfolding upsertPublication_Inr(1) [OF upsertPublication] by (simp add: keyed_def)
next
  case (commitWorkRevision w n)
  from commitWorkRevision_Inr [OF this] assms(2) show ?thesis by (auto simp: keyed_def)
next
  case (replaceCollectionWorks t cid ws)
  with assms(2) show ?thesis by (auto simp: keyed_def replaceCollectionWorks_def split: if_splits)
qed (use assms(2) in \<open>simp_all add: keyed_def createWork_def createCanonicalAsset_def attachAssetToWork_def distinct_put
    detachAssetFromWork_def distinct_filter_keys upsertPublicationIntent_def deletePublicationIntent_def
    createCreatorCollection_def upsertWorkDiscoveryParticipation_def\<close>)

lemma attachments_same:
  "ms_workAssets s' = ms_workAssets s \<Longrightarrow> asset_key ` set (ms_canonicalAssets s) \<subseteq> asset_key ` set (ms_canonicalAssets s') \<Longrightarrow>
   attachments_ok s \<Longrightarrow> attachments_ok s'"
  by (auto simp: attachments_ok_def attached_stored_def)

lemma careful_step_attachments:
  assumes "careful_step digest s s'" "attachments_ok s"
  shows "attachments_ok s'"
proof -
  have step: "store_step digest s s'" and careful: "\<not> attaches_unstored s s'" using assms(1) by (simp_all add: careful_step_def)
  have d: "distinct (map member_key (ms_workAssets s))" and st: "attached_stored s" using assms(2) by (simp_all add: attachments_ok_def)
  from step show ?thesis
  proof (cases rule: store_step.cases)
    case (attachAssetToWork t m)
    then have "getCanonicalAsset s t (at_assetId m) \<noteq> None" using careful by (auto simp: attaches_unstored_def)
    then show ?thesis using st d unfolding attachAssetToWork
      by (auto simp: find_key_None attachments_ok_def attached_stored_def attachAssetToWork_def getCanonicalAsset_def set_put distinct_put)
  next
    case (detachAssetFromWork t w a)
    then show ?thesis using st d by (auto simp: attachments_ok_def attached_stored_def detachAssetFromWork_def distinct_filter_keys)
  next
    case (commitAssetAttachment ac)
    from commitAssetAttachment show ?thesis
    proof (rule commitAssetAttachment_Inr)
      assume new: "asset_key (ac_asset ac) \<notin> asset_key ` set (ms_canonicalAssets s)"
        and t: "ca_tenantId (ac_asset ac) = wk_tenantId (ac_work ac)" "at_assetId (ac_attachment ac) = ca_assetId (ac_asset ac)"
        and s': "s' = s\<lparr> ms_works := replace_row work_key (ac_work ac) (ms_works s),
           ms_canonicalAssets := ms_canonicalAssets s @ [ac_asset ac],
           ms_workAssets := ms_workAssets s @ [(wk_tenantId (ac_work ac), ac_attachment ac)] \<rparr>"
      have "member_key (wk_tenantId (ac_work ac), ac_attachment ac) \<notin> member_key ` set (ms_workAssets s)"
        using new t st by (fastforce simp: attached_stored_def)
      then show ?thesis using d st t unfolding s' by (auto simp: attachments_ok_def attached_stored_def)
    qed
  next
    case (commitSourceReuse ru)
    from commitSourceReuse show ?thesis
    proof (cases rule: commitSourceReuse_Inr)
      case (fresh previous asset)
      have "(wk_tenantId (ru_work ru), at_assetId (ru_attachment ru)) = asset_key asset" "asset \<in> set (ms_canonicalAssets s)"
        using fresh(2,3) by (auto simp: reuse_admitted_def Let_def getCanonicalAsset_def dest: find_key_Some)
      with reuse_member_fresh [OF fresh(3,4)] st d show ?thesis unfolding fresh(6) attachments_ok_def attached_stored_def by auto
    qed (use assms(2) in simp)
  next
    case (commitPublicationCopy cc)
    from commitPublicationCopy show ?thesis
      by (cases rule: commitPublicationCopy_Inr) (use assms(2) in \<open>simp_all add: attachments_same\<close>)
  next
    case (commitPublicationOperation oc)
    from commitPublicationOperation show ?thesis
      by (rule commitPublicationOperation_Inr) (use assms(2) in \<open>simp add: attachments_same\<close>)
  next
    case (commitContentRestore re now rr)
    then show ?thesis
    proof (cases rule: commitContentRestore_Inr)
      case fresh
      have "(re_tenantId re, at_assetId m) \<in> asset_key ` set (re_assets re)" if "m \<in> set (re_attachments re)" for m
        using fresh(3) that by (force simp: restore_graph_ok_def relation_ok_def ids_ok_def list_all_iff)
      with restore_members [OF d fresh(3,2)] st show ?thesis unfolding fresh(7) attachments_ok_def attached_stored_def
        by (auto simp: image_Un simp del: map_append distinct_append)
    qed (use assms(2) in simp)
  next
    case (upsertPublication v p)
    show ?thesis using assms(2) unfolding upsertPublication_Inr(1) [OF upsertPublication] by (rule attachments_same [rotated 2]) auto
  next
    case (commitWorkRevision w n)
    from commitWorkRevision_Inr [OF this] show ?thesis using assms(2) by (auto intro: attachments_same)
  next
    case (replaceCollectionWorks t cid ws)
    then show ?thesis using assms(2) by (auto simp: replaceCollectionWorks_def attachments_same split: if_splits)
  next
    case (createCanonicalAsset a)
    show ?thesis using assms(2) unfolding createCanonicalAsset
      by (rule attachments_same [rotated 2]) (force simp: createCanonicalAsset_def set_put image_iff)+
  qed (use assms(2) in \<open>simp_all add: attachments_same createWork_def upsertPublicationIntent_def deletePublicationIntent_def
      createCreatorCollection_def upsertWorkDiscoveryParticipation_def\<close>)
qed

lemma careful_steps_attachments: "(careful_step digest)\<^sup>*\<^sup>* s s' \<Longrightarrow> attachments_ok s \<Longrightarrow> attachments_ok s'"
  by (induction rule: rtranclp_induct) (auto intro: careful_step_attachments)

text \<open>What a step can do to publications, claims and operations.\<close>

definition publications_grow :: "memory_store \<Rightarrow> memory_store \<Rightarrow> bool" where
  "publications_grow s s' \<longleftrightarrow> publication_key ` set (ms_publications s) \<subseteq> publication_key ` set (ms_publications s')"

lemma store_step_publishing:
  assumes "store_step digest s s'"
  obtains (other) "ms_publicationClaims s' = ms_publicationClaims s" "ms_publicationOperations s' = ms_publicationOperations s"
      "publications_grow s s'"
  | (copy) cc where "commitPublicationCopy digest s cc = Inr s'"
  | (operation) oc where "commitPublicationOperation digest s oc = Inr s'"
  using assms
proof (cases rule: store_step.cases)
  case (commitAssetAttachment ac)
  then show thesis by (rule commitAssetAttachment_Inr) (intro other, simp_all add: publications_grow_def)
next
  case (commitSourceReuse ru)
  then show thesis
  proof (cases rule: commitSourceReuse_Inr)
    case (fresh previous asset)
    show thesis by (rule other) (auto simp: fresh(6) publications_grow_def)
  qed (simp add: other publications_grow_def)
next
  case (commitContentRestore re now rr)
  then show thesis
  proof (cases rule: commitContentRestore_Inr)
    case fresh
    show thesis by (rule other) (auto simp: fresh(7) publications_grow_def)
  qed (simp add: other publications_grow_def)
next
  case (upsertPublication v p)
  show thesis unfolding upsertPublication_Inr(1) [OF upsertPublication]
    by (rule other) (auto simp: upsertPublication_Inr(1) [OF upsertPublication] publications_grow_def)
next
  case (commitWorkRevision w n)
  from commitWorkRevision_Inr [OF this] show thesis by (intro other) (auto simp: publications_grow_def)
next
  case (replaceCollectionWorks t cid ws)
  then show thesis by (intro other) (auto simp: publications_grow_def replaceCollectionWorks_def split: if_splits)
qed (simp_all add: other copy operation publications_grow_def createWork_def createCanonicalAsset_def attachAssetToWork_def
    detachAssetFromWork_def upsertPublicationIntent_def deletePublicationIntent_def
    createCreatorCollection_def upsertWorkDiscoveryParticipation_def)

lemma validCopyOperation:
  assumes "validateCopyOperation digest input = Inr ()"
  defines "op \<equiv> oc_operation input" and "p \<equiv> oc_previous input" and "n \<equiv> oc_next input"
  shows "publication_key n = publication_key p" "op_tenantId op = pb_tenantId p" "op_publicationId op = pb_publicationId p"
    "pb_copy p \<noteq> None" "pb_revision n = map_option (\<lambda>n. n + 1) (pb_revision p)"
    "\<And>before. oc_previousOperation input = Some before \<Longrightarrow> continues p before op"
    "oc_previousOperation input = None \<Longrightarrow> op_state op = PREPARED"
    "op_state op = CONFIRMED \<Longrightarrow> delivers (op_kind op) \<Longrightarrow> oc_remoteClaim input \<noteq> None"
    "\<And>c. oc_remoteClaim input = Some c \<Longrightarrow> remote_claim_ok p op c"
  using assms(1) unfolding validateCopyOperation_def Let_def op_def [symmetric] p_def [symmetric] n_def [symmetric] require_Inr_iff
  by (auto split: option.splits)

lemma remote_claimed_mono:
  "set (ms_publicationClaims s) \<subseteq> set (ms_publicationClaims s') \<Longrightarrow> remote_claimed s op \<Longrightarrow> remote_claimed s' op"
  by (auto simp: remote_claimed_def)

lemma operation_step_bound:
  assumes "bound s" "commitPublicationOperation digest s oc = Inr s'"
  shows "bound s'"
  using assms(2)
proof (rule commitPublicationOperation_Inr)
  let ?op = "oc_operation oc" and ?p = "oc_previous oc" and ?n = "oc_next oc"
  assume v: "validateCopyOperation digest oc = Inr ()"
    and cur: "getPublication s (pb_tenantId ?p) (pb_publicationId ?p) = Some ?p"
    and rc: "\<And>c b. oc_remoteClaim oc = Some c \<Longrightarrow> getPublicationClaim s (cl_tenantId c) (cl_key c) = Some b \<Longrightarrow>
        cl_publicationId b = pb_publicationId ?n"
    and s': "s' = s\<lparr> ms_publications := replace_row publication_key ?n (ms_publications s),
        ms_publicationOperations := put_row op_key ?op (ms_publicationOperations s),
        ms_publicationClaims := (case oc_remoteClaim oc of None \<Rightarrow> ms_publicationClaims s
          | Some claim \<Rightarrow> if getPublicationClaim s (cl_tenantId claim) (cl_key claim) = None
              then ms_publicationClaims s @ [claim] else ms_publicationClaims s) \<rparr>"
  note V = validCopyOperation [OF v]
  have keys: "publication_key ` set (ms_publications s') = publication_key ` set (ms_publications s)"
    by (simp add: s')
  have claims: "set (ms_publicationClaims s) \<subseteq> set (ms_publicationClaims s')"
    by (auto simp: s' split: option.splits)
  have pk: "publication_key ?p \<in> publication_key ` set (ms_publications s)"
    using cur by (auto simp: getPublication_def dest: find_key_Some)
  have new: "c \<in> set (ms_publicationClaims s) \<or> oc_remoteClaim oc = Some c" if "c \<in> set (ms_publicationClaims s')" for c
    using that by (auto simp: s' split: option.splits if_splits)
  have "(cl_tenantId c, cl_publicationId c) \<in> publication_key ` set (ms_publications s')" if "c \<in> set (ms_publicationClaims s')" for c
    using new [OF that] assms(1) pk V(9) unfolding keys by (auto simp: bound_def remote_claim_ok_def)
  moreover have "(op_tenantId o', op_publicationId o') \<in> publication_key ` set (ms_publications s')
      \<and> (op_state o' = CONFIRMED \<and> delivers (op_kind o') \<longrightarrow> remote_claimed s' o')"
    if "o' \<in> set (ms_publicationOperations s')" for o'
  proof (cases "o' = ?op")
    case True
    have "remote_claimed s' ?op" if "op_state ?op = CONFIRMED" "delivers (op_kind ?op)"
    proof -
      from V(8) [OF that] obtain c where c: "oc_remoteClaim oc = Some c" by auto
      note ok = V(9) [OF c, unfolded remote_claim_ok_def]
      show ?thesis
      proof (cases "getPublicationClaim s (cl_tenantId c) (cl_key c)")
        case None
        with c have "c \<in> set (ms_publicationClaims s')" by (simp add: s')
        with ok V(2,3) show ?thesis by (auto simp: remote_claimed_def)
      next
        case (Some b)
        from rc [OF c Some] V(1,3) have "cl_publicationId b = op_publicationId ?op" by simp
        moreover from Some have "b \<in> set (ms_publicationClaims s)" "cl_tenantId b = cl_tenantId c" "cl_key b = cl_key c"
          by (auto simp: getPublicationClaim_def dest: find_key_Some)
        ultimately show ?thesis using ok V(2) claims by (auto simp: remote_claimed_def)
      qed
    qed
    with True pk V(2,3) show ?thesis unfolding keys by simp
  next
    case False
    with that have "o' \<in> set (ms_publicationOperations s)" by (auto simp: s' set_put)
    with assms(1) claims show ?thesis unfolding keys by (auto simp: bound_def intro: remote_claimed_mono)
  qed
  ultimately show ?thesis by (simp add: bound_def)
qed

lemma store_step_bound:
  assumes "store_step digest s s'" "bound s"
  shows "bound s'"
  using assms(1)
proof (cases rule: store_step_publishing)
  case other
  then have "remote_claimed s' = remote_claimed s" by (auto simp: remote_claimed_def)
  with other assms(2) show ?thesis by (auto simp: bound_def publications_grow_def subset_iff)
next
  case (copy cc)
  from copy show ?thesis
  proof (cases rule: commitPublicationCopy_Inr)
    case (attach c)
    note K = validCopyCreation_keys [OF attach(2)]
    have "publication_key (cp_publication cc) \<in> publication_key ` set (ms_publications s)"
      using attach(3) by (simp add: find_key_None getPublication_def)
    with assms(2) K show ?thesis unfolding attach(8)
      by (auto simp: bound_def remote_claimed_def)
  next
    case allocate
    note K = validCopyCreation_keys [OF allocate(2)]
    from assms(2) K show ?thesis unfolding allocate(6)
      by (auto simp: bound_def remote_claimed_def)
  qed
next
  case (operation oc)
  show ?thesis by (rule operation_step_bound [OF assms(2) operation])
qed

lemma store_step_inv: "store_step digest s s' \<Longrightarrow> store_inv s \<Longrightarrow> store_inv s'"
  by (simp add: store_inv_def store_step_keyed store_step_bound)

lemma empty_store_inv: "store_inv empty_store" "attachments_ok empty_store"
  by (simp_all add: store_inv_def keyed_def bound_def attachments_ok_def attached_stored_def empty_store_def)

lemma store_steps_inv: "(store_step digest)\<^sup>*\<^sup>* s s' \<Longrightarrow> store_inv s \<Longrightarrow> store_inv s'"
  by (induction rule: rtranclp_induct) (auto intro: store_step_inv)

subsection \<open>The life of an operation\<close>

definition operation_rank :: "operation_state \<Rightarrow> nat" where
  "operation_rank s = (case s of PREPARED \<Rightarrow> 0 | IN_FLIGHT \<Rightarrow> 1 | AMBIGUOUS \<Rightarrow> 2 | _ \<Rightarrow> 3)"

text \<open>The same record, or a later state of the same approved operation.\<close>

definition advanced :: "operation \<Rightarrow> operation \<Rightarrow> bool" where
  "advanced a b \<longleftrightarrow> b = a \<or> (operation_rank (op_state a) < operation_rank (op_state b) \<and> op_version a < op_version b
     \<and> op_kind b = op_kind a \<and> op_sourceRevision b = op_sourceRevision a \<and> op_intendedRevision b = op_intendedRevision a)"

lemma advanced_trans: "advanced a b \<Longrightarrow> advanced b c \<Longrightarrow> advanced a c"
  unfolding advanced_def by (metis less_trans order.strict_trans)

lemma transition_rank: "t \<in> set (operationTransitions s) \<Longrightarrow> operation_rank s < operation_rank t"
  by (cases s) (auto simp: operationTransitions_def operation_rank_def)

lemma store_step_advanced:
  assumes "store_step digest s s'" "getPublicationOperation s t i = Some a"
  obtains b where "getPublicationOperation s' t i = Some b" "advanced a b"
  using assms(1)
proof (cases rule: store_step_publishing)
  case other
  with assms(2) show thesis by (intro that [of a]) (simp_all add: getPublicationOperation_def advanced_def)
next
  case (copy cc)
  from copy have "ms_publicationOperations s' = ms_publicationOperations s"
    by (cases rule: commitPublicationCopy_Inr) simp_all
  with assms(2) show thesis by (intro that [of a]) (simp_all add: getPublicationOperation_def advanced_def)
next
  case (operation oc)
  let ?op = "oc_operation oc"
  from operation show thesis
  proof (rule commitPublicationOperation_Inr)
    assume v: "validateCopyOperation digest oc = Inr ()"
      and prev: "getPublicationOperation s (op_tenantId ?op) (op_operationId ?op) = oc_previousOperation oc"
      and s': "s' = s\<lparr> ms_publications := replace_row publication_key (oc_next oc) (ms_publications s),
          ms_publicationOperations := put_row op_key ?op (ms_publicationOperations s),
          ms_publicationClaims := (case oc_remoteClaim oc of None \<Rightarrow> ms_publicationClaims s
            | Some claim \<Rightarrow> if getPublicationClaim s (cl_tenantId claim) (cl_key claim) = None
                then ms_publicationClaims s @ [claim] else ms_publicationClaims s) \<rparr>"
    have get: "getPublicationOperation s' t i = (if (t, i) = op_key ?op then Some ?op else getPublicationOperation s t i)"
      by (simp add: s' getPublicationOperation_def find_key_put)
    show thesis
    proof (cases "(t, i) = op_key ?op")
      case True
      with prev assms(2) have "oc_previousOperation oc = Some a" by simp
      from validCopyOperation(6) [OF v this] have "advanced a ?op"
        by (auto simp: continues_def advanced_def dest: transition_rank)
      with True get show thesis by (intro that) simp_all
    next
      case False
      with get assms(2) show thesis by (intro that [of a]) (auto simp: advanced_def)
    qed
  qed
qed

lemma store_steps_advanced:
  assumes "(store_step digest)\<^sup>*\<^sup>* s s'" "getPublicationOperation s t i = Some a"
  shows "\<exists>b. getPublicationOperation s' t i = Some b \<and> advanced a b"
  using assms
proof (induction rule: rtranclp_induct)
  case base
  then show ?case by (simp add: advanced_def)
next
  case (step y z)
  then obtain b where b: "getPublicationOperation y t i = Some b" "advanced a b" by auto
  from step(2) b(1) obtain c where "getPublicationOperation z t i = Some c" "advanced b c"
    by (rule store_step_advanced)
  with b(2) show ?case by (blast intro: advanced_trans)
qed

subsection \<open>Listings after a commit\<close>

lemma next_position_greater: "p \<in> set ps \<Longrightarrow> p < next_position ps"
proof (cases ps)
  case (Cons q qs)
  have "fold max qs q = Max (set ps)" unfolding Cons by (rule Max.set_eq_fold [symmetric])
  moreover assume "p \<in> set ps"
  ultimately show ?thesis using Cons by (auto simp: le_imp_less_Suc intro: Max_ge)
qed simp

lemma sort_key_snoc_greatest: "(\<And>x. x \<in> set xs \<Longrightarrow> f x \<le> f y) \<Longrightarrow> sort_key f (xs @ [y]) = sort_key f xs @ [y]"
proof (induction xs)
  case (Cons x xs)
  have "insort_key f x (ys @ [y]) = insort_key f x ys @ [y]" for ys :: "'a list"
  proof (induction ys)
    case Nil
    with Cons.prems show ?case by simp
  qed simp
  with Cons show ?case by simp
qed simp

lemma members_of_set: "m \<in> set (members_of s t w) \<longleftrightarrow> (t, m) \<in> set (ms_workAssets s) \<and> at_workId m = w"
  by (auto simp: members_of_def image_iff)

lemma getCanonicalAsset_append:
  "asset_key a \<notin> asset_key ` set (ms_canonicalAssets s) \<Longrightarrow>
   find_key asset_key (t, i) (ms_canonicalAssets s @ [a]) =
     (if (t, i) = asset_key a then Some a else getCanonicalAsset s t i)"
proof (cases "(t, i) = asset_key a")
  case True
  moreover assume "asset_key a \<notin> asset_key ` set (ms_canonicalAssets s)"
  ultimately have n: "find_key asset_key (t, i) (ms_canonicalAssets s) = None" by (intro iffD2 [OF find_key_None]) simp
  show ?thesis unfolding find_key_snoc n using True by simp
next
  case False
  then show ?thesis by (auto simp: find_key_snoc getCanonicalAsset_def split: option.split)
qed

lemma map_filter_cong: "(\<And>x. x \<in> set xs \<Longrightarrow> f x = g x) \<Longrightarrow> List.map_filter f xs = List.map_filter g xs"
  by (induction xs) (auto simp: map_filter_simps split: option.split)

lemma map_filter_append: "List.map_filter f (xs @ ys) = List.map_filter f xs @ List.map_filter f ys"
  by (simp add: List.map_filter_def)

lemma attached_listing:
  assumes "asset_key (ac_asset input) \<notin> (\<lambda>m. (fst m, at_assetId (snd m))) ` set (ms_workAssets s)"
    and "commitAssetAttachment s input = Inr s'"
  shows "listCanonicalAssetsByWork s' t w =
    (if (t, w) = work_key (ac_work input) then listCanonicalAssetsByWork s t w @ [(ac_asset input, ac_attachment input)]
     else listCanonicalAssetsByWork s t w)"
  using assms(2)
proof (rule commitAssetAttachment_Inr)
  let ?a = "ac_asset input" and ?m = "ac_attachment input" and ?w = "ac_work input"
  let ?mine = "\<lambda>m. fst m = t \<and> at_workId (snd m) = w" and ?pos = "\<lambda>m::string \<times> attachment. at_position (snd m)"
  assume new: "asset_key ?a \<notin> asset_key ` set (ms_canonicalAssets s)"
    and ta: "ca_tenantId ?a = wk_tenantId ?w" and mw: "at_workId ?m = wk_workId ?w" and ma: "at_assetId ?m = ca_assetId ?a"
    and pos: "at_position ?m = next_position (map at_position (members_of s (wk_tenantId ?w) (wk_workId ?w)))"
    and s': "s' = s\<lparr> ms_works := replace_row work_key ?w (ms_works s), ms_canonicalAssets := ms_canonicalAssets s @ [?a],
       ms_workAssets := ms_workAssets s @ [(wk_tenantId ?w, ?m)] \<rparr>"
  have get: "getCanonicalAsset s' t' i = (if (t', i) = asset_key ?a then Some ?a else getCanonicalAsset s t' i)" for t' i
    using getCanonicalAsset_append [OF new] by (simp add: s' getCanonicalAsset_def)
  have same: "getCanonicalAsset s' t (at_assetId (snd m)) = getCanonicalAsset s t (at_assetId (snd m))"
    if "m \<in> set (sort_key ?pos (filter ?mine (ms_workAssets s)))" for m
  proof -
    from that have "fst m = t" "m \<in> set (ms_workAssets s)" by auto
    with assms(1) have "(t, at_assetId (snd m)) \<noteq> asset_key ?a" by force
    then show ?thesis by (auto simp: get)
  qed
  note old = map_filter_cong [of "sort_key ?pos (filter ?mine (ms_workAssets s))"
      "\<lambda>m. map_option (\<lambda>a. (a, snd m)) (getCanonicalAsset s' t (at_assetId (snd m)))"
      "\<lambda>m. map_option (\<lambda>a. (a, snd m)) (getCanonicalAsset s t (at_assetId (snd m)))"]
  show ?thesis
  proof (cases "(t, w) = work_key ?w")
    case True
    have "?pos x \<le> ?pos (t, ?m)" if "x \<in> set (filter ?mine (ms_workAssets s))" for x
    proof -
      from that have "snd x \<in> set (members_of s t w)" by (auto simp: members_of_set)
      then have "at_position (snd x) < at_position ?m" using True pos by (auto intro: next_position_greater)
      then show ?thesis by simp
    qed
    then have "sort_key ?pos (filter ?mine (ms_workAssets s'))
        = sort_key ?pos (filter ?mine (ms_workAssets s)) @ [(t, ?m)]"
      using sort_key_snoc_greatest [of "filter ?mine (ms_workAssets s)" ?pos "(t, ?m)"] True mw by (simp add: s')
    with True show ?thesis using old same ta ma
      by (simp add: listCanonicalAssetsByWork_def map_filter_append map_filter_simps get)
  next
    case False
    then have "filter ?mine (ms_workAssets s') = filter ?mine (ms_workAssets s)" using mw by (auto simp: s')
    with False show ?thesis using old same by (simp add: listCanonicalAssetsByWork_def)
  qed
qed

subsection \<open>The store as a repository\<close>

definition memory_repository :: "digest \<Rightarrow> memory_store copy_repository" where
  "memory_repository digest =
     \<lparr> cr_getPublication = getPublication, cr_getPublicationClaim = getPublicationClaim,
       cr_commitPublicationCopy = commitPublicationCopy digest,
       cr_getPublicationOperation = getPublicationOperation,
       cr_commitPublicationOperation = commitPublicationOperation digest \<rparr>"

lemma memory_repository_simps [simp]:
  "cr_getPublication (memory_repository digest) = getPublication"
  "cr_getPublicationClaim (memory_repository digest) = getPublicationClaim"
  "cr_commitPublicationCopy (memory_repository digest) = commitPublicationCopy digest"
  "cr_getPublicationOperation (memory_repository digest) = getPublicationOperation"
  "cr_commitPublicationOperation (memory_repository digest) = commitPublicationOperation digest"
  by (simp_all add: memory_repository_def)

lemma find_key_append_Some: "find_key key k rows = Some r \<Longrightarrow> find_key key k (rows @ ys) = Some r"
  by (simp add: find_key_append)

interpretation alloc: copy_allocation "memory_repository digest" for digest
proof
  fix s c s' assume "cr_commitPublicationCopy (memory_repository digest) s c = Inr s'"
  then have commit: "commitPublicationCopy digest s c = Inr s'" by simp
  show "cr_getPublicationClaim (memory_repository digest) s' t k = Some x"
    if "cr_getPublicationClaim (memory_repository digest) s t k = Some x" for t k x
    using commit
    by (cases rule: commitPublicationCopy_Inr)
      (use that in \<open>simp_all add: getPublicationClaim_def find_key_append_Some\<close>)
  show "cr_getPublication (memory_repository digest) s' t i = Some p"
    if "cr_getPublication (memory_repository digest) s t i = Some p" for t i p
    using commit
    by (cases rule: commitPublicationCopy_Inr)
      (use that in \<open>simp_all add: getPublication_def find_key_append_Some\<close>)
  show "cr_getPublicationClaim (memory_repository digest) s' (pb_tenantId (cp_publication c)) (cl_key (cp_request c)) = Some (cp_request c)"
    using commit
  proof (cases rule: commitPublicationCopy_Inr)
    case (attach x)
    from attach(4) validCopyCreation_keys [OF attach(2)] show ?thesis
      by (simp add: attach(8) getPublicationClaim_def find_key_snoc)
  next
    case allocate
    from allocate(4) validCopyCreation_keys [OF allocate(2)] show ?thesis
      by (simp add: allocate(6) getPublicationClaim_def find_key_append) (simp add: find_key_def)
  qed
  show "\<exists>x. cr_getPublicationClaim (memory_repository digest) s' (pb_tenantId (cp_publication c)) (cl_key (cp_slot c)) = Some x
      \<and> cl_publicationId x = pb_publicationId (cp_publication c) \<and> cl_fingerprint x = cl_fingerprint (cp_slot c)"
    using commit
  proof (cases rule: commitPublicationCopy_Inr)
    case (attach x)
    from attach(5-7) show ?thesis
      by (simp add: attach(8) getPublicationClaim_def find_key_append_Some)
  next
    case allocate
    from allocate(5) validCopyCreation_keys [OF allocate(2)] show ?thesis
      by (simp add: allocate(6) getPublicationClaim_def find_key_append) (simp add: find_key_def)
  qed
  show "cr_getPublication (memory_repository digest) s (pb_tenantId (cp_publication c)) (pb_publicationId (cp_publication c)) = None
      \<and> cr_getPublication (memory_repository digest) s' (pb_tenantId (cp_publication c)) (pb_publicationId (cp_publication c))
          = Some (cp_publication c)" if "\<not> cp_existing c"
    using commit
  proof (cases rule: commitPublicationCopy_Inr)
    case allocate
    from allocate(3) show ?thesis
      by (simp add: allocate(6) getPublication_def find_key_snoc)
  qed (use that in simp)
qed

lemma operation_claims:
  assumes "commitPublicationOperation digest s oc = Inr s'"
  shows "\<exists>cl. ms_publicationClaims s' = ms_publicationClaims s @ cl"
  using assms
proof (rule commitPublicationOperation_Inr)
  assume s': "s' = s\<lparr> ms_publications := replace_row publication_key (oc_next oc) (ms_publications s),
      ms_publicationOperations := put_row op_key (oc_operation oc) (ms_publicationOperations s),
      ms_publicationClaims := (case oc_remoteClaim oc of None \<Rightarrow> ms_publicationClaims s
        | Some claim \<Rightarrow> if getPublicationClaim s (cl_tenantId claim) (cl_key claim) = None
            then ms_publicationClaims s @ [claim] else ms_publicationClaims s) \<rparr>"
  show ?thesis unfolding s' by (cases "oc_remoteClaim oc") auto
qed

lemma store_step_claims:
  assumes "store_step digest s s'" "getPublicationClaim s t k = Some x"
  shows "getPublicationClaim s' t k = Some x"
  using assms(1)
proof (cases rule: store_step_publishing)
  case other
  with assms(2) show ?thesis by (simp add: getPublicationClaim_def)
next
  case (copy cc)
  from copy show ?thesis
    by (cases rule: commitPublicationCopy_Inr)
      (use assms(2) in \<open>simp_all add: getPublicationClaim_def find_key_append_Some\<close>)
next
  case (operation oc)
  from operation_claims [OF operation] obtain cl where "ms_publicationClaims s' = ms_publicationClaims s @ cl" by auto
  with assms(2) show ?thesis by (simp add: getPublicationClaim_def find_key_append_Some)
qed

lemma store_steps_claims:
  "(store_step digest)\<^sup>*\<^sup>* s s' \<Longrightarrow> getPublicationClaim s t k = Some x \<Longrightarrow> getPublicationClaim s' t k = Some x"
  by (induction rule: rtranclp_induct) (auto intro: store_step_claims)

lemma store_step_restores:
  assumes "store_step digest s s'" "getContentRestore s t i = Some r"
  shows "getContentRestore s' t i = Some r"
  using assms(1)
proof (cases rule: store_step.cases)
  case (commitContentRestore re now rr)
  then show ?thesis
    by (cases rule: commitContentRestore_Inr)
      (use assms(2) in \<open>simp_all add: getContentRestore_def find_key_append_Some\<close>)
next
  case (commitAssetAttachment ac)
  then show ?thesis by (rule commitAssetAttachment_Inr) (use assms(2) in \<open>simp add: getContentRestore_def\<close>)
next
  case (commitSourceReuse ru)
  then show ?thesis
    by (cases rule: commitSourceReuse_Inr) (use assms(2) in \<open>simp_all add: getContentRestore_def\<close>)
next
  case (commitPublicationCopy cc)
  then show ?thesis
    by (cases rule: commitPublicationCopy_Inr) (use assms(2) in \<open>simp_all add: getContentRestore_def\<close>)
next
  case (commitPublicationOperation oc)
  then show ?thesis by (rule commitPublicationOperation_Inr) (use assms(2) in \<open>simp add: getContentRestore_def\<close>)
next
  case (upsertPublication v p)
  from assms(2) show ?thesis unfolding upsertPublication_Inr(1) [OF upsertPublication] by (simp add: getContentRestore_def)
next
  case (commitWorkRevision w n)
  from commitWorkRevision_Inr [OF this] assms(2) show ?thesis by (auto simp: getContentRestore_def)
next
  case (replaceCollectionWorks t cid ws)
  with assms(2) show ?thesis by (auto simp: getContentRestore_def replaceCollectionWorks_def split: if_splits)
qed (use assms(2) in \<open>simp_all add: getContentRestore_def createWork_def createCanonicalAsset_def attachAssetToWork_def
    detachAssetFromWork_def upsertPublicationIntent_def deletePublicationIntent_def
    createCreatorCollection_def upsertWorkDiscoveryParticipation_def\<close>)

lemma store_steps_restores:
  "(store_step digest)\<^sup>*\<^sup>* s s' \<Longrightarrow> getContentRestore s t i = Some r \<Longrightarrow> getContentRestore s' t i = Some r"
  by (induction rule: rtranclp_induct) (auto intro: store_step_restores)

lemma restore_recorded:
  assumes "commitContentRestore s input now = Inr (rr, s')"
  shows "getContentRestore s' (re_tenantId input) (re_restoreId input) = Some rr"
    "rr_fingerprint rr = re_fingerprint input" "rr_creatorId rr = re_creatorId input"
    "validateCreatorContentRestore input = Inr ()"
proof -
  show "validateCreatorContentRestore input = Inr ()" using assms by (auto simp: commitContentRestore_def)
  show "getContentRestore s' (re_tenantId input) (re_restoreId input) = Some rr"
    "rr_fingerprint rr = re_fingerprint input" "rr_creatorId rr = re_creatorId input"
    using assms by (cases rule: commitContentRestore_Inr; simp add: getContentRestore_def find_key_snoc)+
qed

subsection \<open>Properties\<close>

text \<open>C20: Every state the store's operations reach from the empty store, called with any arguments, keeps one record per identity
  in every table but that of attachments, claims and operations only of stored publications, and a remote-object claim for every
  confirmed delivery. As long as \<open>attachAssetToWork\<close> was called for stored assets only, every attachment refers to a stored asset and
  a Work has it once.\<close>

theorem store_reachable_invariant:
  assumes "(store_step digest)\<^sup>*\<^sup>* empty_store s"
  shows "store_inv s \<and> ((careful_step digest)\<^sup>*\<^sup>* empty_store s \<longrightarrow> attachments_ok s)"
  using store_steps_inv [OF assms empty_store_inv(1)] careful_steps_attachments [OF _ empty_store_inv(2)] by blast

text \<open>C21: A provider call is authorized at most once per approved operation: once a stored operation has left
  PREPARED, no sequence of store operations brings it to IN_FLIGHT again; if it is found in flight later, it is the very
  record that was in flight before, with its version.\<close>

theorem operation_dispatched_once:
  assumes "(store_step digest)\<^sup>*\<^sup>* s s'"
    and "getPublicationOperation s tenantId operationId = Some a" and "op_state a \<noteq> PREPARED"
    and "getPublicationOperation s' tenantId operationId = Some b" and "op_state b = IN_FLIGHT"
  shows "b = a"
proof -
  from store_steps_advanced [OF assms(1,2)] assms(4) have "advanced a b" by auto
  moreover have "1 \<le> operation_rank (op_state a)" using assms(3) by (cases "op_state a") (auto simp: operation_rank_def)
  ultimately show ?thesis using assms(5) by (auto simp: advanced_def operation_rank_def)
qed

text \<open>Allocation is exactly-once under retry: after a call created the publication, whatever the store went through
  since and whatever identity the retry generated, the same request with the same parameters answers the allocated
  publication and changes nothing, as long as that publication still occupies its slot.\<close>

theorem allocation_replays:
  assumes "createPublicationCopy (memory_repository digest) others digest p params s = (Inr (q, True), s1)"
    and "(store_step digest)\<^sup>*\<^sup>* s1 s2" and "pb_copy p = Some c"
    and "getPublication s2 (pb_tenantId p) (pb_publicationId p) = Some q2"
    and "pb_copy q2 = Some c2" and "slot_key digest q2 c2 = slot_key digest p c" and "bounded_id retryId"
  shows "createPublicationCopy (memory_repository digest) (\<lambda>n s. s) digest (p\<lparr> pb_publicationId := retryId \<rparr>) params s2
     = (Inr (q2, False), s2)"
proof -
  from alloc.create_allocates [OF assms(1)] assms(3)
  have c: "fresh_draft p" "assertPublicationCopyIdentity (Some c) = Inr ()"
    and a: "alloc.allocated digest s1 p (request_key digest p c) (slot_key digest p c) (copy_fingerprint digest p c params)"
    by auto
  from a obtain x where r: "getPublicationClaim s1 (pb_tenantId p) (request_key digest p c)
        = Some (receipt p (copy_fingerprint digest p c params) (request_key digest p c) (pb_publicationId p))"
      and x: "getPublicationClaim s1 (pb_tenantId p) (slot_key digest p c) = Some x" "cl_publicationId x = pb_publicationId p"
    by (auto simp: alloc.allocated_def)
  show ?thesis
    by (rule create_replays [where r = "receipt p (copy_fingerprint digest p c params) (request_key digest p c) (pb_publicationId p)"
          and c = c and c' = c2])
      (use assms(3-7) c store_steps_claims [OF assms(2) r] store_steps_claims [OF assms(2) x(1)] x(2) in
        \<open>simp_all add: receipt_def fresh_draft_def\<close>)
qed

text \<open>C22: A committed upload, of an asset no attachment refers to yet, becomes the last asset of its Work's listing, behind what was
  there, leaves the listings of all other Works alone, and the same commit cannot be applied a second time. (An attachment made
  before its asset was stored would surface with it: \<open>early_attachment_surfaces\<close>.)\<close>

theorem attachment_appended_once:
  assumes "asset_key (ac_asset input) \<notin> (\<lambda>m. (fst m, at_assetId (snd m))) ` set (ms_workAssets s)"
    and "commitAssetAttachment s input = Inr s'"
  shows "listCanonicalAssetsByWork s' t w =
      (if (t, w) = work_key (ac_work input) then listCanonicalAssetsByWork s t w @ [(ac_asset input, ac_attachment input)]
       else listCanonicalAssetsByWork s t w)
    \<and> commitAssetAttachment s' input = Inl Commit_error"
proof
  show "listCanonicalAssetsByWork s' t w =
      (if (t, w) = work_key (ac_work input) then listCanonicalAssetsByWork s t w @ [(ac_asset input, ac_attachment input)]
       else listCanonicalAssetsByWork s t w)"
    by (rule attached_listing [OF assms])
  show "commitAssetAttachment s' input = Inl Commit_error"
    using assms(2)
  proof (rule commitAssetAttachment_Inr)
    assume "s' = s\<lparr> ms_works := replace_row work_key (ac_work input) (ms_works s),
       ms_canonicalAssets := ms_canonicalAssets s @ [ac_asset input],
       ms_workAssets := ms_workAssets s @ [(wk_tenantId (ac_work input), ac_attachment input)] \<rparr>"
    then have "list_ex (\<lambda>a. asset_key a = asset_key (ac_asset input)) (ms_canonicalAssets s')" by (simp add: list_ex_iff)
    then show ?thesis by (auto simp: commitAssetAttachment_def Let_def split: option.split)
  qed
qed

text \<open>Restores are idempotent under retry: once a restore committed, committing it again in any later state
  of the store answers the original receipt and leaves the store as it is.\<close>

theorem restore_idempotent:
  assumes "commitContentRestore s input now = Inr (rr, s')" and "(store_step digest)\<^sup>*\<^sup>* s' s''"
  shows "commitContentRestore s'' input later = Inr (rr, s'')"
  using restore_recorded(2-4) [OF assms(1)] store_steps_restores [OF assms(2) restore_recorded(1) [OF assms(1)]]
  by (simp add: commitContentRestore_def)

subsection \<open>Witnesses\<close>

definition sample_digest :: digest where
  "sample_digest v = replicate 63 CHR ''0'' @ [''0123456789abcdef'' ! (json_nodes v mod 16)]"

lemma hex64_sample: "hex64 (publicationIdentityHash sample_digest v)"
proof -
  have c: "''0123456789abcdef'' ! (n mod 16) \<in> set ''0123456789abcdef''" for n
    by (rule nth_mem) simp
  have "CHR ''0'' \<in> set ''0123456789abcdef''" by simp
  with c [of "json_nodes (canonical v)"] show ?thesis
    unfolding hex64_def publicationIdentityHash_def sample_digest_def by (auto simp only: list_all_iff set_append set_replicate_conv_if length_append length_replicate list.size list.set Un_iff insert_iff empty_iff) simp_all
qed

definition sample_work :: work where
  "sample_work = \<lparr> wk_tenantId = ''t'', wk_creatorId = ''c'', wk_workId = ''w'', wk_title = ''T'', wk_description = None,
     wk_tags = [], wk_slug = ''s'', wk_slugHistory = [''s''], wk_status = ''draft'', wk_revision = 1, wk_createdAt = ''0'',
     wk_updatedAt = ''0'', wk_archivedAt = None, wk_deletedAt = None, wk_primaryAssetId = None, wk_body = None, wk_media = None \<rparr>"

definition sample_identity :: copy_identity where
  "sample_identity = \<lparr> ci_slotId = ''s'', ci_creationRequestId = ''r'',
     ci_account = \<lparr> ai_providerNamespace = ''n'', ai_remoteAccountId = ''m'' \<rparr>, ci_purpose = CUSTOM, ci_context = None \<rparr>"

definition sample_publication :: publication where
  "sample_publication = \<lparr> pb_tenantId = ''t'', pb_creatorId = ''c'', pb_workId = ''w'', pb_publicationId = ''p'',
     pb_destination = ''d'', pb_copy = Some sample_identity, pb_revision = Some 1, pb_status = ''draft'', pb_remoteId = None,
     pb_createdAt = ''0'', pb_updatedAt = ''0'', pb_activeOperationId = None \<rparr>"

definition sample_request :: string where "sample_request = request_key sample_digest sample_publication sample_identity"
definition sample_slot :: string where "sample_slot = slot_key sample_digest sample_publication sample_identity"
definition sample_fingerprint :: string where
  "sample_fingerprint = copy_fingerprint sample_digest sample_publication sample_identity (J_obj [])"

definition store_with_work :: memory_store where
  "store_with_work = createWork empty_store sample_work"

definition sample_allocated :: memory_store where
  "sample_allocated = store_with_work\<lparr> ms_publications := [sample_publication],
     ms_publicationClaims := [receipt sample_publication sample_fingerprint sample_slot ''p'',
       receipt sample_publication sample_fingerprint sample_request ''p''] \<rparr>"

lemma sample_identity_ok: "assertPublicationCopyIdentity (Some sample_identity) = Inr ()"
  by (simp add: assertPublicationCopyIdentity_def sample_identity_def identity_id_def js_trim_def js_space_def)

lemma sample_keys_differ: "sample_request \<noteq> sample_slot" "sample_slot \<noteq> sample_request" "starts_with sample_request ''REQUEST#''"
  by (simp_all add: sample_request_def sample_slot_def request_key_def slot_key_def starts_with_def)

lemma hex64_fingerprint: "hex64 sample_fingerprint"
  by (simp add: sample_fingerprint_def copy_fingerprint_def hex64_sample)

lemma sample_commit:
  "commitPublicationCopy sample_digest store_with_work
     \<lparr> cp_publication = sample_publication, cp_request = receipt sample_publication sample_fingerprint sample_request ''p'',
       cp_slot = receipt sample_publication sample_fingerprint sample_slot ''p'', cp_existing = False \<rparr> = Inr sample_allocated"
proof -
  have v: "validateCopyCreation sample_digest \<lparr> cp_publication = sample_publication,
      cp_request = receipt sample_publication sample_fingerprint sample_request ''p'',
      cp_slot = receipt sample_publication sample_fingerprint sample_slot ''p'', cp_existing = False \<rparr> = Inr ()"
    using sample_identity_ok hex64_fingerprint sample_keys_differ
    by (simp add: validateCopyCreation_def copyClaimKeys_def receipt_def sample_publication_def)
      (simp add: sample_slot_def sample_request_def sample_publication_def)
  show ?thesis
    unfolding commitPublicationCopy_def v
    by (simp add: receipt_def sample_publication_def live_work_def find_key_def store_with_work_def
        createWork_def put_row_def empty_store_def sample_work_def gone_def getPublication_def getPublicationClaim_def
        sample_allocated_def)
qed

lemma sample_create:
  "createPublicationCopy (memory_repository sample_digest) (\<lambda>n s. s) sample_digest sample_publication (J_obj []) store_with_work
     = (Inr (sample_publication, True), sample_allocated)"
proof -
  have four: "(4::nat) = Suc 3" by simp
  have c: "pb_copy sample_publication = Some sample_identity" "pb_publicationId sample_publication = ''p''"
    by (simp_all add: sample_publication_def)
  have f: "fresh_draft sample_publication" by (simp add: fresh_draft_def bounded_id_def sample_publication_def)
  have none: "getPublicationClaim store_with_work t k = None" for t k
    by (simp add: getPublicationClaim_def store_with_work_def createWork_def empty_store_def find_key_def)
  show ?thesis
    unfolding createPublicationCopy_def c sample_identity_ok four sum.case option.case copy_attempts.simps Let_def
    using f by (simp add: none commit_or_retry_def sample_commit sample_request_def [symmetric] sample_slot_def [symmetric]
        sample_fingerprint_def [symmetric])
qed

lemma sample_reached: "(store_step sample_digest)\<^sup>*\<^sup>* empty_store store_with_work"
  "(store_step sample_digest)\<^sup>*\<^sup>* store_with_work sample_allocated"
  unfolding store_with_work_def using store_step.commitPublicationCopy [OF sample_commit]
  by (auto simp: store_with_work_def intro: store_step.createWork)

lemma sample_careful: "(careful_step sample_digest)\<^sup>*\<^sup>* empty_store sample_allocated"
proof -
  have none: "\<not> attaches_unstored s s'" if "ms_workAssets s' = []" for s s'
    using that by (auto simp: attaches_unstored_def attachAssetToWork_def put_row_def)
  have "careful_step sample_digest empty_store store_with_work"
    unfolding careful_step_def
  proof
    show "store_step sample_digest empty_store store_with_work" unfolding store_with_work_def by (rule store_step.createWork)
    show "\<not> attaches_unstored empty_store store_with_work"
      by (rule none) (simp add: store_with_work_def createWork_def empty_store_def)
  qed
  moreover have "careful_step sample_digest store_with_work sample_allocated"
    unfolding careful_step_def using store_step.commitPublicationCopy [OF sample_commit]
    by (simp add: none sample_allocated_def store_with_work_def createWork_def empty_store_def)
  ultimately show ?thesis by (rule converse_rtranclp_into_rtranclp [OF _ r_into_rtranclp])
qed

theorem store_reachable_invariant_witness:
  "store_inv sample_allocated \<and> attachments_ok sample_allocated \<and> length (ms_publicationClaims sample_allocated) = 2"
  using store_reachable_invariant [OF rtranclp_trans [OF sample_reached]] sample_careful by (simp add: sample_allocated_def)

theorem allocation_replays_witness:
  "createPublicationCopy (memory_repository sample_digest) (\<lambda>n s. s) sample_digest
     (sample_publication\<lparr> pb_publicationId := ''retry'' \<rparr>) (J_obj []) sample_allocated
   = (Inr (sample_publication, False), sample_allocated)"
proof (rule allocation_replays [OF sample_create])
  show "(store_step sample_digest)\<^sup>*\<^sup>* sample_allocated sample_allocated" by simp
  show "pb_copy sample_publication = Some sample_identity" by (simp add: sample_publication_def)
  then show "pb_copy sample_publication = Some sample_identity" .
  show "getPublication sample_allocated (pb_tenantId sample_publication) (pb_publicationId sample_publication) = Some sample_publication"
    by (simp add: getPublication_def sample_allocated_def find_key_def)
qed (simp_all add: bounded_id_def)

text \<open>An operation approved on the allocated publication and handed to the provider.\<close>

definition sample_operation :: operation where
  "sample_operation = \<lparr> op_operationId = ''o'', op_tenantId = ''t'', op_creatorId = ''c'', op_publicationId = ''p'',
     op_intendedRevision = 2, op_sourceRevision = 1, op_kind = CREATE, op_state = PREPARED, op_version = 1,
     op_createdAt = ''1'', op_updatedAt = ''1'', op_remoteId = None \<rparr>"

definition sample_approval :: operation_commit where
  "sample_approval = \<lparr> oc_previous = sample_publication,
     oc_next = sample_publication\<lparr> pb_revision := Some 2, pb_activeOperationId := Some ''o'' \<rparr>,
     oc_operation = sample_operation, oc_previousOperation = None, oc_remoteClaim = None \<rparr>"

definition sample_dispatch :: operation_commit where
  "sample_dispatch = \<lparr> oc_previous = oc_next sample_approval,
     oc_next = (oc_next sample_approval)\<lparr> pb_revision := Some 3 \<rparr>,
     oc_operation = sample_operation\<lparr> op_state := IN_FLIGHT, op_version := 2 \<rparr>,
     oc_previousOperation = Some sample_operation, oc_remoteClaim = None \<rparr>"

definition sample_approved :: memory_store where
  "sample_approved = sample_allocated\<lparr> ms_publications := [oc_next sample_approval], ms_publicationOperations := [sample_operation] \<rparr>"

definition sample_dispatched :: memory_store where
  "sample_dispatched = sample_allocated\<lparr> ms_publications := [oc_next sample_dispatch],
     ms_publicationOperations := [oc_operation sample_dispatch] \<rparr>"

lemma sample_approval_commit: "commitPublicationOperation sample_digest sample_allocated sample_approval = Inr sample_approved"
proof -
  have v: "validateCopyOperation sample_digest sample_approval = Inr ()"
    by (simp add: validateCopyOperation_def Let_def sample_approval_def sample_publication_def sample_operation_def
        positive_revision_def safe_int_def max_safe_int_def)
  show ?thesis unfolding commitPublicationOperation_def v
    by (simp add: Let_def sample_approval_def sample_approved_def sample_allocated_def store_with_work_def createWork_def
        put_row_def empty_store_def sample_publication_def sample_operation_def sample_work_def getPublication_def
        getPublicationOperation_def find_key_def live_work_def gone_def)
qed

lemma sample_dispatch_commit: "commitPublicationOperation sample_digest sample_approved sample_dispatch = Inr sample_dispatched"
proof -
  have v: "validateCopyOperation sample_digest sample_dispatch = Inr ()"
    by (simp add: validateCopyOperation_def Let_def sample_dispatch_def sample_approval_def sample_publication_def
        sample_operation_def positive_revision_def safe_int_def max_safe_int_def continues_def operationTransitions_def)
  show ?thesis unfolding commitPublicationOperation_def v
    by (simp add: Let_def sample_dispatch_def sample_approval_def sample_approved_def sample_dispatched_def sample_allocated_def
        store_with_work_def createWork_def put_row_def empty_store_def sample_publication_def sample_operation_def
        sample_work_def getPublication_def getPublicationOperation_def find_key_def live_work_def gone_def)
qed

theorem operation_dispatched_once_witness:
  "\<exists>b. getPublicationOperation sample_dispatched ''t'' ''o'' = Some b \<and> op_state b = IN_FLIGHT \<and> b = oc_operation sample_dispatch"
proof -
  have g: "getPublicationOperation sample_dispatched ''t'' ''o'' = Some (oc_operation sample_dispatch)"
    and f: "op_state (oc_operation sample_dispatch) = IN_FLIGHT"
    by (simp_all add: getPublicationOperation_def sample_dispatched_def sample_dispatch_def sample_operation_def find_key_def)
  have "op_state (oc_operation sample_dispatch) \<noteq> PREPARED" using f by simp
  from operation_dispatched_once [OF rtranclp.rtrancl_refl [of "store_step sample_digest" sample_dispatched] g this g f] g f
  show ?thesis by blast
qed

text \<open>An upload to the sample Work, and a restore of a graph with one Work, one asset and their attachment.\<close>

definition sample_asset :: asset where
  "sample_asset = \<lparr> ca_tenantId = ''t'', ca_creatorId = ''c'', ca_assetId = ''a'', ca_status = ''active'', ca_mimeType = ''m'',
     ca_sizeBytes = 1, ca_checksumSha256 = [], ca_storage = \<lparr> so_bucket = ''b'', so_key = ''k'', so_versionId = ''v'',
     so_contentType = ''m'', so_byteLength = 1, so_checksum = [], so_scope = ''private'' \<rparr>,
     ca_createdAt = ''0'', ca_updatedAt = ''0'', ca_processingJobId = None, ca_processing = None \<rparr>"

definition sample_attachment :: attachment where
  "sample_attachment = \<lparr> at_workId = ''w'', at_assetId = ''a'', at_role = ''primary'', at_position = 0 \<rparr>"

definition sample_upload :: asset_commit where
  "sample_upload = \<lparr> ac_previousRevision = 1, ac_work = sample_work\<lparr> wk_revision := 2, wk_primaryAssetId := Some ''a'' \<rparr>,
     ac_asset = sample_asset, ac_attachment = sample_attachment \<rparr>"

definition sample_uploaded :: memory_store where
  "sample_uploaded = store_with_work\<lparr> ms_works := [ac_work sample_upload], ms_canonicalAssets := [sample_asset],
     ms_workAssets := [(''t'', sample_attachment)] \<rparr>"

lemma sample_upload_commit: "commitAssetAttachment store_with_work sample_upload = Inr sample_uploaded"
  by (simp add: commitAssetAttachment_def Let_def sample_upload_def sample_uploaded_def store_with_work_def createWork_def
      put_row_def empty_store_def sample_work_def sample_asset_def sample_attachment_def find_key_def members_of_def)

theorem attachment_appended_once_witness:
  "listCanonicalAssetsByWork sample_uploaded ''t'' ''w'' = [(sample_asset, sample_attachment)]
   \<and> commitAssetAttachment sample_uploaded sample_upload = Inl Commit_error"
proof -
  have "listCanonicalAssetsByWork store_with_work ''t'' ''w'' = []"
    by (simp add: listCanonicalAssetsByWork_def store_with_work_def createWork_def empty_store_def map_filter_simps)
  moreover have "ms_workAssets store_with_work = []" by (simp add: store_with_work_def createWork_def empty_store_def)
  moreover have "(''t'', ''w'') = work_key (ac_work sample_upload)" by (simp add: sample_upload_def sample_work_def)
  ultimately show ?thesis
    using attachment_appended_once [OF _ sample_upload_commit, of "''t''" "''w''"]
    by (simp add: sample_upload_def)
qed

text \<open>An attachment of an asset that is not stored yet becomes visible when the asset is uploaded to another Work.\<close>

definition early_attached :: memory_store where
  "early_attached = attachAssetToWork store_with_work ''t'' \<lparr> at_workId = ''other'', at_assetId = ''a'', at_role = ''primary'', at_position = 0 \<rparr>"

lemma early_attachment_surfaces:
  "(store_step digest)\<^sup>*\<^sup>* store_with_work early_attached" "listCanonicalAssetsByWork early_attached ''t'' ''other'' = []"
  "\<exists>s'. commitAssetAttachment early_attached sample_upload = Inr s' \<and> map fst (listCanonicalAssetsByWork s' ''t'' ''other'') = [sample_asset]"
proof -
  show "(store_step digest)\<^sup>*\<^sup>* store_with_work early_attached" unfolding early_attached_def by (blast intro: store_step.attachAssetToWork)
  show "listCanonicalAssetsByWork early_attached ''t'' ''other'' = []" by code_simp
  show "\<exists>s'. commitAssetAttachment early_attached sample_upload = Inr s' \<and> map fst (listCanonicalAssetsByWork s' ''t'' ''other'') = [sample_asset]"
    by (simp add: commitAssetAttachment_def Let_def early_attached_def attachAssetToWork_def sample_upload_def store_with_work_def createWork_def
      put_row_def empty_store_def sample_work_def sample_asset_def sample_attachment_def find_key_def members_of_def
      listCanonicalAssetsByWork_def getCanonicalAsset_def map_filter_simps insort_key_def)
qed

definition sample_restore :: content_restore where
  "sample_restore = \<lparr> re_restoreId = ''x'', re_fingerprint = replicate 64 CHR ''0'', re_tenantId = ''t'', re_creatorId = ''c'',
     re_works = [sample_work], re_assets = [sample_asset], re_attachments = [sample_attachment], re_publications = [],
     re_intents = [], re_collections = [], re_collectionWorks = [], re_discovery = [] \<rparr>"

lemma sample_restore_commits: "\<exists>rr s'. commitContentRestore empty_store sample_restore ''5'' = Inr (rr, s')"
proof -
  have h: "hex64 (replicate 64 CHR ''0'')" by (simp add: hex64_def list_all_iff)
  have g: "restore_graph_ok sample_restore"
    using h by (simp add: restore_graph_ok_def sample_restore_def ids_ok_def relation_ok_def sample_work_def sample_asset_def
        sample_attachment_def nonblank_iff js_space_def safe_int_def max_safe_int_def)
  have "contentAssetReferences J_null J_null = Inr []"
    by (simp add: contentAssetReferences_def parseContentBlocks_def checkStructure_def safe_int_def max_safe_int_def mediaReferenceIds_def)
  then have w: "works_use_attached sample_restore (re_works sample_restore) = Inr ()"
    by (simp add: sample_restore_def sample_work_def json_or_null_def)
  have r: "restore_refs_ok sample_restore" by (simp add: restore_refs_ok_def sample_restore_def)
  have "\<not> restore_conflicts empty_store sample_restore"
    by (simp add: restore_conflicts_def collides_def list_ex_iff empty_store_def)
  moreover have "getContentRestore empty_store (re_tenantId sample_restore) (re_restoreId sample_restore) = None"
    by (simp add: getContentRestore_def find_key_def empty_store_def)
  ultimately show ?thesis using g w r
    by (simp add: commitContentRestore_def validateCreatorContentRestore_def require_def Let_def)
qed

theorem restore_idempotent_witness:
  "\<exists>rr s'. commitContentRestore empty_store sample_restore ''5'' = Inr (rr, s')
     \<and> commitContentRestore s' sample_restore ''6'' = Inr (rr, s')"
proof -
  obtain rr s' where c: "commitContentRestore empty_store sample_restore ''5'' = Inr (rr, s')"
    using sample_restore_commits by blast
  from c restore_idempotent [OF c rtranclp.rtrancl_refl [of "store_step sample_digest"]] show ?thesis by blast
qed

end
