(* ===== verification/Content_Services.thy ===== *)
theory Content_Services
  imports Content_Store "HOL-Library.Multiset"
begin

text \<open>
  The creator services of \<open>packages/core/src\<close>: \<open>CreatorWorkService\<close> (\<open>creator-works.ts\<close>), \<open>CreatorCollectionService\<close>
  (\<open>creator-collections.ts\<close>), the asset services (\<open>creator-assets.ts\<close>) and \<open>CreatorAssetRegenerationService\<close>
  (\<open>creator-asset-regeneration.ts\<close>), each over the port it declares. A port is a record of functions on a state;
  \<open>others n\<close> is what other clients do to the state before the n-th port call of an operation, the authorization
  policy and the clock are parameters. An operation answers its result with the state it leaves, or its error.
\<close>

subsection \<open>Works\<close>

datatype service_error = Access_denied | Not_found | Slug_conflict | Immutable_identity | Revision_conflict
  | Invalid_works | Invalid_cover | Invalid_asset | Asset_in_use | Invalid_request | Store_failed store_error

type_synonym policy = "string \<Rightarrow> string \<Rightarrow> bool"

record 's work_port =
  wp_listWorksByCreator :: "'s \<Rightarrow> string \<Rightarrow> string \<Rightarrow> bool \<Rightarrow> work list"
  wp_getWork :: "'s \<Rightarrow> string \<Rightarrow> string \<Rightarrow> work option"
  wp_createWork :: "'s \<Rightarrow> work \<Rightarrow> 's"
  wp_commitWorkRevision :: "'s \<Rightarrow> work \<Rightarrow> int \<Rightarrow> store_error + 's"

definition requireAccess :: "policy \<Rightarrow> string \<Rightarrow> string \<Rightarrow> service_error + unit" where
  "requireAccess authorize tenantId creatorId = require (authorize tenantId creatorId) Access_denied"

definition works_get :: "'s work_port \<Rightarrow> policy \<Rightarrow> 's \<Rightarrow> string \<Rightarrow> string \<Rightarrow> service_error + work" where
  "works_get port authorize s tenantId workId = (case wp_getWork port s tenantId workId of
     None \<Rightarrow> Inl Not_found
   | Some w \<Rightarrow> if wk_tenantId w \<noteq> tenantId \<or> wk_workId w \<noteq> workId then Inl Not_found
       else try_then (requireAccess authorize (wk_tenantId w) (wk_creatorId w)) (\<lambda>_. Inr w))"

definition works_list :: "'s work_port \<Rightarrow> policy \<Rightarrow> 's \<Rightarrow> string \<Rightarrow> string \<Rightarrow> string \<Rightarrow> bool \<Rightarrow> service_error + work list" where
  "works_list port authorize s tenantId creatorId query includeDeleted =
     try_then (requireAccess authorize tenantId creatorId) (\<lambda>_.
       let q = js_lower (js_trim query) in
       Inr (filter (\<lambda>w. wk_tenantId w = tenantId \<and> wk_creatorId w = creatorId
           \<and> (includeDeleted \<or> wk_status w \<noteq> ''deleted'')
           \<and> (q = [] \<or> list_ex (\<lambda>v. js_includes (js_lower v) q)
                 (wk_title w # (case wk_description w of Some d \<Rightarrow> d | None \<Rightarrow> []) # wk_tags w)))
         (wp_listWorksByCreator port s tenantId creatorId includeDeleted)))"

definition work_aliases :: "work \<Rightarrow> string list" where
  "work_aliases w = wk_slug w # wk_slugHistory w"

definition requireAvailableSlug :: "'s work_port \<Rightarrow> 's \<Rightarrow> work \<Rightarrow> string list \<Rightarrow> service_error + unit" where
  "requireAvailableSlug port s w aliases =
     require (\<not> list_ex (\<lambda>x. wk_workId x \<noteq> wk_workId w \<and> wk_tenantId x = wk_tenantId w \<and> wk_creatorId x = wk_creatorId w
         \<and> wk_status x \<noteq> ''deleted'' \<and> list_ex (\<lambda>a. a \<in> set aliases) (work_aliases x))
       (wp_listWorksByCreator port s (wk_tenantId w) (wk_creatorId w) False)) Slug_conflict"

definition created_work :: "work \<Rightarrow> work" where
  "created_work w = w\<lparr> wk_status := ''draft'', wk_revision := 1, wk_slugHistory := [wk_slug w],
     wk_archivedAt := None, wk_deletedAt := None \<rparr>"

definition works_create :: "'s work_port \<Rightarrow> policy \<Rightarrow> 's others \<Rightarrow> 's \<Rightarrow> work \<Rightarrow> service_error + (work \<times> 's)" where
  "works_create port authorize others s w =
     try_then (requireAccess authorize (wk_tenantId w) (wk_creatorId w)) (\<lambda>_.
     let s1 = others 0 s in
     try_then (requireAvailableSlug port s1 w [wk_slug w]) (\<lambda>_.
     Inr (created_work w, wp_createWork port (others 1 s1) (created_work w))))"

definition revised_work :: "work \<Rightarrow> work \<Rightarrow> string \<Rightarrow> work" where
  "revised_work previous proposed timestamp = proposed\<lparr>
     wk_slugHistory := js_set (wk_slugHistory previous @ [wk_slug previous, wk_slug proposed]),
     wk_revision := wk_revision previous + 1, wk_createdAt := wk_createdAt previous, wk_updatedAt := timestamp,
     wk_archivedAt := (if wk_status proposed = ''archived'' then Some timestamp else None),
     wk_deletedAt := (if wk_status proposed = ''deleted'' then Some timestamp else None) \<rparr>"

definition works_revise :: "'s work_port \<Rightarrow> policy \<Rightarrow> 's others \<Rightarrow> 's \<Rightarrow> string \<Rightarrow> string \<Rightarrow> (work \<Rightarrow> string \<Rightarrow> work) \<Rightarrow> string
    \<Rightarrow> service_error + (work \<times> 's)" where
  "works_revise port authorize others s tenantId workId edit timestamp =
     (let s1 = others 0 s in
      try_then (works_get port authorize s1 tenantId workId) (\<lambda>previous.
      let proposed = edit previous timestamp in
      if wk_tenantId proposed \<noteq> wk_tenantId previous \<or> wk_creatorId proposed \<noteq> wk_creatorId previous
         \<or> wk_workId proposed \<noteq> wk_workId previous then Inl Immutable_identity
      else let updated = revised_work previous proposed timestamp; s2 = others 1 s1 in
        try_then (if wk_status updated \<noteq> ''deleted'' \<and> (wk_status previous = ''deleted'' \<or> wk_slug updated \<noteq> wk_slug previous)
            then requireAvailableSlug port s2 updated
              (if wk_status previous = ''deleted'' then wk_slugHistory updated else [wk_slug updated])
            else Inr ()) (\<lambda>_.
        case wp_commitWorkRevision port (others 2 s2) updated (wk_revision previous) of
          Inl e \<Rightarrow> Inl (Store_failed e) | Inr s' \<Rightarrow> Inr (updated, s'))))"

subsection \<open>Collections\<close>

record processing_asset =
  pa_tenantId :: string
  pa_creatorId :: string
  pa_assetId :: string
  pa_status :: string
  pa_scope :: string

record 's collection_port =
  kp_supportsExpectedCollectionOrder :: bool
  kp_supportsExpectedCollectionStatus :: bool
  kp_supportsExpectedCollectionRevision :: bool
  kp_supportsCollectionCoverValidation :: bool
  kp_getProcessingAsset :: "('s \<Rightarrow> string \<Rightarrow> string \<Rightarrow> processing_asset option) option"
  kp_listCreatorCollections :: "'s \<Rightarrow> string \<Rightarrow> string \<Rightarrow> bool \<Rightarrow> collection list"
  kp_getCreatorCollection :: "'s \<Rightarrow> string \<Rightarrow> string \<Rightarrow> collection option"
  kp_createCreatorCollection :: "'s \<Rightarrow> collection \<Rightarrow> 's"
  kp_updateCreatorCollection :: "'s \<Rightarrow> collection \<Rightarrow> string option \<Rightarrow> int option \<Rightarrow> store_error + 's"
  kp_listCollectionWorks :: "'s \<Rightarrow> string \<Rightarrow> string \<Rightarrow> collection_work list"
  kp_replaceCollectionWorks :: "'s \<Rightarrow> string \<Rightarrow> string \<Rightarrow> collection_work list \<Rightarrow> string list option \<Rightarrow> store_error + 's"
  kp_getWork :: "'s \<Rightarrow> string \<Rightarrow> string \<Rightarrow> work option"

definition collections_get :: "'s collection_port \<Rightarrow> policy \<Rightarrow> 's \<Rightarrow> string \<Rightarrow> string \<Rightarrow> service_error + collection" where
  "collections_get port authorize s tenantId collectionId = (case kp_getCreatorCollection port s tenantId collectionId of
     None \<Rightarrow> Inl Not_found
   | Some c \<Rightarrow> if co_tenantId c \<noteq> tenantId \<or> co_collectionId c \<noteq> collectionId then Inl Not_found
       else try_then (requireAccess authorize (co_tenantId c) (co_creatorId c)) (\<lambda>_. Inr c))"

text \<open>A view is the collection with the ids of its member Works in order.\<close>

definition collection_view :: "'s collection_port \<Rightarrow> 's \<Rightarrow> collection \<Rightarrow> collection \<times> string list" where
  "collection_view port s c = (c, map cw_workId (kp_listCollectionWorks port s (co_tenantId c) (co_collectionId c)))"

definition collections_list :: "'s collection_port \<Rightarrow> policy \<Rightarrow> 's \<Rightarrow> string \<Rightarrow> string \<Rightarrow> bool
    \<Rightarrow> service_error + (collection \<times> string list) list" where
  "collections_list port authorize s tenantId creatorId includeDeleted =
     try_then (requireAccess authorize tenantId creatorId) (\<lambda>_.
       Inr (map (collection_view port s) (filter (\<lambda>c. co_tenantId c = tenantId \<and> co_creatorId c = creatorId
           \<and> (includeDeleted \<or> co_status c \<noteq> ''deleted''))
         (kp_listCreatorCollections port s tenantId creatorId includeDeleted))))"

definition collection_aliases :: "collection \<Rightarrow> string list" where
  "collection_aliases c = co_slug c # co_slugHistory c"

definition requireAvailableCollectionSlug :: "'s collection_port \<Rightarrow> 's \<Rightarrow> collection \<Rightarrow> service_error + unit" where
  "requireAvailableCollectionSlug port s c =
     require (co_status c = ''deleted'' \<or>
       \<not> list_ex (\<lambda>x. co_collectionId x \<noteq> co_collectionId c \<and> co_tenantId x = co_tenantId c \<and> co_creatorId x = co_creatorId c
           \<and> co_status x \<noteq> ''deleted'' \<and> list_ex (\<lambda>a. a \<in> set (collection_aliases c)) (collection_aliases x))
         (kp_listCreatorCollections port s (co_tenantId c) (co_creatorId c) False)) Slug_conflict"

definition requireRevisionSupport :: "'s collection_port \<Rightarrow> int option \<Rightarrow> service_error + unit" where
  "requireRevisionSupport port expectedRevision = (case expectedRevision of None \<Rightarrow> Inr ()
     | Some n \<Rightarrow> require (kp_supportsExpectedCollectionRevision port \<and> safe_int n \<and> 0 \<le> n \<and> n < max_safe_int) Revision_conflict)"

definition requireValidCover :: "'s collection_port \<Rightarrow> 's \<Rightarrow> collection \<Rightarrow> service_error + unit" where
  "requireValidCover port s c = (case co_coverAssetId c of None \<Rightarrow> Inr ()
     | Some cover \<Rightarrow>
         if \<not> truthy cover then Inr ()
         else (case (kp_supportsCollectionCoverValidation port, kp_getProcessingAsset port) of
           (True, Some get) \<Rightarrow> (case get s (co_tenantId c) cover of None \<Rightarrow> Inl Invalid_cover
             | Some a \<Rightarrow> require (pa_assetId a = cover \<and> pa_tenantId a = co_tenantId c \<and> pa_creatorId a = co_creatorId c
                 \<and> pa_status a \<noteq> ''deleted'' \<and> pa_scope a = ''private'') Invalid_cover)
         | _ \<Rightarrow> Inl Invalid_cover))"

definition collections_create :: "'s collection_port \<Rightarrow> policy \<Rightarrow> 's others \<Rightarrow> 's \<Rightarrow> collection
    \<Rightarrow> service_error + ((collection \<times> string list) \<times> 's)" where
  "collections_create port authorize others s c =
     try_then (requireAccess authorize (co_tenantId c) (co_creatorId c)) (\<lambda>_.
     let s1 = others 0 s in
     try_then (requireValidCover port s1 c) (\<lambda>_.
     let created = c\<lparr> co_slugHistory := js_set (co_slugHistory c @ [co_slug c]) \<rparr>; s2 = others 1 s1 in
     try_then (requireAvailableCollectionSlug port s2 created) (\<lambda>_.
     Inr ((created, []), kp_createCreatorCollection port (others 2 s2) created))))"

definition store_result :: "store_error + 's \<Rightarrow> service_error + 's" where
  "store_result r = (case r of Inl e \<Rightarrow> Inl (Store_failed e) | Inr s \<Rightarrow> Inr s)"

definition collections_update :: "'s collection_port \<Rightarrow> policy \<Rightarrow> 's others \<Rightarrow> 's \<Rightarrow> collection \<Rightarrow> string option \<Rightarrow> int option
    \<Rightarrow> service_error + ((collection \<times> string list) \<times> 's)" where
  "collections_update port authorize others s c expectedStatus expectedRevision =
     try_then (requireRevisionSupport port expectedRevision) (\<lambda>_.
     if expectedStatus \<noteq> None \<and> \<not> kp_supportsExpectedCollectionStatus port then Inl Revision_conflict
     else let s1 = others 0 s in
     try_then (collections_get port authorize s1 (co_tenantId c) (co_collectionId c)) (\<lambda>previous.
     if co_creatorId previous \<noteq> co_creatorId c then Inl Immutable_identity
     else let s2 = others 1 s1 in
     try_then (requireValidCover port s2 c) (\<lambda>_.
     let updated = c\<lparr> co_slugHistory := js_set (co_slugHistory previous @ [co_slug previous, co_slug c]) \<rparr>; s3 = others 2 s2 in
     try_then (requireAvailableCollectionSlug port s3 updated) (\<lambda>_.
     try_then (store_result (kp_updateCreatorCollection port (others 3 s3) updated expectedStatus expectedRevision)) (\<lambda>s4.
     let s5 = others 4 s4 in
     try_then (case expectedRevision of
         None \<Rightarrow> if kp_supportsExpectedCollectionRevision port then collections_get port authorize s5 (co_tenantId c) (co_collectionId c)
                 else Inr updated
       | Some n \<Rightarrow> Inr (updated\<lparr> co_revision := Some (n + 1) \<rparr>)) (\<lambda>result.
     let s6 = others 5 s5 in Inr (collection_view port s6 result, s6)))))))"

definition collections_remove :: "'s collection_port \<Rightarrow> policy \<Rightarrow> 's others \<Rightarrow> 's \<Rightarrow> string \<Rightarrow> string \<Rightarrow> int option \<Rightarrow> string
    \<Rightarrow> service_error + 's" where
  "collections_remove port authorize others s tenantId collectionId expectedRevision now =
     try_then (requireRevisionSupport port expectedRevision) (\<lambda>_.
     let s1 = others 0 s in
     try_then (collections_get port authorize s1 tenantId collectionId) (\<lambda>c.
     store_result (kp_updateCreatorCollection port (others 1 s1)
       (c\<lparr> co_status := ''deleted'', co_deletedAt := Some now, co_updatedAt := now \<rparr>) None expectedRevision)))"

definition requested_ids :: "string list \<Rightarrow> string list" where
  "requested_ids ids = js_set (filter truthy (map js_trim ids))"

definition ordered_members :: "string \<Rightarrow> string \<Rightarrow> string list \<Rightarrow> collection_work list" where
  "ordered_members collectionId addedAt ids = map (\<lambda>(i, w). \<lparr> cw_collectionId = collectionId, cw_workId = w,
     cw_position = int i, cw_addedAt = addedAt \<rparr>) (zip [0..<length ids] ids)"

definition collections_replaceWorks :: "'s collection_port \<Rightarrow> policy \<Rightarrow> 's others \<Rightarrow> 's \<Rightarrow> string \<Rightarrow> string \<Rightarrow> string list
    \<Rightarrow> string list option \<Rightarrow> string \<Rightarrow> service_error + ((collection \<times> string list) \<times> 's)" where
  "collections_replaceWorks port authorize others s tenantId collectionId requested expected addedAt =
     (let s1 = others 0 s in
      try_then (collections_get port authorize s1 tenantId collectionId) (\<lambda>c.
      if co_status c = ''deleted'' then Inl Not_found
      else if expected \<noteq> None \<and> \<not> kp_supportsExpectedCollectionOrder port then Inl Invalid_works
      else let ids = requested_ids requested; s2 = others 1 s1 in
        if list_ex (\<lambda>i. case kp_getWork port s2 tenantId i of None \<Rightarrow> True
            | Some w \<Rightarrow> wk_tenantId w \<noteq> tenantId \<or> wk_workId w \<noteq> i \<or> wk_creatorId w \<noteq> co_creatorId c \<or> wk_status w = ''deleted'') ids
        then Inl Invalid_works
        else try_then (store_result (kp_replaceCollectionWorks port (others 2 s2) tenantId collectionId
            (ordered_members collectionId addedAt ids) expected)) (\<lambda>s'. Inr ((c, ids), s'))))"

subsection \<open>Assets of a Work\<close>

text \<open>The commits of the asset ports, with the store's own state; each answers the new Work where the port does.\<close>

record 's asset_port =
  ap_works :: "'s work_port"
  ap_listCanonicalAssetsByWork :: "'s \<Rightarrow> string \<Rightarrow> string \<Rightarrow> (asset \<times> attachment) list"
  ap_commitAssetDetachment :: "'s \<Rightarrow> string \<Rightarrow> string \<Rightarrow> string \<Rightarrow> string \<Rightarrow> int \<Rightarrow> string \<Rightarrow> store_error + (work \<times> 's)"
  ap_commitAssetOrder :: "'s \<Rightarrow> string \<Rightarrow> string \<Rightarrow> string \<Rightarrow> string list \<Rightarrow> int \<Rightarrow> string \<Rightarrow> store_error + (work \<times> 's)"
  ap_commitPrimaryAsset :: "'s \<Rightarrow> string \<Rightarrow> string \<Rightarrow> string \<Rightarrow> string \<Rightarrow> int \<Rightarrow> string \<Rightarrow> store_error + (work \<times> 's)"
  ap_commitExistingAssetAttachment :: "'s \<Rightarrow> string \<Rightarrow> string \<Rightarrow> string \<Rightarrow> string \<Rightarrow> string \<Rightarrow> string \<Rightarrow> int \<Rightarrow> string
    \<Rightarrow> store_error + (work \<times> 's)"
  ap_commitAssetAttachment :: "'s \<Rightarrow> asset_commit \<Rightarrow> store_error + 's"

definition committed :: "store_error + 'a \<Rightarrow> service_error + 'a" where
  "committed r = (case r of Inl e \<Rightarrow> Inl (Store_failed e) | Inr x \<Rightarrow> Inr x)"

text \<open>The Work, not deleted and at the revision the caller saw.\<close>

definition work_at_revision :: "work \<Rightarrow> int \<Rightarrow> service_error + unit" where
  "work_at_revision w expectedRevision =
     (if wk_status w = ''deleted'' then Inl Not_found
      else require (safe_int expectedRevision \<and> 1 \<le> expectedRevision \<and> expectedRevision = wk_revision w) Revision_conflict)"

definition assets_detach :: "'s asset_port \<Rightarrow> policy \<Rightarrow> 's others \<Rightarrow> 's \<Rightarrow> string \<Rightarrow> string \<Rightarrow> string \<Rightarrow> int \<Rightarrow> string
    \<Rightarrow> service_error + (work \<times> 's)" where
  "assets_detach port authorize others s tenantId workId assetId expectedRevision now =
     (let s1 = others 0 s in
      try_then (works_get (ap_works port) authorize s1 tenantId workId) (\<lambda>w.
      try_then (work_at_revision w expectedRevision) (\<lambda>_.
      case contentAssetReferences (json_or_null (wk_body w)) (json_or_null (wk_media w)) of
        Inl e \<Rightarrow> Inl (Store_failed (Content_rejected e))
      | Inr ids \<Rightarrow>
          if assetId \<in> set ids then Inl Asset_in_use
          else committed (ap_commitAssetDetachment port (others 1 s1) tenantId (wk_creatorId w) workId assetId expectedRevision now))))"

definition order_matches :: "string \<Rightarrow> work \<Rightarrow> string list \<Rightarrow> (asset \<times> attachment) list \<Rightarrow> bool" where
  "order_matches tenantId w ids assets \<longleftrightarrow>
     length (js_set ids) = length ids \<and> length (js_set (map (\<lambda>x. ca_assetId (fst x)) assets)) = length assets
     \<and> length ids = length assets \<and> list_all truthy ids
     \<and> list_all (\<lambda>(a, m). ca_tenantId a = tenantId \<and> ca_creatorId a = wk_creatorId w \<and> at_workId m = wk_workId w
         \<and> at_assetId m = ca_assetId a \<and> ca_assetId a \<in> set ids) assets"

definition assets_replace_order :: "'s asset_port \<Rightarrow> policy \<Rightarrow> 's others \<Rightarrow> 's \<Rightarrow> string \<Rightarrow> string \<Rightarrow> string list \<Rightarrow> int \<Rightarrow> string
    \<Rightarrow> service_error + (work \<times> 's)" where
  "assets_replace_order port authorize others s tenantId workId ids expectedRevision now =
     (let s1 = others 0 s in
      try_then (works_get (ap_works port) authorize s1 tenantId workId) (\<lambda>w.
      try_then (work_at_revision w expectedRevision) (\<lambda>_.
      let s2 = others 1 s1 in
      if \<not> order_matches tenantId w ids (ap_listCanonicalAssetsByWork port s2 tenantId workId) then Inl Invalid_asset
      else committed (ap_commitAssetOrder port (others 2 s2) tenantId (wk_creatorId w) workId ids expectedRevision now))))"

definition isPrivateStoredCreatorAsset :: "asset \<Rightarrow> bool" where
  "isPrivateStoredCreatorAsset a \<longleftrightarrow> safe_int (ca_sizeBytes a) \<and> 0 < ca_sizeBytes a \<and> hex64 (ca_checksumSha256 a)
     \<and> so_scope (ca_storage a) = ''private'' \<and> so_byteLength (ca_storage a) = ca_sizeBytes a
     \<and> so_checksum (ca_storage a) = ca_checksumSha256 a \<and> truthy (so_versionId (ca_storage a))"

definition assets_select_primary :: "'s asset_port \<Rightarrow> policy \<Rightarrow> 's others \<Rightarrow> 's \<Rightarrow> string \<Rightarrow> string \<Rightarrow> string \<Rightarrow> int \<Rightarrow> string
    \<Rightarrow> service_error + (work \<times> 's)" where
  "assets_select_primary port authorize others s tenantId workId assetId expectedRevision now =
     (let s1 = others 0 s in
      try_then (works_get (ap_works port) authorize s1 tenantId workId) (\<lambda>w.
      try_then (work_at_revision w expectedRevision) (\<lambda>_.
      let s2 = others 1 s1 in
      case List.find (\<lambda>(a, m). ca_assetId a = assetId \<and> ca_tenantId a = tenantId \<and> ca_creatorId a = wk_creatorId w
          \<and> at_workId m = workId \<and> at_assetId m = assetId) (ap_listCanonicalAssetsByWork port s2 tenantId workId) of
        None \<Rightarrow> Inl Invalid_asset
      | Some (a, m) \<Rightarrow>
          if \<not> isPrivateStoredCreatorAsset a \<or> ca_status a = ''deleted'' then Inl Invalid_asset
          else committed (ap_commitPrimaryAsset port (others 2 s2) tenantId (wk_creatorId w) workId assetId expectedRevision now))))"

definition assets_attach_existing :: "'s asset_port \<Rightarrow> policy \<Rightarrow> 's others \<Rightarrow> 's \<Rightarrow> string \<Rightarrow> string \<Rightarrow> string \<Rightarrow> string \<Rightarrow> string
    \<Rightarrow> string \<Rightarrow> service_error + (work \<times> 's)" where
  "assets_attach_existing port authorize others s tenantId workId sourceWorkId assetId checksum now =
     (let s1 = others 0 s in
      try_then (works_get (ap_works port) authorize s1 tenantId workId) (\<lambda>target.
      let s2 = others 1 s1 in
      try_then (works_get (ap_works port) authorize s2 tenantId sourceWorkId) (\<lambda>source.
      if wk_creatorId source \<noteq> wk_creatorId target \<or> \<not> truthy assetId \<or> \<not> hex64 checksum
         \<or> gone (wk_status source) \<or> gone (wk_status target) then Inl Invalid_asset
      else committed (ap_commitExistingAssetAttachment port (others 2 s2) tenantId (wk_creatorId target) workId sourceWorkId
             assetId checksum (wk_revision target) now))))"

definition selectPrivateAssetRendition :: "asset \<Rightarrow> string \<Rightarrow> service_error + rendition" where
  "selectPrivateAssetRendition a renditionId =
     (case ca_processing a of None \<Rightarrow> Inl Not_found
      | Some p \<Rightarrow> (case List.find (\<lambda>r. rn_id r = renditionId) (pr_renditions p) of None \<Rightarrow> Inl Not_found
        | Some r \<Rightarrow>
            if ca_status a = ''deleted'' \<or> so_scope (ca_storage a) \<noteq> ''private'' \<or> \<not> truthy (so_versionId (ca_storage a))
               \<or> pr_state p \<noteq> ''completed'' \<or> pr_sourceVersionId p \<noteq> so_versionId (ca_storage a)
               \<or> rn_sourceVersionId r \<noteq> so_versionId (ca_storage a) \<or> so_scope (rn_storage r) \<noteq> ''private''
               \<or> \<not> truthy (so_versionId (rn_storage r)) \<or> rn_role r \<notin> set [''preview'', ''poster'']
            then Inl Not_found else Inr r))"

definition assets_list :: "'s asset_port \<Rightarrow> policy \<Rightarrow> 's others \<Rightarrow> 's \<Rightarrow> string \<Rightarrow> string \<Rightarrow> service_error + (asset \<times> attachment) list" where
  "assets_list port authorize others s tenantId workId =
     (let s1 = others 0 s in
      try_then (works_get (ap_works port) authorize s1 tenantId workId) (\<lambda>_.
      Inr (ap_listCanonicalAssetsByWork port (others 1 s1) tenantId workId)))"

text \<open>\<open>previous.primaryAssetId || asset.assetId\<close>.\<close>

definition primary_or :: "work \<Rightarrow> string \<Rightarrow> string" where
  "primary_or w assetId = (case wk_primaryAssetId w of Some p \<Rightarrow> if truthy p then p else assetId | None \<Rightarrow> assetId)"

definition upload_commit :: "work \<Rightarrow> asset \<Rightarrow> (asset \<times> attachment) list \<Rightarrow> string \<Rightarrow> asset_commit" where
  "upload_commit previous a existing now =
     \<lparr> ac_previousRevision = wk_revision previous,
       ac_work = previous\<lparr> wk_primaryAssetId := Some (primary_or previous (ca_assetId a)), wk_revision := wk_revision previous + 1,
         wk_updatedAt := now \<rparr>,
       ac_asset = a,
       ac_attachment = \<lparr> at_workId = wk_workId previous, at_assetId = ca_assetId a,
         at_role = (if truthy_opt (wk_primaryAssetId previous) then ''content'' else ''primary''),
         at_position = next_position (map (\<lambda>x. at_position (snd x)) existing) \<rparr> \<rparr>"

definition assets_attach :: "'s asset_port \<Rightarrow> policy \<Rightarrow> (asset \<Rightarrow> bool) \<Rightarrow> 's others \<Rightarrow> 's \<Rightarrow> string \<Rightarrow> string \<Rightarrow> asset \<Rightarrow> string
    \<Rightarrow> service_error + ((work \<times> asset \<times> attachment) \<times> 's)" where
  "assets_attach port authorize validateStoredAsset others s tenantId workId a now =
     (let s1 = others 0 s in
      try_then (works_get (ap_works port) authorize s1 tenantId workId) (\<lambda>previous.
      if wk_status previous = ''deleted'' then Inl Not_found
      else if ca_tenantId a \<noteq> tenantId \<or> ca_creatorId a \<noteq> wk_creatorId previous \<or> \<not> truthy (ca_assetId a)
         \<or> \<not> validateStoredAsset a then Inl Invalid_asset
      else let s2 = others 1 s1;
               input = upload_commit previous a (ap_listCanonicalAssetsByWork port s2 tenantId workId) now in
        try_then (committed (ap_commitAssetAttachment port (others 2 s2) input)) (\<lambda>s'.
        Inr ((ac_work input, a, ac_attachment input), s'))))"

subsection \<open>Regeneration\<close>

record square_crop =
  sc_x :: rat
  sc_y :: rat
  sc_size :: rat

definition crop_number :: "json option \<Rightarrow> rat option" where
  "crop_number v = (case v of Some (J_num x) \<Rightarrow> Some x | _ \<Rightarrow> None)"

definition snapshotCreatorSquareCrop :: "json option \<Rightarrow> service_error + square_crop option" where
  "snapshotCreatorSquareCrop value = (case value of None \<Rightarrow> Inr None
   | Some (J_obj row) \<Rightarrow>
       if list_ex (\<lambda>(k, v). k \<notin> set [''x'', ''y'', ''size'']) row then Inl Invalid_request
       else (case (crop_number (jget row ''x''), crop_number (jget row ''y''), crop_number (jget row ''size'')) of
         (Some x, Some y, Some n) \<Rightarrow> if n \<le> 0 then Inl Invalid_request else Inr (Some \<lparr> sc_x = x, sc_y = y, sc_size = n \<rparr>)
       | _ \<Rightarrow> Inl Invalid_request)
   | _ \<Rightarrow> Inl Invalid_request)"

record regeneration_request =
  rg_tenantId :: string
  rg_creatorId :: string
  rg_workId :: string
  rg_assetId :: string
  rg_sourceVersionId :: string
  rg_expectedRevision :: int
  rg_requestId :: string
  rg_squareCrop :: "square_crop option"

definition regeneration_valid :: "regeneration_request \<Rightarrow> bool" where
  "regeneration_valid r \<longleftrightarrow> list_all (\<lambda>v. nonblank v \<and> length v \<le> 500)
       [rg_tenantId r, rg_workId r, rg_assetId r, rg_sourceVersionId r, rg_requestId r]
     \<and> safe_int (rg_expectedRevision r) \<and> 1 \<le> rg_expectedRevision r"

definition regenerate :: "'s work_port \<Rightarrow> policy \<Rightarrow> (regeneration_request \<Rightarrow> service_error + unit)
    \<Rightarrow> ('s \<Rightarrow> regeneration_request \<Rightarrow> store_error + ('r \<times> 's)) \<Rightarrow> 's others \<Rightarrow> 's \<Rightarrow> regeneration_request \<Rightarrow> json option
    \<Rightarrow> service_error + ('r \<times> 's)" where
  "regenerate port authorize admit enqueue others s input squareCrop =
     try_then (snapshotCreatorSquareCrop squareCrop) (\<lambda>crop.
     if \<not> regeneration_valid input then Inl Invalid_request
     else let s1 = others 0 s in
       try_then (works_get port authorize s1 (rg_tenantId input) (rg_workId input)) (\<lambda>w.
       let request = input\<lparr> rg_creatorId := wk_creatorId w, rg_squareCrop := crop \<rparr> in
       try_then (admit request) (\<lambda>_. committed (enqueue (others 1 s1) request))))"

subsection \<open>Slugs as a registry\<close>

text \<open>
  Records with an owner inside a tenant, some of them live, each holding the names it has had. The listing a service
  checks is the complete list of the owner's live records.
\<close>

locale slug_registry =
  fixes records :: "'s \<Rightarrow> 'r list"
    and ident :: "'r \<Rightarrow> string \<times> string"
    and owner :: "'r \<Rightarrow> string"
    and live :: "'r \<Rightarrow> bool"
    and aliases :: "'r \<Rightarrow> string list"
    and listing :: "'s \<Rightarrow> string \<Rightarrow> string \<Rightarrow> 'r list"
  assumes listing_complete:
    "set (listing s t own) = {x \<in> set (records s). fst (ident x) = t \<and> owner x = own \<and> live x}"
begin

definition rivals :: "'r \<Rightarrow> 'r \<Rightarrow> bool" where
  "rivals x y \<longleftrightarrow> live x \<and> live y \<and> fst (ident x) = fst (ident y) \<and> owner x = owner y \<and> ident x \<noteq> ident y"

definition exclusive :: "'s \<Rightarrow> bool" where
  "exclusive s \<longleftrightarrow> (\<forall>x \<in> set (records s). \<forall>y \<in> set (records s). rivals x y \<longrightarrow> set (aliases x) \<inter> set (aliases y) = {})"

lemma rivals_sym: "rivals x y \<longleftrightarrow> rivals y x"
  by (auto simp: rivals_def)

text \<open>Storing a record whose names no rival holds keeps names exclusive.\<close>

lemma store_exclusive:
  assumes "exclusive s" "set (records s') \<subseteq> insert r {x \<in> set (records s). ident x \<noteq> ident r}"
    and "\<And>x. x \<in> set (records s) \<Longrightarrow> rivals x r \<Longrightarrow> set (aliases x) \<inter> set (aliases r) = {}"
  shows "exclusive s'"
  unfolding exclusive_def
proof (intro ballI impI)
  fix x y assume xy: "x \<in> set (records s')" "y \<in> set (records s')" "rivals x y"
  have "x = r \<or> x \<in> set (records s)" "y = r \<or> y \<in> set (records s)" using assms(2) xy by auto
  moreover have "\<not> rivals r r" by (simp add: rivals_def)
  ultimately consider "x = r" "y \<in> set (records s)" | "y = r" "x \<in> set (records s)" | "x \<in> set (records s)" "y \<in> set (records s)"
    using xy(3) by auto
  then show "set (aliases x) \<inter> set (aliases y) = {}"
  proof cases
    case 1
    with assms(3) [of y] xy(3) show ?thesis by (auto simp: rivals_sym)
  next
    case 2
    with assms(3) [of x] xy(3) show ?thesis by simp
  next
    case 3
    with assms(1) xy(3) show ?thesis by (simp add: exclusive_def)
  qed
qed

lemma available_names:
  assumes "\<forall>x \<in> set (listing s (fst (ident r)) (owner r)). ident x \<noteq> ident r \<longrightarrow> set (aliases x) \<inter> names = {}"
    and "x \<in> set (records s)" "rivals x r"
  shows "set (aliases x) \<inter> names = {}"
proof -
  have "x \<in> set (listing s (fst (ident r)) (owner r))"
    using assms(2,3) by (simp add: listing_complete rivals_def)
  with assms(1,3) show ?thesis by (simp add: rivals_def)
qed

end

lemma set_sort_desc [simp]: "set (sort_desc f xs) = set xs"
  by (simp add: sort_desc_def)

interpretation wreg: slug_registry ms_works work_key wk_creatorId "\<lambda>w. wk_status w \<noteq> ''deleted''" work_aliases
    "\<lambda>s t c. listWorksByCreator s t c False"
  by unfold_locales (auto simp: listWorksByCreator_def)

interpretation creg: slug_registry ms_creatorCollections collection_key co_creatorId "\<lambda>c. co_status c \<noteq> ''deleted''"
    collection_aliases "\<lambda>s t c. listCreatorCollections s t c False"
  by unfold_locales (auto simp: listCreatorCollections_def)

subsection \<open>The services on the reference store\<close>

definition memory_work_port :: "memory_store work_port" where
  "memory_work_port = \<lparr> wp_listWorksByCreator = listWorksByCreator, wp_getWork = getWork, wp_createWork = createWork,
     wp_commitWorkRevision = commitWorkRevision \<rparr>"

text \<open>The reference store declares no conditional writes and no cover validation, and ignores the expectations.\<close>

definition memory_collection_port :: "memory_store collection_port" where
  "memory_collection_port =
     \<lparr> kp_supportsExpectedCollectionOrder = False, kp_supportsExpectedCollectionStatus = False,
       kp_supportsExpectedCollectionRevision = False, kp_supportsCollectionCoverValidation = False,
       kp_getProcessingAsset = None, kp_listCreatorCollections = listCreatorCollections,
       kp_getCreatorCollection = getCreatorCollection, kp_createCreatorCollection = createCreatorCollection,
       kp_updateCreatorCollection = (\<lambda>s c st r. Inr (updateCreatorCollection s c)),
       kp_listCollectionWorks = listCollectionWorks,
       kp_replaceCollectionWorks = (\<lambda>s t i ws ex. replaceCollectionWorks s t i ws), kp_getWork = getWork \<rparr>"

lemma memory_work_port_simps [simp]:
  "wp_listWorksByCreator memory_work_port = listWorksByCreator" "wp_getWork memory_work_port = getWork"
  "wp_createWork memory_work_port = createWork" "wp_commitWorkRevision memory_work_port = commitWorkRevision"
  by (simp_all add: memory_work_port_def)

lemma memory_collection_port_simps [simp]:
  "\<not> kp_supportsExpectedCollectionOrder memory_collection_port" "\<not> kp_supportsExpectedCollectionStatus memory_collection_port"
  "\<not> kp_supportsExpectedCollectionRevision memory_collection_port"
  "kp_listCreatorCollections memory_collection_port = listCreatorCollections"
  "kp_getCreatorCollection memory_collection_port = getCreatorCollection"
  "kp_createCreatorCollection memory_collection_port = createCreatorCollection"
  "kp_updateCreatorCollection memory_collection_port s c st r = Inr (updateCreatorCollection s c)"
  "kp_listCollectionWorks memory_collection_port = listCollectionWorks"
  "kp_replaceCollectionWorks memory_collection_port s t i ws ex = replaceCollectionWorks s t i ws"
  "kp_getWork memory_collection_port = getWork"
  by (simp_all add: memory_collection_port_def)

lemma work_slug_available:
  assumes "requireAvailableSlug memory_work_port s w names = Inr ()" "x \<in> set (ms_works s)" "wreg.rivals x w"
  shows "set (work_aliases x) \<inter> set names = {}"
proof (rule wreg.available_names [OF _ assms(2,3)])
  show "\<forall>x \<in> set (listWorksByCreator s (fst (work_key w)) (wk_creatorId w) False).
      work_key x \<noteq> work_key w \<longrightarrow> set (work_aliases x) \<inter> set names = {}"
    using assms(1) by (auto simp: requireAvailableSlug_def list_ex_iff listWorksByCreator_def)
qed

lemma collection_slug_available:
  assumes "requireAvailableCollectionSlug memory_collection_port s c = Inr ()" "x \<in> set (ms_creatorCollections s)" "creg.rivals x c"
  shows "set (collection_aliases x) \<inter> set (collection_aliases c) = {}"
proof (rule creg.available_names [OF _ assms(2,3)])
  have live: "co_status c \<noteq> ''deleted''" using assms(3) by (simp add: creg.rivals_def)
  show "\<forall>x \<in> set (listCreatorCollections s (fst (collection_key c)) (co_creatorId c) False).
      collection_key x \<noteq> collection_key c \<longrightarrow> set (collection_aliases x) \<inter> set (collection_aliases c) = {}"
    using assms(1) live by (auto simp: requireAvailableCollectionSlug_def list_ex_iff listCreatorCollections_def)
qed

lemma put_row_subset: "set (put_row key r rows) \<subseteq> insert r {x \<in> set rows. key x \<noteq> key r}"
  by (auto simp: put_row_def)

lemma replace_row_subset: "distinct (map key rows) \<Longrightarrow> set (replace_row key r rows) \<subseteq> insert r {x \<in> set rows. key x \<noteq> key r}"
  by (induction rows) (auto simp: image_iff)

lemma works_get_Inr:
  "works_get memory_work_port authorize s t i = Inr w \<Longrightarrow> getWork s t i = Some w \<and> w \<in> set (ms_works s) \<and> work_key w = (t, i)
     \<and> authorize (wk_tenantId w) (wk_creatorId w)"
  by (auto simp: works_get_def requireAccess_def getWork_def split: option.splits if_splits dest: find_key_Some)

lemma works_revise_Inr:
  assumes "works_revise memory_work_port authorize others s t i edit now = Inr (w', s')"
  defines "s1 \<equiv> others 0 s" and "s2 \<equiv> others 1 (others 0 s)" and "s3 \<equiv> others 2 (others 1 (others 0 s))"
  obtains previous where "works_get memory_work_port authorize s1 t i = Inr previous"
    "w' = revised_work previous (edit previous now) now"
    "work_key w' = work_key previous" "wk_creatorId w' = wk_creatorId previous"
    "wk_status w' \<noteq> ''deleted'' \<Longrightarrow> wk_status previous = ''deleted'' \<or> wk_slug w' \<noteq> wk_slug previous \<Longrightarrow>
       requireAvailableSlug memory_work_port s2 w' (if wk_status previous = ''deleted'' then wk_slugHistory w' else [wk_slug w']) = Inr ()"
    "commitWorkRevision s3 w' (wk_revision previous) = Inr s'"
proof -
  obtain previous where g: "works_get memory_work_port authorize s1 t i = Inr previous"
    using assms(1) by (auto simp: works_revise_def s1_def Let_def)
  note ok = assms(1) [unfolded works_revise_def Let_def, folded s1_def, unfolded g try_then_simps, folded s2_def]
  have same: "\<not> (wk_tenantId (edit previous now) \<noteq> wk_tenantId previous \<or> wk_creatorId (edit previous now) \<noteq> wk_creatorId previous
     \<or> wk_workId (edit previous now) \<noteq> wk_workId previous)"
    using ok by (simp split: if_splits)
  note ok' = ok [unfolded if_not_P [OF same]]
  have w': "w' = revised_work previous (edit previous now) now"
    using ok' by (auto split: sum.splits)
  have k: "work_key w' = work_key previous" "wk_creatorId w' = wk_creatorId previous"
    using same by (simp_all add: w' revised_work_def)
  have c: "commitWorkRevision s3 w' (wk_revision previous) = Inr s'"
    using ok' by (auto simp: w' s2_def s3_def s1_def split: sum.splits)
  show thesis
  proof (rule that [OF g w' k _ c])
    assume "wk_status w' \<noteq> ''deleted''" "wk_status previous = ''deleted'' \<or> wk_slug w' \<noteq> wk_slug previous"
    then show "requireAvailableSlug memory_work_port s2 w' (if wk_status previous = ''deleted'' then wk_slugHistory w' else [wk_slug w']) = Inr ()"
      using ok' by (auto simp: w' [symmetric] s2_def s1_def split: if_splits)
  qed
qed

text \<open>
  The calls of one client after another, with any authorization policy, edit, clock and expectations. No call
  interleaves with another: the code leaves the reservation race to the adapter.
\<close>

abbreviation alone :: "'s others" where "alone \<equiv> (\<lambda>n s. s)"

inductive service_step :: "memory_store \<Rightarrow> memory_store \<Rightarrow> bool" where
  work_created: "works_create memory_work_port authorize alone s w = Inr (r, s') \<Longrightarrow> service_step s s'"
| work_revised: "works_revise memory_work_port authorize alone s t i edit now = Inr (r, s') \<Longrightarrow> service_step s s'"
| collection_created: "collections_create memory_collection_port authorize alone s c = Inr (v, s') \<Longrightarrow> service_step s s'"
| collection_updated: "collections_update memory_collection_port authorize alone s c st rv = Inr (v, s') \<Longrightarrow> service_step s s'"
| collection_removed: "collections_remove memory_collection_port authorize alone s t i rv now = Inr s' \<Longrightarrow> service_step s s'"
| works_replaced: "collections_replaceWorks memory_collection_port authorize alone s t i ids ex now = Inr (v, s') \<Longrightarrow> service_step s s'"

inductive_cases service_step_cases: "service_step s s'"

definition slugs_exclusive :: "memory_store \<Rightarrow> bool" where
  "slugs_exclusive s \<longleftrightarrow> wreg.exclusive s \<and> creg.exclusive s"

lemma works_create_exclusive:
  assumes "works_create memory_work_port authorize alone s w = Inr (r, s')" "wreg.exclusive s"
  shows "wreg.exclusive s'"
proof -
  let ?w = "created_work w"
  have s': "s' = createWork s ?w" and a: "requireAvailableSlug memory_work_port s w [wk_slug w] = Inr ()"
    using assms(1) by (auto simp: works_create_def Let_def)
  have k: "work_key ?w = work_key w" "wk_creatorId ?w = wk_creatorId w" "set (work_aliases ?w) = {wk_slug w}"
    by (simp_all add: created_work_def work_aliases_def)
  have r: "wreg.rivals x ?w \<Longrightarrow> requireAvailableSlug memory_work_port s ?w [wk_slug w] = Inr ()" for x
    using a by (simp add: requireAvailableSlug_def created_work_def)
  show ?thesis
  proof (rule wreg.store_exclusive [OF assms(2)])
    show "set (ms_works s') \<subseteq> insert ?w {x \<in> set (ms_works s). work_key x \<noteq> work_key ?w}"
      using put_row_subset [of work_key ?w "ms_works s"] by (simp add: s' createWork_def)
  next
    fix x assume "x \<in> set (ms_works s)" "wreg.rivals x ?w"
    from work_slug_available [OF r [OF this(2)] this] show "set (work_aliases x) \<inter> set (work_aliases ?w) = {}"
      by (simp add: k(3))
  qed
qed

lemma works_revise_exclusive:
  assumes "works_revise memory_work_port authorize alone s t i edit now = Inr (w', s')" "wreg.exclusive s"
    "distinct (map work_key (ms_works s))"
  shows "wreg.exclusive s'"
proof (rule works_revise_Inr [OF assms(1)])
  fix previous
  assume g: "works_get memory_work_port authorize s t i = Inr previous"
    and w': "w' = revised_work previous (edit previous now) now"
    and k: "work_key w' = work_key previous" "wk_creatorId w' = wk_creatorId previous"
    and a: "wk_status w' \<noteq> ''deleted'' \<Longrightarrow> wk_status previous = ''deleted'' \<or> wk_slug w' \<noteq> wk_slug previous \<Longrightarrow>
       requireAvailableSlug memory_work_port s w' (if wk_status previous = ''deleted'' then wk_slugHistory w' else [wk_slug w']) = Inr ()"
    and c: "commitWorkRevision s w' (wk_revision previous) = Inr s'"
  have aliases: "set (work_aliases w') = insert (wk_slug w') (set (work_aliases previous))"
    "set (wk_slugHistory w') = set (work_aliases w')"
    by (auto simp: w' revised_work_def work_aliases_def)
  have rows: "ms_works s' = replace_row work_key w' (ms_works s)"
    using commitWorkRevision_Inr [OF c] by auto
  show ?thesis
  proof (rule wreg.store_exclusive [OF assms(2)])
    show "set (ms_works s') \<subseteq> insert w' {x \<in> set (ms_works s). work_key x \<noteq> work_key w'}"
      unfolding rows by (rule replace_row_subset [OF assms(3)])
  next
    fix x assume x: "x \<in> set (ms_works s)" "wreg.rivals x w'"
    show "set (work_aliases x) \<inter> set (work_aliases w') = {}"
    proof (cases "wk_status previous = ''deleted''")
      case True
      with a x have "requireAvailableSlug memory_work_port s w' (wk_slugHistory w') = Inr ()" by (simp add: wreg.rivals_def)
      from work_slug_available [OF this x] aliases show ?thesis by simp
    next
      case False
      have "wreg.rivals x previous" using x(2) False k by (simp add: wreg.rivals_def)
      then have old: "set (work_aliases x) \<inter> set (work_aliases previous) = {}"
        using assms(2) [unfolded wreg.exclusive_def, rule_format, OF x(1)] works_get_Inr [OF g] by blast
      show ?thesis
      proof (cases "wk_slug w' = wk_slug previous")
        case True
        have "insert (wk_slug w') (set (work_aliases previous)) = set (work_aliases previous)"
          unfolding True by (simp add: work_aliases_def)
        with old show ?thesis unfolding aliases(1) by simp
      next
        case new: False
        with a x False have "requireAvailableSlug memory_work_port s w' [wk_slug w'] = Inr ()" by (simp add: wreg.rivals_def)
        from work_slug_available [OF this x] have "wk_slug w' \<notin> set (work_aliases x)" by simp
        with old show ?thesis unfolding aliases(1) by blast
      qed
    qed
  qed
qed

lemma collection_stored_exclusive:
  assumes "requireAvailableCollectionSlug memory_collection_port s c = Inr ()" "creg.exclusive s"
  shows "creg.exclusive (createCreatorCollection s c)"
proof (rule creg.store_exclusive [OF assms(2)])
  show "set (ms_creatorCollections (createCreatorCollection s c))
      \<subseteq> insert c {x \<in> set (ms_creatorCollections s). collection_key x \<noteq> collection_key c}"
    using put_row_subset [of collection_key c "ms_creatorCollections s"] by (simp add: createCreatorCollection_def)
qed (rule collection_slug_available [OF assms(1)])

lemma deleted_exclusive:
  assumes "creg.exclusive s" "co_status c = ''deleted''"
  shows "creg.exclusive (createCreatorCollection s c)"
  by (rule collection_stored_exclusive [OF _ assms(1)]) (simp add: requireAvailableCollectionSlug_def assms(2))

lemma exclusive_cong:
  "ms_works s' = ms_works s \<Longrightarrow> wreg.exclusive s' = wreg.exclusive s"
  "ms_creatorCollections s' = ms_creatorCollections s \<Longrightarrow> creg.exclusive s' = creg.exclusive s"
  by (simp_all add: wreg.exclusive_def creg.exclusive_def)

lemma collections_create_Inr:
  "collections_create memory_collection_port authorize alone s c = Inr (v, s') \<Longrightarrow>
   \<exists>c'. requireAvailableCollectionSlug memory_collection_port s c' = Inr () \<and> s' = createCreatorCollection s c'"
  by (auto simp: collections_create_def Let_def)

lemma collections_update_Inr:
  "collections_update memory_collection_port authorize alone s c st rv = Inr (v, s') \<Longrightarrow>
   \<exists>c'. requireAvailableCollectionSlug memory_collection_port s c' = Inr () \<and> s' = createCreatorCollection s c'"
  by (auto simp: collections_update_def Let_def store_result_def updateCreatorCollection_def split: if_splits option.splits)

lemma collections_remove_Inr:
  assumes "collections_remove memory_collection_port authorize alone s t i rv now = Inr s'"
  shows "\<exists>c'. co_status c' = ''deleted'' \<and> s' = createCreatorCollection s c'"
proof -
  obtain c where "s' = createCreatorCollection s (c\<lparr> co_status := ''deleted'', co_deletedAt := Some now, co_updatedAt := now \<rparr>)"
    using assms by (auto simp: collections_remove_def Let_def store_result_def updateCreatorCollection_def)
  then show ?thesis by (intro exI conjI) simp_all
qed

lemma collections_replaceWorks_Inr:
  assumes "collections_replaceWorks memory_collection_port authorize others s t i requested ex now = Inr ((c, ids), s')"
  defines "s2 \<equiv> others 1 (others 0 s)"
  shows "ids = requested_ids requested" "replaceCollectionWorks (others 2 s2) t i (ordered_members i now ids) = Inr s'"
    "collections_get memory_collection_port authorize (others 0 s) t i = Inr c" "co_status c \<noteq> ''deleted''"
    "\<And>j. j \<in> set ids \<Longrightarrow> \<exists>w. getWork s2 t j = Some w \<and> wk_creatorId w = co_creatorId c \<and> wk_status w \<noteq> ''deleted''"
  using assms(1) unfolding s2_def
  by (auto simp: collections_replaceWorks_def Let_def store_result_def list_ex_iff split: if_splits option.splits sum.splits)

lemma createWork_works: "ms_works (createWork s w) = put_row work_key w (ms_works s)"
  "ms_creatorCollections (createWork s w) = ms_creatorCollections s"
  by (simp_all add: createWork_def)

lemma createCollection_frame: "ms_works (createCreatorCollection s c) = ms_works s"
  by (simp add: createCreatorCollection_def)

lemma replaceCollectionWorks_frame:
  "replaceCollectionWorks s t i ws = Inr s' \<Longrightarrow> ms_works s' = ms_works s \<and> ms_creatorCollections s' = ms_creatorCollections s"
  by (auto simp: replaceCollectionWorks_def split: if_splits)

lemma service_step_exclusive:
  assumes "service_step s s'" "slugs_exclusive s" "distinct (map work_key (ms_works s))"
  shows "slugs_exclusive s' \<and> distinct (map work_key (ms_works s'))"
  using assms(1)
proof (cases rule: service_step.cases)
  case (work_created authorize w r)
  then have "s' = createWork s (created_work w)" by (auto simp: works_create_def Let_def)
  with work_created works_create_exclusive assms(2,3) show ?thesis
    by (auto simp: slugs_exclusive_def createWork_works exclusive_cong(2) [OF createWork_works(2)])
next
  case (work_revised authorize t i edit now r)
  from works_revise_exclusive [OF work_revised] assms(2,3) have w: "wreg.exclusive s'" by (simp add: slugs_exclusive_def)
  from works_revise_Inr [OF work_revised] obtain n where "commitWorkRevision s r n = Inr s'" by metis
  from commitWorkRevision_Inr [OF this] have "ms_works s' = replace_row work_key r (ms_works s)"
    "ms_creatorCollections s' = ms_creatorCollections s" by auto
  with w assms(2,3) show ?thesis by (simp add: slugs_exclusive_def exclusive_cong(2) [of s' s])
next
  case (collection_created authorize c v)
  from collections_create_Inr [OF this] assms(2,3) show ?thesis
    by (auto simp: slugs_exclusive_def createCollection_frame collection_stored_exclusive exclusive_cong(1) [OF createCollection_frame])
next
  case (collection_updated authorize c st rv v)
  from collections_update_Inr [OF this] assms(2,3) show ?thesis
    by (auto simp: slugs_exclusive_def createCollection_frame collection_stored_exclusive exclusive_cong(1) [OF createCollection_frame])
next
  case (collection_removed authorize t i rv now)
  from collections_remove_Inr [OF this] assms(2,3) show ?thesis
    by (auto simp: slugs_exclusive_def createCollection_frame deleted_exclusive exclusive_cong(1) [OF createCollection_frame])
next
  case (works_replaced authorize t i ids ex now v)
  obtain c ids' where v: "v = (c, ids')" by (cases v)
  from replaceCollectionWorks_frame [OF collections_replaceWorks_Inr(2) [OF works_replaced [unfolded v]]] assms(2,3)
  show ?thesis by (simp add: slugs_exclusive_def exclusive_cong [of s' s])
qed

lemma service_steps_exclusive:
  "service_step\<^sup>*\<^sup>* empty_store s \<Longrightarrow> slugs_exclusive s \<and> distinct (map work_key (ms_works s))"
proof (induction rule: rtranclp_induct)
  case base
  show ?case by (simp add: slugs_exclusive_def wreg.exclusive_def creg.exclusive_def empty_store_def)
next
  case (step s s')
  from step.IH service_step_exclusive [OF step.hyps(2)] show ?case by blast
qed

lemma revised_work_simps [simp]:
  "wk_revision (revised_work p q n) = wk_revision p + 1" "wk_slug (revised_work p q n) = wk_slug q"
  "set (wk_slugHistory (revised_work p q n)) = insert (wk_slug q) (insert (wk_slug p) (set (wk_slugHistory p)))"
  by (auto simp: revised_work_def)

lemma ordered_members_simps:
  "map cw_workId (ordered_members i now ids) = ids" "sorted (map cw_position (ordered_members i now ids))"
  "\<And>m. m \<in> set (ordered_members i now ids) \<Longrightarrow> cw_collectionId m = i"
proof -
  show "map cw_workId (ordered_members i now ids) = ids"
    by (simp add: ordered_members_def comp_def case_prod_beta)
  have "map cw_position (ordered_members i now ids) = map int [0..<length ids]"
    by (rule nth_equalityI) (simp_all add: ordered_members_def)
  then show "sorted (map cw_position (ordered_members i now ids))"
    by (simp add: sorted_map mono_on_def)
  show "\<And>m. m \<in> set (ordered_members i now ids) \<Longrightarrow> cw_collectionId m = i"
    by (auto simp: ordered_members_def)
qed

lemma listCollectionWorks_replaced:
  assumes "replaceCollectionWorks s t i (ordered_members i now ids) = Inr s'"
  shows "map cw_workId (listCollectionWorks s' t i) = ids"
proof -
  let ?ms = "ordered_members i now ids" and ?mine = "\<lambda>m. fst m = t \<and> cw_collectionId (snd m) = i"
  have g: "getCreatorCollection s t i \<noteq> None"
    and s': "s' = s\<lparr> ms_collectionWorks := filter (\<lambda>m. \<not> ?mine m) (ms_collectionWorks s) @ map (Pair t) ?ms \<rparr>"
    using assms by (auto simp: replaceCollectionWorks_def split: if_splits)
  have "filter (\<lambda>m. cw_collectionId m = i) ?ms = ?ms" by (rule filter_True) (use ordered_members_simps(3) in blast)
  then have rows: "map snd (filter ?mine (ms_collectionWorks s')) = ?ms"
    by (simp add: s' filter_map comp_def)
  have "getCreatorCollection s' t i \<noteq> None" using g by (simp add: s' getCreatorCollection_def)
  then show ?thesis
    using ordered_members_simps(1,2) [of i now ids]
    by (auto simp: listCollectionWorks_def rows sort_key_id_if_sorted split: option.split)
qed

lemma order_matches_iff:
  "order_matches t w ids assets \<longleftrightarrow> distinct ids \<and> list_all truthy ids \<and> mset ids = mset (map (\<lambda>x. ca_assetId (fst x)) assets)
     \<and> list_all (\<lambda>(a, m). ca_tenantId a = t \<and> ca_creatorId a = wk_creatorId w \<and> at_workId m = wk_workId w
         \<and> at_assetId m = ca_assetId a) assets" (is "_ \<longleftrightarrow> ?rhs")
proof
  let ?as = "map (\<lambda>x. ca_assetId (fst x)) assets"
  assume o: "order_matches t w ids assets"
  then have d: "distinct ids" "distinct ?as" "length ids = length ?as"
    using js_set_size_distinct [of ids] js_set_size_distinct [of ?as] by (auto simp: order_matches_def)
  have "set ?as \<subseteq> set ids" using o by (auto simp: order_matches_def list_all_iff)
  moreover have "card (set ids) = card (set ?as)" using d by (metis distinct_card)
  ultimately have "set ids = set ?as" by (metis card_subset_eq List.finite_set)
  then have "mset ids = mset ?as" using set_eq_iff_mset_eq_distinct [OF d(1,2)] by blast
  with o d show ?rhs by (auto simp: order_matches_def list_all_iff)
next
  let ?as = "map (\<lambda>x. ca_assetId (fst x)) assets"
  assume r: ?rhs
  then have l: "length ids = length ?as" "set ids = set ?as" by (metis mset_eq_length, metis mset_eq_setD)
  moreover from r have "distinct ?as" by (metis mset_eq_imp_distinct_iff)
  moreover have "ca_assetId a \<in> set ids" if "(a, m) \<in> set assets" for a m using that l(2) by force
  ultimately show "order_matches t w ids assets"
    using r js_set_size_distinct [of ids] js_set_size_distinct [of ?as] unfolding order_matches_def list_all_iff by auto
qed

subsection \<open>Properties\<close>

text \<open>C23: Whatever sequence of creations, revisions, restorations and removals the Work and Collection services perform on
  the reference store, no two live Works and no two live collections of one creator share a current or former slug, so
  every link ever handed out keeps at most one target.\<close>

theorem slugs_never_shared:
  assumes "service_step\<^sup>*\<^sup>* empty_store s"
  shows "(\<forall>x \<in> set (ms_works s). \<forall>y \<in> set (ms_works s).
      wk_status x \<noteq> ''deleted'' \<and> wk_status y \<noteq> ''deleted'' \<and> wk_tenantId x = wk_tenantId y \<and> wk_creatorId x = wk_creatorId y
      \<and> wk_workId x \<noteq> wk_workId y \<longrightarrow> set (work_aliases x) \<inter> set (work_aliases y) = {})
    \<and> (\<forall>x \<in> set (ms_creatorCollections s). \<forall>y \<in> set (ms_creatorCollections s).
      co_status x \<noteq> ''deleted'' \<and> co_status y \<noteq> ''deleted'' \<and> co_tenantId x = co_tenantId y \<and> co_creatorId x = co_creatorId y
      \<and> co_collectionId x \<noteq> co_collectionId y \<longrightarrow> set (collection_aliases x) \<inter> set (collection_aliases y) = {})"
  using service_steps_exclusive [OF assms]
  by (simp add: slugs_exclusive_def wreg.exclusive_def creg.exclusive_def wreg.rivals_def creg.rivals_def)

text \<open>C24: A revision loses no update: whatever other clients do between the reads and the commit, when it succeeds the
  record it replaced still had the revision the edit was based on and the same owner, the stored Work is the answer with the
  next revision, its slug history keeps every earlier slug of the edited record, and no other Work changed.\<close>

theorem revision_loses_no_update:
  assumes "works_revise memory_work_port authorize others s tenantId workId edit now = Inr (w, s')"
  shows "\<exists>base current. getWork (others 0 s) tenantId workId = Some base
      \<and> getWork (others 2 (others 1 (others 0 s))) tenantId workId = Some current
      \<and> wk_revision current = wk_revision base \<and> wk_creatorId current = wk_creatorId base
      \<and> getWork s' tenantId workId = Some w \<and> wk_revision w = wk_revision base + 1 \<and> wk_creatorId w = wk_creatorId base
      \<and> set (work_aliases base) \<subseteq> set (wk_slugHistory w)
      \<and> (\<forall>t j. (t, j) \<noteq> (tenantId, workId) \<longrightarrow> getWork s' t j = getWork (others 2 (others 1 (others 0 s))) t j)"
proof (rule works_revise_Inr [OF assms])
  let ?s = "others 2 (others 1 (others 0 s))"
  fix base
  assume g: "works_get memory_work_port authorize (others 0 s) tenantId workId = Inr base"
    and w: "w = revised_work base (edit base now) now"
    and k: "work_key w = work_key base" "wk_creatorId w = wk_creatorId base"
    and c: "commitWorkRevision ?s w (wk_revision base) = Inr s'"
  have kb: "work_key base = (tenantId, workId)" "getWork (others 0 s) tenantId workId = Some base" using works_get_Inr [OF g] by auto
  obtain current where cur: "getWork ?s tenantId workId = Some current" "wk_revision current = wk_revision base"
      "wk_creatorId current = wk_creatorId w" and s': "s' = ?s\<lparr> ms_works := replace_row work_key w (ms_works ?s) \<rparr>"
    using commitWorkRevision_Inr [OF c] k kb by auto
  have "(tenantId, workId) \<in> work_key ` set (ms_works ?s)" using cur(1) by (auto simp: getWork_def dest: find_key_Some)
  with k kb have upd: "getWork s' t j = (if (t, j) = (tenantId, workId) then Some w else getWork ?s t j)" for t j
    by (simp add: s' getWork_def find_key_replace)
  have "set (work_aliases base) \<subseteq> set (wk_slugHistory w)" by (auto simp: w work_aliases_def)
  with kb cur k upd show ?thesis by (intro exI [of _ base] exI [of _ current]) (simp add: w)
qed

text \<open>Replacing a collection's Works leaves exactly the requested Works in the requested order, each once, every one
  of them a live Work of the collection's creator when it was checked.\<close>

theorem membership_replaced_exactly:
  assumes "collections_replaceWorks memory_collection_port authorize others s tenantId collectionId requested expected now
    = Inr ((c, ids), s')"
  shows "map cw_workId (listCollectionWorks s' tenantId collectionId) = ids \<and> ids = requested_ids requested \<and> distinct ids
    \<and> (\<forall>i \<in> set ids. \<exists>w. getWork (others 1 (others 0 s)) tenantId i = Some w \<and> wk_creatorId w = co_creatorId c
        \<and> wk_status w \<noteq> ''deleted'')"
  using collections_replaceWorks_Inr [OF assms] listCollectionWorks_replaced
  by (auto simp: requested_ids_def)

text \<open>An asset order is passed to the store precisely when it is a permutation of the attached assets: every
  attached asset exactly once, nothing else, all of them in the Work's own tenant, creator and membership.\<close>

theorem asset_order_is_permutation:
  "order_matches tenantId w ids assets \<longleftrightarrow>
     distinct ids \<and> list_all truthy ids \<and> mset ids = mset (map (\<lambda>x. ca_assetId (fst x)) assets)
     \<and> list_all (\<lambda>(a, m). ca_tenantId a = tenantId \<and> ca_creatorId a = wk_creatorId w \<and> at_workId m = wk_workId w
         \<and> at_assetId m = ca_assetId a) assets"
  by (rule order_matches_iff)

subsection \<open>Witnesses\<close>

definition second_work :: work where
  "second_work = sample_work\<lparr> wk_workId := ''v'', wk_slug := ''z'' \<rparr>"

definition two_works :: memory_store where
  "two_works = empty_store\<lparr> ms_works := [created_work sample_work, created_work second_work] \<rparr>"

lemma two_works_created: "service_step\<^sup>*\<^sup>* empty_store two_works"
proof -
  let ?s1 = "empty_store\<lparr> ms_works := [created_work sample_work] \<rparr>"
  have 1: "works_create memory_work_port (\<lambda>t c. True) alone empty_store sample_work = Inr (created_work sample_work, ?s1)"
    by (simp add: works_create_def requireAccess_def requireAvailableSlug_def listWorksByCreator_def sort_desc_def
        empty_store_def require_def createWork_def put_row_def)
  have 2: "works_create memory_work_port (\<lambda>t c. True) alone ?s1 second_work = Inr (created_work second_work, two_works)"
    by (simp add: works_create_def requireAccess_def requireAvailableSlug_def listWorksByCreator_def sort_desc_def
        empty_store_def require_def createWork_def put_row_def two_works_def second_work_def sample_work_def created_work_def
        work_aliases_def)
  from service_step.work_created [OF 1] service_step.work_created [OF 2] show ?thesis by auto
qed

theorem slugs_never_shared_witness:
  "set (work_aliases (created_work sample_work)) \<inter> set (work_aliases (created_work second_work)) = {}
   \<and> set (ms_works two_works) = {created_work sample_work, created_work second_work}"
proof -
  have m: "set (ms_works two_works) = {created_work sample_work, created_work second_work}" by (simp add: two_works_def)
  have "wk_status (created_work sample_work) \<noteq> ''deleted'' \<and> wk_status (created_work second_work) \<noteq> ''deleted''
      \<and> wk_tenantId (created_work sample_work) = wk_tenantId (created_work second_work)
      \<and> wk_creatorId (created_work sample_work) = wk_creatorId (created_work second_work)
      \<and> wk_workId (created_work sample_work) \<noteq> wk_workId (created_work second_work)"
    by (simp add: created_work_def second_work_def sample_work_def)
  with slugs_never_shared [OF two_works_created] m show ?thesis by blast
qed

definition renamed_work :: work where
  "renamed_work = revised_work sample_work (sample_work\<lparr> wk_slug := ''n'' \<rparr>) ''1''"

lemma sample_revision:
  "works_revise memory_work_port (\<lambda>t c. True) alone store_with_work ''t'' ''w'' (\<lambda>w now. w\<lparr> wk_slug := ''n'' \<rparr>) ''1''
     = Inr (renamed_work, store_with_work\<lparr> ms_works := [renamed_work] \<rparr>)"
  by (simp add: Let_def works_revise_def works_get_def getWork_def find_key_def store_with_work_def createWork_def put_row_def
      empty_store_def sample_work_def requireAccess_def require_def requireAvailableSlug_def listWorksByCreator_def sort_desc_def
      renamed_work_def revised_work_def commitWorkRevision_def work_aliases_def)

theorem revision_loses_no_update_witness:
  "\<exists>base. getWork store_with_work ''t'' ''w'' = Some base \<and> wk_revision renamed_work = wk_revision base + 1
     \<and> set (work_aliases base) \<subseteq> set (wk_slugHistory renamed_work)"
  using revision_loses_no_update [OF sample_revision] by blast

definition sample_collection :: collection where
  "sample_collection = \<lparr> co_tenantId = ''t'', co_creatorId = ''c'', co_collectionId = ''k'', co_title = ''K'', co_slug = ''k'',
     co_slugHistory = [''k''], co_status = ''active'', co_updatedAt = ''0'', co_revision = None, co_coverAssetId = None,
     co_deletedAt = None \<rparr>"

definition collection_store :: memory_store where
  "collection_store = createCreatorCollection store_with_work sample_collection"

theorem membership_replaced_exactly_witness:
  "\<exists>s'. collections_replaceWorks memory_collection_port (\<lambda>t c. True) alone collection_store ''t'' ''k'' ['' w '', ''w'', '' ''] None ''5''
       = Inr ((sample_collection, [''w'']), s')
     \<and> map cw_workId (listCollectionWorks s' ''t'' ''k'') = [''w'']"
proof -
  have ids: "requested_ids ['' w '', ''w'', '' ''] = [''w'']"
    by (simp add: requested_ids_def js_trim_def js_space_def)
  have "\<exists>s'. collections_replaceWorks memory_collection_port (\<lambda>t c. True) alone collection_store ''t'' ''k'' ['' w '', ''w'', '' ''] None ''5''
       = Inr ((sample_collection, [''w'']), s')"
    unfolding collections_replaceWorks_def ids
    by (simp add: Let_def collections_get_def getCreatorCollection_def find_key_def collection_store_def createCreatorCollection_def
        put_row_def store_with_work_def createWork_def empty_store_def sample_collection_def requireAccess_def require_def
        getWork_def sample_work_def replaceCollectionWorks_def store_result_def)
  then obtain s' where r: "collections_replaceWorks memory_collection_port (\<lambda>t c. True) alone collection_store ''t'' ''k''
      ['' w '', ''w'', '' ''] None ''5'' = Inr ((sample_collection, [''w'']), s')" by blast
  show ?thesis by (rule exI [of _ s'], rule conjI [OF r conjunct1 [OF membership_replaced_exactly [OF r]]])
qed

end
