(* ===== verification/Historical_Announcements.thy ===== *)
theory Historical_Announcements
  imports JS_Text JS_Date Content_Blocks
begin

text \<open>
  Import of historical announcements: \<open>packages/core/src/historical-announcements.ts\<close>. The WHATWG \<open>URL\<close> class of the
  platform is the parameter \<open>url_api\<close>, and the retained source JSON is checked by the parameter \<open>sanitized\<close>
  (\<open>sanitizeHistoricalSourceData\<close> after \<open>JSON.parse\<close>; it is not modelled). A field the validators test for being one
  of some literals is a string, so the tests are part of the model; that an object has no keys besides its declared ones
  is given by the records. Numbers in a snapshot are whole.
\<close>

subsection \<open>Records\<close>

record source_container =
  sc_kind :: string
  sc_id :: string

record source_identity =
  si_tenantId :: string
  si_ownerId :: string
  si_provider :: string
  si_providerOrigin :: string
  si_containers :: "source_container list"
  si_remoteId :: string

record source_attribution =
  sa_authorId :: string
  sa_displayName :: string
  sa_kind :: string
  sa_originalAuthorId :: "string option"
  sa_originalAuthorName :: "string option"

record text_format =
  tf_type :: string
  tf_start :: int
  tf_end :: int
  tf_url :: "string option"
  tf_color :: "string option"

record historical_block =
  hb_kind :: string
  hb_text :: "string option"
  hb_url :: "string option"
  hb_attachmentId :: "string option"
  hb_reason :: "string option"
  hb_subtype :: "string option"
  hb_indent :: "int option"
  hb_formatting :: "text_format list option"
  hb_syntax :: "string option"

record historical_attachment =
  ha_id :: string
  ha_position :: int
  ha_kind :: string
  ha_mediaType :: string
  ha_sourceUrl :: "string option"
  ha_altText :: "string option"
  ha_mimeType :: "string option"
  ha_filename :: "string option"
  ha_bytes :: "int option"
  ha_archive :: string
  ha_managedAssetId :: "string option"
  ha_reason :: "string option"

record source_data =
  sd_format :: string
  sd_json :: string
  sd_truncated :: bool

record layout_row =
  lr_kind :: string
  lr_blockIndexes :: "int list"

record snapshot =
  sn_sourceData :: "source_data option"
  sn_blocks :: "historical_block list"
  sn_attachments :: "historical_attachment list"
  sn_layout :: "layout_row list"
  sn_links :: "string list"
  sn_tags :: "string list"

record source_post =
  sp_identity :: source_identity
  sp_connectionId :: string
  sp_sourceUrl :: "string option"
  sp_attribution :: source_attribution
  sp_postedAt :: "string option"
  sp_remoteEditedAt :: "string option"
  sp_firstImportedAt :: "string option"
  sp_lastObservedAt :: "string option"
  sp_snapshot :: snapshot
  sp_contentHash :: string
  sp_visibility :: string
  sp_scopeIds :: "string list"
  sp_restrictionReasons :: "string list"
  sp_completeness :: string
  sp_reasons :: "string list"
  sp_jobId :: string
  sp_adapterVersion :: string
  sp_normalizerVersion :: string
  sp_mapping :: string

record relationship =
  rl_type :: string
  rl_id :: string
  rl_evidence :: string

text \<open>An announcement that was imported, or a local outbound one (whose relationships and visibility are its own).\<close>

record announcement =
  an_id :: string
  an_tenantId :: string
  an_ownerId :: string
  an_origin :: string
  an_lifecycle :: string
  an_visibility :: string
  an_content :: snapshot
  an_localEditedAt :: "string option"
  an_relationships :: "relationship list"
  an_createdAt :: string
  an_updatedAt :: string

record association =
  as_sourceKey :: string
  as_tenantId :: string
  as_ownerId :: string
  as_targetType :: string
  as_targetId :: string

datatype historical_error = Invalid_identity | Invalid_origin | Invalid_url | Snapshot_unbounded | Snapshot_bounds
  | Invalid_source_data | Invalid_attachment | Invalid_block | Invalid_links | Unbounded_provenance | Invalid_observation
  | Association_scope | Not_a_publication | Invalid_association | Announcement_id_required | Evidence_required

subsection \<open>Identity\<close>

record 'u url_api =
  ua_parse :: "string \<Rightarrow> 'u option"
  ua_href :: "'u \<Rightarrow> string"
  ua_origin :: "'u \<Rightarrow> string"
  ua_protocol :: "'u \<Rightarrow> string"
  ua_username :: "'u \<Rightarrow> string"
  ua_password :: "'u \<Rightarrow> string"
  ua_hostname :: "'u \<Rightarrow> string"
  ua_pathname :: "'u \<Rightarrow> string"
  ua_search :: "'u \<Rightarrow> string"
  ua_hash :: "'u \<Rightarrow> string"
  ua_params :: "'u \<Rightarrow> (string \<times> string) list"
  ua_with_params :: "'u \<Rightarrow> (string \<times> string) list \<Rightarrow> 'u"
  ua_without_hash :: "'u \<Rightarrow> 'u"
  ua_decode :: "string \<Rightarrow> string option"

definition nonempty :: "string \<Rightarrow> bool" where
  "nonempty s \<longleftrightarrow> nonblank s \<and> length s \<le> 1000"

definition date_ok :: "string option \<Rightarrow> bool" where
  "date_ok v = (case v of None \<Rightarrow> True | Some s \<Rightarrow> date_parse s \<noteq> None)"

definition provider_origin :: "'u url_api \<Rightarrow> string \<Rightarrow> historical_error + string" where
  "provider_origin api value = (case ua_parse api value of None \<Rightarrow> Inl Invalid_url
   | Some u \<Rightarrow>
       if ua_protocol api u \<notin> set [''https:'', ''http:''] \<or> truthy (ua_username api u) \<or> truthy (ua_password api u)
          \<or> truthy (ua_search api u) \<or> truthy (ua_hash api u) \<or> ua_pathname api u \<noteq> ''/''
       then Inl Invalid_origin else Inr (ua_origin api u))"

definition container_json :: "source_container \<Rightarrow> string" where
  "container_json c = json_array [json_string (sc_kind c), json_string (sc_id c)]"

definition importedSourceKey :: "'u url_api \<Rightarrow> source_identity \<Rightarrow> historical_error + string" where
  "importedSourceKey api i =
     (if \<not> list_all nonempty [si_tenantId i, si_ownerId i, si_provider i, si_remoteId i]
         \<or> si_containers i = [] \<or> length (si_containers i) > 8
         \<or> list_ex (\<lambda>c. \<not> nonempty (sc_kind c) \<or> \<not> nonempty (sc_id c)) (si_containers i)
         \<or> length (js_set (map sc_kind (si_containers i))) \<noteq> length (si_containers i)
      then Inl Invalid_identity
      else try_then (provider_origin api (si_providerOrigin i)) (\<lambda>origin.
        Inr (json_array [json_string (si_tenantId i), json_string (si_ownerId i), json_string (si_provider i),
          json_string origin, json_array (map container_json (sort_key sc_kind (si_containers i))), json_string (si_remoteId i)])))"

subsection \<open>Public links\<close>

fun strip_amp :: "string \<Rightarrow> string" where
  "strip_amp (a # m # p # q # rest) =
     (if js_lower [a, m, p, q] = ''amp;'' then strip_amp rest else a # m # p # q # rest)"
| "strip_amp s = s"

definition one_line :: "string \<Rightarrow> bool" where
  "one_line s \<longleftrightarrow> list_all (\<lambda>c. (of_char c :: nat) \<noteq> 10 \<and> (of_char c :: nat) \<noteq> 13) s"

definition prefixed_name :: "string \<Rightarrow> string \<Rightarrow> bool" where
  "prefixed_name n p \<longleftrightarrow> starts_with n p \<and> one_line n"

definition credential_names :: "string list" where
  "credential_names = [''accesstoken'', ''access_token'', ''access-token'', ''refreshtoken'', ''refresh_token'',
     ''refresh-token'', ''token'', ''authorization'', ''auth'', ''password'', ''passwd'', ''secret'', ''clientsecret'',
     ''client_secret'', ''client-secret'', ''apikey'', ''api_key'', ''api-key'', ''key'', ''signature'', ''sig'', ''policy'',
     ''key-pair-id'', ''session'', ''sessionid'', ''session_id'', ''session-id'', ''jwt'', ''credential'', ''code'']"

definition historicalPublicQueryParameter :: "string \<Rightarrow> string \<Rightarrow> string \<Rightarrow> bool" where
  "historicalPublicQueryParameter host key value =
     (let name = strip_amp key; low = js_lower name in
      length key \<le> 200 \<and> length value \<le> 8192
      \<and> \<not> (low \<in> set credential_names \<or> prefixed_name low ''oauth'' \<or> prefixed_name low ''x-amz-'' \<or> prefixed_name low ''x-goog-'')
      \<and> \<not> ((ends_with host ''discordapp.com'' \<or> ends_with host ''discordapp.net'') \<and> name \<in> set [''ex'', ''is'', ''hm'']))"

text \<open>\<open>URLSearchParams.delete\<close> and \<open>set\<close>.\<close>

definition params_delete :: "string \<Rightarrow> (string \<times> string) list \<Rightarrow> (string \<times> string) list" where
  "params_delete k ps = filter (\<lambda>(j, v). j \<noteq> k) ps"

fun params_set :: "string \<Rightarrow> string \<Rightarrow> (string \<times> string) list \<Rightarrow> (string \<times> string) list" where
  "params_set k v [] = [(k, v)]"
| "params_set k v ((j, w) # ps) = (if j = k then (k, v) # params_delete k ps else (j, w) # params_set k v ps)"

definition http_link :: "string \<Rightarrow> bool" where
  "http_link s \<longleftrightarrow> starts_with (js_lower s) ''http://'' \<or> starts_with (js_lower s) ''https://''"

definition tel_path :: "string \<Rightarrow> bool" where
  "tel_path s = (let r = (if starts_with s ''+'' then tl s else s) in
     r \<noteq> [] \<and> list_all (\<lambda>c. is_digit c \<or> c \<in> set ''(). -'') r)"

definition secret_fragment :: "string \<Rightarrow> bool" where
  "secret_fragment s \<longleftrightarrow> list_ex (\<lambda>n. js_includes (js_lower s) (n @ ''=''))
     [''accesstoken'', ''access_token'', ''access-token'', ''refreshtoken'', ''refresh_token'', ''refresh-token'', ''token'',
      ''secret'', ''authorization'', ''password'', ''signature'', ''session'']"

text \<open>The \<open>nat\<close> is \<open>4 - depth\<close>: how many more levels of nested links are followed.\<close>

fun historicalPublicUrl :: "'u url_api \<Rightarrow> nat \<Rightarrow> string \<Rightarrow> string option" where
  "historicalPublicUrl api levels raw =
     (case ua_parse api (if starts_with raw ''//'' then ''https:'' @ raw else raw) of None \<Rightarrow> None
      | Some u0 \<Rightarrow>
          if ua_protocol api u0 \<notin> set [''http:'', ''https:'', ''mailto:'', ''tel:''] \<or> truthy (ua_username api u0)
             \<or> truthy (ua_password api u0) \<or> length (ua_href api u0) > 16384 then None
          else
            let step = (\<lambda>u (key, value).
                  if \<not> historicalPublicQueryParameter (ua_hostname api u) key value
                  then ua_with_params api u (params_delete key (ua_params api u))
                  else if http_link value
                  then (case (case levels of 0 \<Rightarrow> None | Suc n \<Rightarrow> historicalPublicUrl api n value) of
                      Some nested \<Rightarrow> if truthy nested then ua_with_params api u (params_set key nested (ua_params api u))
                        else ua_with_params api u (params_delete key (ua_params api u))
                    | None \<Rightarrow> ua_with_params api u (params_delete key (ua_params api u)))
                  else u);
                u1 = foldl step u0 (ua_params api u0)
            in if ua_protocol api u1 = ''mailto:'' \<and> (\<not> js_includes (ua_pathname api u1) ''@''
                    \<or> js_includes (js_lower (ua_href api u1)) ''%0a'' \<or> js_includes (js_lower (ua_href api u1)) ''%0d'') then None
               else if ua_protocol api u1 = ''tel:'' \<and> \<not> tel_path (ua_pathname api u1) then None
               else (case ua_decode api (ua_hash api u1) of None \<Rightarrow> None
                 | Some h \<Rightarrow> Some (ua_href api (if secret_fragment h then ua_without_hash api u1 else u1))))"

declare historicalPublicUrl.simps [simp del]

definition safeUrl :: "'u url_api \<Rightarrow> string \<Rightarrow> bool" where
  "safeUrl api value \<longleftrightarrow> historicalPublicUrl api 4 value = Some value"

definition safeMediaUrl :: "'u url_api \<Rightarrow> string \<Rightarrow> bool" where
  "safeMediaUrl api value = (case ua_parse api value of None \<Rightarrow> False
     | Some u \<Rightarrow> ua_protocol api u = ''https:'' \<and> \<not> truthy (ua_username api u) \<and> \<not> truthy (ua_password api u)
         \<and> \<not> truthy (ua_search api u) \<and> \<not> truthy (ua_hash api u))"

subsection \<open>Snapshots\<close>

text \<open>The JSON text of a snapshot, whose UTF-8 length is bounded.\<close>

fun json_text :: "json \<Rightarrow> string" where
  "json_text J_null = ''null''"
| "json_text (J_bool b) = (if b then ''true'' else ''false'')"
| "json_text (J_num x) = int_str \<lfloor>x\<rfloor>"
| "json_text (J_str s) = json_string s"
| "json_text (J_arr xs) = json_array (map json_text xs)"
| "json_text (J_obj kvs) = ''{'' @ json_items (map (\<lambda>(k, v). json_string k @ '':'' @ json_text v) kvs) @ ''}''"

abbreviation J_int :: "int \<Rightarrow> json" where "J_int n \<equiv> J_num (of_int n)"

definition opt_int :: "string \<Rightarrow> int option \<Rightarrow> (string \<times> json) list" where
  "opt_int k v = opt_field k (map_option J_int v)"

definition format_json :: "text_format \<Rightarrow> json" where
  "format_json f = J_obj ([(''type'', J_str (tf_type f)), (''start'', J_int (tf_start f)), (''end'', J_int (tf_end f))]
     @ opt_text ''url'' (tf_url f) @ opt_text ''color'' (tf_color f))"

definition historical_block_json :: "historical_block \<Rightarrow> json" where
  "historical_block_json b = J_obj ((''kind'', J_str (hb_kind b)) # opt_text ''text'' (hb_text b) @ opt_text ''url'' (hb_url b)
     @ opt_text ''attachmentId'' (hb_attachmentId b) @ opt_text ''reason'' (hb_reason b) @ opt_text ''subtype'' (hb_subtype b)
     @ opt_int ''indent'' (hb_indent b)
     @ opt_field ''formatting'' (map_option (\<lambda>fs. J_arr (map format_json fs)) (hb_formatting b)) @ opt_text ''syntax'' (hb_syntax b))"

definition historical_attachment_json :: "historical_attachment \<Rightarrow> json" where
  "historical_attachment_json a = J_obj ([(''id'', J_str (ha_id a)), (''position'', J_int (ha_position a)),
       (''kind'', J_str (ha_kind a)), (''mediaType'', J_str (ha_mediaType a))]
     @ opt_text ''sourceUrl'' (ha_sourceUrl a) @ opt_text ''altText'' (ha_altText a) @ opt_text ''mimeType'' (ha_mimeType a)
     @ opt_text ''filename'' (ha_filename a) @ opt_int ''bytes'' (ha_bytes a) @ [(''archive'', J_str (ha_archive a))]
     @ opt_text ''managedAssetId'' (ha_managedAssetId a) @ opt_text ''reason'' (ha_reason a))"

definition source_data_json :: "source_data \<Rightarrow> json" where
  "source_data_json d = J_obj [(''format'', J_str (sd_format d)), (''json'', J_str (sd_json d)), (''truncated'', J_bool (sd_truncated d))]"

definition snapshot_json :: "snapshot \<Rightarrow> json" where
  "snapshot_json s = J_obj (opt_field ''sourceData'' (map_option source_data_json (sn_sourceData s))
     @ [(''blocks'', J_arr (map historical_block_json (sn_blocks s))),
        (''attachments'', J_arr (map historical_attachment_json (sn_attachments s))),
        (''layout'', J_arr (map (\<lambda>r. J_obj [(''kind'', J_str (lr_kind r)), (''blockIndexes'', J_arr (map J_int (lr_blockIndexes r)))]) (sn_layout s))),
        (''links'', J_arr (map J_str (sn_links s))), (''tags'', J_arr (map J_str (sn_tags s)))])"

definition opt_ok :: "('a \<Rightarrow> bool) \<Rightarrow> 'a option \<Rightarrow> bool" where
  "opt_ok P v = (case v of None \<Rightarrow> True | Some x \<Rightarrow> P x)"

definition attachment_ok :: "'u url_api \<Rightarrow> string list \<Rightarrow> int list \<Rightarrow> historical_attachment \<Rightarrow> bool" where
  "attachment_ok api ids positions a \<longleftrightarrow>
     nonempty (ha_id a) \<and> ha_id a \<notin> set ids \<and> safe_int (ha_position a) \<and> 0 \<le> ha_position a \<and> ha_position a \<notin> set positions
     \<and> ha_kind a \<in> set [''source_attachment'', ''embed_preview'']
     \<and> ha_mediaType a \<in> set [''image'', ''video'', ''audio'', ''file'', ''unknown'']
     \<and> ha_archive a \<in> set [''not_requested'', ''pending'', ''archived'', ''failed'', ''excluded'']
     \<and> opt_ok (safeMediaUrl api) (ha_sourceUrl a)
     \<and> (if ha_archive a = ''archived'' then (case ha_managedAssetId a of Some m \<Rightarrow> nonempty m | None \<Rightarrow> False)
        else ha_managedAssetId a = None)
     \<and> opt_ok (\<lambda>n. safe_int n \<and> 0 \<le> n) (ha_bytes a)"

fun attachments_ok :: "'u url_api \<Rightarrow> string list \<Rightarrow> int list \<Rightarrow> historical_attachment list \<Rightarrow> bool" where
  "attachments_ok api ids positions [] = True"
| "attachments_ok api ids positions (a # as) =
     (attachment_ok api ids positions a \<and> attachments_ok api (ha_id a # ids) (ha_position a # positions) as)"

definition color_ok :: "string \<Rightarrow> bool" where
  "color_ok s \<longleftrightarrow> length s = 7 \<and> hd s = CHR ''#'' \<and> list_all (\<lambda>c. c \<in> set ''0123456789abcdef'') (js_lower (tl s))"

definition format_ok :: "'u url_api \<Rightarrow> string option \<Rightarrow> text_format \<Rightarrow> bool" where
  "format_ok api txt f \<longleftrightarrow> nonempty (tf_type f) \<and> 0 \<le> tf_start f \<and> tf_start f < tf_end f
     \<and> tf_end f \<le> int (length (case txt of Some t \<Rightarrow> t | None \<Rightarrow> []))
     \<and> opt_ok (safeUrl api) (tf_url f) \<and> opt_ok color_ok (tf_color f)"

definition block_ok :: "'u url_api \<Rightarrow> string list \<Rightarrow> historical_block \<Rightarrow> bool" where
  "block_ok api ids b \<longleftrightarrow>
     hb_kind b \<in> set [''text'', ''link'', ''attachment'', ''embed'', ''unsupported'']
     \<and> opt_ok (\<lambda>t. length t \<le> 100000) (hb_text b) \<and> opt_ok (safeUrl api) (hb_url b)
     \<and> opt_ok (\<lambda>t. length t \<le> 100) (hb_subtype b) \<and> opt_ok (\<lambda>n. 0 \<le> n \<and> n \<le> 20) (hb_indent b)
     \<and> opt_ok (\<lambda>s. s = ''discord_markdown'') (hb_syntax b)
     \<and> opt_ok (\<lambda>fs. length fs \<le> 1000 \<and> list_all (format_ok api (hb_text b)) fs) (hb_formatting b)
     \<and> opt_ok (\<lambda>a. a \<in> set ids) (hb_attachmentId b)
     \<and> (hb_kind b = ''attachment'' \<longrightarrow> truthy_opt (hb_attachmentId b))
     \<and> (hb_kind b = ''unsupported'' \<longrightarrow> (case hb_reason b of Some r \<Rightarrow> nonempty r | None \<Rightarrow> False))"

definition links_ok :: "'u url_api \<Rightarrow> snapshot \<Rightarrow> bool" where
  "links_ok api s \<longleftrightarrow> list_all (safeUrl api) (sn_links s) \<and> list_all (\<lambda>t. length t \<le> 200) (sn_tags s)
     \<and> list_all (\<lambda>r. lr_kind r \<in> set [''rows'', ''carousel''] \<and> length (lr_blockIndexes r) \<le> 100
         \<and> list_all (\<lambda>i. safe_int i \<and> 0 \<le> i \<and> i < int (length (sn_blocks s))) (lr_blockIndexes r)) (sn_layout s)"

definition source_data_ok :: "(string \<Rightarrow> bool) \<Rightarrow> source_data \<Rightarrow> bool" where
  "source_data_ok sanitized d \<longleftrightarrow> sd_format d \<in> set [''tumblr'', ''discord'', ''deviantart'']
     \<and> length (sd_json d) \<le> 1048576 \<and> sanitized (sd_json d)"

definition validateHistoricalSnapshot :: "'u url_api \<Rightarrow> (string \<Rightarrow> bool) \<Rightarrow> snapshot \<Rightarrow> historical_error + unit" where
  "validateHistoricalSnapshot api sanitized s =
     try_then (require (utf8_bytes (json_text (snapshot_json s)) \<le> 2097152) Snapshot_unbounded) (\<lambda>_.
     try_then (require (length (sn_blocks s) \<le> 100 \<and> length (sn_attachments s) \<le> 50 \<and> length (sn_links s) \<le> 100
        \<and> length (sn_tags s) \<le> 100 \<and> length (sn_layout s) \<le> 100) Snapshot_bounds) (\<lambda>_.
     try_then (require (opt_ok (source_data_ok sanitized) (sn_sourceData s)) Invalid_source_data) (\<lambda>_.
     try_then (require (attachments_ok api [] [] (sn_attachments s)) Invalid_attachment) (\<lambda>_.
     try_then (require (list_all (block_ok api (map ha_id (sn_attachments s))) (sn_blocks s)) Invalid_block) (\<lambda>_.
     require (links_ok api s) Invalid_links)))))"

definition strings_ok :: "string list \<Rightarrow> bool" where
  "strings_ok xs \<longleftrightarrow> length xs \<le> 100 \<and> list_all (\<lambda>x. length x \<le> 1000) xs"

definition validateImportedSourcePost :: "'u url_api \<Rightarrow> (string \<Rightarrow> bool) \<Rightarrow> source_post \<Rightarrow> historical_error + unit" where
  "validateImportedSourcePost api sanitized p =
     try_then (importedSourceKey api (sp_identity p)) (\<lambda>_.
     try_then (validateHistoricalSnapshot api sanitized (sp_snapshot p)) (\<lambda>_.
     let a = sp_attribution p in
     try_then (require (length (sa_displayName a) \<le> 1000 \<and> opt_ok (\<lambda>v. length v \<le> 1000) (sa_originalAuthorId a)
         \<and> opt_ok (\<lambda>v. length v \<le> 1000) (sa_originalAuthorName a)
         \<and> strings_ok (sp_scopeIds p) \<and> strings_ok (sp_restrictionReasons p) \<and> strings_ok (sp_reasons p)) Unbounded_provenance) (\<lambda>_.
     require (list_all nonempty [sp_connectionId p, sa_authorId a, sp_contentHash p, sp_jobId p, sp_adapterVersion p, sp_normalizerVersion p]
         \<and> list_all date_ok [sp_postedAt p, sp_remoteEditedAt p, sp_firstImportedAt p, sp_lastObservedAt p]
         \<and> sp_firstImportedAt p \<noteq> None \<and> sp_lastObservedAt p \<noteq> None \<and> opt_ok (safeUrl api) (sp_sourceUrl p)
         \<and> sa_kind a \<in> set [''original'', ''reblog'', ''forwarded'', ''reply'', ''system'']
         \<and> sp_visibility p \<in> set [''public'', ''restricted'', ''unknown'']
         \<and> sp_completeness p \<in> set [''full'', ''partial'', ''metadata_only'', ''unavailable'']
         \<and> sp_mapping p = ''announcement_import'') Invalid_observation)))"

subsection \<open>The import plan\<close>

datatype skip_reason = Source_excluded | Author_excluded | Source_unavailable | Metadata_selection_required | Source_restriction

datatype local_update = Unchanged | Refresh_local | Review_source_change

datatype import_decision = Skip skip_reason
  | Reconcile_publication association
  | Reconcile_announcement association local_update announcement
  | Create_announcement announcement association

record existing_announcement =
  ea_association :: association
  ea_announcement :: announcement
  ea_observedContentHash :: string

record import_input =
  ii_source :: source_post
  ii_announcementId :: string
  ii_sourceAuthorized :: bool
  ii_authorAuthorized :: bool
  ii_restrictionsRepresentable :: bool
  ii_includeAttributedMaterial :: bool
  ii_includeReplies :: bool
  ii_includeMetadataOnly :: bool
  ii_excluded :: bool
  ii_restoreExcluded :: bool
  ii_existingPublication :: "association option"
  ii_existingAnnouncement :: "existing_announcement option"
  ii_relationships :: "relationship list"

definition in_scope :: "string \<Rightarrow> source_identity \<Rightarrow> association \<Rightarrow> bool" where
  "in_scope sourceKey i a \<longleftrightarrow> as_sourceKey a = sourceKey \<and> as_tenantId a = si_tenantId i \<and> as_ownerId a = si_ownerId i
     \<and> nonempty (as_targetId a)"

definition author_skipped :: "import_input \<Rightarrow> bool" where
  "author_skipped input =
     (let kind = sa_kind (sp_attribution (ii_source input)) in
      kind = ''system'' \<or> (if kind = ''reply'' then \<not> ii_includeReplies input
        else kind \<noteq> ''original'' \<and> \<not> ii_includeAttributedMaterial input))"

definition reconcile_announcement :: "import_input \<Rightarrow> string \<Rightarrow> existing_announcement \<Rightarrow> historical_error + import_decision" where
  "reconcile_announcement input sourceKey previous =
     (let source = ii_source input; i = sp_identity source; a = ea_announcement previous; assoc = ea_association previous in
      if \<not> in_scope sourceKey i assoc then Inl Association_scope
      else if as_targetType assoc \<noteq> ''announcement'' \<or> as_targetId assoc \<noteq> an_id a \<or> an_ownerId a \<noteq> si_ownerId i
         \<or> an_tenantId a \<noteq> si_tenantId i
         \<or> (if an_origin a = ''external_import'' then an_lifecycle a \<noteq> ''historical'' \<or> an_visibility a \<noteq> ''private''
            else an_origin a \<noteq> ''local'' \<or> an_lifecycle a \<noteq> ''outbound'')
      then Inl Invalid_association
      else (let update = (if ea_observedContentHash previous = sp_contentHash source then Unchanged
              else if an_origin a = ''local'' \<or> an_localEditedAt a \<noteq> None then Review_source_change else Refresh_local)
        in Inr (Reconcile_announcement assoc update
          (if update = Refresh_local \<and> an_origin a = ''external_import''
           then a\<lparr> an_content := sp_snapshot source,
                   an_updatedAt := (case sp_lastObservedAt source of Some t \<Rightarrow> t | None \<Rightarrow> []) \<rparr>
           else a))))"

definition imported_announcement :: "import_input \<Rightarrow> announcement" where
  "imported_announcement input =
     (let source = ii_source input; i = sp_identity source in
      \<lparr> an_id = ii_announcementId input, an_tenantId = si_tenantId i, an_ownerId = si_ownerId i, an_origin = ''external_import'',
        an_lifecycle = ''historical'', an_visibility = ''private'', an_content = sp_snapshot source, an_localEditedAt = None,
        an_relationships = ii_relationships input,
        an_createdAt = (case sp_firstImportedAt source of Some t \<Rightarrow> t | None \<Rightarrow> []),
        an_updatedAt = (case sp_lastObservedAt source of Some t \<Rightarrow> t | None \<Rightarrow> []) \<rparr>)"

definition relationship_ok :: "relationship \<Rightarrow> bool" where
  "relationship_ok r \<longleftrightarrow> nonempty (rl_id r) \<and> rl_type r \<in> set [''work'', ''collection'']
     \<and> rl_evidence r \<in> set [''retained_publication'', ''canonical_url'', ''explicit_selection'']"

definition planHistoricalAnnouncementImport :: "'u url_api \<Rightarrow> (string \<Rightarrow> bool) \<Rightarrow> import_input \<Rightarrow> historical_error + import_decision" where
  "planHistoricalAnnouncementImport api sanitized input =
     (let source = ii_source input; i = sp_identity source in
      try_then (validateImportedSourcePost api sanitized source) (\<lambda>_.
      try_then (importedSourceKey api i) (\<lambda>sourceKey.
      if \<not> ii_sourceAuthorized input \<or> \<not> ii_authorAuthorized input then Inr (Skip Author_excluded)
      else if \<not> ii_restrictionsRepresentable input then Inr (Skip Source_restriction)
      else if ii_excluded input \<and> \<not> ii_restoreExcluded input then Inr (Skip Source_excluded)
      else (case ii_existingPublication input of
        Some p \<Rightarrow>
          if \<not> in_scope sourceKey i p then Inl Association_scope
          else if as_targetType p \<notin> set [''work_publication'', ''collection_publication''] then Inl Not_a_publication
          else Inr (Reconcile_publication p)
      | None \<Rightarrow>
          if sp_completeness source = ''unavailable'' then Inr (Skip Source_unavailable)
          else if sp_completeness source = ''metadata_only'' \<and> \<not> ii_includeMetadataOnly input then Inr (Skip Metadata_selection_required)
          else if author_skipped input then Inr (Skip Author_excluded)
          else (case ii_existingAnnouncement input of
            Some previous \<Rightarrow> reconcile_announcement input sourceKey previous
          | None \<Rightarrow>
              if \<not> nonempty (ii_announcementId input) then Inl Announcement_id_required
              else if length (ii_relationships input) > 100 \<or> \<not> list_all relationship_ok (ii_relationships input)
              then Inl Evidence_required
              else Inr (Create_announcement (imported_announcement input)
                \<lparr> as_sourceKey = sourceKey, as_tenantId = si_tenantId i, as_ownerId = si_ownerId i,
                  as_targetType = ''announcement'', as_targetId = ii_announcementId input \<rparr>))))))"

subsection \<open>Source keys do not collide\<close>

lemma container_append_eq: "container_json c @ x = container_json d @ y \<longleftrightarrow> c = d \<and> x = y"
proof -
  have "container_json c @ x = container_json d @ y \<longleftrightarrow> sc_kind c = sc_kind d \<and> sc_id c = sc_id d \<and> x = y"
    by (simp add: container_json_def json_array_def)
  then show ?thesis by (auto intro: source_container.equality)
qed

lemma json_items_Cons: "json_items (x # xs) = x @ (if xs = [] then [] else CHR '','' # json_items xs)"
  by (cases xs) simp_all

lemma containers_prefix:
  "xs \<noteq> [] \<Longrightarrow> ys \<noteq> [] \<Longrightarrow>
   json_items (map container_json xs) @ CHR '']'' # r = json_items (map container_json ys) @ CHR '']'' # r' \<Longrightarrow> xs = ys \<and> r = r'"
proof (induction xs arbitrary: ys)
  case (Cons x xs)
  then obtain y ys' where ys: "ys = y # ys'" by (cases ys) auto
  from Cons.prems(3) have xy: "x = y"
    and rest: "(if xs = [] then [] else CHR '','' # json_items (map container_json xs)) @ CHR '']'' # r
      = (if ys' = [] then [] else CHR '','' # json_items (map container_json ys')) @ CHR '']'' # r'"
    by (simp_all add: ys json_items_Cons container_append_eq)
  show ?case
  proof (cases "xs = []")
    case True
    with rest xy ys show ?thesis by (cases "ys' = []") simp_all
  next
    case False
    with rest have "ys' \<noteq> []" "json_items (map container_json xs) @ CHR '']'' # r = json_items (map container_json ys') @ CHR '']'' # r'"
      by (cases "ys' = []"; simp)+
    with Cons.IH [OF False] xy ys show ?thesis by simp
  qed
qed simp

lemma importedSourceKey_Inr:
  assumes "importedSourceKey api i = Inr k"
  obtains origin where "provider_origin api (si_providerOrigin i) = Inr origin" "si_containers i \<noteq> []"
    "k = json_array [json_string (si_tenantId i), json_string (si_ownerId i), json_string (si_provider i),
          json_string origin, json_array (map container_json (sort_key sc_kind (si_containers i))), json_string (si_remoteId i)]"
  using assms by (auto simp: importedSourceKey_def split: if_splits)

lemma source_key_parts:
  assumes "importedSourceKey api i = Inr k" "importedSourceKey api j = Inr k"
  shows "si_tenantId i = si_tenantId j \<and> si_ownerId i = si_ownerId j \<and> si_provider i = si_provider j
    \<and> provider_origin api (si_providerOrigin i) = provider_origin api (si_providerOrigin j)
    \<and> sort_key sc_kind (si_containers i) = sort_key sc_kind (si_containers j) \<and> si_remoteId i = si_remoteId j"
proof -
  obtain o1 where 1: "provider_origin api (si_providerOrigin i) = Inr o1" "si_containers i \<noteq> []"
    "k = json_array [json_string (si_tenantId i), json_string (si_ownerId i), json_string (si_provider i),
          json_string o1, json_array (map container_json (sort_key sc_kind (si_containers i))), json_string (si_remoteId i)]"
    by (rule importedSourceKey_Inr [OF assms(1)])
  obtain o2 where 2: "provider_origin api (si_providerOrigin j) = Inr o2" "si_containers j \<noteq> []"
    "k = json_array [json_string (si_tenantId j), json_string (si_ownerId j), json_string (si_provider j),
          json_string o2, json_array (map container_json (sort_key sc_kind (si_containers j))), json_string (si_remoteId j)]"
    by (rule importedSourceKey_Inr [OF assms(2)])
  let ?a = "sort_key sc_kind (si_containers i)" and ?b = "sort_key sc_kind (si_containers j)"
  have ne: "?a \<noteq> []" "?b \<noteq> []" using 1(2) 2(2) by (metis length_0_conv length_sort)+
  from 1(3) 2(3) have e: "si_tenantId i = si_tenantId j" "si_ownerId i = si_ownerId j" "si_provider i = si_provider j" "o1 = o2"
    and c: "json_items (map container_json ?a) @ CHR '']'' # CHR '','' # json_string (si_remoteId i) @ '']''
      = json_items (map container_json ?b) @ CHR '']'' # CHR '','' # json_string (si_remoteId j) @ '']''"
    by (simp_all add: json_array_def)
  from containers_prefix [OF ne c] e 1(1) 2(1) show ?thesis by simp
qed

subsection \<open>What the plan does\<close>

lemma plan_Inr:
  assumes "planHistoricalAnnouncementImport api sanitized input = Inr d"
  obtains k where "importedSourceKey api (sp_identity (ii_source input)) = Inr k"
    "validateImportedSourcePost api sanitized (ii_source input) = Inr ()"
  using assms by (auto simp: planHistoricalAnnouncementImport_def Let_def)

definition admitted :: "import_input \<Rightarrow> bool" where
  "admitted input \<longleftrightarrow> ii_sourceAuthorized input \<and> ii_authorAuthorized input \<and> ii_restrictionsRepresentable input
     \<and> (ii_excluded input \<longrightarrow> ii_restoreExcluded input)"

lemma plan_admitted:
  assumes "planHistoricalAnnouncementImport api sanitized input = Inr d" "\<forall>r. d \<noteq> Skip r"
  shows "admitted input"
  using assms by (auto simp: planHistoricalAnnouncementImport_def Let_def admitted_def split: if_splits)

lemma reconcile_announcement_Inr:
  assumes "reconcile_announcement input k previous = Inr d"
  obtains u where "d = Reconcile_announcement (ea_association previous) u
      (if u = Refresh_local \<and> an_origin (ea_announcement previous) = ''external_import''
       then (ea_announcement previous)\<lparr> an_content := sp_snapshot (ii_source input),
         an_updatedAt := (case sp_lastObservedAt (ii_source input) of Some t \<Rightarrow> t | None \<Rightarrow> []) \<rparr>
       else ea_announcement previous)"
    "u = Unchanged \<longleftrightarrow> ea_observedContentHash previous = sp_contentHash (ii_source input)"
    "u = Refresh_local \<Longrightarrow> an_origin (ea_announcement previous) = ''external_import'' \<and> an_localEditedAt (ea_announcement previous) = None"
  using assms by (auto simp: reconcile_announcement_def Let_def split: if_splits)

subsection \<open>Properties\<close>

text \<open>C25: The source key identifies an imported post: two valid identities have the same key only if they agree in
  tenant, owner, provider, normalized provider origin, remote id and the set of containers, in whatever order the containers
  were given; so a reconnection maps to the same record and distinct posts never share one.\<close>

theorem source_key_identifies:
  assumes "importedSourceKey api i = Inr k" and "importedSourceKey api j = Inr k"
  shows "si_tenantId i = si_tenantId j \<and> si_ownerId i = si_ownerId j \<and> si_provider i = si_provider j
    \<and> provider_origin api (si_providerOrigin i) = provider_origin api (si_providerOrigin j)
    \<and> set (si_containers i) = set (si_containers j) \<and> si_remoteId i = si_remoteId j"
proof -
  note p = source_key_parts [OF assms]
  then have "sort_key sc_kind (si_containers i) = sort_key sc_kind (si_containers j)" by blast
  then have "set (sort_key sc_kind (si_containers i)) = set (sort_key sc_kind (si_containers j))" by (rule arg_cong [of _ _ set])
  then have "set (si_containers i) = set (si_containers j)" by (simp only: set_sort)
  with p show ?thesis by blast
qed

text \<open>C26: The plan never acts beyond its authority and never overwrites the creator's own text: anything but a skip
  requires an authorized source and author, representable restrictions and no standing exclusion; what is created is a
  private historical record of the observed snapshot bound to the post's own key; and an existing announcement is changed
  only in its content, only if it was imported and never edited here, and only when the source content changed.\<close>

theorem import_plan_safe:
  assumes "planHistoricalAnnouncementImport api sanitized input = Inr d"
  shows "((\<forall>r. d \<noteq> Skip r) \<longrightarrow> admitted input)
    \<and> (\<forall>a assoc. d = Create_announcement a assoc \<longrightarrow>
        an_visibility a = ''private'' \<and> an_lifecycle a = ''historical'' \<and> an_origin a = ''external_import''
        \<and> an_content a = sp_snapshot (ii_source input) \<and> ii_existingPublication input = None
        \<and> importedSourceKey api (sp_identity (ii_source input)) = Inr (as_sourceKey assoc) \<and> as_targetId assoc = an_id a)
    \<and> (\<forall>assoc u a. d = Reconcile_announcement assoc u a \<longrightarrow> (\<exists>previous. ii_existingAnnouncement input = Some previous
        \<and> (a = ea_announcement previous \<or>
           (u = Refresh_local \<and> an_origin (ea_announcement previous) = ''external_import''
            \<and> an_localEditedAt (ea_announcement previous) = None
            \<and> ea_observedContentHash previous \<noteq> sp_contentHash (ii_source input)
            \<and> a = (ea_announcement previous)\<lparr> an_content := sp_snapshot (ii_source input), an_updatedAt := an_updatedAt a \<rparr>))))"
proof (intro conjI)
  show "(\<forall>r. d \<noteq> Skip r) \<longrightarrow> admitted input" using plan_admitted [OF assms] by blast
next
  show "\<forall>a assoc. d = Create_announcement a assoc \<longrightarrow>
        an_visibility a = ''private'' \<and> an_lifecycle a = ''historical'' \<and> an_origin a = ''external_import''
        \<and> an_content a = sp_snapshot (ii_source input) \<and> ii_existingPublication input = None
        \<and> importedSourceKey api (sp_identity (ii_source input)) = Inr (as_sourceKey assoc) \<and> as_targetId assoc = an_id a"
    using assms
    by (auto simp: planHistoricalAnnouncementImport_def Let_def imported_announcement_def reconcile_announcement_def
        split: if_splits option.splits)
next
  show "\<forall>assoc u a. d = Reconcile_announcement assoc u a \<longrightarrow> (\<exists>previous. ii_existingAnnouncement input = Some previous
        \<and> (a = ea_announcement previous \<or>
           (u = Refresh_local \<and> an_origin (ea_announcement previous) = ''external_import''
            \<and> an_localEditedAt (ea_announcement previous) = None
            \<and> ea_observedContentHash previous \<noteq> sp_contentHash (ii_source input)
            \<and> a = (ea_announcement previous)\<lparr> an_content := sp_snapshot (ii_source input), an_updatedAt := an_updatedAt a \<rparr>)))"
  proof (intro allI impI)
    fix assoc u a assume d: "d = Reconcile_announcement assoc u a"
    from assms d obtain previous k where e: "ii_existingAnnouncement input = Some previous"
      and r: "reconcile_announcement input k previous = Inr d"
      by (auto simp: planHistoricalAnnouncementImport_def Let_def split: if_splits option.splits)
    from r show "\<exists>previous. ii_existingAnnouncement input = Some previous \<and> (a = ea_announcement previous \<or>
           (u = Refresh_local \<and> an_origin (ea_announcement previous) = ''external_import''
            \<and> an_localEditedAt (ea_announcement previous) = None
            \<and> ea_observedContentHash previous \<noteq> sp_contentHash (ii_source input)
            \<and> a = (ea_announcement previous)\<lparr> an_content := sp_snapshot (ii_source input), an_updatedAt := an_updatedAt a \<rparr>))"
      by (rule reconcile_announcement_Inr) (use d e in \<open>auto split: if_splits\<close>)
  qed
qed


subsection \<open>Witnesses\<close>

text \<open>A platform whose URLs are their own text, all \<open>https\<close> without credentials, query or fragment.\<close>

definition sample_api :: "string url_api" where
  "sample_api = \<lparr> ua_parse = Some, ua_href = (\<lambda>u. u), ua_origin = (\<lambda>u. u), ua_protocol = (\<lambda>u. ''https:''), ua_username = (\<lambda>u. []),
     ua_password = (\<lambda>u. []), ua_hostname = (\<lambda>u. u), ua_pathname = (\<lambda>u. ''/''), ua_search = (\<lambda>u. []), ua_hash = (\<lambda>u. []),
     ua_params = (\<lambda>u. []), ua_with_params = (\<lambda>u ps. u), ua_without_hash = (\<lambda>u. u), ua_decode = Some \<rparr>"

definition sample_identity :: "source_container list \<Rightarrow> source_identity" where
  "sample_identity cs = \<lparr> si_tenantId = ''t'', si_ownerId = ''o'', si_provider = ''tumblr'', si_providerOrigin = ''x'',
     si_containers = cs, si_remoteId = ''9'' \<rparr>"

definition blog :: source_container where "blog = \<lparr> sc_kind = ''blog'', sc_id = ''b'' \<rparr>"
definition account :: source_container where "account = \<lparr> sc_kind = ''account'', sc_id = ''a'' \<rparr>"

definition sample_post :: source_post where
  "sample_post = \<lparr> sp_identity = sample_identity [blog], sp_connectionId = ''c'', sp_sourceUrl = None,
     sp_attribution = \<lparr> sa_authorId = ''o'', sa_displayName = ''O'', sa_kind = ''original'', sa_originalAuthorId = None, sa_originalAuthorName = None \<rparr>,
     sp_postedAt = None, sp_remoteEditedAt = None, sp_firstImportedAt = Some ''2026-01-01'', sp_lastObservedAt = Some ''2026-01-02'',
     sp_snapshot = \<lparr> sn_sourceData = None, sn_blocks = [], sn_attachments = [], sn_layout = [], sn_links = [], sn_tags = [''fox''] \<rparr>,
     sp_contentHash = ''h'', sp_visibility = ''public'', sp_scopeIds = [], sp_restrictionReasons = [], sp_completeness = ''full'',
     sp_reasons = [], sp_jobId = ''j'', sp_adapterVersion = ''1'', sp_normalizerVersion = ''1'', sp_mapping = ''announcement_import'' \<rparr>"

definition sample_input :: import_input where
  "sample_input = \<lparr> ii_source = sample_post, ii_announcementId = ''n'', ii_sourceAuthorized = True, ii_authorAuthorized = True,
     ii_restrictionsRepresentable = True, ii_includeAttributedMaterial = False, ii_includeReplies = False,
     ii_includeMetadataOnly = False, ii_excluded = False, ii_restoreExcluded = False, ii_existingPublication = None,
     ii_existingAnnouncement = None, ii_relationships = [] \<rparr>"

lemma sample_keys:
  "importedSourceKey sample_api (sample_identity [blog, account]) = importedSourceKey sample_api (sample_identity [account, blog])"
  "\<not> isl (importedSourceKey sample_api (sample_identity [blog, account]))"
  "\<not> isl (importedSourceKey sample_api (sample_identity [blog]))"
  by code_simp+

theorem source_key_identifies_witness:
  "set (si_containers (sample_identity [blog, account])) = set (si_containers (sample_identity [account, blog]))"
proof -
  obtain k where k: "importedSourceKey sample_api (sample_identity [blog, account]) = Inr k"
    using sample_keys(2) by (cases "importedSourceKey sample_api (sample_identity [blog, account])") simp_all
  with sample_keys(1) have "importedSourceKey sample_api (sample_identity [account, blog]) = Inr k" by simp
  from source_key_identifies [OF k this] show ?thesis by blast
qed

lemma import_dates: "date_parse ''2026-01-01'' \<noteq> None" "date_parse ''2026-01-02'' \<noteq> None"
  unfolding option.distinct by code_simp+

lemma length_json_char: "length (json_char c) \<le> 6"
  by (simp add: json_char_def Let_def)

lemma length_json_string: "length (json_string s) \<le> 6 * length s + 2"
proof (induction s)
  case (Cons c s)
  with length_json_char [of c] show ?case by (simp add: json_string_def)
qed (simp add: json_string_def)

lemma utf8_bytes_json_string: "utf8_bytes (json_string s) \<le> 12 * length s + 4"
proof -
  have "utf8_bytes t \<le> 2 * length t" for t by (induction t) (auto simp: utf8_bytes_def)
  from this [of "json_string s"] length_json_string [of s] show ?thesis by linarith
qed

lemma sample_size: "utf8_bytes (json_text (snapshot_json (sp_snapshot sample_post))) \<le> 2097152"
proof -
  let ?n = "\<lambda>s. utf8_bytes (json_string s)"
  have "?n ''blocks'' + (?n ''attachments'' + (?n ''layout'' + (?n ''links'' + (?n ''tags'' + ?n ''fox'')))) \<le> 2097131"
    using utf8_bytes_json_string [of "''blocks''"] utf8_bytes_json_string [of "''attachments''"]
      utf8_bytes_json_string [of "''layout''"] utf8_bytes_json_string [of "''links''"]
      utf8_bytes_json_string [of "''tags''"] utf8_bytes_json_string [of "''fox''"] by simp
  then show ?thesis
    by (simp add: sample_post_def snapshot_json_def opt_field_def json_array_def utf8_bytes_def)
qed

lemma sample_names: "list_all nonempty [''c'', ''o'', ''h'', ''j'', ''1'', ''n'']"
  by code_simp

lemma sample_snapshot: "validateHistoricalSnapshot sample_api (\<lambda>_. True) (sp_snapshot sample_post) = Inr ()"
  using sample_size by (simp add: validateHistoricalSnapshot_def) (simp add: sample_post_def opt_ok_def links_ok_def)

lemma sample_plan:
  "\<exists>assoc. planHistoricalAnnouncementImport sample_api (\<lambda>_. True) sample_input =
     Inr (Create_announcement (imported_announcement sample_input) assoc)"
proof -
  obtain k where k: "importedSourceKey sample_api (sp_identity sample_post) = Inr k"
    using sample_keys(3) by (cases "importedSourceKey sample_api (sp_identity sample_post)") (simp_all add: sample_post_def)
  have "validateImportedSourcePost sample_api (\<lambda>_. True) sample_post = Inr ()"
    using k sample_snapshot import_dates sample_names
    by (simp add: validateImportedSourcePost_def Let_def)
      (simp add: sample_post_def opt_ok_def strings_ok_def date_ok_def split: option.splits)
  with k sample_names show ?thesis
    by (simp add: planHistoricalAnnouncementImport_def Let_def sample_input_def author_skipped_def)
      (simp add: sample_post_def sample_identity_def)
qed

theorem import_plan_safe_witness:
  "admitted sample_input \<and> an_visibility (imported_announcement sample_input) = ''private''"
proof -
  obtain assoc where "planHistoricalAnnouncementImport sample_api (\<lambda>_. True) sample_input =
     Inr (Create_announcement (imported_announcement sample_input) assoc)" using sample_plan by blast
  from import_plan_safe [OF this] show ?thesis by blast
qed

end
