(* ===== verification/Commerce_Model.thy ===== *)
theory Commerce_Model
  imports JS_Text JS_Date
begin

text \<open>
  The data of the commerce package: \<open>packages/commerce/src/model.ts\<close>. Every stored record of the source extends
  \<open>RecordBase\<close>, which extends \<open>Scope\<close>; here it has its base as its first field. Amounts are integral minor units. The
  decimal notation of an amount and the calendar periods of subscriptions are at the end.
\<close>

subsection \<open>Scopes and records\<close>

datatype environment = Sandbox | Live

record scope =
  sc_deploymentId :: string
  sc_ownerId :: string
  sc_environment :: environment

record record_base =
  rb_scope :: scope
  rb_id :: string
  rb_createdAt :: string
  rb_updatedAt :: string

record customer =
  cu_base :: record_base
  cu_accountUserId :: "string option"
  cu_subjectId :: string
  cu_verifiedEmails :: "string list"
  cu_discordUserId :: "string option"
  cu_erasedAt :: "string option"

text \<open>A benefit: access to a resource, or a role in a Discord guild that goes with it.\<close>

datatype benefit = Gallery string | Download string | Package string | Discord_role string string string

datatype interval = Month | Year

record external_link =
  ex_url :: string
  ex_mappingId :: string
  ex_validatedAt :: "string option"
  ex_evidenceId :: "string option"

record offer =
  of_base :: record_base
  of_billing :: "interval option"
  of_collectionRoots :: "string list option"
  of_contentSourceRevision :: "string option"
  of_financialOfferVersionId :: "string option"
  of_commandHash :: "string option"
  of_offerId :: string
  of_version :: int
  of_slug :: string
  of_title :: string
  of_description :: string
  of_supportEmail :: string
  of_connectionId :: string
  of_merchantId :: string
  of_currency :: string
  of_amountMinor :: int
  of_benefits :: "benefit list"
  of_files :: "string list"
  of_previews :: "string list"
  of_terms :: string
  of_durationSeconds :: "int option"
  of_published :: bool
  of_external :: "external_link option"

datatype checkout_state = Co_creating | Co_pending | Co_completed | Co_failed | Co_needs_review

record ownership_discount =
  od_percent :: int
  od_collectionIds :: "string list"
  od_baseAmountMinor :: int
  od_discountMinor :: int

record checkout =
  co_base :: record_base
  co_ownershipDiscount :: "ownership_discount option"
  co_billing :: "interval option"
  co_subscriptionState :: "string option"
  co_customerId :: string
  co_offerVersionId :: string
  co_connectionId :: string
  co_merchantId :: string
  co_currency :: string
  co_amountMinor :: int
  co_reference :: string
  co_idempotencyKey :: string
  co_providerOrderId :: "string option"
  co_providerPlanId :: "string option"
  co_approvalUrl :: "string option"
  co_state :: checkout_state
  co_captureRequestId :: string
  co_reviewReason :: "string option"

datatype payment_state = Pending | Completed | Failed | Partially_refunded | Refunded | Reversed | Needs_review

record payment =
  py_base :: record_base
  py_connectionId :: string
  py_merchantId :: string
  py_providerPaymentId :: string
  py_providerOrderId :: "string option"
  py_checkoutId :: "string option"
  py_offerVersionId :: "string option"
  py_currency :: string
  py_paidMinor :: int
  py_refundedMinor :: int
  py_state :: payment_state
  py_providerUpdatedAt :: string
  py_reviewReason :: "string option"
  py_dispute :: "string option"
  py_notificationEventId :: "string option"

record refund =
  rf_base :: record_base
  rf_paymentId :: string
  rf_providerRefundId :: string
  rf_amountMinor :: int
  rf_state :: string

datatype grant_state = Active | Revoked

record purchase =
  pu_base :: record_base
  pu_paymentId :: string
  pu_offerVersionId :: string
  pu_contentOfferVersionId :: "string option"
  pu_customerId :: "string option"
  pu_buyerEmail :: "string option"
  pu_state :: grant_state
  pu_claimedAt :: "string option"

record entitlement =
  en_base :: record_base
  en_customerId :: "string option"
  en_purchaseId :: "string option"
  en_giftId :: "string option"
  en_contentRemoved :: bool
  en_source :: string
  en_reason :: "string option"
  en_benefit :: benefit
  en_startsAt :: string
  en_endsAt :: "string option"
  en_state :: grant_state
  en_assetIds :: "string list"

record claim =
  cl_base :: record_base
  cl_purchaseId :: string
  cl_email :: string
  cl_tokenHash :: string
  cl_expiresAt :: string
  cl_consumedAt :: "string option"

record email_proof =
  ep_base :: record_base
  ep_customerId :: string
  ep_email :: string
  ep_tokenHash :: string
  ep_expiresAt :: string
  ep_consumedAt :: "string option"

record email_login =
  el_base :: record_base
  el_returnPath :: "string option"
  el_subjectId :: string
  el_email :: string
  el_tokenHash :: string
  el_expiresAt :: string
  el_consumedAt :: "string option"

record customer_session =
  cs_base :: record_base
  cs_accountUserId :: "string option"
  cs_assurance :: "string option"
  cs_customerId :: string
  cs_tokenHash :: string
  cs_expiresAt :: string

record asset_source =
  as_workId :: string
  as_assetId :: string
  as_checksum :: string

datatype asset_state = Available | Unavailable | Preparing

record private_asset =
  pa_base :: record_base
  pa_source :: "asset_source option"
  pa_label :: string
  pa_contentType :: string
  pa_byteLength :: int
  pa_checksum :: string
  pa_objectId :: string
  pa_state :: asset_state
  pa_publicPreview :: bool

datatype package_state = Pk_preparing | Pk_ready | Pk_unavailable

record package_record =
  pk_base :: record_base
  pk_offerVersionId :: string
  pk_assetId :: string
  pk_state :: package_state

datatype job_kind = Gift_email | Create_order | Capture | Event | Reconcile | Claim_email | Verify_email | Login_email
  | Creator_notice | Discord | Package_job | Cleanup

datatype job_state = Jb_pending | Jb_running | Jb_done | Jb_failed

record delivery_job =
  jb_base :: record_base
  jb_kind :: job_kind
  jb_referenceId :: string
  jb_state :: job_state
  jb_attempts :: nat
  jb_dueAt :: string
  jb_leaseId :: "string option"
  jb_leaseUntil :: "string option"
  jb_lastError :: "string option"

record provider_event =
  ev_base :: record_base
  ev_connectionId :: string
  ev_eventId :: string
  ev_eventType :: string
  ev_attempts :: nat
  ev_payload :: "string option"
  ev_payloadExpiresAt :: string
  ev_state :: string
  ev_lastError :: "string option"

record audit =
  au_base :: record_base
  au_actorId :: string
  au_action :: string
  au_resourceId :: string
  au_reason :: "string option"

record rate_limit =
  rt_base :: record_base
  rt_count :: nat
  rt_windowAt :: string

record discord_guild =
  dg_base :: record_base
  dg_guildId :: string
  dg_roleIds :: "string list"
  dg_inviteUrl :: string

datatype role_status = Role_pending | Role_delivered | Role_needs_membership | Role_conflict

record discord_role =
  dr_base :: record_base
  dr_customerId :: string
  dr_discordUserId :: string
  dr_guildId :: string
  dr_roleId :: string
  dr_managed :: bool
  dr_preexisting :: bool
  dr_desired :: bool
  dr_actual :: bool
  dr_status :: role_status
  dr_lastError :: "string option"

record oauth_state =
  oa_base :: record_base
  oa_customerId :: string
  oa_creatorSubjectId :: "string option"
  oa_tokenHash :: string
  oa_expiresAt :: string
  oa_consumedAt :: "string option"

record external_mapping =
  em_base :: record_base
  em_merchantId :: string
  em_mappingId :: string
  em_offerVersionId :: string
  em_evidenceId :: string

datatype gift_state = Gf_pending | Gf_claimed | Gf_revoked

record gift =
  gf_base :: record_base
  gf_offerVersionId :: string
  gf_contentOfferVersionId :: "string option"
  gf_recipientEmail :: string
  gf_requestHash :: string
  gf_months :: "int option"
  gf_customerId :: "string option"
  gf_claimedAt :: "string option"
  gf_endsAt :: "string option"
  gf_state :: gift_state

text \<open>A thrown \<open>CommerceError\<close> is its code; the store's constraint failures and the platform's \<open>RangeError\<close> and
  \<open>TypeError\<close> are the others.\<close>

datatype commerce_error = Commerce_error string | Constraint_failed | Range_error | Type_error

subsection \<open>Amounts\<close>

definition currencyExponent :: "string \<Rightarrow> commerce_error + nat" where
  "currencyExponent currency =
     (if currency \<in> set [''JPY'', ''HUF'', ''TWD''] then Inr 0
      else if currency \<in> set [''AUD'', ''BRL'', ''CAD'', ''CHF'', ''CNY'', ''CZK'', ''DKK'', ''EUR'', ''GBP'', ''HKD'', ''ILS'',
        ''MXN'', ''MYR'', ''NOK'', ''NZD'', ''PHP'', ''PLN'', ''SEK'', ''SGD'', ''THB'', ''USD''] then Inr 2
      else Inl (Commerce_error ''unsupported_currency''))"

text \<open>\<open>split_dot\<close> is \<open>value.split('.')\<close> on a text with at most one dot; a missing fraction is empty.\<close>

definition split_dot :: "string \<Rightarrow> string \<times> string" where
  "split_dot s = (takeWhile (\<lambda>c. c \<noteq> CHR ''.'') s, tl (dropWhile (\<lambda>c. c \<noteq> CHR ''.'') s))"

definition decimal_text :: "string \<Rightarrow> bool" where
  "decimal_text s = (let (whole, fraction) = split_dot s in
     whole \<noteq> [] \<and> list_all is_digit whole
     \<and> (CHR ''.'' \<in> set s \<longrightarrow> fraction \<noteq> [] \<and> list_all is_digit fraction))"

definition pad_end :: "nat \<Rightarrow> string \<Rightarrow> string" where
  "pad_end n s = s @ replicate (n - length s) (CHR ''0'')"

definition pad_start :: "nat \<Rightarrow> string \<Rightarrow> string" where
  "pad_start n s = replicate (n - length s) (CHR ''0'') @ s"

definition amountToMinor :: "string \<Rightarrow> string \<Rightarrow> commerce_error + int" where
  "amountToMinor value currency =
     try_then (currencyExponent currency) (\<lambda>exponent.
     if \<not> decimal_text value then Inl (Commerce_error ''invalid_amount'')
     else (let (whole, fraction) = split_dot value in
       if length fraction > exponent \<and> list_ex (\<lambda>c. c \<noteq> CHR ''0'') (drop exponent fraction)
       then Inl (Commerce_error ''invalid_amount_precision'')
       else (let result = str_nat whole * 10 ^ exponent + str_nat (pad_end exponent (take exponent fraction)) in
         if int result > max_safe_int then Inl (Commerce_error ''invalid_amount'') else Inr (int result))))"

definition minorToAmount :: "int \<Rightarrow> string \<Rightarrow> commerce_error + string" where
  "minorToAmount value currency =
     (if \<not> safe_int value \<or> value < 0 then Inl (Commerce_error ''invalid_amount'')
      else try_then (currencyExponent currency) (\<lambda>exponent.
        let digits = pad_start (exponent + 1) (nat_str (nat value)); whole = length digits - exponent in
        Inr (if exponent \<noteq> 0 then take whole digits @ CHR ''.'' # drop whole digits else digits)))"

subsection \<open>Calendar periods\<close>

text \<open>\<open>Date.UTC\<close>'s \<open>MakeDay\<close> for a month index counted from January of the year, which may lie outside it.\<close>

definition month_start :: "int \<Rightarrow> int \<Rightarrow> int" where
  "month_start year month = make_day (year + month div 12) (nat (month mod 12) + 1) 1"

text \<open>Year, month index and day of the month of a day number.\<close>

definition civil :: "int \<Rightarrow> int \<times> int \<times> int" where
  "civil d = (let y = year_of_day d; doy = d - day_from_year y; m = month_of (leap_year y) doy in
     (y, int m - 1, doy - month_offset (leap_year y) m + 1))"

text \<open>\<open>subscriptionPeriodEnd\<close>: the setters move \<open>date\<close> to the first of its month and then by months or years, \<open>end\<close> to the first of
  the following month and back to the last of the month, and \<open>date\<close> to its day again. A date is its day number, the time of
  day is kept; any date outside the range of time values makes the final \<open>toISOString\<close> throw.\<close>

definition subscriptionPeriodEnd :: "string \<Rightarrow> interval \<Rightarrow> int \<Rightarrow> commerce_error + string" where
  "subscriptionPeriodEnd start interval count =
     (case date_parse start of None \<Rightarrow> Inl (Commerce_error ''invalid_subscription_period'')
      | Some t \<Rightarrow>
          let (year, month, day) = civil (t div ms_per_day);
              at = (\<lambda>d. d * ms_per_day + t mod ms_per_day);
              year' = (if interval = Year then year + count else year);
              month' = (if interval = Month then month + count else month);
              moved = month_start year' month';
              following = month_start year' (month' + 1);
              last = following - moved
          in if list_ex (\<lambda>d. time_clip (at d) = None) [month_start year month, moved, following, following - 1] then Inl Range_error
             else (case to_iso (at (moved + min day last - 1)) of None \<Rightarrow> Inl Range_error | Some s \<Rightarrow> Inr s))"


subsection \<open>Amounts read back\<close>

lemma digit_char_is_digit: "d < 10 \<Longrightarrow> is_digit (digit_char d)"
  by (simp add: is_digit_def)

lemma decimal_digits [simp]: "list_all is_digit (nat_str n)"
proof (induction n rule: nat_str.induct)
  case (1 n)
  show ?case
    by (subst nat_str.simps) (use 1 digit_char_is_digit [of n] digit_char_is_digit [of "n mod 10"] in simp)
qed

lemma str_nat_append: "str_nat (s @ t) = str_nat s * 10 ^ length t + str_nat t"
proof (induction t rule: rev_induct)
  case (snoc c t)
  then show ?case by (simp add: append_assoc [symmetric] algebra_simps del: append_assoc)
qed (simp add: str_nat_def)

lemma str_nat_zeros [simp]: "str_nat (replicate k (CHR ''0'') @ s) = str_nat s"
  by (induction k) (simp_all add: str_nat_def)

lemma is_digit_dot: "list_all is_digit s \<Longrightarrow> CHR ''.'' \<notin> set s"
  by (auto simp: list_all_iff is_digit_def)

lemma split_dot_append: "CHR ''.'' \<notin> set w \<Longrightarrow> split_dot (w @ CHR ''.'' # f) = (w, f)"
  by (induction w) (auto simp: split_dot_def)

lemma split_dot_none: "CHR ''.'' \<notin> set w \<Longrightarrow> split_dot w = (w, [])"
  by (induction w) (auto simp: split_dot_def)

lemma list_all_digit_pad: "list_all is_digit s \<Longrightarrow> list_all is_digit (pad_start n s)"
  by (auto simp: pad_start_def list_all_iff is_digit_def)

lemma length_pad_start: "length (pad_start n s) = max n (length s)"
  by (simp add: pad_start_def)

lemma currencyExponent_le: "currencyExponent c = Inr e \<Longrightarrow> e = 0 \<or> e = 2"
  by (auto simp: currencyExponent_def split: if_splits)

text \<open>C27: Amounts round-trip exactly: whatever amount minorToAmount renders in a supported currency, amountToMinor reads
  back to the same number of minor units, over the whole range of safe integers, and never fails on it.\<close>

theorem amount_round_trip:
  assumes "minorToAmount value currency = Inr txt"
  shows "amountToMinor txt currency = Inr value"
proof -
  from assms obtain e where v: "safe_int value" "0 \<le> value" and e: "currencyExponent currency = Inr e"
    and shown: "txt = (let digits = pad_start (e + 1) (nat_str (nat value)); whole = length digits - e in
        if e \<noteq> 0 then take whole digits @ CHR ''.'' # drop whole digits else digits)"
    by (auto simp: minorToAmount_def Let_def split: if_splits)
  let ?d = "pad_start (e + 1) (nat_str (nat value))"
  let ?w = "take (length ?d - e) ?d" and ?f = "drop (length ?d - e) ?d"
  have digits: "list_all is_digit ?d" by (rule list_all_digit_pad) simp
  then have wd: "list_all is_digit ?w" and fd: "list_all is_digit ?f"
    by (auto simp: list_all_iff dest: in_set_takeD in_set_dropD)
  have len: "e + 1 \<le> length ?d" by (simp add: length_pad_start)
  have val: "str_nat ?d = nat value" by (simp add: pad_start_def)
  have range: "value \<le> max_safe_int" using v(1) by (simp add: safe_int_def)
  have sum: "str_nat ?w * 10 ^ e + str_nat ?f = nat value"
  proof -
    have "str_nat (?w @ ?f) = str_nat ?w * 10 ^ length ?f + str_nat ?f" by (rule str_nat_append)
    moreover have "length ?f = e" using len by simp
    ultimately show ?thesis using val by simp
  qed
  show ?thesis
  proof (cases "e = 0")
    case True
    with shown have t: "txt = ?d" by (simp add: Let_def)
    have "split_dot ?d = (?d, [])" by (rule split_dot_none) (rule is_digit_dot [OF digits])
    moreover have "?d \<noteq> []" using len by auto
    ultimately show ?thesis using True e digits val v(2) range is_digit_dot [OF digits]
      by (simp add: amountToMinor_def decimal_text_def t pad_end_def str_nat_def [of "[]"])
  next
    case False
    with shown have t: "txt = ?w @ CHR ''.'' # ?f" by (simp add: Let_def)
    have sp: "split_dot txt = (?w, ?f)" unfolding t by (rule split_dot_append) (rule is_digit_dot [OF wd])
    have lf: "length ?f = e" using len by simp
    have ne: "?w \<noteq> []" "?f \<noteq> []" using len lf False by auto
    have "decimal_text txt" unfolding decimal_text_def sp using ne wd fd by simp
    then show ?thesis using e sp sum lf v(2) range
      by (simp add: amountToMinor_def pad_end_def)
  qed
qed

theorem amount_round_trip_witness:
  "amountToMinor ''0.07'' ''EUR'' = Inr 7"
proof -
  have "minorToAmount 7 ''EUR'' = Inr ''0.07''" by code_simp
  then show ?thesis by (rule amount_round_trip)
qed


subsection \<open>Periods end in the right month\<close>

lemma day_from_year_mono: "y \<le> z \<Longrightarrow> day_from_year y \<le> day_from_year z"
proof (induction "nat (z - y)" arbitrary: y)
  case (Suc n)
  then have "day_from_year (y + 1) \<le> day_from_year z" by (intro Suc.hyps(1)) auto
  then show ?case by (simp add: day_from_year_Suc split: if_splits)
qed simp

lemma year_of_day_unique:
  assumes "day_from_year y \<le> d" "d < day_from_year (y + 1)"
  shows "year_of_day d = y"
proof -
  note b = year_of_day_bounds [of d]
  have "\<not> year_of_day d < y" using day_from_year_mono [of "year_of_day d + 1" y] assms b by fastforce
  moreover have "\<not> y < year_of_day d" using day_from_year_mono [of "y + 1" "year_of_day d"] assms b by fastforce
  ultimately show ?thesis by simp
qed

lemma month_cases:
  assumes "(0::int) \<le> n" "n < 12"
  shows "n \<in> {0, 1, 2, 3, 4, 5, 6, 7, 8, 9, 10, 11}"
  using assms by simp presburger

definition month_begin :: "bool \<Rightarrow> int \<Rightarrow> int" where
  "month_begin leap n = month_offset leap (nat n + 1)"

definition month_end :: "bool \<Rightarrow> int \<Rightarrow> int" where
  "month_end leap n = (if n = 11 then if leap then 366 else 365 else month_offset leap (nat n + 2))"

lemma month_offset_small: "month_offset l (Suc (Suc 0)) = 31" "month_offset l (Suc (Suc (Suc 0))) = (if l then 60 else 59)"
  by (simp_all add: month_offset.simps)

lemmas month_tables = month_begin_def month_end_def month_offset_small

lemma month_begin_end:
  assumes "0 \<le> n" "n < 12"
  shows "0 \<le> month_begin leap n" "month_begin leap n + 28 \<le> month_end leap n" "month_end leap n \<le> (if leap then 366 else 365)"
  using month_cases [OF assms] by (auto simp: month_tables)

lemma month_of_within:
  assumes "0 \<le> n" "n < 12" "month_begin leap n \<le> doy" "doy < month_end leap n"
  shows "month_of leap doy = nat n + 1"
  using month_cases [OF assms(1,2), unfolded insert_iff empty_iff simp_thms]
proof (elim disjE)
qed (use assms(3,4) in \<open>cases leap; simp add: month_tables month_of_def\<close>)+

lemma month_start_eq: "month_start y m = day_from_year (y + m div 12) + month_begin (leap_year (y + m div 12)) (m mod 12)"
  by (simp add: month_start_def make_day_def month_begin_def)

lemma next_month:
  "m mod 12 = 11 \<Longrightarrow> (m + 1) div 12 = m div 12 + 1 \<and> (m + 1) mod 12 = (0::int)"
  "m mod 12 \<noteq> 11 \<Longrightarrow> (m + 1) div 12 = m div 12 \<and> (m + 1) mod 12 = m mod 12 + (1::int)"
proof -
  obtain q r where q: "m = q * 12 + r" "0 \<le> r" "r < 12" "q = m div 12" "r = m mod 12"
    using that [of "m div 12" "m mod 12"] by simp
  { assume "m mod 12 = 11"
    with q(1,5) have e: "m + 1 = (q + 1) * 12" by simp
    have "(m + 1) div 12 = q + 1" "(m + 1) mod 12 = 0" unfolding e by (rule nonzero_mult_div_cancel_right) simp_all
    then show "(m + 1) div 12 = m div 12 + 1 \<and> (m + 1) mod 12 = 0" using q(4) by simp }
  { assume "m mod 12 \<noteq> 11"
    with q(2,3,5) have r: "0 \<le> r + 1" "r + 1 < 12" by simp_all
    have e: "m + 1 = q * 12 + (r + 1)" using q(1) by simp
    have "(m + 1) div 12 = q" using r unfolding e by simp
    moreover have "(m + 1) mod 12 = r + 1" using r unfolding e by simp
    ultimately show "(m + 1) div 12 = m div 12 \<and> (m + 1) mod 12 = m mod 12 + 1" using q(4,5) by simp }
qed

lemma month_start_Suc:
  "month_start y (m + 1) = day_from_year (y + m div 12) + month_end (leap_year (y + m div 12)) (m mod 12)"
proof (cases "m mod 12 = 11")
  case True
  with next_month(1) [OF True] show ?thesis using day_from_year_Suc [of "y + m div 12"]
    by (simp add: month_start_eq month_tables add.assoc)
next
  case False
  have "nat (m mod 12 + 1) + 1 = nat (m mod 12) + 2" by simp
  with False next_month(2) [OF False] show ?thesis by (simp add: month_start_eq month_end_def month_begin_def)
qed

lemma civil_within:
  assumes "0 \<le> k" "k < month_start y (m + 1) - month_start y m"
  shows "civil (month_start y m + k) = (y + m div 12, m mod 12, k + 1)"
proof -
  let ?Y = "y + m div 12" and ?M = "m mod 12"
  let ?l = "leap_year ?Y"
  have M: "0 \<le> ?M" "?M < 12" by simp_all
  note b = month_begin_end [OF M, of ?l]
  from assms have k: "0 \<le> k" "month_begin ?l ?M + k < month_end ?l ?M" by (simp_all add: month_start_Suc) (simp add: month_start_eq)
  let ?d = "day_from_year ?Y + (month_begin ?l ?M + k)"
  have y: "year_of_day ?d = ?Y"
    by (rule year_of_day_unique) (use b k in \<open>simp_all add: day_from_year_Suc split: if_splits\<close>)
  have mo: "month_of ?l (month_begin ?l ?M + k) = nat ?M + 1"
    by (rule month_of_within) (use M k in simp_all)
  have "civil ?d = (?Y, ?M, k + 1)"
    unfolding civil_def Let_def y using mo by (simp add: month_begin_def)
  then show ?thesis by (simp add: month_start_eq add.assoc)
qed

lemma civil_day_pos: "civil d = (y, m, k) \<Longrightarrow> 1 \<le> k"
  using month_of_bounds [OF day_of_year_range [of d]] by (auto simp: civil_def Let_def)

text \<open>C28: A subscription period ends in the month it should: the end is the given number of months (or years) after the start, on
  the same day of the month or, where that month is shorter, on its last day, at the same time of day; it never overflows
  into the following month.\<close>

theorem period_end_clamped:
  assumes "subscriptionPeriodEnd start interval count = Inr s" and "date_parse start = Some t"
    and "civil (t div ms_per_day) = (y, m, d)" and "shift = (if interval = Year then 12 * count else count)"
  shows "\<exists>u. date_parse s = Some u \<and> u mod ms_per_day = t mod ms_per_day
    \<and> civil (u div ms_per_day) = (y + (m + shift) div 12, (m + shift) mod 12,
        min d (month_start y (m + shift + 1) - month_start y (m + shift)))"
proof -
  define y' where "y' = (if interval = Year then y + count else y)"
  define m' where "m' = (if interval = Month then m + count else m)"
  define len where "len = month_start y' (m' + 1) - month_start y' m'"
  define day where "day = month_start y' m' + min d len - 1"
  let ?u = "day * ms_per_day + t mod ms_per_day"
  have "to_iso ?u = Some s"
    using assms(1-3) unfolding day_def len_def y'_def m'_def
    by (auto simp: subscriptionPeriodEnd_def Let_def split: if_splits option.splits)
  then have p: "date_parse s = Some ?u" by (rule date_parse_to_iso)
  have same: "y' + m' div 12 = y + (m + shift) div 12" "m' mod 12 = (m + shift) mod 12"
    unfolding y'_def m'_def using assms(4) by (cases interval; simp)+
  have shifted: "month_start y (m + shift) = month_start y' m'" "month_start y (m + shift + 1) = month_start y' (m' + 1)"
    using same by (simp_all only: month_start_eq [of y "m + shift"] month_start_eq [of y' m'] month_start_Suc)
  have "28 \<le> len" using month_begin_end(2) [of "m' mod 12" "leap_year (y' + m' div 12)"]
    by (simp add: len_def month_start_Suc) (simp add: month_start_eq)
  then have k: "0 \<le> min d len - 1" "min d len - 1 < len" using civil_day_pos [OF assms(3)] by simp_all
  have "civil day = (y' + m' div 12, m' mod 12, min d len)"
    using civil_within [of "min d len - 1" y' m', folded len_def, OF k] by (simp add: day_def add_diff_eq)
  moreover have "?u div ms_per_day = day" "?u mod ms_per_day = t mod ms_per_day" by (simp_all add: ms_per_day_def)
  ultimately show ?thesis using p same shifted by (auto simp: len_def)
qed

theorem period_end_clamped_witness:
  "\<exists>u. date_parse ''2027-02-28T00:00:00.000Z'' = Some u \<and> civil (u div ms_per_day) = (2027, 1, 28)"
proof -
  have 1: "subscriptionPeriodEnd ''2027-01-31'' Month 1 = Inr ''2027-02-28T00:00:00.000Z''" by code_simp
  have 2: "date_parse ''2027-01-31'' = Some 1801353600000" by code_simp
  have 3: "civil (1801353600000 div ms_per_day) = (2027, 0, 31)" by code_simp
  have 4: "month_start 2027 2 - month_start 2027 1 = 28" by code_simp
  from period_end_clamped [OF 1 2 3 refl] 4 show ?thesis by auto
qed

end
