(* ===== verification/Commerce_Store.thy ===== *)
theory Commerce_Store
  imports Commerce_Model
begin

text \<open>
  Commerce transactions. \<open>CommerceTransaction\<close> of \<open>packages/commerce/src/model.ts\<close> is given the meaning its durable adapter
  \<open>adapters/local/src/commerce.ts\<close> gives it: one table per record kind, listed in id order, inserts that fail on an existing
  id or unique key, puts that may not move a record to another owner or environment. A transaction is a state transformer
  that either throws, and then nothing is kept, or answers a value. It is synchronous, so its clock does not advance.
  Triples \<open>triple P m Q\<close> speak about the transactions that commit.
\<close>

subsection \<open>Tables\<close>

type_synonym 'r tbl = "(string \<times> 'r) list"

record commerce =
  cm_customers :: "customer tbl"
  cm_offers :: "offer tbl"
  cm_checkouts :: "checkout tbl"
  cm_payments :: "payment tbl"
  cm_refunds :: "refund tbl"
  cm_purchases :: "purchase tbl"
  cm_entitlements :: "entitlement tbl"
  cm_claims :: "claim tbl"
  cm_emailProofs :: "email_proof tbl"
  cm_assets :: "private_asset tbl"
  cm_packages :: "package_record tbl"
  cm_jobs :: "delivery_job tbl"
  cm_events :: "provider_event tbl"
  cm_audits :: "audit tbl"
  cm_rates :: "rate_limit tbl"
  cm_guilds :: "discord_guild tbl"
  cm_discordRoles :: "discord_role tbl"
  cm_oauth :: "oauth_state tbl"
  cm_logins :: "email_login tbl"
  cm_sessions :: "customer_session tbl"
  cm_mappings :: "external_mapping tbl"
  cm_gifts :: "gift tbl"
  cm_uniques :: "(string \<times> string \<times> string) list"
  cm_drawn :: nat

record 'r kind =
  kd_name :: string
  kd_get :: "commerce \<Rightarrow> 'r tbl"
  kd_set :: "'r tbl \<Rightarrow> commerce \<Rightarrow> commerce"
  kd_base :: "'r \<Rightarrow> record_base"

definition customers :: "customer kind" where
  "customers = \<lparr> kd_name = ''customer'', kd_get = cm_customers, kd_set = (\<lambda>t. cm_customers_update (\<lambda>_. t)), kd_base = cu_base \<rparr>"
definition offers :: "offer kind" where
  "offers = \<lparr> kd_name = ''offer'', kd_get = cm_offers, kd_set = (\<lambda>t. cm_offers_update (\<lambda>_. t)), kd_base = of_base \<rparr>"
definition checkouts :: "checkout kind" where
  "checkouts = \<lparr> kd_name = ''checkout'', kd_get = cm_checkouts, kd_set = (\<lambda>t. cm_checkouts_update (\<lambda>_. t)), kd_base = co_base \<rparr>"
definition payments :: "payment kind" where
  "payments = \<lparr> kd_name = ''payment'', kd_get = cm_payments, kd_set = (\<lambda>t. cm_payments_update (\<lambda>_. t)), kd_base = py_base \<rparr>"
definition refunds :: "refund kind" where
  "refunds = \<lparr> kd_name = ''refund'', kd_get = cm_refunds, kd_set = (\<lambda>t. cm_refunds_update (\<lambda>_. t)), kd_base = rf_base \<rparr>"
definition purchases :: "purchase kind" where
  "purchases = \<lparr> kd_name = ''purchase'', kd_get = cm_purchases, kd_set = (\<lambda>t. cm_purchases_update (\<lambda>_. t)), kd_base = pu_base \<rparr>"
definition entitlements :: "entitlement kind" where
  "entitlements = \<lparr> kd_name = ''entitlement'', kd_get = cm_entitlements, kd_set = (\<lambda>t. cm_entitlements_update (\<lambda>_. t)), kd_base = en_base \<rparr>"
definition claims :: "claim kind" where
  "claims = \<lparr> kd_name = ''claim'', kd_get = cm_claims, kd_set = (\<lambda>t. cm_claims_update (\<lambda>_. t)), kd_base = cl_base \<rparr>"
definition emailProofs :: "email_proof kind" where
  "emailProofs = \<lparr> kd_name = ''emailProof'', kd_get = cm_emailProofs, kd_set = (\<lambda>t. cm_emailProofs_update (\<lambda>_. t)), kd_base = ep_base \<rparr>"
definition assets :: "private_asset kind" where
  "assets = \<lparr> kd_name = ''asset'', kd_get = cm_assets, kd_set = (\<lambda>t. cm_assets_update (\<lambda>_. t)), kd_base = pa_base \<rparr>"
definition packages :: "package_record kind" where
  "packages = \<lparr> kd_name = ''package'', kd_get = cm_packages, kd_set = (\<lambda>t. cm_packages_update (\<lambda>_. t)), kd_base = pk_base \<rparr>"
definition jobs :: "delivery_job kind" where
  "jobs = \<lparr> kd_name = ''job'', kd_get = cm_jobs, kd_set = (\<lambda>t. cm_jobs_update (\<lambda>_. t)), kd_base = jb_base \<rparr>"
definition events :: "provider_event kind" where
  "events = \<lparr> kd_name = ''event'', kd_get = cm_events, kd_set = (\<lambda>t. cm_events_update (\<lambda>_. t)), kd_base = ev_base \<rparr>"
definition audits :: "audit kind" where
  "audits = \<lparr> kd_name = ''audit'', kd_get = cm_audits, kd_set = (\<lambda>t. cm_audits_update (\<lambda>_. t)), kd_base = au_base \<rparr>"
definition rates :: "rate_limit kind" where
  "rates = \<lparr> kd_name = ''rate'', kd_get = cm_rates, kd_set = (\<lambda>t. cm_rates_update (\<lambda>_. t)), kd_base = rt_base \<rparr>"
definition guilds :: "discord_guild kind" where
  "guilds = \<lparr> kd_name = ''guild'', kd_get = cm_guilds, kd_set = (\<lambda>t. cm_guilds_update (\<lambda>_. t)), kd_base = dg_base \<rparr>"
definition discordRoles :: "discord_role kind" where
  "discordRoles = \<lparr> kd_name = ''discordRole'', kd_get = cm_discordRoles, kd_set = (\<lambda>t. cm_discordRoles_update (\<lambda>_. t)), kd_base = dr_base \<rparr>"
definition oauth :: "oauth_state kind" where
  "oauth = \<lparr> kd_name = ''oauth'', kd_get = cm_oauth, kd_set = (\<lambda>t. cm_oauth_update (\<lambda>_. t)), kd_base = oa_base \<rparr>"
definition logins :: "email_login kind" where
  "logins = \<lparr> kd_name = ''login'', kd_get = cm_logins, kd_set = (\<lambda>t. cm_logins_update (\<lambda>_. t)), kd_base = el_base \<rparr>"
definition sessions :: "customer_session kind" where
  "sessions = \<lparr> kd_name = ''session'', kd_get = cm_sessions, kd_set = (\<lambda>t. cm_sessions_update (\<lambda>_. t)), kd_base = cs_base \<rparr>"
definition mappings :: "external_mapping kind" where
  "mappings = \<lparr> kd_name = ''externalMapping'', kd_get = cm_mappings, kd_set = (\<lambda>t. cm_mappings_update (\<lambda>_. t)), kd_base = em_base \<rparr>"
definition gifts :: "gift kind" where
  "gifts = \<lparr> kd_name = ''gift'', kd_get = cm_gifts, kd_set = (\<lambda>t. cm_gifts_update (\<lambda>_. t)), kd_base = gf_base \<rparr>"

lemmas kind_defs = customers_def offers_def checkouts_def payments_def refunds_def purchases_def entitlements_def claims_def
  emailProofs_def assets_def packages_def jobs_def events_def audits_def rates_def guilds_def discordRoles_def oauth_def
  logins_def sessions_def mappings_def gifts_def

subsection \<open>Transactions\<close>

type_synonym 'a tx = "commerce \<Rightarrow> commerce_error + 'a \<times> commerce"

definition returnT :: "'a \<Rightarrow> 'a tx" where "returnT x s = Inr (x, s)"

definition bindT :: "'a tx \<Rightarrow> ('a \<Rightarrow> 'b tx) \<Rightarrow> 'b tx" where
  "bindT m f s = (case m s of Inl e \<Rightarrow> Inl e | Inr (x, s') \<Rightarrow> f x s')"

definition throwT :: "string \<Rightarrow> 'a tx" where "throwT code s = Inl (Commerce_error code)"

definition liftT :: "commerce_error + 'a \<Rightarrow> 'a tx" where
  "liftT r s = (case r of Inl e \<Rightarrow> Inl e | Inr x \<Rightarrow> Inr (x, s))"

fun eachT :: "('x \<Rightarrow> unit tx) \<Rightarrow> 'x list \<Rightarrow> unit tx" where
  "eachT f [] = returnT ()"
| "eachT f (x # xs) = bindT (f x) (\<lambda>_. eachT f xs)"

definition whenT :: "bool \<Rightarrow> 'a tx \<Rightarrow> unit tx" where
  "whenT c m = (if c then bindT m (\<lambda>_. returnT ()) else returnT ())"

text \<open>A transaction that throws is rolled back.\<close>

definition transaction :: "'a tx \<Rightarrow> commerce \<Rightarrow> (commerce_error + 'a) \<times> commerce" where
  "transaction m s = (case m s of Inl e \<Rightarrow> (Inl e, s) | Inr (x, s') \<Rightarrow> (Inr x, s'))"

subsection \<open>The platform and the store's operations\<close>

text \<open>
  What the service takes from the platform: the instant of the transaction, SHA-256 and the keyed HMAC as texts, fresh UUIDs
  (the state counts how many were drawn) and the id of the deployment.
\<close>

record platform =
  pf_time :: int
  pf_hash :: "string \<Rightarrow> string"
  pf_mac :: "string \<Rightarrow> string"
  pf_uuid :: "nat \<Rightarrow> string"
  pf_deployment :: string

definition now :: "platform \<Rightarrow> string" where
  "now pf = (case to_iso (pf_time pf) of Some s \<Rightarrow> s | None \<Rightarrow> [])"

definition iso_after :: "platform \<Rightarrow> int \<Rightarrow> commerce_error + string" where
  "iso_after pf ms = (case to_iso (pf_time pf + ms) of Some s \<Rightarrow> Inr s | None \<Rightarrow> Inl Range_error)"

definition fresh :: "platform \<Rightarrow> string tx" where
  "fresh pf s = Inr (pf_uuid pf (cm_drawn s), s\<lparr> cm_drawn := cm_drawn s + 1 \<rparr>)"

definition row :: "'r kind \<Rightarrow> string \<Rightarrow> commerce \<Rightarrow> 'r option" where
  "row K i s = map_of (kd_get K s) i"

definition rows :: "'r kind \<Rightarrow> commerce \<Rightarrow> 'r list" where
  "rows K s = map snd (sort_key fst (kd_get K s))"

definition getT :: "'r kind \<Rightarrow> string \<Rightarrow> 'r option tx" where
  "getT K i s = Inr (row K i s, s)"

definition listT :: "'r kind \<Rightarrow> 'r list tx" where
  "listT K s = Inr (rows K s, s)"

text \<open>Several \<open>get\<close>s of one kind at one point of the transaction.\<close>

definition lookT :: "'r kind \<Rightarrow> (string \<Rightarrow> 'r option) tx" where
  "lookT K s = Inr (\<lambda>i. row K i s, s)"

definition storable :: "platform \<Rightarrow> record_base \<Rightarrow> bool" where
  "storable pf b \<longleftrightarrow> sc_deploymentId (rb_scope b) = pf_deployment pf \<and> truthy (rb_id b) \<and> truthy (sc_ownerId (rb_scope b))"

definition insertT :: "platform \<Rightarrow> 'r kind \<Rightarrow> 'r \<Rightarrow> string list \<Rightarrow> unit tx" where
  "insertT pf K r uniques s =
     (let b = kd_base K r in
      if \<not> storable pf b then Inl (Commerce_error ''foreign_commerce_scope'')
      else if row K (rb_id b) s \<noteq> None \<or> \<not> distinct uniques
         \<or> list_ex (\<lambda>(k, u, i). k = kd_name K \<and> u \<in> set uniques) (cm_uniques s) then Inl Constraint_failed
      else Inr ((), (kd_set K (kd_get K s @ [(rb_id b, r)]) s)
        \<lparr> cm_uniques := cm_uniques s @ map (\<lambda>u. (kd_name K, u, rb_id b)) uniques \<rparr>))"

definition putT :: "platform \<Rightarrow> 'r kind \<Rightarrow> 'r \<Rightarrow> unit tx" where
  "putT pf K r s =
     (let b = kd_base K r in
      if \<not> storable pf b then Inl (Commerce_error ''foreign_commerce_scope'')
      else (case row K (rb_id b) s of
          Some prior \<Rightarrow>
            if sc_ownerId (rb_scope (kd_base K prior)) \<noteq> sc_ownerId (rb_scope b)
               \<or> sc_environment (rb_scope (kd_base K prior)) \<noteq> sc_environment (rb_scope b)
            then Inl (Commerce_error ''immutable_commerce_scope'')
            else Inr ((), kd_set K (AList.update (rb_id b) r (kd_get K s)) s)
        | None \<Rightarrow> Inr ((), kd_set K (AList.update (rb_id b) r (kd_get K s)) s)))"

definition removeT :: "'r kind \<Rightarrow> string \<Rightarrow> unit tx" where
  "removeT K i s = Inr ((), (kd_set K (filter (\<lambda>(j, r). j \<noteq> i) (kd_get K s)) s)
     \<lparr> cm_uniques := filter (\<lambda>(k, u, j). \<not> (k = kd_name K \<and> j = i)) (cm_uniques s) \<rparr>)"

subsection \<open>Triples\<close>

definition triple :: "(commerce \<Rightarrow> bool) \<Rightarrow> 'a tx \<Rightarrow> ('a \<Rightarrow> commerce \<Rightarrow> bool) \<Rightarrow> bool" where
  "triple P m Q \<longleftrightarrow> (\<forall>s x s'. P s \<longrightarrow> m s = Inr (x, s') \<longrightarrow> Q x s')"

definition maintains :: "(commerce \<Rightarrow> bool) \<Rightarrow> 'a tx \<Rightarrow> bool" where
  "maintains I m \<longleftrightarrow> triple I m (\<lambda>x. I)"

named_theorems tx_rules \<open>rules for triples and maintained predicates\<close>

lemma tripleI: "(\<And>s x s'. P s \<Longrightarrow> m s = Inr (x, s') \<Longrightarrow> Q x s') \<Longrightarrow> triple P m Q"
  by (auto simp: triple_def)

lemma tripleD: "triple P m Q \<Longrightarrow> m s = Inr (x, s') \<Longrightarrow> P s \<Longrightarrow> Q x s'"
  by (auto simp: triple_def)

lemma triple_bind: "triple P m R \<Longrightarrow> (\<And>x. triple (R x) (f x) Q) \<Longrightarrow> triple P (bindT m f) Q"
  by (fastforce simp: triple_def bindT_def split: sum.splits prod.splits)

lemma triple_return: "(\<And>s. P s \<Longrightarrow> Q x s) \<Longrightarrow> triple P (returnT x) Q"
  by (simp add: triple_def returnT_def)

lemma triple_throw: "triple P (throwT e) Q"
  by (simp add: triple_def throwT_def)

lemma triple_weaken: "triple P m Q \<Longrightarrow> (\<And>s. P' s \<Longrightarrow> P s) \<Longrightarrow> (\<And>x s. Q x s \<Longrightarrow> Q' x s) \<Longrightarrow> triple P' m Q'"
  unfolding triple_def by blast

lemma triple_get: "(\<And>s. P s \<Longrightarrow> Q (row K i s) s) \<Longrightarrow> triple P (getT K i) Q"
  by (simp add: triple_def getT_def)

lemma triple_list: "(\<And>s. P s \<Longrightarrow> Q (rows K s) s) \<Longrightarrow> triple P (listT K) Q"
  by (simp add: triple_def listT_def)

lemma triple_lift: "(\<And>s x. P s \<Longrightarrow> r = Inr x \<Longrightarrow> Q x s) \<Longrightarrow> triple P (liftT r) Q"
  by (auto simp: triple_def liftT_def split: sum.splits)

lemma triple_each: "(\<And>x. x \<in> set xs \<Longrightarrow> triple I (f x) (\<lambda>_. I)) \<Longrightarrow> triple I (eachT f xs) (\<lambda>_. I)"
  by (induction xs) (auto intro: triple_return triple_bind)

lemma triple_put:
  assumes "\<And>s. P s \<Longrightarrow> (\<forall>prior. row K (rb_id (kd_base K r)) s = Some prior \<longrightarrow> sc_ownerId (rb_scope (kd_base K prior)) = sc_ownerId (rb_scope (kd_base K r)))
      \<Longrightarrow> Q () (kd_set K (AList.update (rb_id (kd_base K r)) r (kd_get K s)) s)"
  shows "triple P (putT pf K r) Q"
  using assms by (fastforce simp: triple_def putT_def Let_def split: if_splits option.splits)

lemma triple_insert:
  assumes "\<And>s. P s \<Longrightarrow> row K (rb_id (kd_base K r)) s = None
      \<Longrightarrow> Q () ((kd_set K (kd_get K s @ [(rb_id (kd_base K r), r)]) s)\<lparr> cm_uniques := cm_uniques s @ map (\<lambda>u. (kd_name K, u, rb_id (kd_base K r))) us \<rparr>)"
  shows "triple P (insertT pf K r us) Q"
  using assms by (auto simp: triple_def insertT_def Let_def split: if_splits)

lemma maintains_bind [tx_rules]: "maintains I m \<Longrightarrow> (\<And>x. maintains I (f x)) \<Longrightarrow> maintains I (bindT m f)"
  unfolding maintains_def by (rule triple_bind)

lemma maintains_simple [tx_rules]:
  "maintains I (returnT x)" "maintains I (throwT e)" "maintains I (getT K i)" "maintains I (listT K)" "maintains I (liftT r)"
  "maintains I (lookT K)"
  unfolding maintains_def triple_def returnT_def throwT_def getT_def listT_def liftT_def lookT_def by (auto split: sum.splits)

lemma maintains_each [tx_rules]: "(\<And>x. x \<in> set xs \<Longrightarrow> maintains I (f x)) \<Longrightarrow> maintains I (eachT f xs)"
  unfolding maintains_def by (rule triple_each)

lemma maintains_when [tx_rules]: "(c \<Longrightarrow> maintains I m) \<Longrightarrow> maintains I (whenT c m)"
  by (auto simp: whenT_def intro: tx_rules)

text \<open>Tables that an operation does not write stay as they are: \<open>blind I K\<close> says that \<open>I\<close> does not look at table \<open>K\<close>.\<close>

definition blind :: "(commerce \<Rightarrow> bool) \<Rightarrow> 'r kind \<Rightarrow> bool" where
  "blind I K \<longleftrightarrow> (\<forall>t s. I (kd_set K t s) = I s) \<and> (\<forall>u s. I (s\<lparr> cm_uniques := u \<rparr>) = I s)"

lemma blind_maintains [tx_rules]:
  "blind I K \<Longrightarrow> maintains I (putT pf K r)"
  "blind I K \<Longrightarrow> maintains I (insertT pf K r us)"
  "blind I K \<Longrightarrow> maintains I (removeT K i)"
  unfolding maintains_def blind_def
  by (rule triple_put, simp) (rule triple_insert, simp, auto simp: removeT_def triple_def)

lemma maintains_fresh: "(\<And>s n. I (s\<lparr> cm_drawn := n \<rparr>) = I s) \<Longrightarrow> maintains I (fresh pf)"
  unfolding maintains_def by (auto simp: fresh_def intro!: tripleI)

lemma transaction_maintains: "maintains I m \<Longrightarrow> I s \<Longrightarrow> I (snd (transaction m s))"
  by (auto simp: maintains_def transaction_def triple_def split: sum.splits prod.splits)

text \<open>The laws of a record kind: writing its table is read back, and leaves the unique keys' table apart.\<close>

locale record_kind =
  fixes K :: "'r kind"
  assumes get_set: "kd_get K (kd_set K t s) = t"
    and get_uniques: "kd_get K (s\<lparr> cm_uniques := u \<rparr>) = kd_get K s"
begin

lemma row_put: "row K i (kd_set K (AList.update j r (kd_get K s)) s) = (if i = j then Some r else row K i s)"
  by (simp add: row_def get_set update_conv')

lemma rows_put: "set (rows K (kd_set K (AList.update j r (kd_get K s)) s)) \<subseteq> insert r (set (rows K s))"
  unfolding rows_def using set_alist_update [of j r "kd_get K s"] by (force simp: get_set)

lemma row_insert:
  "row K j s = None \<Longrightarrow> row K i ((kd_set K (kd_get K s @ [(j, r)]) s)\<lparr> cm_uniques := u \<rparr>) = (if i = j then Some r else row K i s)"
  by (auto simp: row_def get_set get_uniques map_add_def split: option.splits)

lemma rows_insert: "set (rows K ((kd_set K (kd_get K s @ [(j, r)]) s)\<lparr> cm_uniques := u \<rparr>)) = insert r (set (rows K s))"
  by (simp add: rows_def get_set get_uniques)

end

lemma set_rows: "set (rows K s) = snd ` set (kd_get K s)"
  by (simp add: rows_def)

lemma row_in_rows: "row K i s = Some r \<Longrightarrow> r \<in> set (rows K s)"
  unfolding row_def set_rows by (force dest: map_of_SomeD)

end
