(* ===== verification/Commerce_Service.thy ===== *)
theory Commerce_Service
  imports Commerce_Store JS_Json
begin

text \<open>
  \<open>CommerceService\<close> of \<open>packages/commerce/src/service.ts\<close>: the body of every store transaction modelled is one definition, in
  the order of the source. What the code does between transactions (authorization, eligibility, the payment provider, mail)
  happens outside the store; its results are arguments here, so any interleaving of the transactions is a run of the model.
\<close>

subsection \<open>Keys and helpers\<close>

definition environment_name :: "environment \<Rightarrow> string" where
  "environment_name v = (case v of Sandbox \<Rightarrow> ''sandbox'' | Live \<Rightarrow> ''live'')"

definition json_opt :: "string option \<Rightarrow> string" where
  "json_opt v = (case v of None \<Rightarrow> ''null'' | Some s \<Rightarrow> json_string s)"

definition json_field :: "string \<Rightarrow> string \<Rightarrow> string" where
  "json_field k v = json_string k @ CHR '':'' # json_string v"

definition benefit_json :: "benefit \<Rightarrow> string" where
  "benefit_json b = CHR ''{'' # json_items (case b of
       Gallery r \<Rightarrow> [json_field ''type'' ''gallery'', json_field ''resourceId'' r]
     | Download r \<Rightarrow> [json_field ''type'' ''download'', json_field ''resourceId'' r]
     | Package r \<Rightarrow> [json_field ''type'' ''package'', json_field ''resourceId'' r]
     | Discord_role r g l \<Rightarrow> [json_field ''type'' ''discord_role'', json_field ''resourceId'' r,
         json_field ''guildId'' g, json_field ''roleId'' l]) @ ''}''"

text \<open>\<open>key(...values)\<close>, on the rendered values.\<close>

definition key :: "platform \<Rightarrow> string list \<Rightarrow> string" where
  "key pf values = pf_hash pf (json_array values)"

definition scope_parts :: "scope \<Rightarrow> string list" where
  "scope_parts sc = [json_string (sc_deploymentId sc), json_string (sc_ownerId sc), json_string (environment_name (sc_environment sc))]"

definition space_or_at :: "char \<Rightarrow> bool" where
  "space_or_at c \<longleftrightarrow> js_space c \<or> c = CHR ''@''"

definition email_shape :: "string \<Rightarrow> bool" where
  "email_shape v = (let local = takeWhile (\<lambda>c. \<not> space_or_at c) v; domain = drop (length local + 1) v in
     local \<noteq> [] \<and> length local < length v \<and> v ! length local = CHR ''@''
     \<and> list_all (\<lambda>c. \<not> space_or_at c) domain
     \<and> list_ex (\<lambda>i. domain ! i = CHR ''.'') [1 ..< length domain - 1])"

definition email :: "string \<Rightarrow> commerce_error + string" where
  "email v = (if length v > 254 \<or> \<not> email_shape v then Inl (Commerce_error ''invalid_email'') else Inr (js_lower (js_trim v)))"

definition same :: "record_base \<Rightarrow> scope \<Rightarrow> bool" where
  "same b sc \<longleftrightarrow> rb_scope b = sc"

definition is_active :: "platform \<Rightarrow> entitlement \<Rightarrow> bool" where
  "is_active pf g \<longleftrightarrow> en_state g = Active \<and> en_startsAt g \<le> now pf
     \<and> (\<not> truthy_opt (en_endsAt g) \<or> the (en_endsAt g) > now pf)"

definition is_gallery :: "benefit \<Rightarrow> bool" where "is_gallery b = (case b of Gallery _ \<Rightarrow> True | _ \<Rightarrow> False)"
definition is_download :: "benefit \<Rightarrow> bool" where "is_download b = (case b of Download _ \<Rightarrow> True | _ \<Rightarrow> False)"
definition is_package :: "benefit \<Rightarrow> bool" where "is_package b = (case b of Package _ \<Rightarrow> True | _ \<Rightarrow> False)"
definition is_role :: "benefit \<Rightarrow> bool" where "is_role b = (case b of Discord_role _ _ _ \<Rightarrow> True | _ \<Rightarrow> False)"

definition resource_id :: "benefit \<Rightarrow> string" where
  "resource_id b = (case b of Gallery r \<Rightarrow> r | Download r \<Rightarrow> r | Package r \<Rightarrow> r | Discord_role r _ _ \<Rightarrow> r)"

definition base :: "platform \<Rightarrow> scope \<Rightarrow> string \<Rightarrow> record_base" where
  "base pf sc i = \<lparr> rb_scope = sc, rb_id = i, rb_createdAt = now pf, rb_updatedAt = now pf \<rparr>"

definition own_scope :: "platform \<Rightarrow> string \<Rightarrow> environment \<Rightarrow> scope" where
  "own_scope pf owner v = \<lparr> sc_deploymentId = pf_deployment pf, sc_ownerId = owner, sc_environment = v \<rparr>"

text \<open>\<open>scope(ownerId, environment)\<close>.\<close>

definition scopeT :: "platform \<Rightarrow> string \<Rightarrow> environment \<Rightarrow> scope tx" where
  "scopeT pf owner v = (if \<not> truthy owner then throwT ''invalid_scope'' else returnT (own_scope pf owner v))"

definition auditT :: "platform \<Rightarrow> scope \<Rightarrow> string \<Rightarrow> string \<Rightarrow> string \<Rightarrow> string option \<Rightarrow> unit tx" where
  "auditT pf sc actorId action resourceId reason =
     bindT (fresh pf) (\<lambda>i. insertT pf audits \<lparr> au_base = base pf sc i, au_actorId = actorId, au_action = action,
       au_resourceId = resourceId, au_reason = (if truthy_opt reason then map_option (take 1000) reason else None) \<rparr> [])"

definition job_kind_name :: "job_kind \<Rightarrow> string" where
  "job_kind_name k = (case k of Gift_email \<Rightarrow> ''gift_email'' | Create_order \<Rightarrow> ''create_order'' | Capture \<Rightarrow> ''capture''
     | Event \<Rightarrow> ''event'' | Reconcile \<Rightarrow> ''reconcile'' | Claim_email \<Rightarrow> ''claim_email'' | Verify_email \<Rightarrow> ''verify_email''
     | Login_email \<Rightarrow> ''login_email'' | Creator_notice \<Rightarrow> ''creator_notice'' | Discord \<Rightarrow> ''discord''
     | Package_job \<Rightarrow> ''package'' | Cleanup \<Rightarrow> ''cleanup'')"

definition new_job :: "platform \<Rightarrow> scope \<Rightarrow> string \<Rightarrow> job_kind \<Rightarrow> string \<Rightarrow> delivery_job" where
  "new_job pf sc i kind referenceId = \<lparr> jb_base = base pf sc i, jb_kind = kind, jb_referenceId = referenceId,
     jb_state = Jb_pending, jb_attempts = 0, jb_dueAt = now pf, jb_leaseId = None, jb_leaseUntil = None, jb_lastError = None \<rparr>"

definition queueT :: "platform \<Rightarrow> scope \<Rightarrow> job_kind \<Rightarrow> string \<Rightarrow> string option \<Rightarrow> bool tx" where
  "queueT pf sc kind referenceId dedup =
     bindT (listT entitlements) (\<lambda>grants. bindT (listT discordRoles) (\<lambda>roles.
     if kind = Discord
        \<and> \<not> list_ex (\<lambda>g. en_customerId g = Some referenceId \<and> same (en_base g) sc \<and> is_role (en_benefit g)) grants
        \<and> \<not> list_ex (\<lambda>r. dr_customerId r = referenceId \<and> same (dr_base r) sc) roles
     then returnT False
     else bindT (case dedup of
            Some d \<Rightarrow> if truthy d then returnT (key pf (json_string ''job'' # scope_parts sc @ [json_string (job_kind_name kind), json_string d]))
              else fresh pf
          | None \<Rightarrow> fresh pf) (\<lambda>i.
       bindT (getT jobs i) (\<lambda>prior. case prior of
         Some j \<Rightarrow>
           if kind = Capture \<and> jb_state j \<in> {Jb_pending, Jb_failed}
           then bindT (putT pf jobs (j\<lparr> jb_state := Jb_pending, jb_dueAt := now pf, jb_lastError := None \<rparr>)) (\<lambda>_. returnT False)
           else returnT False
       | None \<Rightarrow> bindT (insertT pf jobs (new_job pf sc i kind referenceId) []) (\<lambda>_. returnT True)))))"

text \<open>\<open>Date.parse(x) > ms\<close>, false for \<open>NaN\<close>.\<close>

definition parsed_gt :: "string \<Rightarrow> int \<Rightarrow> bool" where
  "parsed_gt x ms = (case date_parse x of None \<Rightarrow> False | Some t \<Rightarrow> t > ms)"

definition parsed_lt :: "string \<Rightarrow> int \<Rightarrow> bool" where
  "parsed_lt x ms = (case date_parse x of None \<Rightarrow> False | Some t \<Rightarrow> t < ms)"

definition rateT :: "platform \<Rightarrow> string \<Rightarrow> string \<Rightarrow> nat \<Rightarrow> int \<Rightarrow> bool tx" where
  "rateT pf subject action limit seconds =
     (let i = key pf [json_string ''rate'', json_string action, json_string subject] in
      bindT (getT rates i) (\<lambda>prior.
      let windowAt = (case prior of Some p \<Rightarrow> if parsed_gt (rt_windowAt p) (pf_time pf - seconds * 1000) then rt_windowAt p else now pf
            | None \<Rightarrow> now pf);
          count = (case prior of Some p \<Rightarrow> if windowAt = rt_windowAt p then rt_count p + 1 else 1 | None \<Rightarrow> 1)
      in bindT (putT pf rates \<lparr> rt_base = base pf (own_scope pf ''system'' Live) i, rt_count = count, rt_windowAt = windowAt \<rparr>) (\<lambda>_.
         returnT (count \<le> limit))))"

text \<open>\<open>rateLimit\<close> throws in a transaction of its own, after the count was committed.\<close>

definition rateLimit :: "platform \<Rightarrow> string \<Rightarrow> string \<Rightarrow> nat \<Rightarrow> int \<Rightarrow> commerce \<Rightarrow> (commerce_error + unit) \<times> commerce" where
  "rateLimit pf subject action limit seconds s =
     (case transaction (rateT pf subject action limit seconds) s of
        (Inl e, s') \<Rightarrow> (Inl e, s')
      | (Inr ok, s') \<Rightarrow> (if ok then Inr () else Inl (Commerce_error ''rate_limited''), s'))"

definition operationalIssueT :: "platform \<Rightarrow> scope \<Rightarrow> string \<Rightarrow> string \<Rightarrow> unit tx" where
  "operationalIssueT pf sc code correlationId =
     bindT (rateT pf (key pf [json_string (sc_ownerId sc), json_string (environment_name (sc_environment sc)), json_string code])
         ''operational_alert'' 1 900) (\<lambda>ok.
     whenT ok (bindT (auditT pf sc ''system'' (''operations.'' @ code) correlationId (Some code)) (\<lambda>_.
       queueT pf sc Creator_notice correlationId
         (Some (key pf [json_string ''operational-alert'', json_string (sc_ownerId sc), int_str (pf_time pf div 86400000)])))))"

text \<open>\<open>token(purpose, id)\<close>.\<close>

definition token_for :: "platform \<Rightarrow> string \<Rightarrow> string \<Rightarrow> string" where
  "token_for pf purpose i = pf_mac pf (json_array [json_string (pf_deployment pf), json_string purpose, json_string i])"

subsection \<open>Customers\<close>

definition customer_key :: "platform \<Rightarrow> string \<Rightarrow> string" where
  "customer_key pf subjectId = key pf [json_string ''customer'', json_string subjectId]"

definition customerT :: "platform \<Rightarrow> string \<Rightarrow> customer tx" where
  "customerT pf subjectId =
     (if \<not> truthy subjectId then throwT ''authentication_required''
      else (let i = customer_key pf subjectId in
        bindT (getT customers i) (\<lambda>existing. case existing of
          Some c \<Rightarrow> if truthy_opt (cu_erasedAt c) then throwT ''customer_erased'' else returnT c
        | None \<Rightarrow>
            bindT (scopeT pf i Live) (\<lambda>sc.
            let c = \<lparr> cu_base = base pf sc i, cu_accountUserId = None, cu_subjectId = subjectId, cu_verifiedEmails = [],
                      cu_discordUserId = None, cu_erasedAt = None \<rparr>
            in bindT (insertT pf customers c [key pf [json_string ''customer-subject'', json_string subjectId]]) (\<lambda>_. returnT c)))))"

definition cu_id :: "customer \<Rightarrow> string" where "cu_id c = rb_id (cu_base c)"

definition distinct_scopes :: "scope list \<Rightarrow> scope list" where
  "distinct_scopes scs = js_set scs"

definition eraseCustomerT :: "platform \<Rightarrow> string \<Rightarrow> unit tx" where
  "eraseCustomerT pf subjectId =
     bindT (customerT pf subjectId) (\<lambda>customer. bindT (listT checkouts) (\<lambda>orders.
     if list_ex (\<lambda>x. co_customerId x = cu_id customer \<and> co_billing x \<noteq> None
          \<and> (case co_subscriptionState x of Some v \<Rightarrow> v | None \<Rightarrow> '''') \<notin> {''CANCELLED'', ''EXPIRED''} \<and> co_state x \<noteq> Co_failed) orders
     then throwT ''cancel_subscriptions_before_erasure''
     else bindT (putT pf customers (customer\<lparr> cu_erasedAt := Some (now pf), cu_subjectId := ''erased'', cu_verifiedEmails := [],
            cu_discordUserId := None \<rparr>)) (\<lambda>_.
     bindT (listT entitlements) (\<lambda>all. let grants = filter (\<lambda>g. en_customerId g = Some (cu_id customer)) all in
     bindT (eachT (\<lambda>g. putT pf entitlements (g\<lparr> en_state := Revoked \<rparr>)) grants) (\<lambda>_.
     bindT (listT purchases) (\<lambda>owned.
     bindT (eachT (\<lambda>p. bindT (putT pf purchases (p\<lparr> pu_buyerEmail := None \<rparr>)) (\<lambda>_.
              bindT (listT claims) (\<lambda>cs. eachT (\<lambda>c. removeT claims (rb_id (cl_base c)))
                (filter (\<lambda>c. cl_purchaseId c = rb_id (pu_base p)) cs))))
            (filter (\<lambda>p. pu_customerId p = Some (cu_id customer)) owned)) (\<lambda>_.
     bindT (listT gifts) (\<lambda>gs. bindT (eachT (\<lambda>g. putT pf gifts (g\<lparr> gf_recipientEmail := ''erased'' \<rparr>))
            (filter (\<lambda>g. gf_customerId g = Some (cu_id customer)) gs)) (\<lambda>_.
     bindT (listT emailProofs) (\<lambda>ps. bindT (eachT (\<lambda>p. removeT emailProofs (rb_id (ep_base p)))
            (filter (\<lambda>p. ep_customerId p = cu_id customer) ps)) (\<lambda>_.
     bindT (listT oauth) (\<lambda>os. bindT (eachT (\<lambda>x. removeT oauth (rb_id (oa_base x)))
            (filter (\<lambda>x. oa_customerId x = cu_id customer) os)) (\<lambda>_.
     bindT (listT sessions) (\<lambda>ss. bindT (eachT (\<lambda>x. removeT sessions (rb_id (cs_base x)))
            (filter (\<lambda>x. cs_customerId x = cu_id customer) ss)) (\<lambda>_.
     bindT (listT logins) (\<lambda>ls. bindT (eachT (\<lambda>l. removeT logins (rb_id (el_base l)))
            (filter (\<lambda>l. el_subjectId l = cu_subjectId customer) ls)) (\<lambda>_.
     eachT (\<lambda>sc. bindT (queueT pf sc Discord (cu_id customer) None) (\<lambda>_.
        auditT pf sc ''customer'' ''customer.erase'' (cu_id customer) (Some ''Financial records retained under configured policy'')))
       (distinct_scopes (map (\<lambda>g. rb_scope (en_base g)) grants)))))))))))))))))))"


subsection \<open>Sign-in and sessions\<close>

definition proof_open :: "platform \<Rightarrow> string \<Rightarrow> string option \<Rightarrow> string \<Rightarrow> string \<Rightarrow> bool" where
  "proof_open pf expiresAt consumedAt tokenHash token \<longleftrightarrow>
     \<not> truthy_opt consumedAt \<and> \<not> expiresAt \<le> now pf \<and> tokenHash = pf_hash pf token"

text \<open>The transaction of \<open>beginEmailLogin\<close>, for a normalized address and a checked return path.\<close>

definition beginEmailLoginT :: "platform \<Rightarrow> string \<Rightarrow> string option \<Rightarrow> unit tx" where
  "beginEmailLoginT pf normalized returnPath =
     bindT (listT customers) (\<lambda>all.
     let matches = filter (\<lambda>c. \<not> truthy_opt (cu_erasedAt c) \<and> normalized \<in> set (cu_verifiedEmails c)) all in
     if length matches > 1 then returnT ()
     else bindT (fresh pf) (\<lambda>i.
       bindT (case matches of c # _ \<Rightarrow> returnT (cu_subjectId c) | [] \<Rightarrow> bindT (fresh pf) (\<lambda>u. returnT (''customer-'' @ u))) (\<lambda>subjectId.
       bindT (liftT (iso_after pf 900000)) (\<lambda>expiresAt.
       bindT (insertT pf logins \<lparr> el_base = base pf (own_scope pf ''customer-auth'' Live) i, el_returnPath = returnPath,
          el_subjectId = subjectId, el_email = normalized, el_tokenHash = pf_hash pf (token_for pf ''login'' i),
          el_expiresAt = expiresAt, el_consumedAt = None \<rparr> []) (\<lambda>_.
       bindT (queueT pf (own_scope pf ''customer-auth'' Live) Login_email i None) (\<lambda>_. returnT ()))))))"

definition createSessionT :: "platform \<Rightarrow> customer \<Rightarrow> string \<Rightarrow> (string \<times> string) tx" where
  "createSessionT pf customer assurance =
     bindT (fresh pf) (\<lambda>sessionId.
     let secret = token_for pf ''session'' sessionId in
     bindT (liftT (iso_after pf 86400000)) (\<lambda>expiresAt.
     bindT (scopeT pf (cu_id customer) Live) (\<lambda>sc.
     bindT (insertT pf sessions \<lparr> cs_base = base pf sc sessionId,
        cs_accountUserId = (if truthy_opt (cu_accountUserId customer) then cu_accountUserId customer else None),
        cs_assurance = (if truthy_opt (cu_accountUserId customer) then Some assurance else None),
        cs_customerId = cu_id customer, cs_tokenHash = pf_hash pf secret, cs_expiresAt = expiresAt \<rparr> []) (\<lambda>_.
     returnT (sessionId @ CHR ''.'' # secret, expiresAt)))))"

definition bind_account :: "customer \<Rightarrow> string \<Rightarrow> commerce_error + customer" where
  "bind_account c userId =
     (if truthy_opt (cu_accountUserId c) \<and> cu_accountUserId c \<noteq> Some userId then Inl (Commerce_error ''account_identity_conflict'')
      else Inr (c\<lparr> cu_accountUserId := Some userId \<rparr>))"

definition add_email :: "customer \<Rightarrow> string \<Rightarrow> customer" where
  "add_email c address = c\<lparr> cu_verifiedEmails := js_set (cu_verifiedEmails c @ [address]) \<rparr>"

text \<open>The second transaction of \<open>redeemEmailLogin\<close>; the host's account, when it provisions them, is its user id and commerce subject.\<close>

definition redeemEmailLoginT :: "platform \<Rightarrow> string \<Rightarrow> string \<Rightarrow> (string \<times> string option) option \<Rightarrow> ((string \<times> string) \<times> string option) tx" where
  "redeemEmailLoginT pf i token account =
     bindT (getT logins i) (\<lambda>found. case found of None \<Rightarrow> throwT ''invalid_sign_in_link''
     | Some login \<Rightarrow>
       if \<not> proof_open pf (el_expiresAt login) (el_consumedAt login) (el_tokenHash login) token then throwT ''invalid_sign_in_link''
       else (let canonical = (case account of Some (_, Some subject) \<Rightarrow> subject | _ \<Rightarrow> el_subjectId login) in
         bindT (getT customers (customer_key pf (el_subjectId login))) (\<lambda>old.
         bindT (listT purchases) (\<lambda>ps. bindT (listT entitlements) (\<lambda>es. bindT (listT gifts) (\<lambda>gs.
         if canonical \<noteq> el_subjectId login \<and> (case old of None \<Rightarrow> False | Some c \<Rightarrow>
              list_ex (\<lambda>p. pu_customerId p = Some (cu_id c)) ps \<or> list_ex (\<lambda>e. en_customerId e = Some (cu_id c)) es
              \<or> list_ex (\<lambda>g. gf_customerId g = Some (cu_id c)) gs)
         then throwT ''account_identity_conflict''
         else bindT (customerT pf canonical) (\<lambda>c.
           bindT (case account of Some (userId, _) \<Rightarrow> liftT (bind_account c userId) | None \<Rightarrow> returnT c) (\<lambda>c.
           let c = add_email c (el_email login) in
           bindT (putT pf customers c) (\<lambda>_.
           bindT (putT pf logins (login\<lparr> el_consumedAt := Some (now pf) \<rparr>)) (\<lambda>_.
           bindT (createSessionT pf c ''email'') (\<lambda>session.
           returnT (session, el_returnPath login))))))))))))"

definition attachAccountCustomerT :: "platform \<Rightarrow> string \<Rightarrow> string \<Rightarrow> string \<Rightarrow> unit tx" where
  "attachAccountCustomerT pf subjectId accountUserId normalized =
     bindT (customerT pf subjectId) (\<lambda>c. bindT (liftT (bind_account c accountUserId)) (\<lambda>c.
       putT pf customers (add_email c normalized)))"

definition issueAccountSessionT :: "platform \<Rightarrow> string \<Rightarrow> string \<Rightarrow> (string \<times> string) tx" where
  "issueAccountSessionT pf subjectId accountUserId =
     bindT (customerT pf subjectId) (\<lambda>c.
       if cu_accountUserId c \<noteq> Some accountUserId then throwT ''account_identity_conflict'' else createSessionT pf c ''password'')"

text \<open>\<open>credential.split('.')\<close> into an id, a secret and a third part that is missing or empty.\<close>

fun dot_parts :: "string \<Rightarrow> string list" where
  "dot_parts [] = [[]]"
| "dot_parts (c # s) = (if c = CHR ''.'' then [] # dot_parts s
     else (case dot_parts s of p # ps \<Rightarrow> (c # p) # ps | [] \<Rightarrow> [[c]]))"

definition split_credential :: "string \<Rightarrow> (string \<times> string) option" where
  "split_credential c = (case dot_parts c of
     i # secret # rest \<Rightarrow> if truthy i \<and> truthy secret \<and> (case rest of [] \<Rightarrow> True | extra # _ \<Rightarrow> \<not> truthy extra) then Some (i, secret) else None
   | _ \<Rightarrow> None)"

definition accountSessionT :: "platform \<Rightarrow> string \<Rightarrow> (customer_session \<times> string) option tx" where
  "accountSessionT pf credential =
     (if length credential > 1000 then returnT None
      else (case split_credential credential of None \<Rightarrow> returnT None
        | Some (i, secret) \<Rightarrow>
            bindT (getT sessions i) (\<lambda>found. case found of None \<Rightarrow> returnT None
            | Some x \<Rightarrow>
                if \<not> truthy_opt (cs_accountUserId x) \<or> cs_expiresAt x \<le> now pf \<or> cs_tokenHash x \<noteq> pf_hash pf secret then returnT None
                else bindT (getT customers (cs_customerId x)) (\<lambda>owner. case owner of None \<Rightarrow> returnT None
                  | Some c \<Rightarrow> if truthy_opt (cu_erasedAt c) \<or> cu_accountUserId c \<noteq> cs_accountUserId x then returnT None
                      else returnT (Some (x, cu_subjectId c))))))"

definition revokeAccountSessionT :: "platform \<Rightarrow> string \<Rightarrow> unit tx" where
  "revokeAccountSessionT pf credential =
     (case split_credential credential of None \<Rightarrow> returnT ()
      | Some (i, secret) \<Rightarrow>
          bindT (getT sessions i) (\<lambda>found. case found of None \<Rightarrow> returnT ()
            | Some x \<Rightarrow> if cs_tokenHash x = pf_hash pf secret then removeT sessions i else returnT ()))"

definition customerSubjectT :: "platform \<Rightarrow> string \<Rightarrow> string option tx" where
  "customerSubjectT pf credential =
     (if length credential > 1000 then returnT None
      else (case split_credential credential of None \<Rightarrow> returnT None
        | Some (i, token) \<Rightarrow>
            bindT (getT sessions i) (\<lambda>found. case found of None \<Rightarrow> returnT None
            | Some x \<Rightarrow>
                if cs_expiresAt x \<le> now pf \<or> cs_tokenHash x \<noteq> pf_hash pf token then returnT None
                else bindT (getT customers (cs_customerId x)) (\<lambda>owner. case owner of None \<Rightarrow> returnT None
                  | Some c \<Rightarrow> returnT (if truthy_opt (cu_erasedAt c) then None else Some (cu_subjectId c))))))"

definition beginEmailVerificationT :: "platform \<Rightarrow> string \<Rightarrow> string \<Rightarrow> unit tx" where
  "beginEmailVerificationT pf subjectId normalized =
     bindT (customerT pf subjectId) (\<lambda>c. bindT (fresh pf) (\<lambda>i.
     bindT (scopeT pf subjectId Live) (\<lambda>sc. bindT (liftT (iso_after pf 3600000)) (\<lambda>expiresAt.
     bindT (insertT pf emailProofs \<lparr> ep_base = base pf sc i, ep_customerId = cu_id c, ep_email = normalized,
        ep_tokenHash = pf_hash pf (token_for pf ''email'' i), ep_expiresAt = expiresAt, ep_consumedAt = None \<rparr> []) (\<lambda>_.
     bindT (queueT pf (rb_scope (cu_base c)) Verify_email i None) (\<lambda>_. returnT ()))))))"

definition verifyEmailT :: "platform \<Rightarrow> string \<Rightarrow> string \<Rightarrow> string \<Rightarrow> unit tx" where
  "verifyEmailT pf subjectId i token =
     bindT (customerT pf subjectId) (\<lambda>c. bindT (getT emailProofs i) (\<lambda>found. case found of None \<Rightarrow> throwT ''invalid_email_proof''
     | Some p \<Rightarrow>
         if ep_customerId p \<noteq> cu_id c \<or> \<not> proof_open pf (ep_expiresAt p) (ep_consumedAt p) (ep_tokenHash p) token
         then throwT ''invalid_email_proof''
         else bindT (putT pf emailProofs (p\<lparr> ep_consumedAt := Some (now pf) \<rparr>)) (\<lambda>_.
              putT pf customers (add_email c (ep_email p)))))"


subsection \<open>Assets, contents and offers\<close>

definition checksum_ok :: "string \<Rightarrow> bool" where
  "checksum_ok c \<longleftrightarrow> length c = 64 \<and> list_all (\<lambda>x. x \<in> set ''0123456789abcdef'') c"

definition asset_input_ok :: "private_asset \<Rightarrow> bool" where
  "asset_input_ok a \<longleftrightarrow> truthy (pa_objectId a) \<and> safe_int (pa_byteLength a) \<and> 0 \<le> pa_byteLength a \<and> checksum_ok (pa_checksum a)"

definition registerAssetT :: "platform \<Rightarrow> scope \<Rightarrow> string \<Rightarrow> private_asset \<Rightarrow> private_asset tx" where
  "registerAssetT pf sc actorId input =
     (if \<not> asset_input_ok input then throwT ''invalid_asset''
      else bindT (fresh pf) (\<lambda>i. let a = input\<lparr> pa_base := base pf sc i \<rparr> in
        bindT (listT assets) (\<lambda>all.
        case (if pa_source input = None then None else List.find (\<lambda>x. same (pa_base x) sc \<and> pa_source x = pa_source input
               \<and> pa_objectId x = pa_objectId input \<and> pa_label x = pa_label input \<and> pa_checksum x = pa_checksum input
               \<and> pa_state x = Available) all) of
          Some existing \<Rightarrow> returnT existing
        | None \<Rightarrow> bindT (insertT pf assets a []) (\<lambda>_.
            bindT (auditT pf sc actorId ''asset.register'' i None) (\<lambda>_. returnT a)))))"

definition setAssetAvailabilityT :: "platform \<Rightarrow> string \<Rightarrow> string \<Rightarrow> string \<Rightarrow> bool \<Rightarrow> unit tx" where
  "setAssetAvailabilityT pf actorId ownerId i available =
     bindT (getT assets i) (\<lambda>found. case found of None \<Rightarrow> throwT ''asset_not_found''
     | Some a \<Rightarrow> if sc_ownerId (rb_scope (pa_base a)) \<noteq> ownerId then throwT ''asset_not_found''
       else bindT (putT pf assets (a\<lparr> pa_state := (if available then Available else Unavailable) \<rparr>)) (\<lambda>_.
         bindT (listT packages) (\<lambda>all.
         bindT (eachT (\<lambda>pack.
             bindT (getT offers (pk_offerVersionId pack)) (\<lambda>found. case found of None \<Rightarrow> returnT ()
             | Some offer \<Rightarrow> if i \<notin> set (of_files offer) then returnT ()
               else bindT (getT assets (pk_assetId pack)) (\<lambda>packageAsset. bindT (lookT assets) (\<lambda>stored.
                 let ready = list_all (\<lambda>f. case stored f of Some x \<Rightarrow> pa_state x = Available | None \<Rightarrow> False) (of_files offer);
                     built = (case packageAsset of Some x \<Rightarrow> truthy (pa_objectId x) | None \<Rightarrow> False)
                 in bindT (putT pf packages (pack\<lparr> pk_state := (if ready then if built then Pk_ready else Pk_preparing else Pk_unavailable) \<rparr>)) (\<lambda>_.
                    case packageAsset of None \<Rightarrow> returnT ()
                    | Some x \<Rightarrow> putT pf assets (x\<lparr> pa_state := (if ready then if built then Available else Preparing else Unavailable) \<rparr>)))))) all) (\<lambda>_.
         auditT pf (rb_scope (pa_base a)) actorId ''asset.availability'' i None))))"

definition accessBenefits :: "offer \<Rightarrow> offer \<Rightarrow> benefit list" where
  "accessBenefits original contents =
     (if of_collectionRoots contents = None then of_benefits contents
      else filter is_gallery (of_benefits contents)
        @ (if list_ex is_download (of_benefits original) then map Download (of_files contents) else [])
        @ filter (\<lambda>b. is_package b \<or> is_role b) (of_benefits original))"

definition of_id :: "offer \<Rightarrow> string" where "of_id x = rb_id (of_base x)"
definition of_scope :: "offer \<Rightarrow> scope" where "of_scope x = rb_scope (of_base x)"

definition package_key :: "platform \<Rightarrow> offer \<Rightarrow> string" where
  "package_key pf offer = key pf [json_string ''package'', json_string (of_id offer)]"

definition ensureContentPackageT :: "platform \<Rightarrow> offer \<Rightarrow> unit tx" where
  "ensureContentPackageT pf offer =
     (let i = package_key pf offer in
      bindT (getT packages i) (\<lambda>found. case found of Some _ \<Rightarrow> returnT () | None \<Rightarrow>
      bindT (insertT pf packages \<lparr> pk_base = base pf (of_scope offer) i, pk_offerVersionId = of_id offer, pk_assetId = i, pk_state = Pk_preparing \<rparr> []) (\<lambda>_.
      bindT (insertT pf assets \<lparr> pa_base = base pf (of_scope offer) i, pa_source = None, pa_label = of_title offer @ ''.zip'',
         pa_contentType = ''application/zip'', pa_byteLength = 0, pa_checksum = replicate 64 (CHR ''0''), pa_objectId = [],
         pa_state = Preparing, pa_publicPreview = False \<rparr> []) (\<lambda>_.
      bindT (queueT pf (of_scope offer) Package_job i (Some i)) (\<lambda>_. returnT ())))))"

text \<open>The offers of one id in one scope, newest version first (a stable sort of the id order).\<close>

definition versions_of :: "offer \<Rightarrow> offer list \<Rightarrow> offer list" where
  "versions_of offer all = sort_key (\<lambda>x. - of_version x) (filter (\<lambda>x. of_offerId x = of_offerId offer \<and> same (of_base x) (of_scope offer)) all)"

definition currentContentsT :: "platform \<Rightarrow> offer \<Rightarrow> offer tx" where
  "currentContentsT pf offer =
     bindT (listT offers) (\<lambda>all.
     let latest = (case filter (\<lambda>x. (of_billing x \<noteq> None) = (of_billing offer \<noteq> None)) (versions_of offer all) of x # _ \<Rightarrow> x | [] \<Rightarrow> offer) in
     returnT (if of_billing offer \<noteq> None \<or> of_collectionRoots offer \<noteq> None \<or> of_collectionRoots latest \<noteq> None then latest else offer))"

definition benefit_assets :: "platform \<Rightarrow> offer \<Rightarrow> benefit \<Rightarrow> string list" where
  "benefit_assets pf contents b = (case b of Gallery _ \<Rightarrow> of_files contents | Download r \<Rightarrow> [r]
     | Package _ \<Rightarrow> [package_key pf contents] | Discord_role _ _ _ \<Rightarrow> [])"

text \<open>
  \<open>updateAccessContents\<close>. One record, a purchase or a claimed gift, is given by its base, its offer version, its customer,
  the selector of its grants and the maker of a new grant; benefits are compared by their JSON text, which in the model is
  equality of benefits (their properties are written in one order).
\<close>

definition grant_key :: "platform \<Rightarrow> string \<Rightarrow> string \<Rightarrow> benefit \<Rightarrow> string" where
  "grant_key pf name recordId b = key pf [json_string name, json_string recordId, benefit_json b]"

definition revised_grant :: "platform \<Rightarrow> offer \<Rightarrow> benefit \<Rightarrow> entitlement \<Rightarrow> entitlement" where
  "revised_grant pf offer b g =
     (if en_contentRemoved g then g\<lparr> en_state := Active, en_contentRemoved := False \<rparr> else g)
       \<lparr> en_assetIds := benefit_assets pf offer b, en_base := (en_base g)\<lparr> rb_updatedAt := now pf \<rparr> \<rparr>"

definition refresh_grants :: "platform \<Rightarrow> offer \<Rightarrow> offer \<Rightarrow> (entitlement \<Rightarrow> bool) \<Rightarrow> (entitlement \<Rightarrow> benefit \<Rightarrow> entitlement) \<Rightarrow> bool tx" where
  "refresh_grants pf original offer selected new_grant =
     bindT (listT entitlements) (\<lambda>all. let grants = filter selected all; benefits = accessBenefits original offer in
     case List.find (is_active pf) grants of None \<Rightarrow> returnT False
     | Some active \<Rightarrow>
         bindT (whenT (list_ex is_package benefits) (ensureContentPackageT pf offer)) (\<lambda>_.
         bindT (eachT (\<lambda>g. whenT (en_benefit g \<notin> set benefits) (putT pf entitlements (g\<lparr> en_state := Revoked, en_contentRemoved := True \<rparr>))) grants) (\<lambda>_.
         bindT (eachT (\<lambda>b. putT pf entitlements (revised_grant pf offer b
              (case List.find (\<lambda>g. en_benefit g = b) grants of Some g \<Rightarrow> g | None \<Rightarrow> new_grant active b))) benefits) (\<lambda>_.
         returnT True))))"

definition contents_apply :: "offer \<Rightarrow> offer \<Rightarrow> record_base \<Rightarrow> bool" where
  "contents_apply original offer b \<longleftrightarrow>
     \<not> (of_billing original = None \<and> of_collectionRoots offer = None)
     \<and> (of_billing original \<noteq> None) = (of_billing offer \<noteq> None)
     \<and> of_offerId original = of_offerId offer \<and> same b (of_scope offer)"

definition purchase_grant :: "platform \<Rightarrow> purchase \<Rightarrow> entitlement \<Rightarrow> benefit \<Rightarrow> entitlement" where
  "purchase_grant pf p active b =
     \<lparr> en_base = base pf (rb_scope (pu_base p)) (grant_key pf ''grant'' (rb_id (pu_base p)) b), en_customerId = pu_customerId p,
       en_purchaseId = Some (rb_id (pu_base p)), en_giftId = None, en_contentRemoved = False, en_source = ''payment'', en_reason = None,
       en_benefit = b, en_startsAt = en_startsAt active, en_endsAt = en_endsAt active, en_state = Active, en_assetIds = [] \<rparr>"

definition gift_grant :: "platform \<Rightarrow> gift \<Rightarrow> offer \<Rightarrow> entitlement \<Rightarrow> benefit \<Rightarrow> entitlement" where
  "gift_grant pf g offer active b =
     \<lparr> en_base = base pf (rb_scope (gf_base g)) (grant_key pf ''gift-grant'' (rb_id (gf_base g)) b), en_customerId = gf_customerId g,
       en_purchaseId = None, en_giftId = Some (rb_id (gf_base g)), en_contentRemoved = False, en_source = ''manual'',
       en_reason = Some (''Gift: '' @ of_title offer),
       en_benefit = b, en_startsAt = en_startsAt active, en_endsAt = en_endsAt active, en_state = Active, en_assetIds = [] \<rparr>"

definition notify_discord :: "platform \<Rightarrow> scope \<Rightarrow> string option \<Rightarrow> unit tx" where
  "notify_discord pf sc customerId =
     (case customerId of Some c \<Rightarrow> whenT (truthy c) (queueT pf sc Discord c None) | None \<Rightarrow> returnT ())"

definition update_purchase_contents :: "platform \<Rightarrow> offer \<Rightarrow> purchase \<Rightarrow> unit tx" where
  "update_purchase_contents pf offer p =
     bindT (getT offers (pu_offerVersionId p)) (\<lambda>found. case found of None \<Rightarrow> returnT ()
     | Some original \<Rightarrow> if \<not> contents_apply original offer (pu_base p) then returnT ()
       else bindT (refresh_grants pf original offer (\<lambda>g. en_purchaseId g = Some (rb_id (pu_base p))) (purchase_grant pf p)) (\<lambda>ok.
         whenT ok (bindT (putT pf purchases (p\<lparr> pu_contentOfferVersionId := Some (of_id offer) \<rparr>)) (\<lambda>_.
           notify_discord pf (rb_scope (pu_base p)) (pu_customerId p)))))"

definition update_gift_contents :: "platform \<Rightarrow> offer \<Rightarrow> gift \<Rightarrow> unit tx" where
  "update_gift_contents pf offer g =
     bindT (getT offers (gf_offerVersionId g)) (\<lambda>found. case found of None \<Rightarrow> returnT ()
     | Some original \<Rightarrow> if \<not> contents_apply original offer (gf_base g) then returnT ()
       else bindT (refresh_grants pf original offer (\<lambda>x. en_giftId x = Some (rb_id (gf_base g))) (gift_grant pf g offer)) (\<lambda>ok.
         whenT ok (bindT (putT pf gifts (g\<lparr> gf_contentOfferVersionId := Some (of_id offer) \<rparr>)) (\<lambda>_.
           notify_discord pf (rb_scope (gf_base g)) (gf_customerId g)))))"

definition updateAccessContentsT :: "platform \<Rightarrow> offer \<Rightarrow> unit tx" where
  "updateAccessContentsT pf offer =
     bindT (listT purchases) (\<lambda>ps. bindT (eachT (update_purchase_contents pf offer) (filter (\<lambda>p. pu_state p = Active) ps)) (\<lambda>_.
     bindT (listT gifts) (\<lambda>gs. eachT (update_gift_contents pf offer) (filter (\<lambda>g. gf_state g = Gf_claimed) gs))))"


text \<open>The command of \<open>publishOffer\<close>; \<open>oi_json\<close> is its JSON text.\<close>

record offer_input =
  oi_offerId :: "string option"
  oi_requestId :: "string option"
  oi_slug :: string
  oi_title :: string
  oi_description :: "string option"
  oi_billing :: "interval option"
  oi_collectionRoots :: "string list option"
  oi_contentSourceRevision :: "string option"
  oi_amountMinor :: int
  oi_currency :: string
  oi_benefits :: "benefit list"
  oi_files :: "string list"
  oi_previews :: "string list option"
  oi_terms :: string
  oi_durationSeconds :: "int option"
  oi_external :: "(string \<times> string) option"
  oi_json :: string

definition id_text :: "string \<Rightarrow> bool" where
  "id_text s \<longleftrightarrow> 8 \<le> length s \<and> length s \<le> 200
     \<and> list_all (\<lambda>c. c \<in> set ''ABCDEFGHIJKLMNOPQRSTUVWXYZabcdefghijklmnopqrstuvwxyz0123456789_-'') s"

definition slug_text :: "string \<Rightarrow> bool" where
  "slug_text s \<longleftrightarrow> s \<noteq> [] \<and> length s \<le> 100 \<and> hd s \<noteq> CHR ''-''
     \<and> list_all (\<lambda>c. c \<in> set ''abcdefghijklmnopqrstuvwxyz0123456789-'') s"

text \<open>The checks of \<open>publishOffer\<close> before its transaction; the link checks of an external offer (a platform \<open>URL\<close>) are the argument
  \<open>link_ok\<close>.\<close>

definition offer_input_ok :: "(string \<Rightarrow> bool) \<Rightarrow> offer_input \<Rightarrow> commerce_error + unit" where
  "offer_input_ok link_ok input =
     try_then (currencyExponent (oi_currency input)) (\<lambda>_.
     if \<not> safe_int (oi_amountMinor input) \<or> oi_amountMinor input \<le> 0 \<or> \<not> slug_text (oi_slug input)
        \<or> \<not> truthy (oi_title input) \<or> length (oi_title input) > 300 \<or> \<not> truthy (oi_terms input) \<or> length (oi_terms input) > 10000
        \<or> oi_benefits input = [] \<or> length (oi_benefits input) > 2000 \<or> length (oi_files input) > 1000
        \<or> (case oi_durationSeconds input of None \<Rightarrow> False | Some n \<Rightarrow> \<not> safe_int n \<or> n \<le> 0 \<or> n > 315360000)
     then Inl (Commerce_error ''invalid_offer'')
     else if (case oi_collectionRoots input of None \<Rightarrow> False | Some roots \<Rightarrow> list_ex (\<lambda>r. \<not> truthy r) roots)
     then Inl (Commerce_error ''invalid_collection_roots'')
     else if oi_billing input \<noteq> None \<and> (oi_durationSeconds input \<noteq> None \<or> oi_external input \<noteq> None)
     then Inl (Commerce_error ''invalid_subscription_configuration'')
     else (case oi_external input of None \<Rightarrow> Inr ()
       | Some (url, mappingId) \<Rightarrow> require (link_ok url \<and> truthy mappingId \<and> length mappingId \<le> 200) (Commerce_error ''invalid_external_link'')))"

definition offer_asset_ok :: "scope \<Rightarrow> string list \<Rightarrow> string list \<Rightarrow> (string \<Rightarrow> private_asset option) \<Rightarrow> string \<Rightarrow> bool" where
  "offer_asset_ok sc files previews stored i = (case stored i of None \<Rightarrow> False
     | Some a \<Rightarrow> same (pa_base a) sc \<and> pa_state a = Available
         \<and> \<not> (i \<in> set previews \<and> \<not> pa_publicPreview a) \<and> \<not> (i \<in> set files \<and> pa_publicPreview a))"

definition offer_benefit_ok :: "scope \<Rightarrow> string list \<Rightarrow> discord_guild list \<Rightarrow> benefit \<Rightarrow> commerce_error + unit" where
  "offer_benefit_ok sc files gs b =
     try_then (require (truthy (resource_id b) \<and> length (resource_id b) \<le> 200) (Commerce_error ''invalid_benefit'')) (\<lambda>_.
     case b of
       Download r \<Rightarrow> require (r \<in> set files) (Commerce_error ''download_not_in_snapshot'')
     | Gallery r \<Rightarrow> require (files \<noteq> []) (Commerce_error ''empty_gallery'')
     | Package r \<Rightarrow> Inr ()
     | Discord_role r g l \<Rightarrow> require (list_ex (\<lambda>x. same (dg_base x) sc \<and> dg_guildId x = g \<and> l \<in> set (dg_roleIds x)) gs)
         (Commerce_error ''discord_role_not_configured''))"

fun check_all :: "('a \<Rightarrow> commerce_error + unit) \<Rightarrow> 'a list \<Rightarrow> commerce_error + unit" where
  "check_all f [] = Inr ()"
| "check_all f (x # xs) = try_then (f x) (\<lambda>_. check_all f xs)"

definition published_offer :: "platform \<Rightarrow> scope \<Rightarrow> offer_input \<Rightarrow> string \<Rightarrow> string \<Rightarrow> (string \<times> string option) \<Rightarrow> string \<Rightarrow> int \<Rightarrow> offer" where
  "published_offer pf sc input i offerId connection supportEmail version =
     \<lparr> of_base = base pf sc i, of_billing = oi_billing input, of_collectionRoots = map_option js_set (oi_collectionRoots input),
       of_contentSourceRevision = (if oi_collectionRoots input \<noteq> None \<and> truthy_opt (oi_contentSourceRevision input)
         then oi_contentSourceRevision input else None),
       of_financialOfferVersionId = None,
       of_commandHash = (if truthy_opt (oi_requestId input) then Some (pf_hash pf (oi_json input)) else None),
       of_offerId = offerId, of_version = version, of_slug = oi_slug input, of_title = oi_title input,
       of_description = (case oi_description input of Some d \<Rightarrow> d | None \<Rightarrow> []), of_supportEmail = supportEmail,
       of_connectionId = fst connection, of_merchantId = (case snd connection of Some m \<Rightarrow> m | None \<Rightarrow> []),
       of_currency = oi_currency input, of_amountMinor = oi_amountMinor input, of_benefits = oi_benefits input,
       of_files = js_set (oi_files input), of_previews = js_set (case oi_previews input of Some p \<Rightarrow> p | None \<Rightarrow> []),
       of_terms = oi_terms input, of_durationSeconds = oi_durationSeconds input, of_published = True,
       of_external = (case oi_external input of None \<Rightarrow> None
         | Some (url, mappingId) \<Rightarrow> Some \<lparr> ex_url = url, ex_mappingId = mappingId, ex_validatedAt = None, ex_evidenceId = None \<rparr>) \<rparr>"

definition publishOfferT :: "platform \<Rightarrow> scope \<Rightarrow> string \<Rightarrow> (string \<times> string option) \<Rightarrow> string \<Rightarrow> offer_input \<Rightarrow> offer tx" where
  "publishOfferT pf sc actorId connection supportEmail input =
     (if truthy_opt (oi_requestId input) \<and> \<not> id_text (the (oi_requestId input)) then throwT ''invalid_idempotency_key''
      else (let request = (if truthy_opt (oi_requestId input)
            then Some (key pf [json_string ''offer-command'', json_array (scope_parts sc), json_string (the (oi_requestId input))]) else None) in
       bindT (case request of Some r \<Rightarrow> getT offers r | None \<Rightarrow> returnT None) (\<lambda>prior. case prior of
         Some p \<Rightarrow> if of_commandHash p \<noteq> Some (pf_hash pf (oi_json input)) then throwT ''idempotency_conflict'' else returnT p
       | None \<Rightarrow>
         bindT (listT offers) (\<lambda>all.
         let versions = filter (\<lambda>x. Some (of_offerId x) = oi_offerId input \<and> same (of_base x) sc) all;
             files = js_set (oi_files input); previews = js_set (case oi_previews input of Some p \<Rightarrow> p | None \<Rightarrow> []) in
         if truthy_opt (oi_offerId input) \<and> versions = [] then throwT ''offer_not_found''
         else if list_ex (\<lambda>x. of_slug x = oi_slug input \<and> same (of_base x) sc \<and> Some (of_offerId x) \<noteq> oi_offerId input) all
         then throwT ''offer_slug_conflict''
         else bindT (lookT assets) (\<lambda>stored.
           if \<not> list_all (offer_asset_ok sc files previews stored) (files @ previews) then throwT ''invalid_offer_asset''
           else bindT (listT guilds) (\<lambda>gs. bindT (liftT (check_all (offer_benefit_ok sc files gs) (oi_benefits input))) (\<lambda>_.
           bindT (case request of Some r \<Rightarrow> returnT r | None \<Rightarrow> fresh pf) (\<lambda>i.
           bindT (case oi_offerId input of Some x \<Rightarrow> returnT x | None \<Rightarrow> fresh pf) (\<lambda>offerId.
           let offer = published_offer pf sc input i offerId connection supportEmail (fold (\<lambda>v m. max m (of_version v)) versions 0 + 1) in
           bindT (eachT (\<lambda>v. putT pf offers (v\<lparr> of_published := False \<rparr>)) versions) (\<lambda>_.
           bindT (insertT pf offers offer [key pf [json_string ''offer-version'', json_array (scope_parts sc), json_string offerId, int_str (of_version offer)]]) (\<lambda>_.
           bindT (auditT pf sc actorId ''offer.publish'' i None) (\<lambda>_.
           bindT (whenT (of_billing offer \<noteq> None \<or> of_collectionRoots offer \<noteq> None) (updateAccessContentsT pf offer)) (\<lambda>_.
           bindT (whenT (list_ex is_package (of_benefits offer)) (ensureContentPackageT pf offer)) (\<lambda>_.
           returnT offer))))))))))))))"

definition financial_id :: "offer \<Rightarrow> string" where
  "financial_id x = (case of_financialOfferVersionId x of Some i \<Rightarrow> i | None \<Rightarrow> of_id x)"

definition setOfferPublishedT :: "platform \<Rightarrow> string \<Rightarrow> string \<Rightarrow> string \<Rightarrow> bool \<Rightarrow> unit tx" where
  "setOfferPublishedT pf actorId ownerId i published =
     bindT (getT offers i) (\<lambda>found. case found of None \<Rightarrow> throwT ''offer_not_found''
     | Some offer \<Rightarrow> if sc_ownerId (of_scope offer) \<noteq> ownerId then throwT ''offer_not_found''
       else bindT (listT offers) (\<lambda>all.
         if published \<and> list_ex (\<lambda>x. of_offerId x = of_offerId offer \<and> same (of_base x) (of_scope offer) \<and> of_version x > of_version offer) all
         then throwT ''offer_version_superseded''
         else bindT (putT pf offers (offer\<lparr> of_published := published \<rparr>)) (\<lambda>_.
           bindT (whenT (\<not> published) (bindT (listT offers) (\<lambda>now_stored. eachT (\<lambda>v. putT pf offers (v\<lparr> of_published := False \<rparr>))
              (filter (\<lambda>v. same (of_base v) (of_scope offer) \<and> of_offerId v = of_offerId offer \<and> financial_id v = financial_id offer) now_stored)))) (\<lambda>_.
           auditT pf (of_scope offer) actorId ''offer.visibility'' i None))))"

subsection \<open>Prices and checkouts\<close>

definition owned_collections :: "platform \<Rightarrow> customer \<Rightarrow> offer \<Rightarrow> string list \<Rightarrow> purchase list \<Rightarrow> gift list \<Rightarrow> (string \<Rightarrow> offer option)
    \<Rightarrow> entitlement list \<Rightarrow> string list" where
  "owned_collections pf customer offer included ps gs stored grants =
     (let counted = (\<lambda>b versionId selected. case stored versionId of None \<Rightarrow> []
            | Some source \<Rightarrow>
                if \<not> same b (of_scope offer) \<or> of_billing source \<noteq> None \<or> of_durationSeconds source \<notin> {None, Some 0} then []
                else map (resource_id \<circ> en_benefit) (filter (\<lambda>g. en_customerId g = Some (cu_id customer) \<and> same (en_base g) (of_scope offer)
                  \<and> selected g \<and> is_active pf g \<and> \<not> truthy_opt (en_endsAt g) \<and> is_gallery (en_benefit g)
                  \<and> resource_id (en_benefit g) \<in> set included) grants))
      in if of_billing offer \<noteq> None \<or> of_external offer \<noteq> None \<or> included = [] then []
         else js_set (concat (map (\<lambda>p. counted (pu_base p) (pu_offerVersionId p) (\<lambda>g. en_purchaseId g = Some (rb_id (pu_base p))))
                (filter (\<lambda>p. pu_customerId p = Some (cu_id customer) \<and> pu_state p = Active) ps)
              @ map (\<lambda>x. counted (gf_base x) (gf_offerVersionId x) (\<lambda>g. en_giftId g = Some (rb_id (gf_base x))))
                (filter (\<lambda>x. gf_customerId x = Some (cu_id customer) \<and> gf_state x = Gf_claimed \<and> gf_months x \<in> {None, Some 0}) gs))))"

record quote =
  qt_offerVersionId :: string
  qt_currency :: string
  qt_amountMinor :: int
  qt_ownershipDiscount :: "ownership_discount option"

definition discounted :: "int \<Rightarrow> int \<Rightarrow> int" where
  "discounted amount percent = max 1 ((amount * (100 - percent) + 50) div 100)"

definition priced :: "offer \<Rightarrow> string list \<Rightarrow> quote" where
  "priced offer owned =
     (let percent = (if 2 \<le> length owned then Some 25 else if length owned = 1 then Some 20 else None) in
      case percent of
        None \<Rightarrow> \<lparr> qt_offerVersionId = of_id offer, qt_currency = of_currency offer, qt_amountMinor = of_amountMinor offer, qt_ownershipDiscount = None \<rparr>
      | Some p \<Rightarrow> \<lparr> qt_offerVersionId = of_id offer, qt_currency = of_currency offer, qt_amountMinor = discounted (of_amountMinor offer) p,
          qt_ownershipDiscount = Some \<lparr> od_percent = p, od_collectionIds = sort owned, od_baseAmountMinor = of_amountMinor offer,
            od_discountMinor = of_amountMinor offer - discounted (of_amountMinor offer) p \<rparr> \<rparr>)"

definition ownershipPriceT :: "platform \<Rightarrow> customer \<Rightarrow> offer \<Rightarrow> string list \<Rightarrow> quote tx" where
  "ownershipPriceT pf customer offer included =
     bindT (listT purchases) (\<lambda>ps. bindT (listT gifts) (\<lambda>gs. bindT (lookT offers) (\<lambda>stored. bindT (listT entitlements) (\<lambda>grants.
       returnT (priced offer (owned_collections pf customer offer included ps gs stored grants))))))"

definition claim_gift :: "platform \<Rightarrow> customer \<Rightarrow> gift \<Rightarrow> unit tx" where
  "claim_gift pf customer g =
     bindT (getT offers (gf_offerVersionId g)) (\<lambda>found. case found of None \<Rightarrow> returnT ()
     | Some offer \<Rightarrow>
         bindT (currentContentsT pf offer) (\<lambda>contents.
         bindT (case gf_months g of Some m \<Rightarrow> if m = 0 then returnT (gf_endsAt g)
              else bindT (liftT (subscriptionPeriodEnd (now pf) Month m)) (\<lambda>e. returnT (Some e)) | None \<Rightarrow> returnT (gf_endsAt g)) (\<lambda>endsAt.
         let claimed = g\<lparr> gf_contentOfferVersionId := Some (of_id contents), gf_customerId := Some (cu_id customer), gf_claimedAt := Some (now pf),
               gf_state := Gf_claimed, gf_endsAt := endsAt \<rparr> in
         bindT (putT pf gifts claimed) (\<lambda>_.
         bindT (whenT (list_ex is_package (accessBenefits offer contents)) (ensureContentPackageT pf contents)) (\<lambda>_.
         bindT (eachT (\<lambda>b. insertT pf entitlements \<lparr> en_base = base pf (rb_scope (gf_base g)) (grant_key pf ''gift-grant'' (rb_id (gf_base g)) b),
              en_customerId = Some (cu_id customer), en_purchaseId = None, en_giftId = Some (rb_id (gf_base g)), en_contentRemoved = False,
              en_source = ''manual'', en_reason = Some (''Gift: '' @ of_title offer), en_benefit = b, en_startsAt = now pf,
              en_endsAt = (if truthy_opt endsAt then endsAt else None), en_state = Active, en_assetIds = benefit_assets pf contents b \<rparr> [])
            (accessBenefits offer contents)) (\<lambda>_.
         bindT (queueT pf (rb_scope (gf_base g)) Discord (cu_id customer) None) (\<lambda>_.
         auditT pf (rb_scope (gf_base g)) (cu_subjectId customer) ''gift.claim'' (rb_id (gf_base g)) None)))))))"

definition claimGiftsT :: "platform \<Rightarrow> customer \<Rightarrow> unit tx" where
  "claimGiftsT pf customer =
     bindT (listT gifts) (\<lambda>gs. eachT (claim_gift pf customer)
       (filter (\<lambda>g. gf_state g = Gf_pending \<and> gf_recipientEmail g \<in> set (cu_verifiedEmails customer)) gs))"

definition quoteT :: "platform \<Rightarrow> string \<Rightarrow> string \<Rightarrow> string list \<Rightarrow> quote tx" where
  "quoteT pf subjectId offerVersionId included =
     bindT (getT offers offerVersionId) (\<lambda>found. case found of None \<Rightarrow> throwT ''offer_unavailable''
     | Some current \<Rightarrow> if \<not> of_published current then throwT ''offer_unavailable''
       else bindT (customerT pf subjectId) (\<lambda>c. bindT (claimGiftsT pf c) (\<lambda>_. ownershipPriceT pf c current included)))"

definition checkout_key :: "platform \<Rightarrow> customer \<Rightarrow> string \<Rightarrow> string" where
  "checkout_key pf c idempotencyKey = key pf [json_string ''checkout'', json_string (cu_id c), json_string idempotencyKey]"

text \<open>The first transaction of \<open>checkout\<close> answers an earlier order of the same idempotency key.\<close>

definition priorCheckoutT :: "platform \<Rightarrow> string \<Rightarrow> string \<Rightarrow> string \<Rightarrow> checkout option tx" where
  "priorCheckoutT pf subjectId offerVersionId idempotencyKey =
     bindT (customerT pf subjectId) (\<lambda>c. bindT (getT checkouts (checkout_key pf c idempotencyKey)) (\<lambda>prior. case prior of
       Some x \<Rightarrow> if co_offerVersionId x \<noteq> offerVersionId then throwT ''idempotency_conflict'' else returnT (Some x)
     | None \<Rightarrow> returnT None))"

definition checkoutT :: "platform \<Rightarrow> string \<Rightarrow> offer \<Rightarrow> (string \<times> string option) \<Rightarrow> string \<Rightarrow> int option \<Rightarrow> string list \<Rightarrow> checkout tx" where
  "checkoutT pf subjectId offer connection idempotencyKey expectedAmountMinor included =
     bindT (customerT pf subjectId) (\<lambda>customer.
     if cu_verifiedEmails customer = [] then throwT ''verified_recovery_email_required''
     else (let i = checkout_key pf customer idempotencyKey in
       bindT (getT checkouts i) (\<lambda>prior. case prior of
         Some x \<Rightarrow> if co_offerVersionId x \<noteq> of_id offer then throwT ''idempotency_conflict'' else returnT x
       | None \<Rightarrow>
         bindT (getT offers (of_id offer)) (\<lambda>found. case found of None \<Rightarrow> throwT ''offer_unavailable''
         | Some current \<Rightarrow> if \<not> of_published current then throwT ''offer_unavailable''
           else bindT (claimGiftsT pf customer) (\<lambda>_. bindT (ownershipPriceT pf customer current included) (\<lambda>quoted.
             if expectedAmountMinor \<noteq> None \<and> expectedAmountMinor \<noteq> Some (qt_amountMinor quoted) then throwT ''checkout_price_changed''
             else bindT (fresh pf) (\<lambda>reference. bindT (fresh pf) (\<lambda>captureRequestId.
               let order = \<lparr> co_base = base pf (of_scope offer) i, co_ownershipDiscount = qt_ownershipDiscount quoted, co_billing = of_billing offer,
                     co_subscriptionState = None, co_customerId = cu_id customer, co_offerVersionId = of_id offer, co_connectionId = fst connection,
                     co_merchantId = (case snd connection of Some m \<Rightarrow> m | None \<Rightarrow> of_merchantId offer), co_currency = of_currency offer,
                     co_amountMinor = qt_amountMinor quoted, co_reference = reference, co_idempotencyKey = idempotencyKey,
                     co_providerOrderId = None, co_providerPlanId = None, co_approvalUrl = None, co_state = Co_creating,
                     co_captureRequestId = captureRequestId, co_reviewReason = None \<rparr>
               in bindT (insertT pf checkouts order [key pf [json_string ''checkout-idempotency'', json_string (cu_id customer), json_string idempotencyKey],
                     key pf [json_string ''order-reference'', json_string reference]]) (\<lambda>_.
                  bindT (queueT pf (of_scope offer) Create_order i (Some i)) (\<lambda>_. returnT order))))))))))"

definition cancelSubscriptionT :: "platform \<Rightarrow> string \<Rightarrow> string \<Rightarrow> unit tx" where
  "cancelSubscriptionT pf subjectId i =
     bindT (getT checkouts i) (\<lambda>found. case found of None \<Rightarrow> liftT (Inl Type_error)
     | Some current \<Rightarrow> bindT (putT pf checkouts (current\<lparr> co_subscriptionState := Some ''CANCELLED'' \<rparr>)) (\<lambda>_.
         auditT pf (rb_scope (co_base current)) subjectId ''subscription.cancel'' i None))"

definition captureT :: "platform \<Rightarrow> string \<Rightarrow> string \<Rightarrow> checkout_state tx" where
  "captureT pf subjectId i =
     bindT (customerT pf subjectId) (\<lambda>c. bindT (getT checkouts i) (\<lambda>found. case found of None \<Rightarrow> throwT ''checkout_not_found''
     | Some order \<Rightarrow> if co_customerId order \<noteq> cu_id c then throwT ''checkout_not_found''
       else bindT (whenT (co_state order = Co_pending) (queueT pf (rb_scope (co_base order)) Capture i (Some i))) (\<lambda>_.
         returnT (co_state order))))"


subsection \<open>Payment evidence\<close>

record refund_evidence =
  re_id :: string
  re_amountMinor :: int
  re_state :: string

record payment_evidence =
  pe_captureId :: string
  pe_orderId :: "string option"
  pe_reference :: "string option"
  pe_mappingId :: "string option"
  pe_merchantId :: string
  pe_currency :: string
  pe_paidMinor :: int
  pe_refundedMinor :: int
  pe_status :: payment_state
  pe_updatedAt :: string
  pe_paidAt :: "string option"
  pe_subscriptionInterval :: "interval option"
  pe_subscriptionPlanId :: "string option"
  pe_buyerEmail :: "string option"
  pe_unsupported :: bool
  pe_refunds :: "refund_evidence list"
  pe_dispute :: "string option"

definition evidence_ok :: "payment_evidence \<Rightarrow> bool" where
  "evidence_ok e \<longleftrightarrow> truthy (pe_captureId e) \<and> truthy (pe_merchantId e) \<and> truthy (pe_currency e)
     \<and> safe_int (pe_paidMinor e) \<and> 0 < pe_paidMinor e \<and> safe_int (pe_refundedMinor e) \<and> 0 \<le> pe_refundedMinor e
     \<and> date_parse (pe_updatedAt e) \<noteq> None"

definition payment_key :: "platform \<Rightarrow> scope \<Rightarrow> payment_evidence \<Rightarrow> string" where
  "payment_key pf sc e = key pf (json_string ''payment'' # scope_parts sc @ [json_string (pe_merchantId e), json_string (pe_captureId e)])"

definition purchase_key :: "platform \<Rightarrow> string \<Rightarrow> string" where
  "purchase_key pf paymentId = key pf [json_string ''purchase'', json_string paymentId]"

definition mapping_candidates :: "scope \<Rightarrow> payment_evidence \<Rightarrow> offer list \<Rightarrow> offer list" where
  "mapping_candidates sc e all = filter (\<lambda>x. same (of_base x) sc \<and> (case of_external x of None \<Rightarrow> False
     | Some link \<Rightarrow> truthy_opt (ex_validatedAt link) \<and> Some (ex_mappingId link) = pe_mappingId e) \<and> of_merchantId x = pe_merchantId e) all"

text \<open>The reasons for review, later ones overriding earlier ones.\<close>

definition override :: "bool \<Rightarrow> string \<Rightarrow> string option \<Rightarrow> string option" where
  "override c reason prior = (if c then Some reason else prior)"

definition evidence_problem :: "platform \<Rightarrow> payment_evidence \<Rightarrow> payment option \<Rightarrow> checkout option \<Rightarrow> offer option \<Rightarrow> nat \<Rightarrow> string option" where
  "evidence_problem pf e prior order offer candidates =
     override (case prior of None \<Rightarrow> False | Some p \<Rightarrow> py_paidMinor p \<noteq> pe_paidMinor e \<or> py_currency p \<noteq> pe_currency e
         \<or> py_checkoutId p \<noteq> map_option (\<lambda>x. rb_id (co_base x)) order) ''payment_identity_mismatch''
    (override (order = None \<and> \<not> truthy_opt (pe_buyerEmail e)) ''verified_buyer_email_required''
    (override (case offer of None \<Rightarrow> False | Some x \<Rightarrow>
         pe_currency e \<noteq> (case order of Some y \<Rightarrow> co_currency y | None \<Rightarrow> of_currency x)
         \<or> pe_paidMinor e \<noteq> (case order of Some y \<Rightarrow> co_amountMinor y | None \<Rightarrow> of_amountMinor x)) ''amount_or_currency_mismatch''
    (override (case offer of None \<Rightarrow> False | Some x \<Rightarrow> of_billing x \<noteq> None \<and> (\<not> truthy_opt (pe_paidAt e)
         \<or> date_parse (the (pe_paidAt e)) = None \<or> parsed_gt (the (pe_paidAt e)) (pf_time pf + 300000))) ''subscription_payment_period_missing''
    (override (case offer of None \<Rightarrow> False | Some x \<Rightarrow> of_billing x \<noteq> None \<and> (case order of None \<Rightarrow> True | Some y \<Rightarrow>
         co_billing y = None \<or> co_billing y \<noteq> of_billing x \<or> pe_subscriptionInterval e \<noteq> co_billing y
         \<or> \<not> truthy_opt (co_providerPlanId y) \<or> co_providerPlanId y \<noteq> pe_subscriptionPlanId e)) ''subscription_plan_mismatch''
    (override (case order of None \<Rightarrow> False | Some y \<Rightarrow> Some (co_reference y) \<noteq> pe_reference e \<or> co_merchantId y \<noteq> pe_merchantId e)
         ''order_or_merchant_mismatch''
    (case offer of None \<Rightarrow> Some (if candidates > 1 then ''ambiguous_offer_mapping'' else ''unknown_offer_mapping'')
     | Some _ \<Rightarrow> if pe_unsupported e then Some ''unsupported_payment_configuration'' else None))))))"

definition new_payment :: "platform \<Rightarrow> scope \<Rightarrow> string \<Rightarrow> string \<Rightarrow> payment_evidence \<Rightarrow> checkout option \<Rightarrow> offer option \<Rightarrow> payment" where
  "new_payment pf sc i connectionId e order offer =
     \<lparr> py_base = base pf sc i, py_connectionId = connectionId, py_merchantId = pe_merchantId e, py_providerPaymentId = pe_captureId e,
       py_providerOrderId = pe_orderId e, py_checkoutId = map_option (\<lambda>x. rb_id (co_base x)) order, py_offerVersionId = map_option of_id offer,
       py_currency = pe_currency e, py_paidMinor = pe_paidMinor e, py_refundedMinor = 0, py_state = Pending,
       py_providerUpdatedAt = pe_updatedAt e, py_reviewReason = None, py_dispute = None, py_notificationEventId = None \<rparr>"

definition record_refund :: "platform \<Rightarrow> scope \<Rightarrow> string \<Rightarrow> refund_evidence \<Rightarrow> unit tx" where
  "record_refund pf sc paymentId r =
     (if \<not> truthy (re_id r) \<or> \<not> safe_int (re_amountMinor r) \<or> re_amountMinor r < 0 then throwT ''invalid_refund_evidence''
      else (let i = key pf [json_string ''refund'', json_string paymentId, json_string (re_id r)] in
        bindT (getT refunds i) (\<lambda>old.
        if (case old of Some x \<Rightarrow> rf_state x = ''COMPLETED'' | None \<Rightarrow> False) then returnT ()
        else putT pf refunds \<lparr> rf_base = base pf sc i, rf_paymentId = paymentId, rf_providerRefundId = re_id r,
               rf_amountMinor = re_amountMinor r, rf_state = re_state r \<rparr>)))"

definition refund_total :: "string \<Rightarrow> refund list \<Rightarrow> int" where
  "refund_total paymentId rs = sum_list (map rf_amountMinor (filter (\<lambda>r. rf_paymentId r = paymentId \<and> rf_state r = ''COMPLETED'') rs))"

definition refunded_amount :: "payment_evidence \<Rightarrow> int \<Rightarrow> payment \<Rightarrow> int" where
  "refunded_amount e refundTotal p = max (max (py_refundedMinor p) (pe_refundedMinor e)) (max refundTotal (if pe_status e = Refunded then py_paidMinor p else 0))"

definition settled_state :: "payment_evidence \<Rightarrow> string option \<Rightarrow> int \<Rightarrow> payment \<Rightarrow> payment_state" where
  "settled_state e invalid refunded p =
     (if invalid \<noteq> None then (if py_state p \<in> {Refunded, Reversed} then py_state p else Needs_review)
      else if pe_status e = Reversed \<or> py_state p = Reversed then Reversed
      else if refunded \<ge> py_paidMinor p \<or> py_state p = Refunded then Refunded
      else if refunded > 0 \<or> pe_status e = Partially_refunded then Partially_refunded
      else if py_state p \<notin> {Refunded, Reversed}
         \<and> (case (date_parse (pe_updatedAt e), date_parse (py_providerUpdatedAt p)) of (Some a, Some b) \<Rightarrow> b \<le> a | _ \<Rightarrow> False)
      then pe_status e else py_state p)"

definition latest_iso :: "string \<Rightarrow> string \<Rightarrow> commerce_error + string" where
  "latest_iso a b = (case (date_parse a, date_parse b) of
     (Some x, Some y) \<Rightarrow> (case to_iso (max x y) of Some s \<Rightarrow> Inr s | None \<Rightarrow> Inl Range_error) | _ \<Rightarrow> Inl Range_error)"

text \<open>The payment after the evidence: \<open>invalid\<close> already includes the check of the refund total.\<close>

definition settled_payment :: "platform \<Rightarrow> payment_evidence \<Rightarrow> string option \<Rightarrow> int \<Rightarrow> checkout option \<Rightarrow> offer option \<Rightarrow> string option \<Rightarrow> payment
    \<Rightarrow> commerce_error + payment" where
  "settled_payment pf e invalid refunded order offer notificationEventId p =
     try_then (latest_iso (py_providerUpdatedAt p) (pe_updatedAt e)) (\<lambda>providerUpdatedAt.
     let st = settled_state e invalid refunded p in
     Inr (p\<lparr> py_refundedMinor := refunded, py_state := st,
        py_checkoutId := (if invalid = None then map_option (\<lambda>x. rb_id (co_base x)) order else py_checkoutId p),
        py_offerVersionId := (if invalid = None then map_option of_id offer else py_offerVersionId p),
        py_reviewReason := (if invalid = None then if st = Partially_refunded then Some ''partial_refund_access_remains_active'' else None else invalid),
        py_base := (py_base p)\<lparr> rb_updatedAt := now pf \<rparr>, py_providerUpdatedAt := providerUpdatedAt,
        py_dispute := (if truthy_opt (pe_dispute e) then pe_dispute e else py_dispute p),
        py_notificationEventId := (if truthy_opt notificationEventId then notificationEventId else py_notificationEventId p) \<rparr>))"

definition order_after :: "string option \<Rightarrow> payment_state \<Rightarrow> checkout \<Rightarrow> checkout" where
  "order_after invalid st x = x\<lparr> co_state := (if invalid \<noteq> None then Co_needs_review
       else if st \<in> {Completed, Partially_refunded, Refunded, Reversed} then Co_completed
       else if st = Failed then Co_failed else Co_pending), co_reviewReason := invalid \<rparr>"

definition createClaimT :: "platform \<Rightarrow> string \<Rightarrow> unit tx" where
  "createClaimT pf purchaseId =
     bindT (getT purchases purchaseId) (\<lambda>found. case found of None \<Rightarrow> returnT ()
     | Some p \<Rightarrow> if \<not> truthy_opt (pu_buyerEmail p) \<or> truthy_opt (pu_customerId p) \<or> pu_state p \<noteq> Active then returnT ()
       else bindT (listT claims) (\<lambda>cs.
         bindT (eachT (\<lambda>c. putT pf claims (c\<lparr> cl_consumedAt := Some (now pf) \<rparr>))
            (filter (\<lambda>c. cl_purchaseId c = purchaseId \<and> \<not> truthy_opt (cl_consumedAt c)) cs)) (\<lambda>_.
         bindT (fresh pf) (\<lambda>i. bindT (liftT (iso_after pf 86400000)) (\<lambda>expiresAt.
         bindT (insertT pf claims \<lparr> cl_base = base pf (rb_scope (pu_base p)) i, cl_purchaseId = purchaseId, cl_email = the (pu_buyerEmail p),
            cl_tokenHash = pf_hash pf (token_for pf ''claim'' i), cl_expiresAt = expiresAt, cl_consumedAt = None \<rparr> []) (\<lambda>_.
         bindT (queueT pf (rb_scope (pu_base p)) Claim_email i None) (\<lambda>_. returnT ())))))))"

definition grant_end :: "platform \<Rightarrow> payment_evidence \<Rightarrow> offer \<Rightarrow> commerce_error + string option" where
  "grant_end pf e offer = (case of_billing offer of
       Some interval \<Rightarrow> try_then (subscriptionPeriodEnd (case pe_paidAt e of Some t \<Rightarrow> t | None \<Rightarrow> []) interval 1) (\<lambda>s. Inr (Some s))
     | None \<Rightarrow> (case of_durationSeconds offer of None \<Rightarrow> Inr None
         | Some n \<Rightarrow> if n = 0 then Inr None else try_then (iso_after pf (n * 1000)) (\<lambda>s. Inr (Some s))))"

definition new_purchase :: "platform \<Rightarrow> scope \<Rightarrow> string \<Rightarrow> offer \<Rightarrow> offer \<Rightarrow> checkout option \<Rightarrow> string option \<Rightarrow> purchase" where
  "new_purchase pf sc paymentId offer contents order buyerEmail =
     \<lparr> pu_base = base pf sc (purchase_key pf paymentId), pu_paymentId = paymentId, pu_offerVersionId = of_id offer,
       pu_contentOfferVersionId = (if of_billing offer \<noteq> None \<or> of_collectionRoots contents \<noteq> None then Some (of_id contents) else None),
       pu_customerId = map_option co_customerId order, pu_buyerEmail = buyerEmail, pu_state = Active,
       pu_claimedAt = (if order = None then None else Some (now pf)) \<rparr>"

definition grantPurchaseT :: "platform \<Rightarrow> scope \<Rightarrow> string \<Rightarrow> payment_evidence \<Rightarrow> offer \<Rightarrow> offer \<Rightarrow> checkout option \<Rightarrow> unit tx" where
  "grantPurchaseT pf sc paymentId e offer contents order =
     bindT (case pe_buyerEmail e of Some b \<Rightarrow> if truthy b then bindT (liftT (email b)) (\<lambda>x. returnT (Some x)) else returnT None
       | None \<Rightarrow> returnT None) (\<lambda>buyerEmail.
     let p = new_purchase pf sc paymentId offer contents order buyerEmail; i = purchase_key pf paymentId in
     bindT (insertT pf purchases p [key pf [json_string ''purchase-payment'', json_string paymentId]]) (\<lambda>_.
     bindT (whenT (list_ex is_package (accessBenefits offer contents)) (ensureContentPackageT pf contents)) (\<lambda>_.
     bindT (eachT (\<lambda>b. bindT (liftT (grant_end pf e offer)) (\<lambda>endsAt.
         insertT pf entitlements \<lparr> en_base = base pf sc (grant_key pf ''grant'' i b), en_customerId = pu_customerId p, en_purchaseId = Some i,
           en_giftId = None, en_contentRemoved = False, en_source = ''payment'', en_reason = None, en_benefit = b, en_startsAt = now pf,
           en_endsAt = endsAt, en_state = Active, en_assetIds = benefit_assets pf contents b \<rparr> [])) (accessBenefits offer contents)) (\<lambda>_.
     if truthy_opt (pu_customerId p) then notify_discord pf sc (pu_customerId p) else createClaimT pf i))))"

definition revokePurchaseT :: "platform \<Rightarrow> scope \<Rightarrow> string \<Rightarrow> purchase option \<Rightarrow> unit tx" where
  "revokePurchaseT pf sc purchaseId existing =
     bindT (case existing of Some p \<Rightarrow> putT pf purchases (p\<lparr> pu_state := Revoked \<rparr>) | None \<Rightarrow> returnT ()) (\<lambda>_.
     bindT (listT entitlements) (\<lambda>all.
     bindT (eachT (\<lambda>g. putT pf entitlements (g\<lparr> en_state := Revoked \<rparr>)) (filter (\<lambda>g. en_purchaseId g = Some purchaseId) all)) (\<lambda>_.
     case existing of Some p \<Rightarrow> notify_discord pf sc (pu_customerId p) | None \<Rightarrow> returnT ())))"

definition applyEvidenceT :: "platform \<Rightarrow> scope \<Rightarrow> string \<Rightarrow> payment_evidence \<Rightarrow> string option \<Rightarrow> (payment \<times> bool) tx" where
  "applyEvidenceT pf sc connectionId e notificationEventId =
     (if \<not> evidence_ok e then throwT ''invalid_provider_evidence''
      else bindT (liftT (currencyExponent (pe_currency e))) (\<lambda>_.
      let i = payment_key pf sc e in
      bindT (getT payments i) (\<lambda>prior.
      bindT (listT checkouts) (\<lambda>all_orders.
      let order = List.find (\<lambda>x. same (co_base x) sc \<and> co_providerOrderId x = pe_orderId e \<and> truthy_opt (pe_orderId e)) all_orders in
      bindT (getT mappings (key pf (json_string ''external-mapping'' # scope_parts sc @ [json_string (pe_merchantId e), json_opt (pe_mappingId e)]))) (\<lambda>mapping.
      bindT (listT offers) (\<lambda>all_offers.
      let candidates = (if order = None then mapping_candidates sc e all_offers else []) in
      bindT (case (order, prior, mapping) of
           (Some y, _, _) \<Rightarrow> getT offers (co_offerVersionId y)
         | (None, p, m) \<Rightarrow> (case (if (case p of Some q \<Rightarrow> truthy_opt (py_offerVersionId q) | None \<Rightarrow> False) then Some (the (py_offerVersionId (the p)))
                else map_option em_offerVersionId m) of
              Some v \<Rightarrow> getT offers v
            | None \<Rightarrow> returnT (case candidates of [x] \<Rightarrow> Some x | _ \<Rightarrow> None))) (\<lambda>offer.
      if (case prior of Some p \<Rightarrow> py_connectionId p \<noteq> connectionId | None \<Rightarrow> False)
         \<or> (case order of Some y \<Rightarrow> co_connectionId y \<noteq> connectionId | None \<Rightarrow> False)
         \<or> (case offer of Some x \<Rightarrow> of_connectionId x \<noteq> connectionId | None \<Rightarrow> False)
      then throwT ''payment_connection_mismatch''
      else (let p0 = (case prior of Some p \<Rightarrow> p | None \<Rightarrow> new_payment pf sc i connectionId e order offer) in
       bindT (eachT (record_refund pf sc i) (pe_refunds e)) (\<lambda>_.
       bindT (listT refunds) (\<lambda>rs.
       let refunded = refunded_amount e (refund_total i rs) p0;
           invalid = override (refunded > py_paidMinor p0) ''refund_total_exceeds_payment'' (evidence_problem pf e prior order offer (length candidates)) in
       bindT (liftT (settled_payment pf e invalid refunded order offer notificationEventId p0)) (\<lambda>payment.
       bindT (putT pf payments payment) (\<lambda>_.
       bindT (case order of Some y \<Rightarrow> putT pf checkouts (order_after invalid (py_state payment) y) | None \<Rightarrow> returnT ()) (\<lambda>_.
       bindT (case offer of Some x \<Rightarrow> bindT (currentContentsT pf x) (\<lambda>c. returnT (Some c)) | None \<Rightarrow> returnT None) (\<lambda>contents.
       bindT (getT purchases (purchase_key pf i)) (\<lambda>existing.
       bindT (case (offer, contents) of
            (Some x, Some c) \<Rightarrow> whenT (invalid = None \<and> existing = None \<and> py_state payment \<in> {Completed, Partially_refunded})
               (grantPurchaseT pf sc i e x c order)
          | _ \<Rightarrow> returnT ()) (\<lambda>_.
       bindT (whenT (py_state payment \<in> {Refunded, Reversed}) (revokePurchaseT pf sc (purchase_key pf i) existing)) (\<lambda>_.
       bindT (auditT pf sc ''provider'' ''payment.reconcile'' i (py_reviewReason payment)) (\<lambda>_.
       returnT (payment, invalid = None)))))))))))))))))))"

fun collectT :: "('x \<Rightarrow> 'a tx) \<Rightarrow> 'x list \<Rightarrow> 'a list tx" where
  "collectT f [] = returnT []"
| "collectT f (x # xs) = bindT (f x) (\<lambda>y. bindT (collectT f xs) (\<lambda>ys. returnT (y # ys)))"

definition reconcileT :: "platform \<Rightarrow> scope \<Rightarrow> string \<Rightarrow> payment_evidence list \<Rightarrow> string option \<Rightarrow> (payment \<times> bool) list tx" where
  "reconcileT pf sc connectionId evidence notificationEventId =
     (if sc_deploymentId sc \<noteq> pf_deployment pf then throwT ''foreign_deployment''
      else bindT (if truthy_opt notificationEventId
          then bindT (getT events (the notificationEventId)) (\<lambda>found. case found of None \<Rightarrow> throwT ''verified_event_required''
            | Some v \<Rightarrow> if \<not> same (ev_base v) sc \<or> ev_connectionId v \<noteq> connectionId then throwT ''verified_event_required'' else returnT ())
          else returnT ()) (\<lambda>_.
        collectT (\<lambda>e. applyEvidenceT pf sc connectionId e notificationEventId) evidence))"


subsection \<open>Claims, gifts, grants and access\<close>

definition redeemClaimT :: "platform \<Rightarrow> string \<Rightarrow> string \<Rightarrow> string \<Rightarrow> string tx" where
  "redeemClaimT pf subjectId i token =
     bindT (customerT pf subjectId) (\<lambda>customer. bindT (getT claims i) (\<lambda>found. case found of None \<Rightarrow> throwT ''invalid_claim''
     | Some c \<Rightarrow>
         if \<not> proof_open pf (cl_expiresAt c) (cl_consumedAt c) (cl_tokenHash c) token then throwT ''invalid_claim''
         else if cl_email c \<notin> set (cu_verifiedEmails customer) then throwT ''purchase_email_verification_required''
         else bindT (getT purchases (cl_purchaseId c)) (\<lambda>found. case found of None \<Rightarrow> throwT ''invalid_claim''
           | Some p \<Rightarrow>
               if truthy_opt (pu_customerId p) \<or> pu_state p \<noteq> Active then throwT ''invalid_claim''
               else bindT (putT pf purchases (p\<lparr> pu_customerId := Some (cu_id customer), pu_claimedAt := Some (now pf) \<rparr>)) (\<lambda>_.
                 bindT (putT pf purchases (p\<lparr> pu_customerId := Some (cu_id customer), pu_claimedAt := Some (now pf), pu_buyerEmail := None \<rparr>)) (\<lambda>_.
                 bindT (putT pf claims (c\<lparr> cl_consumedAt := Some (now pf) \<rparr>)) (\<lambda>_.
                 bindT (listT entitlements) (\<lambda>all.
                 bindT (eachT (\<lambda>g. putT pf entitlements (g\<lparr> en_customerId := Some (cu_id customer) \<rparr>))
                    (filter (\<lambda>g. en_purchaseId g = Some (rb_id (pu_base p))) all)) (\<lambda>_.
                 bindT (queueT pf (rb_scope (pu_base p)) Discord (cu_id customer) None) (\<lambda>_.
                 bindT (auditT pf (rb_scope (pu_base p)) subjectId ''purchase.claim'' (rb_id (pu_base p)) None) (\<lambda>_.
                 returnT (rb_id (pu_base p))))))))))))"

definition resendClaimT :: "platform \<Rightarrow> string \<Rightarrow> string \<Rightarrow> string \<Rightarrow> unit tx" where
  "resendClaimT pf actorId ownerId purchaseId =
     bindT (getT purchases purchaseId) (\<lambda>found. case found of None \<Rightarrow> throwT ''purchase_not_found''
     | Some p \<Rightarrow> if sc_ownerId (rb_scope (pu_base p)) \<noteq> ownerId then throwT ''purchase_not_found''
       else bindT (createClaimT pf (rb_id (pu_base p))) (\<lambda>_.
         auditT pf (rb_scope (pu_base p)) actorId ''claim.resend'' (rb_id (pu_base p)) None))"

definition recoverClaimsT :: "platform \<Rightarrow> string \<Rightarrow> unit tx" where
  "recoverClaimsT pf subjectId =
     bindT (customerT pf subjectId) (\<lambda>c. bindT (listT purchases) (\<lambda>ps.
       eachT (\<lambda>p. bindT (createClaimT pf (rb_id (pu_base p))) (\<lambda>_.
            auditT pf (rb_scope (pu_base p)) subjectId ''claim.customer_recovery'' (rb_id (pu_base p)) None))
         (filter (\<lambda>p. \<not> truthy_opt (pu_customerId p) \<and> truthy_opt (pu_buyerEmail p)
            \<and> the (pu_buyerEmail p) \<in> set (cu_verifiedEmails c) \<and> pu_state p = Active) ps)))"

definition retryCustomerDiscordT :: "platform \<Rightarrow> string \<Rightarrow> unit tx" where
  "retryCustomerDiscordT pf subjectId =
     bindT (customerT pf subjectId) (\<lambda>c. bindT (listT entitlements) (\<lambda>all.
       eachT (\<lambda>sc. whenT True (queueT pf sc Discord (cu_id c) None))
         (distinct_scopes (map (\<lambda>g. rb_scope (en_base g)) (filter (\<lambda>g. en_customerId g = Some (cu_id c)) all)))))"

definition retryT :: "platform \<Rightarrow> string \<Rightarrow> string \<Rightarrow> job_kind \<Rightarrow> string \<Rightarrow> unit tx" where
  "retryT pf actorId ownerId kind i =
     bindT (getT payments i) (\<lambda>py. bindT (getT checkouts i) (\<lambda>co. bindT (getT purchases i) (\<lambda>pu.
     let b = (if kind = Reconcile then (case py of Some p \<Rightarrow> Some (py_base p) | None \<Rightarrow> map_option co_base co) else map_option pu_base pu);
         reference = (if kind = Discord then Option.bind pu pu_customerId else Some i)
     in case b of None \<Rightarrow> throwT ''record_not_found''
        | Some b \<Rightarrow> if sc_ownerId (rb_scope b) \<noteq> ownerId then throwT ''record_not_found''
          else if \<not> truthy_opt reference then throwT ''customer_not_claimed''
          else bindT (queueT pf (rb_scope b) kind (the reference) None) (\<lambda>_.
            auditT pf (rb_scope b) actorId (job_kind_name kind @ ''.retry'') i None))))"

definition giftOfferT :: "platform \<Rightarrow> string \<Rightarrow> offer \<Rightarrow> string \<Rightarrow> string \<Rightarrow> int option \<Rightarrow> string \<Rightarrow> gift tx" where
  "giftOfferT pf actorId offer requestId recipientEmail months requestHash =
     (if (case of_billing offer of Some _ \<Rightarrow> (case months of None \<Rightarrow> True | Some m \<Rightarrow> \<not> safe_int m \<or> m < 1 \<or> m > 120) | None \<Rightarrow> months \<noteq> None)
      then throwT ''invalid_gift_duration''
      else (let i = key pf [json_string ''gift'', json_string (sc_ownerId (of_scope offer)),
              json_string (environment_name (sc_environment (of_scope offer))), json_string requestId] in
       bindT (getT gifts i) (\<lambda>prior. case prior of
         Some g \<Rightarrow> if gf_requestHash g \<noteq> requestHash then throwT ''idempotency_conflict'' else returnT g
       | None \<Rightarrow>
           let g = \<lparr> gf_base = base pf (of_scope offer) i, gf_offerVersionId = of_id offer, gf_contentOfferVersionId = None,
                 gf_recipientEmail = recipientEmail, gf_requestHash = requestHash, gf_months = (if months = Some 0 then None else months),
                 gf_customerId = None, gf_claimedAt = None, gf_endsAt = None, gf_state = Gf_pending \<rparr>
           in bindT (insertT pf gifts g []) (\<lambda>_. bindT (queueT pf (of_scope offer) Gift_email i (Some i)) (\<lambda>_.
              bindT (auditT pf (of_scope offer) actorId ''gift.create'' i None) (\<lambda>_. returnT g))))))"

definition revokeGiftT :: "platform \<Rightarrow> string \<Rightarrow> string \<Rightarrow> string \<Rightarrow> unit tx" where
  "revokeGiftT pf actorId ownerId i =
     bindT (getT gifts i) (\<lambda>found. case found of None \<Rightarrow> throwT ''gift_not_found''
     | Some g \<Rightarrow> if sc_ownerId (rb_scope (gf_base g)) \<noteq> ownerId then throwT ''gift_not_found''
       else bindT (putT pf gifts (g\<lparr> gf_state := Gf_revoked \<rparr>)) (\<lambda>_.
         bindT (listT entitlements) (\<lambda>all.
         bindT (eachT (\<lambda>x. putT pf entitlements (x\<lparr> en_state := Revoked \<rparr>)) (filter (\<lambda>x. en_giftId x = Some i) all)) (\<lambda>_.
         bindT (notify_discord pf (rb_scope (gf_base g)) (gf_customerId g)) (\<lambda>_.
         auditT pf (rb_scope (gf_base g)) actorId ''gift.revoke'' i None)))))"

definition grant_resource :: "platform \<Rightarrow> scope \<Rightarrow> benefit \<Rightarrow> (string \<Rightarrow> private_asset option) \<Rightarrow> offer list \<Rightarrow> discord_guild list
    \<Rightarrow> commerce_error + string list" where
  "grant_resource pf sc b stored all gs = (case b of
       Download r \<Rightarrow> (case stored r of None \<Rightarrow> Inl (Commerce_error ''invalid_grant_resource'')
         | Some a \<Rightarrow> if \<not> same (pa_base a) sc \<or> pa_publicPreview a then Inl (Commerce_error ''invalid_grant_resource'') else Inr [rb_id (pa_base a)])
     | Discord_role r g l \<Rightarrow> if list_ex (\<lambda>x. same (dg_base x) sc \<and> dg_guildId x = g \<and> l \<in> set (dg_roleIds x)) gs then Inr []
         else Inl (Commerce_error ''invalid_grant_resource'')
     | _ \<Rightarrow> (case sort_key (\<lambda>x. - of_version x) (filter (\<lambda>x. same (of_base x) sc
             \<and> list_ex (\<lambda>y. is_gallery y = is_gallery b \<and> is_package y = is_package b \<and> resource_id y = resource_id b) (of_benefits x)) all) of
           [] \<Rightarrow> Inl (Commerce_error ''invalid_grant_resource'')
         | x # _ \<Rightarrow> Inr (if is_gallery b then of_files x else [package_key pf x])))"

definition manualGrantT :: "platform \<Rightarrow> scope \<Rightarrow> string \<Rightarrow> string \<Rightarrow> benefit \<Rightarrow> string \<Rightarrow> string option \<Rightarrow> entitlement tx" where
  "manualGrantT pf sc actorId customerId b reason endsAt =
     (if \<not> nonblank reason \<or> length reason > 1000
        \<or> (truthy_opt endsAt \<and> (case date_parse (the endsAt) of None \<Rightarrow> True | Some t \<Rightarrow> t \<le> pf_time pf))
      then throwT ''grant_reason_or_duration_invalid''
      else bindT (if truthy_opt endsAt then bindT (liftT (case to_iso (the (date_parse (the endsAt))) of Some s \<Rightarrow> Inr s | None \<Rightarrow> Inl Range_error))
             (\<lambda>s. returnT (Some s)) else returnT None) (\<lambda>ends.
       bindT (getT customers customerId) (\<lambda>found. if found = None then throwT ''customer_not_found''
       else bindT (lookT assets) (\<lambda>stored. bindT (listT offers) (\<lambda>all. bindT (listT guilds) (\<lambda>gs.
         bindT (liftT (grant_resource pf sc b stored all gs)) (\<lambda>assetIds. bindT (fresh pf) (\<lambda>i.
         let g = \<lparr> en_base = base pf sc i, en_customerId = Some customerId, en_purchaseId = None, en_giftId = None, en_contentRemoved = False,
               en_source = ''manual'', en_reason = Some reason, en_benefit = b, en_startsAt = now pf, en_endsAt = ends, en_state = Active,
               en_assetIds = assetIds \<rparr>
         in bindT (insertT pf entitlements g []) (\<lambda>_. bindT (queueT pf sc Discord customerId None) (\<lambda>_.
            bindT (auditT pf sc actorId ''entitlement.manual_grant'' i (Some reason)) (\<lambda>_. returnT g)))))))))))"

definition revokeT :: "platform \<Rightarrow> string \<Rightarrow> string \<Rightarrow> string \<Rightarrow> string \<Rightarrow> unit tx" where
  "revokeT pf actorId ownerId grantId reason =
     (if \<not> nonblank reason then throwT ''reason_required''
      else bindT (getT entitlements grantId) (\<lambda>found. case found of None \<Rightarrow> throwT ''entitlement_not_found''
      | Some g \<Rightarrow> if sc_ownerId (rb_scope (en_base g)) \<noteq> ownerId then throwT ''entitlement_not_found''
        else bindT (putT pf entitlements (g\<lparr> en_state := Revoked \<rparr>)) (\<lambda>_.
          bindT (auditT pf (rb_scope (en_base g)) actorId ''entitlement.revoke'' grantId (Some reason)) (\<lambda>_.
          notify_discord pf (rb_scope (en_base g)) (en_customerId g)))))"

definition can_read :: "platform \<Rightarrow> string \<Rightarrow> private_asset \<Rightarrow> entitlement list \<Rightarrow> bool" where
  "can_read pf customerId a grants \<longleftrightarrow>
     list_ex (\<lambda>g. en_customerId g = Some customerId \<and> same (en_base g) (rb_scope (pa_base a)) \<and> is_active pf g \<and> rb_id (pa_base a) \<in> set (en_assetIds g)) grants"

definition myAccessT :: "platform \<Rightarrow> string \<Rightarrow> (entitlement list \<times> private_asset list) tx" where
  "myAccessT pf subjectId =
     bindT (customerT pf subjectId) (\<lambda>c. bindT (claimGiftsT pf c) (\<lambda>_.
     bindT (listT entitlements) (\<lambda>all. bindT (listT assets) (\<lambda>stored.
     let grants = filter (\<lambda>g. en_customerId g = Some (cu_id c) \<and> is_active pf g) all in
     returnT (grants, filter (\<lambda>a. rb_id (pa_base a) \<in> set (concat (map en_assetIds grants))) stored)))))"

text \<open>\<open>authorizeDownload\<close> up to the signed link it then builds.\<close>

definition authorizeDownloadT :: "platform \<Rightarrow> string \<Rightarrow> string \<Rightarrow> string tx" where
  "authorizeDownloadT pf subjectId assetId =
     bindT (customerT pf subjectId) (\<lambda>c. bindT (getT assets assetId) (\<lambda>found. case found of None \<Rightarrow> throwT ''access_denied''
     | Some a \<Rightarrow> bindT (listT entitlements) (\<lambda>grants.
         if \<not> can_read pf (cu_id c) a grants then throwT ''access_denied''
         else if pa_state a \<noteq> Available then throwT (if pa_state a = Preparing then ''preparing_download'' else ''content_unavailable'')
         else liftT (iso_after pf 300000))))"

subsection \<open>Orders and delivery jobs\<close>

definition order_createdT :: "platform \<Rightarrow> string \<Rightarrow> string \<Rightarrow> string option \<Rightarrow> string \<Rightarrow> string \<Rightarrow> unit tx" where
  "order_createdT pf i orderId planId approvalUrl merchantId =
     bindT (getT checkouts i) (\<lambda>found. case found of None \<Rightarrow> liftT (Inl Type_error)
     | Some x \<Rightarrow> if truthy_opt (co_providerOrderId x) \<and> co_providerOrderId x \<noteq> Some orderId then throwT ''provider_order_conflict''
       else putT pf checkouts (x\<lparr> co_providerOrderId := Some orderId, co_providerPlanId := planId, co_approvalUrl := Some approvalUrl,
              co_merchantId := merchantId, co_state := Co_pending \<rparr>))"

definition order_stalledT :: "platform \<Rightarrow> string \<Rightarrow> unit tx" where
  "order_stalledT pf i =
     bindT (getT checkouts i) (\<lambda>found. case found of None \<Rightarrow> liftT (Inl Type_error)
     | Some x \<Rightarrow> let reason = Some ''provider_create_idempotency_window_elapsed'' in
         bindT (putT pf checkouts (x\<lparr> co_state := Co_needs_review, co_reviewReason := reason \<rparr>)) (\<lambda>_.
         auditT pf (rb_scope (co_base x)) ''worker'' ''checkout.needs_review'' i reason))"

text \<open>What the \<open>reconcile\<close> and \<open>event\<close> jobs do to an order: an approved order queues its capture, a failed one fails.\<close>

definition order_statusT :: "platform \<Rightarrow> string \<Rightarrow> bool \<Rightarrow> bool \<Rightarrow> unit tx" where
  "order_statusT pf i approved failed =
     bindT (getT checkouts i) (\<lambda>found. case found of None \<Rightarrow> liftT (Inl Type_error)
     | Some x \<Rightarrow> if co_state x = Co_completed then returnT ()
       else bindT (whenT failed (putT pf checkouts (x\<lparr> co_state := Co_failed \<rparr>))) (\<lambda>_.
         whenT approved (queueT pf (rb_scope (co_base x)) Capture i (Some i))))"

definition job_due :: "platform \<Rightarrow> delivery_job \<Rightarrow> bool" where
  "job_due pf j \<longleftrightarrow> (jb_state j \<in> {Jb_pending, Jb_failed} \<and> jb_dueAt j \<le> now pf)
     \<or> (jb_state j = Jb_running \<and> (case jb_leaseUntil j of Some t \<Rightarrow> t \<le> now pf | None \<Rightarrow> False))"

definition claimJobT :: "platform \<Rightarrow> string \<Rightarrow> delivery_job option tx" where
  "claimJobT pf workerId =
     bindT (listT jobs) (\<lambda>all. case sort_key jb_dueAt (filter (job_due pf) all) of [] \<Rightarrow> returnT None
     | j # _ \<Rightarrow>
         bindT (fresh pf) (\<lambda>u. bindT (liftT (iso_after pf 300000)) (\<lambda>leaseUntil.
         let claimed = j\<lparr> jb_state := Jb_running, jb_leaseId := Some (workerId @ CHR '':'' # u), jb_leaseUntil := Some leaseUntil,
               jb_attempts := jb_attempts j + 1 \<rparr> in
         bindT (if jb_kind j = Event then bindT (getT events (jb_referenceId j)) (\<lambda>found. case found of None \<Rightarrow> returnT ()
               | Some v \<Rightarrow> putT pf events (v\<lparr> ev_attempts := jb_attempts claimed \<rparr>)) else returnT ()) (\<lambda>_.
         bindT (putT pf jobs claimed) (\<lambda>_. returnT (Some claimed))))))"

definition finishJobT :: "platform \<Rightarrow> delivery_job \<Rightarrow> unit tx" where
  "finishJobT pf job =
     bindT (getT jobs (rb_id (jb_base job))) (\<lambda>found. case found of None \<Rightarrow> returnT ()
     | Some current \<Rightarrow> whenT (jb_leaseId current = jb_leaseId job)
         (putT pf jobs (current\<lparr> jb_state := Jb_done, jb_leaseUntil := None, jb_lastError := None \<rparr>)))"

text \<open>Seconds until the next attempt, bounded by a day and by a quarter of an hour of back-off; \<open>retryAfter\<close> is whole and not \<open>NaN\<close>.\<close>

definition retry_wait :: "int option \<Rightarrow> nat \<Rightarrow> int" where
  "retry_wait retryAfter attempts =
     max 0 (max (min 86400 (case retryAfter of Some n \<Rightarrow> n | None \<Rightarrow> 0)) (min 900 (2 ^ min attempts 10)))"

definition failJobT :: "platform \<Rightarrow> delivery_job \<Rightarrow> string \<Rightarrow> int option \<Rightarrow> unit tx" where
  "failJobT pf job code retryAfter =
     bindT (getT jobs (rb_id (jb_base job))) (\<lambda>found. case found of None \<Rightarrow> returnT ()
     | Some current \<Rightarrow> if jb_leaseId current \<noteq> jb_leaseId job then returnT ()
       else (let awaiting = (code = ''provider_order_not_approved'') in
         bindT (if jb_kind job = Event then bindT (getT events (jb_referenceId job)) (\<lambda>found. case found of None \<Rightarrow> returnT ()
               | Some v \<Rightarrow> putT pf events (v\<lparr> ev_lastError := Some code \<rparr>)) else returnT ()) (\<lambda>_.
         bindT (liftT (iso_after pf (retry_wait retryAfter (jb_attempts current) * 1000))) (\<lambda>dueAt.
         bindT (putT pf jobs (current\<lparr> jb_state := (if awaiting then Jb_pending else Jb_failed),
              jb_lastError := (if awaiting then None else Some code), jb_leaseUntil := None, jb_dueAt := dueAt \<rparr>)) (\<lambda>_.
         bindT (whenT (jb_kind job \<in> {Discord, Event, Capture, Reconcile, Package_job}
                \<and> code \<notin> {''discord_membership_required'', ''provider_order_not_approved''})
            (queueT pf (rb_scope (jb_base job)) Creator_notice (rb_id (jb_base job))
              (Some (key pf [json_string ''delivery-alert'', json_string (sc_ownerId (rb_scope (jb_base job))), int_str (pf_time pf div 86400000)])))) (\<lambda>_.
         if jb_kind job = Package_job then bindT (getT packages (jb_referenceId job)) (\<lambda>found. case found of None \<Rightarrow> returnT ()
           | Some pack \<Rightarrow> if pk_state pack = Pk_ready then returnT ()
             else bindT (putT pf packages (pack\<lparr> pk_state := Pk_unavailable \<rparr>)) (\<lambda>_.
               bindT (getT assets (pk_assetId pack)) (\<lambda>found. case found of None \<Rightarrow> returnT ()
               | Some a \<Rightarrow> putT pf assets (a\<lparr> pa_state := Unavailable \<rparr>))))
         else returnT ()))))))"

end
