(* ===== verification/Commerce_Delivery.thy ===== *)
theory Commerce_Delivery
  imports Commerce_Service
begin

text \<open>
  The delivery side of \<open>CommerceService\<close>: the worker's periodic schedule, prepared collection contents, packages, the read side
  of a download, Discord sign-in, guilds and roles, and the proof of an external payment link. As in \<open>Commerce_Service\<close> a
  definition is the body of one store transaction and remote answers are arguments.
\<close>

subsection \<open>Prepared collection contents\<close>

text \<open>An asset of the prepared contents comes with its JSON text, from which its id is derived.\<close>

record prepared_contents =
  pc_revision :: string
  pc_collectionRoots :: "string list"
  pc_galleryIds :: "string list"
  pc_title :: string
  pc_description :: string
  pc_assets :: "(string \<times> private_asset) list"

definition latest_version :: "offer \<Rightarrow> offer list \<Rightarrow> offer option" where
  "latest_version offer all = (case versions_of offer all of x # _ \<Rightarrow> Some x | [] \<Rightarrow> None)"

definition prepared_asset_ok :: "private_asset \<Rightarrow> bool" where
  "prepared_asset_ok a \<longleftrightarrow> \<not> pa_publicPreview a \<and> pa_state a = Available \<and> asset_input_ok a"

fun prepared_filesT :: "platform \<Rightarrow> offer \<Rightarrow> (string \<times> private_asset) list \<Rightarrow> string list tx" where
  "prepared_filesT pf latest [] = returnT []"
| "prepared_filesT pf latest ((json, input) # rest) =
     (if \<not> prepared_asset_ok input then throwT ''invalid_asset''
      else bindT (listT assets) (\<lambda>all.
        bindT (case List.find (\<lambda>a. same (pa_base a) (of_scope latest) \<and> pa_state a = Available \<and> \<not> pa_publicPreview a
               \<and> pa_objectId a = pa_objectId input \<and> pa_label a = pa_label input \<and> pa_checksum a = pa_checksum input) all of
             Some a \<Rightarrow> returnT (rb_id (pa_base a))
           | None \<Rightarrow> let i = key pf [json_string ''collection-asset'', json_string (sc_ownerId (of_scope latest)),
                 json_string (environment_name (sc_environment (of_scope latest))), json] in
               bindT (insertT pf assets (input\<lparr> pa_base := base pf (of_scope latest) i \<rparr>) []) (\<lambda>_. returnT i)) (\<lambda>i.
        bindT (prepared_filesT pf latest rest) (\<lambda>is. returnT (i # is)))))"

definition contents_version :: "platform \<Rightarrow> offer \<Rightarrow> offer \<Rightarrow> prepared_contents \<Rightarrow> string list \<Rightarrow> offer" where
  "contents_version pf latest current prepared files =
     (let kept = js_set files in
      current\<lparr> of_base := base pf (of_scope latest) (key pf (json_string ''collection-contents'' # scope_parts (of_scope latest)
            @ [json_string (of_id latest), json_string (pc_revision prepared)])),
         of_commandHash := None, of_version := of_version latest + 1, of_collectionRoots := Some (pc_collectionRoots prepared),
         of_contentSourceRevision := Some (pc_revision prepared), of_financialOfferVersionId := Some (financial_id latest),
         of_title := (if of_billing latest \<noteq> None then of_title latest else pc_title prepared), of_description := pc_description prepared,
         of_files := kept,
         of_benefits := map Gallery (pc_galleryIds prepared)
           @ (if list_ex is_download (of_benefits latest) then map Download kept else [])
           @ filter (\<lambda>b. is_package b \<or> is_role b) (of_benefits latest) \<rparr>)"

text \<open>The second transaction of \<open>refreshCollection\<close>, with the version the contents were prepared for.\<close>

definition refreshCollectionT :: "platform \<Rightarrow> offer \<Rightarrow> prepared_contents \<Rightarrow> unit tx" where
  "refreshCollectionT pf latest prepared =
     bindT (listT offers) (\<lambda>all. case latest_version latest all of None \<Rightarrow> throwT ''stale_content_revision''
     | Some current \<Rightarrow>
         if of_id current \<noteq> of_id latest then throwT ''stale_content_revision''
         else bindT (prepared_filesT pf latest (pc_assets prepared)) (\<lambda>files.
           let version = contents_version pf latest current prepared files in
           bindT (putT pf offers (current\<lparr> of_published := False \<rparr>)) (\<lambda>_.
           bindT (insertT pf offers version []) (\<lambda>_.
           bindT (updateAccessContentsT pf version) (\<lambda>_.
           bindT (auditT pf (of_scope version) ''collection-content-worker'' ''collection.contents.updated'' (of_id version) None) (\<lambda>_.
           whenT (list_ex is_package (of_benefits version)) (ensureContentPackageT pf version)))))))"

text \<open>The offers whose contents are refreshed before a customer's access is read; of one offer id the last version counts.\<close>

fun last_by_offer :: "offer list \<Rightarrow> (string \<times> offer) list \<Rightarrow> offer list" where
  "last_by_offer [] acc = map snd acc"
| "last_by_offer (x # xs) acc = last_by_offer xs (AList.update (of_offerId x) x acc)"

definition customerCollectionsT :: "platform \<Rightarrow> string \<Rightarrow> offer list tx" where
  "customerCollectionsT pf subjectId =
     bindT (customerT pf subjectId) (\<lambda>c. bindT (listT purchases) (\<lambda>ps. bindT (listT gifts) (\<lambda>gs. bindT (lookT offers) (\<lambda>stored.
     let ids = map pu_offerVersionId (filter (\<lambda>p. pu_customerId p = Some (cu_id c) \<and> pu_state p = Active) ps)
           @ map gf_offerVersionId (filter (\<lambda>g. gf_state g \<noteq> Gf_revoked \<and> (gf_customerId g = Some (cu_id c)
               \<or> (gf_state g = Gf_pending \<and> gf_recipientEmail g \<in> set (cu_verifiedEmails c)))) gs)
     in returnT (last_by_offer (List.map_filter stored ids) [])))))"

subsection \<open>Reading orders, purchases and gifts\<close>

record order_view =
  ov_order :: checkout
  ov_payments :: "payment list"
  ov_purchases :: "purchase list"
  ov_collectionPurchaseId :: "string option"

definition orderT :: "platform \<Rightarrow> string \<Rightarrow> string \<Rightarrow> order_view tx" where
  "orderT pf subjectId i =
     bindT (customerT pf subjectId) (\<lambda>c. bindT (getT checkouts i) (\<lambda>found. case found of None \<Rightarrow> throwT ''checkout_not_found''
     | Some order \<Rightarrow> if co_customerId order \<noteq> cu_id c then throwT ''checkout_not_found''
       else bindT (lookT payments) (\<lambda>paid. bindT (listT payments) (\<lambda>pays. bindT (listT purchases) (\<lambda>ps. bindT (listT entitlements) (\<lambda>grants.
         let mine = filter (\<lambda>p. pu_customerId p = Some (cu_id c) \<and> Option.bind (paid (pu_paymentId p)) py_checkoutId = Some i) ps;
             open_grant = (\<lambda>p g. en_customerId g = Some (cu_id c) \<and> en_purchaseId g = Some (rb_id (pu_base p)) \<and> is_gallery (en_benefit g)
               \<and> is_active pf g)
         in returnT \<lparr> ov_order = order, ov_payments = filter (\<lambda>p. py_checkoutId p = Some i) pays, ov_purchases = mine,
              ov_collectionPurchaseId = map_option (\<lambda>p. rb_id (pu_base p))
                (List.find (\<lambda>p. pu_state p = Active \<and> list_ex (open_grant p) grants) mine) \<rparr>))))))"

definition giftsT :: "platform \<Rightarrow> string \<Rightarrow> (gift \<times> offer option \<times> offer option \<times> entitlement list) list tx" where
  "giftsT pf subjectId =
     bindT (customerT pf subjectId) (\<lambda>c. bindT (claimGiftsT pf c) (\<lambda>_.
     bindT (listT gifts) (\<lambda>gs. bindT (lookT offers) (\<lambda>stored. bindT (listT entitlements) (\<lambda>grants.
     returnT (map (\<lambda>g. (g, stored (gf_offerVersionId g),
         stored (case gf_contentOfferVersionId g of Some v \<Rightarrow> v | None \<Rightarrow> gf_offerVersionId g),
         filter (\<lambda>e. en_giftId e = Some (rb_id (gf_base g))) grants))
       (filter (\<lambda>g. gf_customerId g = Some (cu_id c)) gs)))))))"

text \<open>\<open>storefront\<close>: the newest version of every offer of the scope, in the order the offers were first met, if it is published.\<close>

fun newest :: "offer list \<Rightarrow> (string \<times> offer) list \<Rightarrow> offer list" where
  "newest [] acc = map snd acc"
| "newest (x # xs) acc = newest xs (case map_of acc (of_offerId x) of
       None \<Rightarrow> acc @ [(of_offerId x, x)]
     | Some y \<Rightarrow> if of_version y < of_version x then AList.update (of_offerId x) x acc else acc)"

definition storefrontT :: "scope \<Rightarrow> (offer \<times> (string \<times> string) list) list tx" where
  "storefrontT sc =
     bindT (listT offers) (\<lambda>all. bindT (lookT assets) (\<lambda>stored.
     returnT (map (\<lambda>x. (x\<lparr> of_merchantId := [] \<rparr>, map (\<lambda>i. (i, case stored i of Some a \<Rightarrow> pa_label a | None \<Rightarrow> ''Unavailable item'')) (of_files x)))
       (filter of_published (newest (filter (\<lambda>x. same (of_base x) sc) all) [])))))"

subsection \<open>Downloads and packages\<close>

text \<open>\<open>downloadAsset\<close> for a token whose signature holds: the claims are its verified JSON payload.\<close>

record download_claims =
  dc_assetId :: string
  dc_customerId :: string
  dc_expiresAt :: string
  dc_deploymentId :: string

definition downloadAssetT :: "platform \<Rightarrow> string \<Rightarrow> download_claims \<Rightarrow> private_asset tx" where
  "downloadAssetT pf assetId c =
     (if dc_assetId c \<noteq> assetId \<or> dc_deploymentId c \<noteq> pf_deployment pf \<or> date_parse (dc_expiresAt c) = None \<or> dc_expiresAt c \<le> now pf
      then throwT ''invalid_download''
      else bindT (getT assets assetId) (\<lambda>found. case found of None \<Rightarrow> throwT ''access_denied''
      | Some a \<Rightarrow> bindT (listT entitlements) (\<lambda>grants.
          if \<not> can_read pf (dc_customerId c) a grants then throwT ''access_denied''
          else if pa_state a \<noteq> Available then throwT ''content_unavailable'' else returnT a)))"

text \<open>The originals of a package, all of which must still be available when it is downloaded.\<close>

definition package_sourcesT :: "string \<Rightarrow> private_asset list tx" where
  "package_sourcesT assetId =
     bindT (listT packages) (\<lambda>all. case List.find (\<lambda>p. pk_assetId p = assetId) all of None \<Rightarrow> returnT []
     | Some pack \<Rightarrow> bindT (getT offers (pk_offerVersionId pack)) (\<lambda>found. case found of None \<Rightarrow> returnT []
       | Some offer \<Rightarrow> bindT (lookT assets) (\<lambda>stored.
           if list_ex (\<lambda>i. case stored i of None \<Rightarrow> True | Some a \<Rightarrow> pa_state a \<noteq> Available) (of_files offer) then throwT ''content_unavailable''
           else returnT (List.map_filter stored (of_files offer)))))"

definition previewT :: "string \<Rightarrow> private_asset tx" where
  "previewT i = bindT (getT assets i) (\<lambda>found. case found of None \<Rightarrow> throwT ''preview_not_found''
     | Some a \<Rightarrow> if \<not> pa_publicPreview a \<or> pa_state a \<noteq> Available then throwT ''preview_not_found'' else returnT a)"

text \<open>\<open>buildPackage\<close>: its snapshot with the checks before the archive is written, and the transaction that records the archive.\<close>

definition package_snapshotT :: "platform \<Rightarrow> delivery_job \<Rightarrow> int \<Rightarrow> (package_record \<times> offer \<times> private_asset list) option tx" where
  "package_snapshotT pf job limit =
     bindT (getT packages (jb_referenceId job)) (\<lambda>found. case found of None \<Rightarrow> returnT None
     | Some pack \<Rightarrow> bindT (getT offers (pk_offerVersionId pack)) (\<lambda>found. case found of None \<Rightarrow> returnT None
       | Some offer \<Rightarrow> bindT (lookT assets) (\<lambda>stored.
           if pk_state pack = Pk_ready then returnT None
           else if list_ex (\<lambda>i. case stored i of None \<Rightarrow> True | Some a \<Rightarrow> pa_state a \<noteq> Available \<or> pa_publicPreview a
               \<or> \<not> same (pa_base a) (rb_scope (jb_base job))) (of_files offer) then throwT ''package_content_unavailable''
           else (let files = List.map_filter stored (of_files offer) in
             if sum_list (map pa_byteLength files) > limit then throwT ''creator_storage_limit'' else returnT (Some (pack, offer, files))))))"

definition package_builtT :: "platform \<Rightarrow> delivery_job \<Rightarrow> offer \<Rightarrow> string \<Rightarrow> string \<Rightarrow> int \<Rightarrow> unit tx" where
  "package_builtT pf job offer objectId checksum byteLength =
     bindT (getT packages (jb_referenceId job)) (\<lambda>found. case found of None \<Rightarrow> liftT (Inl Type_error)
     | Some pack \<Rightarrow>
         bindT (putT pf assets \<lparr> pa_base = base pf (rb_scope (jb_base job)) (pk_assetId pack), pa_source = None, pa_label = of_title offer @ ''.zip'',
            pa_contentType = ''application/zip'', pa_byteLength = byteLength, pa_checksum = checksum, pa_objectId = objectId,
            pa_state = Available, pa_publicPreview = False \<rparr>) (\<lambda>_.
         putT pf packages (pack\<lparr> pk_state := Pk_ready \<rparr>)))"

subsection \<open>Discord sign-in, guilds and roles\<close>

definition beginDiscordT :: "platform \<Rightarrow> string \<Rightarrow> (string \<times> string) option \<Rightarrow> environment \<Rightarrow> string tx" where
  "beginDiscordT pf subjectId creator v =
     bindT (customerT pf subjectId) (\<lambda>c. bindT (fresh pf) (\<lambda>i.
     let token = token_for pf ''oauth'' i in
     bindT (scopeT pf (case creator of Some (ownerId, _) \<Rightarrow> ownerId | None \<Rightarrow> subjectId) v) (\<lambda>sc.
     bindT (liftT (iso_after pf 600000)) (\<lambda>expiresAt.
     bindT (insertT pf oauth \<lparr> oa_base = base pf sc i, oa_customerId = cu_id c, oa_creatorSubjectId = map_option snd creator,
        oa_tokenHash = pf_hash pf token, oa_expiresAt = expiresAt, oa_consumedAt = None \<rparr> []) (\<lambda>_.
     returnT (i @ CHR ''.'' # token))))))"

definition oauth_stateT :: "platform \<Rightarrow> string \<Rightarrow> string \<Rightarrow> oauth_state tx" where
  "oauth_stateT pf subjectId state =
     (case split_credential state of None \<Rightarrow> throwT ''invalid_oauth_state''
      | Some (i, token) \<Rightarrow>
          bindT (customerT pf subjectId) (\<lambda>c. bindT (getT oauth i) (\<lambda>found. case found of None \<Rightarrow> throwT ''invalid_oauth_state''
          | Some x \<Rightarrow> if oa_customerId x \<noteq> cu_id c \<or> \<not> proof_open pf (oa_expiresAt x) (oa_consumedAt x) (oa_tokenHash x) token
              then throwT ''invalid_oauth_state'' else returnT x)))"

text \<open>\<open>discordFlow\<close>, and the first transaction of \<open>completeDiscord\<close>.\<close>

definition discordFlowT :: "platform \<Rightarrow> string \<Rightarrow> string \<Rightarrow> (bool \<times> environment \<times> string) tx" where
  "discordFlowT pf subjectId state =
     bindT (oauth_stateT pf subjectId state) (\<lambda>x.
       returnT (truthy_opt (oa_creatorSubjectId x), sc_environment (rb_scope (oa_base x)), sc_ownerId (rb_scope (oa_base x))))"

definition consumeDiscordT :: "platform \<Rightarrow> string \<Rightarrow> string \<Rightarrow> oauth_state tx" where
  "consumeDiscordT pf subjectId state =
     bindT (oauth_stateT pf subjectId state) (\<lambda>x.
     let used = x\<lparr> oa_consumedAt := Some (now pf) \<rparr> in bindT (putT pf oauth used) (\<lambda>_. returnT used))"

text \<open>\<open>completeDiscord\<close> and \<open>configureDiscordSetup\<close> record a validated guild; one guild serves one environment.\<close>

definition configureGuildT :: "platform \<Rightarrow> scope \<Rightarrow> string \<Rightarrow> string \<Rightarrow> string list \<Rightarrow> string \<Rightarrow> unit tx" where
  "configureGuildT pf sc actorId guildId roleIds inviteUrl =
     bindT (listT guilds) (\<lambda>gs.
     if list_ex (\<lambda>g. dg_guildId g = guildId \<and> sc_environment (rb_scope (dg_base g)) \<noteq> sc_environment sc) gs then throwT ''discord_environment_conflict''
     else bindT (putT pf guilds \<lparr> dg_base = base pf sc (key pf [json_string ''guild'', json_string (sc_ownerId sc),
          json_string (environment_name (sc_environment sc)), json_string guildId]), dg_guildId = guildId, dg_roleIds = roleIds, dg_inviteUrl = inviteUrl \<rparr>) (\<lambda>_.
       auditT pf sc actorId ''discord.configure'' guildId None))"

definition connectDiscordT :: "platform \<Rightarrow> string \<Rightarrow> string \<Rightarrow> unit tx" where
  "connectDiscordT pf subjectId discordUserId =
     bindT (customerT pf subjectId) (\<lambda>c.
     bindT (putT pf customers (c\<lparr> cu_discordUserId := Some discordUserId \<rparr>)) (\<lambda>_.
     bindT (listT entitlements) (\<lambda>grants.
       eachT (\<lambda>sc. whenT True (queueT pf sc Discord (cu_id c) None))
         (distinct_scopes (map (\<lambda>g. rb_scope (en_base g)) (filter (\<lambda>g. en_customerId g = Some (cu_id c)) grants))))))"

text \<open>\<open>deliverDiscord\<close>: the roles to compare, each by guild, role and member.\<close>

record role_target =
  tg_guildId :: string
  tg_roleId :: string
  tg_userId :: string
  tg_desired :: bool

definition same_target :: "role_target \<Rightarrow> role_target \<Rightarrow> bool" where
  "same_target a b \<longleftrightarrow> tg_guildId a = tg_guildId b \<and> tg_roleId a = tg_roleId b \<and> tg_userId a = tg_userId b"

definition add_target :: "role_target \<Rightarrow> role_target list \<Rightarrow> role_target list" where
  "add_target t ts = (if list_ex (same_target t) ts then ts else ts @ [t])"

definition role_targetsT :: "platform \<Rightarrow> delivery_job \<Rightarrow> role_target list tx" where
  "role_targetsT pf job =
     (let sc = rb_scope (jb_base job); c = jb_referenceId job in
      bindT (getT customers c) (\<lambda>found. bindT (listT entitlements) (\<lambda>grants. bindT (listT discordRoles) (\<lambda>roles.
      let granted = List.map_filter (\<lambda>g. case (en_benefit g, Option.bind found cu_discordUserId) of
              (Discord_role r g' l, Some u) \<Rightarrow> if truthy u then Some \<lparr> tg_guildId = g', tg_roleId = l, tg_userId = u, tg_desired = True \<rparr> else None
            | _ \<Rightarrow> None) (filter (\<lambda>g. en_customerId g = Some c \<and> same (en_base g) sc \<and> is_active pf g) grants);
          held = map (\<lambda>r. \<lparr> tg_guildId = dr_guildId r, tg_roleId = dr_roleId r, tg_userId = dr_discordUserId r, tg_desired = False \<rparr>)
            (filter (\<lambda>r. dr_customerId r = c \<and> same (dr_base r) sc) roles)
      in returnT (fold add_target (granted @ held) [])))))"

text \<open>Whether any customer's active grant asks for the role, for the member's Discord account.\<close>

definition role_wanted :: "platform \<Rightarrow> role_target \<Rightarrow> entitlement list \<Rightarrow> (string \<Rightarrow> customer option) \<Rightarrow> bool" where
  "role_wanted pf t grants stored \<longleftrightarrow> list_ex (\<lambda>g. (case en_benefit g of Discord_role _ g' l \<Rightarrow> g' = tg_guildId t \<and> l = tg_roleId t | _ \<Rightarrow> False)
     \<and> is_active pf g \<and> Option.bind (stored (case en_customerId g of Some c \<Rightarrow> c | None \<Rightarrow> [])) cu_discordUserId = Some (tg_userId t)) grants"

definition role_key :: "platform \<Rightarrow> delivery_job \<Rightarrow> role_target \<Rightarrow> string" where
  "role_key pf job t = key pf [json_string ''discord-role'', json_string (sc_ownerId (rb_scope (jb_base job))),
     json_string (environment_name (sc_environment (rb_scope (jb_base job)))), json_string (jb_referenceId job),
     json_string (tg_guildId t), json_string (tg_roleId t), json_string (tg_userId t)]"

text \<open>The observation before the provider is called; \<open>member\<close> is the roles the member has, if it is a member of the guild.\<close>

definition observed_role :: "bool \<Rightarrow> bool \<Rightarrow> string list option \<Rightarrow> role_target \<Rightarrow> discord_role \<Rightarrow> discord_role" where
  "observed_role managed desired member t r =
     (let actual = (case member of Some rs \<Rightarrow> tg_roleId t \<in> set rs | None \<Rightarrow> False) in
      r\<lparr> dr_desired := desired, dr_actual := actual,
         dr_status := (if member = None \<and> desired then Role_needs_membership else Role_pending),
         dr_managed := (dr_managed r \<or> (member \<noteq> None \<and> desired \<and> \<not> actual) \<or> managed) \<rparr>)"

definition observeRoleT :: "platform \<Rightarrow> delivery_job \<Rightarrow> role_target \<Rightarrow> string list option \<Rightarrow> discord_role tx" where
  "observeRoleT pf job t member =
     (let i = role_key pf job t; actual = (case member of Some rs \<Rightarrow> tg_roleId t \<in> set rs | None \<Rightarrow> False) in
      bindT (getT discordRoles i) (\<lambda>old. bindT (listT discordRoles) (\<lambda>roles. bindT (listT entitlements) (\<lambda>grants. bindT (lookT customers) (\<lambda>stored.
      let managed = list_ex (\<lambda>r. dr_guildId r = tg_guildId t \<and> dr_roleId r = tg_roleId t \<and> dr_discordUserId r = tg_userId t
            \<and> dr_managed r \<and> \<not> dr_preexisting r) roles;
          desired = role_wanted pf t grants stored;
          r = observed_role managed desired member t (case old of Some r \<Rightarrow> r
            | None \<Rightarrow> \<lparr> dr_base = base pf (rb_scope (jb_base job)) i, dr_customerId = jb_referenceId job, dr_discordUserId = tg_userId t,
                dr_guildId = tg_guildId t, dr_roleId = tg_roleId t, dr_managed = managed, dr_preexisting = actual \<and> \<not> managed,
                dr_desired = desired, dr_actual = actual, dr_status = Role_pending, dr_lastError = None \<rparr>)
      in bindT (putT pf discordRoles r) (\<lambda>_. returnT r))))))"

datatype role_action = Add_role | Remove_role | Keep_role

definition role_step :: "bool \<Rightarrow> discord_role \<Rightarrow> role_action" where
  "role_step is_member r =
     (if is_member \<and> dr_desired r \<and> \<not> dr_actual r then Add_role
      else if is_member \<and> \<not> dr_desired r \<and> dr_actual r \<and> dr_managed r \<and> \<not> dr_preexisting r then Remove_role else Keep_role)"

definition role_done :: "role_action \<Rightarrow> discord_role \<Rightarrow> discord_role" where
  "role_done a r = r\<lparr> dr_actual := (case a of Add_role \<Rightarrow> True | Remove_role \<Rightarrow> False | Keep_role \<Rightarrow> dr_actual r),
     dr_status := Role_delivered, dr_lastError := None \<rparr>"

definition roleConflictT :: "platform \<Rightarrow> discord_role \<Rightarrow> unit tx" where
  "roleConflictT pf r =
     (let conflict = Some ''discord_delivery_conflict'' in
      bindT (putT pf discordRoles (r\<lparr> dr_status := Role_conflict, dr_lastError := conflict \<rparr>)) (\<lambda>_.
      auditT pf (rb_scope (dr_base r)) ''worker'' ''discord.conflict'' (rb_id (dr_base r)) conflict))"

definition settleRoleT :: "platform \<Rightarrow> delivery_job \<Rightarrow> role_target \<Rightarrow> discord_role \<Rightarrow> unit tx" where
  "settleRoleT pf job t r =
     bindT (listT entitlements) (\<lambda>grants. bindT (lookT customers) (\<lambda>stored.
     let desired = role_wanted pf t grants stored in
     bindT (putT pf discordRoles (r\<lparr> dr_desired := desired \<rparr>)) (\<lambda>_.
     if desired \<noteq> dr_actual r \<and> (desired \<or> (dr_managed r \<and> \<not> dr_preexisting r))
     then whenT True (queueT pf (rb_scope (jb_base job)) Discord (jb_referenceId job) None)
     else whenT (case stored (jb_referenceId job) of Some c \<Rightarrow> truthy_opt (cu_erasedAt c) | None \<Rightarrow> False) (removeT discordRoles (rb_id (dr_base r))))))"

subsection \<open>External payment links\<close>

definition externalMappingT :: "platform \<Rightarrow> string \<Rightarrow> string \<Rightarrow> string \<Rightarrow> string \<Rightarrow> unit tx" where
  "externalMappingT pf actorId offerId paymentId merchantId =
     bindT (getT offers offerId) (\<lambda>found. case found of None \<Rightarrow> liftT (Inl Type_error)
     | Some x \<Rightarrow> (case of_external x of None \<Rightarrow> liftT (Inl Type_error)
       | Some link \<Rightarrow>
           let i = key pf (json_string ''external-mapping'' # scope_parts (of_scope x) @ [json_string merchantId, json_string (ex_mappingId link)]) in
           bindT (getT mappings i) (\<lambda>existing. bindT (listT offers) (\<lambda>all.
           if \<not> of_published x \<or> (case existing of Some e \<Rightarrow> em_offerVersionId e \<noteq> of_id x | None \<Rightarrow> False)
              \<or> list_ex (\<lambda>y. of_id y \<noteq> of_id x \<and> same (of_base y) (of_scope x) \<and> of_merchantId y = merchantId
                  \<and> (case of_external y of None \<Rightarrow> False | Some z \<Rightarrow> truthy_opt (ex_validatedAt z) \<and> ex_mappingId z = ex_mappingId link)) all
           then throwT ''external_mapping_conflict''
           else bindT (if existing = None then insertT pf mappings \<lparr> em_base = base pf (of_scope x) i, em_merchantId = merchantId,
                  em_mappingId = ex_mappingId link, em_offerVersionId = of_id x, em_evidenceId = paymentId \<rparr> [i] else returnT ()) (\<lambda>_.
             bindT (putT pf offers (x\<lparr> of_merchantId := merchantId,
                of_external := Some (link\<lparr> ex_validatedAt := Some (now pf), ex_evidenceId := Some paymentId \<rparr>) \<rparr>)) (\<lambda>_.
             bindT (auditT pf (of_scope x) actorId ''external_mapping.validate'' (of_id x) None) (\<lambda>_.
             whenT True (queueT pf (of_scope x) Reconcile paymentId None))))))))"

subsection \<open>The periodic schedule\<close>

text \<open>\<open>queue_upto\<close> queues until the batch is full; a job that was already queued does not count.\<close>

fun queue_upto :: "platform \<Rightarrow> nat \<Rightarrow> nat \<Rightarrow> (scope \<times> job_kind \<times> string \<times> string) list \<Rightarrow> nat tx" where
  "queue_upto pf batch n [] = returnT n"
| "queue_upto pf batch n ((sc, kind, i, dedup) # rest) =
     (if batch \<le> n then returnT n
      else bindT (queueT pf sc kind i (Some dedup)) (\<lambda>added. queue_upto pf batch (if added then n + 1 else n) rest))"

definition open_order :: "checkout \<Rightarrow> bool" where
  "open_order x \<longleftrightarrow> co_state x \<in> {Co_creating, Co_pending}
     \<or> (co_billing x \<noteq> None \<and> co_state x = Co_completed
        \<and> (case co_subscriptionState x of Some v \<Rightarrow> v | None \<Rightarrow> []) \<notin> {''CANCELLED'', ''EXPIRED''})"

definition order_job :: "platform \<Rightarrow> checkout \<Rightarrow> scope \<times> job_kind \<times> string \<times> string" where
  "order_job pf x = (let i = rb_id (co_base x) in
     if co_state x = Co_creating then (rb_scope (co_base x), Create_order, i, i)
     else (rb_scope (co_base x), Reconcile, i, key pf [json_string ''pending-order'', json_string i, int_str (pf_time pf div 900000)]))"

definition payment_job :: "platform \<Rightarrow> payment \<Rightarrow> scope \<times> job_kind \<times> string \<times> string" where
  "payment_job pf p = (let i = rb_id (py_base p) in
     (rb_scope (py_base p), Reconcile, i, key pf [json_string ''recent'', json_string i, int_str (pf_time pf div 86400000)]))"

definition backlogT :: "platform \<Rightarrow> scope \<Rightarrow> unit tx" where
  "backlogT pf sc =
     (let owner = json_string (sc_ownerId sc) in
      bindT (rateT pf (key pf [owner, json_string (environment_name (sc_environment sc))]) ''backlog_alert'' 1 3600) (\<lambda>ok.
      whenT ok (bindT (auditT pf sc ''worker'' ''operations.reconciliation_backlog'' (sc_ownerId sc) None) (\<lambda>_.
        queueT pf sc Creator_notice (sc_ownerId sc) (Some (key pf [json_string ''backlog'', owner, int_str (pf_time pf div 86400000)]))))))"

definition convergeT :: "platform \<Rightarrow> scope \<times> string \<Rightarrow> unit tx" where
  "convergeT pf target = (case target of (sc, c) \<Rightarrow> whenT True (queueT pf sc Discord c
     (Some (key pf [json_string ''discord-converge'', json_string (sc_ownerId sc), json_string (environment_name (sc_environment sc)),
        json_string c, int_str (pf_time pf div 900000)]))))"

definition expired_role :: "platform \<Rightarrow> entitlement \<Rightarrow> bool" where
  "expired_role pf g \<longleftrightarrow> is_role (en_benefit g) \<and> truthy_opt (en_endsAt g) \<and> the (en_endsAt g) \<le> now pf \<and> en_state g = Active"

definition expireRoleT :: "platform \<Rightarrow> entitlement \<Rightarrow> unit tx" where
  "expireRoleT pf g = bindT (putT pf entitlements (g\<lparr> en_state := Revoked \<rparr>)) (\<lambda>_. notify_discord pf (rb_scope (en_base g)) (en_customerId g))"

definition pruneT :: "'r kind \<Rightarrow> ('r \<Rightarrow> bool) \<Rightarrow> unit tx" where
  "pruneT K old = bindT (listT K) (\<lambda>all. eachT (\<lambda>r. removeT K (rb_id (kd_base K r))) (filter old all))"

definition cleanupT :: "platform \<Rightarrow> unit tx" where
  "cleanupT pf =
     bindT (listT events) (\<lambda>all. bindT (eachT (\<lambda>e. putT pf events (e\<lparr> ev_payload := None \<rparr>))
        (filter (\<lambda>e. truthy_opt (ev_payload e) \<and> ev_payloadExpiresAt e \<le> now pf) all)) (\<lambda>_.
     bindT (pruneT audits (\<lambda>a. parsed_lt (rb_createdAt (au_base a)) (pf_time pf - 365 * 86400000))) (\<lambda>_.
     bindT (pruneT rates (\<lambda>r. parsed_lt (rt_windowAt r) (pf_time pf - 86400000))) (\<lambda>_.
     bindT (pruneT sessions (\<lambda>x. cs_expiresAt x \<le> now pf)) (\<lambda>_.
     bindT (pruneT logins (\<lambda>x. el_expiresAt x \<le> now pf)) (\<lambda>_.
     bindT (pruneT emailProofs (\<lambda>x. truthy_opt (ep_consumedAt x) \<or> ep_expiresAt x \<le> now pf)) (\<lambda>_.
     bindT (pruneT claims (\<lambda>x. truthy_opt (cl_consumedAt x) \<or> cl_expiresAt x \<le> now pf)) (\<lambda>_.
     pruneT oauth (\<lambda>x. truthy_opt (oa_consumedAt x) \<or> oa_expiresAt x \<le> now pf)))))))))"

definition scheduleT :: "platform \<Rightarrow> nat \<Rightarrow> int \<Rightarrow> unit tx" where
  "scheduleT pf batch recentDays =
     bindT (listT checkouts) (\<lambda>orders. bindT (queue_upto pf batch 0 (map (order_job pf) (filter open_order orders))) (\<lambda>n.
     bindT (listT payments) (\<lambda>pays. bindT (queue_upto pf batch n (map (payment_job pf)
        (filter (\<lambda>p. py_state p \<in> {Completed, Partially_refunded} \<and> parsed_gt (rb_createdAt (py_base p)) (pf_time pf - recentDays * 86400000)) pays))) (\<lambda>_.
     bindT (listT jobs) (\<lambda>queued. bindT (eachT (backlogT pf) (distinct_scopes (map (\<lambda>j. rb_scope (jb_base j))
        (filter (\<lambda>j. jb_state j \<noteq> Jb_done \<and> parsed_lt (rb_createdAt (jb_base j)) (pf_time pf - 900000)) queued)))) (\<lambda>_.
     bindT (listT discordRoles) (\<lambda>roles. bindT (listT entitlements) (\<lambda>grants.
     bindT (eachT (convergeT pf) (js_set (map (\<lambda>r. (rb_scope (dr_base r), dr_customerId r)) roles
        @ map (\<lambda>g. (rb_scope (en_base g), the (en_customerId g)))
            (filter (\<lambda>g. is_role (en_benefit g) \<and> truthy_opt (en_customerId g) \<and> is_active pf g) grants)))) (\<lambda>_.
     bindT (listT entitlements) (\<lambda>all. bindT (eachT (expireRoleT pf) (filter (expired_role pf) all)) (\<lambda>_.
     cleanupT pf)))))))))))"

end
