(* ===== verification/Commerce_Access.thy ===== *)
theory Commerce_Access
  imports Commerce_Delivery
begin

text \<open>
  What the commerce transactions keep: every active grant is backed by a purchase that is active or a gift that is claimed,
  and every active purchase by a payment that was neither refunded nor reversed. The invariant speaks about four tables;
  transactions that write other tables only maintain it because they are blind to it.
\<close>

subsection \<open>Rules for the control structure of transactions\<close>

lemma maintains_if [tx_rules]: "(c \<Longrightarrow> maintains I a) \<Longrightarrow> (\<not> c \<Longrightarrow> maintains I b) \<Longrightarrow> maintains I (if c then a else b)"
  by simp

lemma maintains_option [tx_rules]:
  "(v = None \<Longrightarrow> maintains I a) \<Longrightarrow> (\<And>x. v = Some x \<Longrightarrow> maintains I (b x)) \<Longrightarrow> maintains I (case v of None \<Rightarrow> a | Some x \<Rightarrow> b x)"
  by (cases v) auto

lemma maintains_list_case [tx_rules]:
  "(v = [] \<Longrightarrow> maintains I a) \<Longrightarrow> (\<And>x xs. v = x # xs \<Longrightarrow> maintains I (b x xs)) \<Longrightarrow> maintains I (case v of [] \<Rightarrow> a | x # xs \<Rightarrow> b x xs)"
  by (cases v) auto

lemma maintains_prod [tx_rules]: "(\<And>x y. v = (x, y) \<Longrightarrow> maintains I (b x y)) \<Longrightarrow> maintains I (case v of (x, y) \<Rightarrow> b x y)"
  by (cases v) auto

lemma triple_pure: "(C \<Longrightarrow> triple P m Q) \<Longrightarrow> triple (\<lambda>s. P s \<and> C) m Q"
  by (auto simp: triple_def)

lemma triple_maintains: "maintains I m \<Longrightarrow> triple I m (\<lambda>x. I)"
  by (simp add: maintains_def)

lemma maintainsI: "triple I m (\<lambda>x. I) \<Longrightarrow> maintains I m"
  by (simp add: maintains_def)

lemma maintains_seq: "triple I m R \<Longrightarrow> (\<And>x. triple (R x) (f x) (\<lambda>y. I)) \<Longrightarrow> maintains I (bindT m f)"
  by (rule maintainsI) (rule triple_bind)

subsection \<open>The invariant\<close>

definition wf_tbl :: "('r \<Rightarrow> record_base) \<Rightarrow> 'r tbl \<Rightarrow> bool" where
  "wf_tbl b t \<longleftrightarrow> distinct (map fst t) \<and> (\<forall>(k, r) \<in> set t. rb_id (b r) = k)"

lemma wf_tbl_update: "wf_tbl b t \<Longrightarrow> wf_tbl b (AList.update (rb_id (b r)) r t)"
  using set_alist_update [of "rb_id (b r)" r t] by (auto simp: wf_tbl_def distinct_update)

lemma wf_tbl_append: "wf_tbl b t \<Longrightarrow> map_of t (rb_id (b r)) = None \<Longrightarrow> wf_tbl b (t @ [(rb_id (b r), r)])"
  by (auto simp: wf_tbl_def map_of_eq_None_iff)

lemma wf_tbl_row: "wf_tbl b t \<Longrightarrow> r \<in> snd ` set t \<longleftrightarrow> map_of t (rb_id (b r)) = Some r"
  by (force simp: wf_tbl_def dest: map_of_SomeD)

definition pkey :: "(string \<Rightarrow> string) \<Rightarrow> string \<Rightarrow> string" where
  "pkey h paymentId = h (json_array [json_string ''purchase'', json_string paymentId])"

lemma purchase_key_pkey [simp]: "purchase_key pf i = pkey (pf_hash pf) i"
  by (simp add: purchase_key_def pkey_def key_def)

definition final :: "payment_state \<Rightarrow> bool" where
  "final st \<longleftrightarrow> st = Refunded \<or> st = Reversed"

definition backed :: "commerce \<Rightarrow> entitlement \<Rightarrow> bool" where
  "backed s g \<longleftrightarrow>
     (\<forall>i. en_purchaseId g = Some i \<longrightarrow> (\<exists>p. row purchases i s = Some p \<and> pu_state p = Active))
     \<and> (\<forall>i. en_giftId g = Some i \<longrightarrow> (\<exists>x. row gifts i s = Some x \<and> gf_state x = Gf_claimed))"

definition single_source :: "entitlement \<Rightarrow> bool" where
  "single_source g \<longleftrightarrow> en_purchaseId g = None \<or> en_giftId g = None"

text \<open>Inside a transaction the invariant may be suspended for the payments in \<open>B\<close> and the grants that satisfy \<open>E\<close>.\<close>

definition ledger_but :: "(string \<Rightarrow> string) \<Rightarrow> string set \<Rightarrow> (entitlement \<Rightarrow> bool) \<Rightarrow> commerce \<Rightarrow> bool" where
  "ledger_but h B E s \<longleftrightarrow>
     wf_tbl pu_base (cm_purchases s) \<and> wf_tbl en_base (cm_entitlements s) \<and> wf_tbl gf_base (cm_gifts s) \<and> wf_tbl py_base (cm_payments s)
     \<and> (\<forall>k p. row purchases k s = Some p \<longrightarrow> k = pkey h (pu_paymentId p) \<and> (pu_state p = Active \<and> pu_paymentId p \<notin> B \<longrightarrow>
          (\<exists>q. row payments (pu_paymentId p) s = Some q \<and> \<not> final (py_state q))))
     \<and> (\<forall>k g. row entitlements k s = Some g \<longrightarrow> single_source g \<and> (en_state g = Active \<and> \<not> E g \<longrightarrow> backed s g))"

abbreviation nothing :: "entitlement \<Rightarrow> bool" where "nothing \<equiv> \<lambda>g. False"

abbreviation ledger_ok :: "(string \<Rightarrow> string) \<Rightarrow> commerce \<Rightarrow> bool" where
  "ledger_ok h \<equiv> ledger_but h {} nothing"

text \<open>Records read or written earlier in a transaction and still stored, up to what the invariant looks at.\<close>

datatype fact = Has_purchase purchase | Has_gift gift | Has_payment payment

fun holds :: "commerce \<Rightarrow> fact \<Rightarrow> bool" where
  "holds s (Has_purchase p) = (\<exists>q. row purchases (rb_id (pu_base p)) s = Some q \<and> pu_paymentId q = pu_paymentId p \<and> pu_state q = pu_state p)"
| "holds s (Has_gift x) = (\<exists>y. row gifts (rb_id (gf_base x)) s = Some y \<and> gf_state y = gf_state x)"
| "holds s (Has_payment p) = (\<exists>q. row payments (rb_id (py_base p)) s = Some q \<and> py_state q = py_state p)"

definition ok :: "(string \<Rightarrow> string) \<Rightarrow> string set \<Rightarrow> (entitlement \<Rightarrow> bool) \<Rightarrow> fact set \<Rightarrow> commerce \<Rightarrow> bool" where
  "ok h B E N s \<longleftrightarrow> ledger_but h B E s \<and> (\<forall>f \<in> N. holds s f)"

lemma ok_tables:
  assumes "cm_purchases s' = cm_purchases s" "cm_entitlements s' = cm_entitlements s" "cm_gifts s' = cm_gifts s" "cm_payments s' = cm_payments s"
  shows "ok h B E N s' = ok h B E N s"
proof -
  have r: "row purchases i s' = row purchases i s" "row entitlements i s' = row entitlements i s" "row gifts i s' = row gifts i s"
    "row payments i s' = row payments i s" for i
    using assms by (simp_all add: row_def purchases_def entitlements_def gifts_def payments_def)
  have "holds s' f = holds s f" for f by (cases f) (simp_all add: r)
  then show ?thesis unfolding ok_def ledger_but_def backed_def r assms by simp
qed

lemma ok_blindI:
  assumes "\<And>t s. cm_purchases (kd_set K t s) = cm_purchases s" "\<And>t s. cm_entitlements (kd_set K t s) = cm_entitlements s"
    "\<And>t s. cm_gifts (kd_set K t s) = cm_gifts s" "\<And>t s. cm_payments (kd_set K t s) = cm_payments s"
  shows "blind (ok h B E N) K"
  unfolding blind_def
proof (intro conjI allI)
  fix t s show "ok h B E N (kd_set K t s) = ok h B E N s" using assms by (rule ok_tables)
next
  fix u s show "ok h B E N (s\<lparr> cm_uniques := u \<rparr>) = ok h B E N s" by (rule ok_tables) simp_all
qed

lemma ok_customers [tx_rules]: "blind (ok h B E N) customers" by (rule ok_blindI) (simp_all add: customers_def)
lemma ok_offers [tx_rules]: "blind (ok h B E N) offers" by (rule ok_blindI) (simp_all add: offers_def)
lemma ok_checkouts [tx_rules]: "blind (ok h B E N) checkouts" by (rule ok_blindI) (simp_all add: checkouts_def)
lemma ok_refunds [tx_rules]: "blind (ok h B E N) refunds" by (rule ok_blindI) (simp_all add: refunds_def)
lemma ok_claims [tx_rules]: "blind (ok h B E N) claims" by (rule ok_blindI) (simp_all add: claims_def)
lemma ok_emailProofs [tx_rules]: "blind (ok h B E N) emailProofs" by (rule ok_blindI) (simp_all add: emailProofs_def)
lemma ok_assets [tx_rules]: "blind (ok h B E N) assets" by (rule ok_blindI) (simp_all add: assets_def)
lemma ok_packages [tx_rules]: "blind (ok h B E N) packages" by (rule ok_blindI) (simp_all add: packages_def)
lemma ok_jobs [tx_rules]: "blind (ok h B E N) jobs" by (rule ok_blindI) (simp_all add: jobs_def)
lemma ok_events [tx_rules]: "blind (ok h B E N) events" by (rule ok_blindI) (simp_all add: events_def)
lemma ok_audits [tx_rules]: "blind (ok h B E N) audits" by (rule ok_blindI) (simp_all add: audits_def)
lemma ok_rates [tx_rules]: "blind (ok h B E N) rates" by (rule ok_blindI) (simp_all add: rates_def)
lemma ok_guilds [tx_rules]: "blind (ok h B E N) guilds" by (rule ok_blindI) (simp_all add: guilds_def)
lemma ok_discordRoles [tx_rules]: "blind (ok h B E N) discordRoles" by (rule ok_blindI) (simp_all add: discordRoles_def)
lemma ok_oauth [tx_rules]: "blind (ok h B E N) oauth" by (rule ok_blindI) (simp_all add: oauth_def)
lemma ok_logins [tx_rules]: "blind (ok h B E N) logins" by (rule ok_blindI) (simp_all add: logins_def)
lemma ok_sessions [tx_rules]: "blind (ok h B E N) sessions" by (rule ok_blindI) (simp_all add: sessions_def)
lemma ok_mappings [tx_rules]: "blind (ok h B E N) mappings" by (rule ok_blindI) (simp_all add: mappings_def)

lemma ok_fresh [tx_rules]: "maintains (ok h B E N) (fresh pf)"
proof (rule maintains_fresh)
  fix s n show "ok h B E N (s\<lparr> cm_drawn := n \<rparr>) = ok h B E N s" by (rule ok_tables) simp_all
qed

interpretation pu: record_kind purchases by unfold_locales (simp_all add: purchases_def)
interpretation en: record_kind entitlements by unfold_locales (simp_all add: entitlements_def)
interpretation gf: record_kind gifts by unfold_locales (simp_all add: gifts_def)
interpretation py: record_kind payments by unfold_locales (simp_all add: payments_def)


subsection \<open>Transactions that do not touch the four tables\<close>

lemma ok_scope [tx_rules]: "maintains (ok h B E N) (scopeT pf x v)"
  unfolding scopeT_def by (intro tx_rules)

lemma ok_audit [tx_rules]: "maintains (ok h B E N) (auditT pf sc a b c d)"
  unfolding auditT_def by (intro tx_rules)

lemma ok_queue [tx_rules]: "maintains (ok h B E N) (queueT pf sc k i d)"
  unfolding queueT_def by (intro tx_rules)

lemma ok_rate [tx_rules]: "maintains (ok h B E N) (rateT pf a b c d)"
  unfolding rateT_def Let_def by (intro tx_rules)

lemma ok_notify [tx_rules]: "maintains (ok h B E N) (notify_discord pf sc c)"
  unfolding notify_discord_def by (intro tx_rules)

lemma ok_customer [tx_rules]: "maintains (ok h B E N) (customerT pf x)"
  unfolding customerT_def Let_def by (intro tx_rules)

lemma ok_package [tx_rules]: "maintains (ok h B E N) (ensureContentPackageT pf x)"
  unfolding ensureContentPackageT_def Let_def by (intro tx_rules)

lemma ok_contents [tx_rules]: "maintains (ok h B E N) (currentContentsT pf x)"
  unfolding currentContentsT_def Let_def by (intro tx_rules)

lemma ok_session [tx_rules]: "maintains (ok h B E N) (createSessionT pf c a)"
  unfolding createSessionT_def Let_def by (intro tx_rules)

lemma ok_createClaim [tx_rules]: "maintains (ok h B E N) (createClaimT pf i)"
  unfolding createClaimT_def by (intro tx_rules)

lemma ok_record_refund [tx_rules]: "maintains (ok h B E N) (record_refund pf sc i r)"
  unfolding record_refund_def Let_def by (intro tx_rules)

lemma ok_ownershipPrice [tx_rules]: "maintains (ok h B E N) (ownershipPriceT pf c x is)"
  unfolding ownershipPriceT_def by (intro tx_rules)

lemma ok_operationalIssue: "maintains (ok h B E N) (operationalIssueT pf sc c i)"
  unfolding operationalIssueT_def by (intro tx_rules)

lemma ok_beginEmailLogin: "maintains (ok h B E N) (beginEmailLoginT pf a r)"
  unfolding beginEmailLoginT_def Let_def by (intro tx_rules)

lemma ok_redeemEmailLogin: "maintains (ok h B E N) (redeemEmailLoginT pf i t a)"
  unfolding redeemEmailLoginT_def Let_def by (intro tx_rules)

lemma ok_attachAccountCustomer: "maintains (ok h B E N) (attachAccountCustomerT pf a b c)"
  unfolding attachAccountCustomerT_def by (intro tx_rules)

lemma ok_issueAccountSession: "maintains (ok h B E N) (issueAccountSessionT pf a b)"
  unfolding issueAccountSessionT_def by (intro tx_rules)

lemma ok_revokeAccountSession: "maintains (ok h B E N) (revokeAccountSessionT pf c)"
  unfolding revokeAccountSessionT_def by (intro tx_rules)

lemma ok_beginEmailVerification: "maintains (ok h B E N) (beginEmailVerificationT pf a b)"
  unfolding beginEmailVerificationT_def by (intro tx_rules)

lemma ok_verifyEmail: "maintains (ok h B E N) (verifyEmailT pf a b c)"
  unfolding verifyEmailT_def by (intro tx_rules)

lemma ok_registerAsset: "maintains (ok h B E N) (registerAssetT pf sc a i)"
  unfolding registerAssetT_def Let_def by (intro tx_rules)

lemma ok_setAssetAvailability: "maintains (ok h B E N) (setAssetAvailabilityT pf a b c d)"
  unfolding setAssetAvailabilityT_def Let_def by (intro tx_rules)

lemma ok_setOfferPublished: "maintains (ok h B E N) (setOfferPublishedT pf a b c d)"
  unfolding setOfferPublishedT_def by (intro tx_rules)

lemma ok_cancelSubscription: "maintains (ok h B E N) (cancelSubscriptionT pf a b)"
  unfolding cancelSubscriptionT_def by (intro tx_rules)

lemma ok_capture: "maintains (ok h B E N) (captureT pf a b)"
  unfolding captureT_def by (intro tx_rules)

lemma ok_resendClaim: "maintains (ok h B E N) (resendClaimT pf a b c)"
  unfolding resendClaimT_def by (intro tx_rules)

lemma ok_recoverClaims: "maintains (ok h B E N) (recoverClaimsT pf a)"
  unfolding recoverClaimsT_def by (intro tx_rules)

lemma ok_retryCustomerDiscord: "maintains (ok h B E N) (retryCustomerDiscordT pf a)"
  unfolding retryCustomerDiscordT_def by (intro tx_rules)

lemma ok_retry: "maintains (ok h B E N) (retryT pf a b k i)"
  unfolding retryT_def Let_def by (intro tx_rules)

lemma ok_order_created: "maintains (ok h B E N) (order_createdT pf a b c d e)"
  unfolding order_createdT_def by (intro tx_rules)

lemma ok_order_stalled: "maintains (ok h B E N) (order_stalledT pf a)"
  unfolding order_stalledT_def Let_def by (intro tx_rules)

lemma ok_order_status: "maintains (ok h B E N) (order_statusT pf a b c)"
  unfolding order_statusT_def by (intro tx_rules)

lemma ok_claimJob: "maintains (ok h B E N) (claimJobT pf w)"
  unfolding claimJobT_def Let_def by (intro tx_rules)

lemma ok_finishJob: "maintains (ok h B E N) (finishJobT pf j)"
  unfolding finishJobT_def by (intro tx_rules)

lemma ok_failJob: "maintains (ok h B E N) (failJobT pf j c r)"
  unfolding failJobT_def Let_def by (intro tx_rules)


subsection \<open>Writing grants, purchases, gifts and payments\<close>

lemma okD:
  assumes "ok h B E N s"
  shows "wf_tbl pu_base (cm_purchases s)" "wf_tbl en_base (cm_entitlements s)" "wf_tbl gf_base (cm_gifts s)" "wf_tbl py_base (cm_payments s)"
    and "row purchases k s = Some p \<Longrightarrow> k = pkey h (pu_paymentId p)"
    and "row purchases k s = Some p \<Longrightarrow> pu_state p = Active \<Longrightarrow> pu_paymentId p \<notin> B \<Longrightarrow>
      \<exists>q. row payments (pu_paymentId p) s = Some q \<and> \<not> final (py_state q)"
    and "row entitlements k s = Some g \<Longrightarrow> single_source g"
    and "row entitlements k s = Some g \<Longrightarrow> en_state g = Active \<Longrightarrow> \<not> E g \<Longrightarrow> backed s g"
    and "f \<in> N \<Longrightarrow> holds s f"
  using assms by (auto simp: ok_def ledger_but_def)

lemma backed_same:
  "\<lbrakk>\<And>i. row purchases i s' = row purchases i s; \<And>i. row gifts i s' = row gifts i s\<rbrakk> \<Longrightarrow> backed s' g = backed s g"
  by (simp add: backed_def)

lemma ok_grant_written:
  assumes s: "ok h B E N s" and t: "cm_purchases s' = cm_purchases s" "cm_gifts s' = cm_gifts s" "cm_payments s' = cm_payments s"
    and w: "wf_tbl en_base (cm_entitlements s')" "\<And>k. row entitlements k s' = (if k = i then Some g else row entitlements k s)"
    and g: "single_source g" "en_state g = Active \<Longrightarrow> \<not> E g \<Longrightarrow> backed s g"
  shows "ok h B E N s'"
proof -
  have r: "row purchases k s' = row purchases k s" "row gifts k s' = row gifts k s" "row payments k s' = row payments k s" for k
    using t by (simp_all add: row_def purchases_def gifts_def payments_def)
  have f: "holds s' f = holds s f" for f by (cases f) (simp_all add: r)
  have b: "backed s' x = backed s x" for x by (rule backed_same) (rule r)+
  show ?thesis unfolding ok_def ledger_but_def r f b t
    using okD [OF s] w g by (auto split: if_splits)
qed

lemma ok_put_grant:
  assumes "single_source g" "\<And>s. ok h B E N s \<Longrightarrow> en_state g = Active \<Longrightarrow> \<not> E g \<Longrightarrow> backed s g"
  shows "maintains (ok h B E N) (putT pf entitlements g)"
proof (rule maintainsI, rule triple_put)
  fix s assume s: "ok h B E N s"
  show "ok h B E N (kd_set entitlements (AList.update (rb_id (kd_base entitlements g)) g (kd_get entitlements s)) s)"
  proof (rule ok_grant_written [OF s _ _ _ _ en.row_put assms(1) assms(2) [OF s]])
    show "wf_tbl en_base (cm_entitlements (kd_set entitlements (AList.update (rb_id (kd_base entitlements g)) g (kd_get entitlements s)) s))"
      using wf_tbl_update [OF okD(2) [OF s], of g] by (simp add: entitlements_def)
  qed (simp_all add: entitlements_def)
qed

lemma ok_insert_grant:
  assumes "single_source g" "\<And>s. ok h B E N s \<Longrightarrow> en_state g = Active \<Longrightarrow> \<not> E g \<Longrightarrow> backed s g"
  shows "maintains (ok h B E N) (insertT pf entitlements g us)"
proof (rule maintainsI, rule triple_insert)
  fix s assume s: "ok h B E N s" and n: "row entitlements (rb_id (kd_base entitlements g)) s = None"
  show "ok h B E N ((kd_set entitlements (kd_get entitlements s @ [(rb_id (kd_base entitlements g), g)]) s)
      \<lparr> cm_uniques := cm_uniques s @ map (\<lambda>u. (kd_name entitlements, u, rb_id (kd_base entitlements g))) us \<rparr>)"
  proof (rule ok_grant_written [OF s _ _ _ _ en.row_insert [OF n] assms(1) assms(2) [OF s]])
    show "wf_tbl en_base (cm_entitlements ((kd_set entitlements (kd_get entitlements s @ [(rb_id (kd_base entitlements g), g)]) s)
      \<lparr> cm_uniques := cm_uniques s @ map (\<lambda>u. (kd_name entitlements, u, rb_id (kd_base entitlements g))) us \<rparr>))"
      using wf_tbl_append [OF okD(2) [OF s], of g] n by (simp add: entitlements_def row_def)
  qed (simp_all add: entitlements_def)
qed

lemma ok_purchase_written:
  assumes s: "ok h B E N s" and t: "cm_entitlements s' = cm_entitlements s" "cm_gifts s' = cm_gifts s" "cm_payments s' = cm_payments s"
    and w: "wf_tbl pu_base (cm_purchases s')" "\<And>k. row purchases k s' = (if k = i then Some p else row purchases k s)"
    and p: "i = pkey h (pu_paymentId p)"
      "pu_state p = Active \<Longrightarrow> pu_paymentId p \<notin> B' \<Longrightarrow> \<exists>q. row payments (pu_paymentId p) s = Some q \<and> \<not> final (py_state q)"
    and old: "\<And>q. row purchases i s = Some q \<Longrightarrow> pu_state q = Active \<Longrightarrow> pu_state p = Active \<or> (\<forall>g. en_purchaseId g = Some i \<longrightarrow> E' g)"
    and less: "\<And>g. E g \<Longrightarrow> E' g" "\<And>k q. k \<noteq> i \<Longrightarrow> row purchases k s = Some q \<Longrightarrow> pu_state q = Active \<Longrightarrow> pu_paymentId q \<in> B \<Longrightarrow> pu_paymentId q \<in> B'"
    and f: "\<And>f. f \<in> N' \<Longrightarrow> holds s' f"
  shows "ok h B' E' N' s'"
proof -
  have r: "row entitlements k s' = row entitlements k s" "row gifts k s' = row gifts k s" "row payments k s' = row payments k s" for k
    using t by (simp_all add: row_def entitlements_def gifts_def payments_def)
  have b: "backed s' g" if "backed s g" "\<not> E' g" for g
    using that old by (auto simp: backed_def w(2) r)
  show ?thesis unfolding ok_def ledger_but_def r t
    using okD [OF s] w p less f b by (fastforce split: if_splits)
qed


lemma wf_tbl_key: "wf_tbl b t \<Longrightarrow> map_of t k = Some r \<Longrightarrow> rb_id (b r) = k"
  by (auto simp: wf_tbl_def dest: map_of_SomeD)

lemma ok_keys:
  assumes "ok h B E N s"
  shows "row purchases k s = Some p \<Longrightarrow> rb_id (pu_base p) = k" "row entitlements k s = Some g \<Longrightarrow> rb_id (en_base g) = k"
    and "row gifts k s = Some x \<Longrightarrow> rb_id (gf_base x) = k" "row payments k s = Some q \<Longrightarrow> rb_id (py_base q) = k"
  using okD(1-4) [OF assms] by (auto simp: row_def purchases_def entitlements_def gifts_def payments_def intro: wf_tbl_key)

lemma kind_bases:
  "kd_base purchases = pu_base" "kd_base entitlements = en_base" "kd_base gifts = gf_base" "kd_base payments = py_base"
  by (simp_all add: purchases_def entitlements_def gifts_def payments_def)

lemma wf_put:
  "wf_tbl pu_base (cm_purchases s) \<Longrightarrow> wf_tbl pu_base (cm_purchases (kd_set purchases (AList.update (rb_id (pu_base p)) p (kd_get purchases s)) s))"
  "wf_tbl gf_base (cm_gifts s) \<Longrightarrow> wf_tbl gf_base (cm_gifts (kd_set gifts (AList.update (rb_id (gf_base x)) x (kd_get gifts s)) s))"
  "wf_tbl py_base (cm_payments s) \<Longrightarrow> wf_tbl py_base (cm_payments (kd_set payments (AList.update (rb_id (py_base q)) q (kd_get payments s)) s))"
  by (simp_all add: purchases_def gifts_def payments_def wf_tbl_update)

lemma wf_insert:
  "wf_tbl pu_base (cm_purchases s) \<Longrightarrow> row purchases (rb_id (pu_base p)) s = None \<Longrightarrow>
     wf_tbl pu_base (cm_purchases ((kd_set purchases (kd_get purchases s @ [(rb_id (pu_base p), p)]) s)\<lparr> cm_uniques := u \<rparr>))"
  "wf_tbl gf_base (cm_gifts s) \<Longrightarrow> row gifts (rb_id (gf_base x)) s = None \<Longrightarrow>
     wf_tbl gf_base (cm_gifts ((kd_set gifts (kd_get gifts s @ [(rb_id (gf_base x), x)]) s)\<lparr> cm_uniques := u \<rparr>))"
  by (simp_all add: purchases_def gifts_def row_def wf_tbl_append)

lemma ok_put_purchase:
  assumes N: "Has_purchase p \<in> N" and p: "rb_id (pu_base p') = rb_id (pu_base p)" "pu_paymentId p' = pu_paymentId p" "pu_state p' = pu_state p"
  shows "maintains (ok h B E N) (putT pf purchases p')"
proof (rule maintainsI, rule triple_put)
  fix s assume s: "ok h B E N s"
  let ?i = "rb_id (kd_base purchases p')"
  let ?s = "kd_set purchases (AList.update ?i p' (kd_get purchases s)) s"
  obtain q where q: "row purchases ?i s = Some q" "pu_paymentId q = pu_paymentId p'" "pu_state q = pu_state p'"
    using okD(9) [OF s N] p by (auto simp: kind_bases)
  have t: "cm_entitlements ?s = cm_entitlements s" "cm_gifts ?s = cm_gifts s" "cm_payments ?s = cm_payments s"
    by (simp_all add: purchases_def)
  then have r: "row gifts k ?s = row gifts k s" "row payments k ?s = row payments k s" for k
    by (simp_all add: row_def gifts_def payments_def)
  show "ok h B E N ?s"
  proof (rule ok_purchase_written [OF s t _ pu.row_put])
    show "wf_tbl pu_base (cm_purchases ?s)" using wf_put(1) [OF okD(1) [OF s]] by (simp add: kind_bases)
    show "?i = pkey h (pu_paymentId p')" using okD(5) [OF s q(1)] q(2) by simp
    show "\<exists>q. row payments (pu_paymentId p') s = Some q \<and> \<not> final (py_state q)" if "pu_state p' = Active" "pu_paymentId p' \<notin> B"
      using okD(6) [OF s q(1)] q that by simp
    show "holds ?s f" if "f \<in> N" for f
      using okD(9) [OF s that] q by (cases f) (auto simp: r pu.row_put)
  qed (use q in auto)
qed

lemma triple_revoke_purchase:
  assumes i: "i = pkey h j"
  shows "triple (\<lambda>s. ok h {j} nothing N s \<and> row purchases i s = Some p) (putT pf purchases (p\<lparr> pu_state := Revoked \<rparr>))
     (\<lambda>_. ok h {} (\<lambda>g. en_purchaseId g = Some i) {})"
proof (rule triple_put, elim conjE)
  fix s assume s: "ok h {j} nothing N s" and q: "row purchases i s = Some p"
  let ?p = "p\<lparr> pu_state := Revoked \<rparr>" let ?i = "rb_id (kd_base purchases ?p)"
  let ?s = "kd_set purchases (AList.update ?i ?p (kd_get purchases s)) s"
  have e: "?i = i" using ok_keys(1) [OF s q] by (simp add: kind_bases)
  show "ok h {} (\<lambda>g. en_purchaseId g = Some i) {} ?s"
  proof (rule ok_purchase_written [OF s _ _ _ _ pu.row_put])
    show "wf_tbl pu_base (cm_purchases ?s)" using wf_put(1) [OF okD(1) [OF s], of ?p] by (simp add: kind_bases)
    show "?i = pkey h (pu_paymentId ?p)" using okD(5) [OF s q] e by simp
    show "pu_paymentId x \<in> {}" if "k \<noteq> ?i" "row purchases k s = Some x" "pu_paymentId x \<in> {j}" for k x
      using okD(5) [OF s that(2)] that i e by simp
    show "pu_state x = Active \<Longrightarrow> pu_state ?p = Active \<or> (\<forall>g. en_purchaseId g = Some ?i \<longrightarrow> en_purchaseId g = Some i)" for x
      using e by simp
  qed (simp_all add: purchases_def)
qed

lemma triple_insert_purchase:
  assumes "rb_id (pu_base p) = pkey h (pu_paymentId p)" "pu_paymentId p = rb_id (py_base q)" "\<not> final (py_state q)"
  shows "triple (ok h {} E {Has_payment q}) (insertT pf purchases p us) (\<lambda>_. ok h {} E {Has_purchase p})"
proof (rule triple_insert)
  fix s assume s: "ok h {} E {Has_payment q} s" and n: "row purchases (rb_id (kd_base purchases p)) s = None"
  have py: "\<exists>r. row payments (pu_paymentId p) s = Some r \<and> \<not> final (py_state r)"
    using okD(9) [OF s, of "Has_payment q"] assms by auto
  show "ok h {} E {Has_purchase p} ((kd_set purchases (kd_get purchases s @ [(rb_id (kd_base purchases p), p)]) s)
      \<lparr> cm_uniques := cm_uniques s @ map (\<lambda>u. (kd_name purchases, u, rb_id (kd_base purchases p))) us \<rparr>)" (is "ok h {} E _ ?s")
  proof (rule ok_purchase_written [OF s _ _ _ _ pu.row_insert [OF n] _ py])
    show "wf_tbl pu_base (cm_purchases ?s)" using wf_insert(1) [OF okD(1) [OF s]] n by (simp add: kind_bases)
    show "rb_id (kd_base purchases p) = pkey h (pu_paymentId p)" using assms(1) by (simp add: kind_bases)
    show "holds ?s f" if "f \<in> {Has_purchase p}" for f
      using that pu.row_insert [OF n] by (auto simp: kind_bases)
  qed (use n in \<open>auto simp: purchases_def\<close>)
qed

lemma ok_gift_written:
  assumes s: "ok h B E N s" and t: "cm_entitlements s' = cm_entitlements s" "cm_purchases s' = cm_purchases s" "cm_payments s' = cm_payments s"
    and w: "wf_tbl gf_base (cm_gifts s')" "\<And>k. row gifts k s' = (if k = i then Some x else row gifts k s)"
    and old: "\<And>y. row gifts i s = Some y \<Longrightarrow> gf_state y = Gf_claimed \<Longrightarrow> gf_state x = Gf_claimed \<or> (\<forall>g. en_giftId g = Some i \<longrightarrow> E' g)"
    and less: "\<And>g. E g \<Longrightarrow> E' g" and f: "\<And>f. f \<in> N' \<Longrightarrow> holds s' f"
  shows "ok h B E' N' s'"
proof -
  have r: "row entitlements k s' = row entitlements k s" "row purchases k s' = row purchases k s" "row payments k s' = row payments k s" for k
    using t by (simp_all add: row_def entitlements_def purchases_def payments_def)
  have b: "backed s' g" if "backed s g" "\<not> E' g" for g
    using that old by (auto simp: backed_def w(2) r)
  have g: "backed s' g" if "row entitlements k s = Some g" "en_state g = Active" "\<not> E' g" for k g
    using okD(8) [OF s that(1,2)] less that(3) b by blast
  show ?thesis unfolding ok_def ledger_but_def r t
    using okD(1-7) [OF s] w less f g by auto
qed

lemma ok_put_gift:
  assumes N: "Has_gift x \<in> N" and x: "rb_id (gf_base x') = rb_id (gf_base x)" "gf_state x' = gf_state x"
  shows "maintains (ok h B E N) (putT pf gifts x')"
proof (rule maintainsI, rule triple_put)
  fix s assume s: "ok h B E N s"
  let ?i = "rb_id (kd_base gifts x')" let ?s = "kd_set gifts (AList.update ?i x' (kd_get gifts s)) s"
  obtain y where y: "row gifts ?i s = Some y" "gf_state y = gf_state x'" using okD(9) [OF s N] x by (auto simp: kind_bases)
  have t: "cm_entitlements ?s = cm_entitlements s" "cm_purchases ?s = cm_purchases s" "cm_payments ?s = cm_payments s"
    by (simp_all add: gifts_def)
  then have r: "row purchases k ?s = row purchases k s" "row payments k ?s = row payments k s" for k
    by (simp_all add: row_def purchases_def payments_def)
  show "ok h B E N ?s"
  proof (rule ok_gift_written [OF s t _ gf.row_put])
    show "wf_tbl gf_base (cm_gifts ?s)" using wf_put(2) [OF okD(3) [OF s]] by (simp add: kind_bases)
    show "holds ?s f" if "f \<in> N" for f using okD(9) [OF s that] y by (cases f) (auto simp: r gf.row_put)
  qed (use y in auto)
qed

lemma triple_claim_gift:
  assumes "gf_state x = Gf_claimed"
  shows "triple (ok h B E {}) (putT pf gifts x) (\<lambda>_. ok h B E {Has_gift x})"
proof (rule triple_put)
  fix s assume s: "ok h B E {} s"
  let ?i = "rb_id (kd_base gifts x)" let ?s = "kd_set gifts (AList.update ?i x (kd_get gifts s)) s"
  show "ok h B E {Has_gift x} ?s"
  proof (rule ok_gift_written [OF s _ _ _ _ gf.row_put])
    show "wf_tbl gf_base (cm_gifts ?s)" using wf_put(2) [OF okD(3) [OF s]] by (simp add: kind_bases)
    show "holds ?s f" if "f \<in> {Has_gift x}" for f using that by (auto simp: gf.row_put kind_bases)
  qed (use assms in \<open>auto simp: gifts_def\<close>)
qed

lemma triple_revoke_gift:
  "triple (\<lambda>s. ok h B nothing N s \<and> row gifts i s = Some x) (putT pf gifts (x\<lparr> gf_state := Gf_revoked \<rparr>))
     (\<lambda>_. ok h B (\<lambda>g. en_giftId g = Some i) {})"
proof (rule triple_put, elim conjE)
  fix s assume s: "ok h B nothing N s" and q: "row gifts i s = Some x"
  let ?x = "x\<lparr> gf_state := Gf_revoked \<rparr>" let ?i = "rb_id (kd_base gifts ?x)"
  let ?s = "kd_set gifts (AList.update ?i ?x (kd_get gifts s)) s"
  have e: "?i = i" using ok_keys(3) [OF s q] by (simp add: kind_bases)
  show "ok h B (\<lambda>g. en_giftId g = Some i) {} ?s"
  proof (rule ok_gift_written [OF s _ _ _ _ gf.row_put])
    show "wf_tbl gf_base (cm_gifts ?s)" using wf_put(2) [OF okD(3) [OF s], of ?x] by (simp add: kind_bases)
    show "gf_state y = Gf_claimed \<Longrightarrow> gf_state ?x = Gf_claimed \<or> (\<forall>g. en_giftId g = Some ?i \<longrightarrow> en_giftId g = Some i)" for y
      using e by simp
  qed (simp_all add: gifts_def)
qed

lemma ok_insert_gift: "maintains (ok h B E N) (insertT pf gifts x us)"
proof (rule maintainsI, rule triple_insert)
  fix s assume s: "ok h B E N s" and n: "row gifts (rb_id (kd_base gifts x)) s = None"
  show "ok h B E N ((kd_set gifts (kd_get gifts s @ [(rb_id (kd_base gifts x), x)]) s)
      \<lparr> cm_uniques := cm_uniques s @ map (\<lambda>u. (kd_name gifts, u, rb_id (kd_base gifts x))) us \<rparr>)" (is "ok h B E N ?s")
  proof (rule ok_gift_written [OF s _ _ _ _ gf.row_insert [OF n]])
    have r: "row purchases k ?s = row purchases k s" "row payments k ?s = row payments k s" for k
      by (simp_all add: row_def purchases_def payments_def gifts_def)
    show "wf_tbl gf_base (cm_gifts ?s)" using wf_insert(2) [OF okD(3) [OF s]] n by (simp add: kind_bases)
    show "holds ?s f" if "f \<in> N" for f using okD(9) [OF s that] n by (cases f) (auto simp: r gf.row_insert [OF n])
  qed (use n in \<open>auto simp: gifts_def\<close>)
qed

lemma triple_put_payment:
  "triple (ok h {} E {}) (putT pf payments q) (\<lambda>_. ok h (if final (py_state q) then {rb_id (py_base q)} else {}) E {Has_payment q})"
proof (rule triple_put)
  fix s assume s: "ok h {} E {} s"
  let ?i = "rb_id (kd_base payments q)" let ?s = "kd_set payments (AList.update ?i q (kd_get payments s)) s"
  let ?B = "if final (py_state q) then {rb_id (py_base q)} else {}"
  have t: "cm_entitlements ?s = cm_entitlements s" "cm_purchases ?s = cm_purchases s" "cm_gifts ?s = cm_gifts s"
    by (simp_all add: payments_def)
  then have r: "row entitlements k ?s = row entitlements k s" "row purchases k ?s = row purchases k s" "row gifts k ?s = row gifts k s" for k
    by (simp_all add: row_def entitlements_def purchases_def gifts_def)
  have b: "backed ?s g = backed s g" for g by (rule backed_same) (rule r)+
  have w: "wf_tbl py_base (cm_payments ?s)" using wf_put(3) [OF okD(4) [OF s]] by (simp add: kind_bases)
  have a: "\<exists>x. row payments (pu_paymentId p) ?s = Some x \<and> \<not> final (py_state x)"
    if "row purchases k s = Some p" "pu_state p = Active" "pu_paymentId p \<notin> ?B" for k p
    using okD(6) [OF s that(1,2)] that(3) by (auto simp: py.row_put kind_bases split: if_splits)
  show "ok h ?B E {Has_payment q} ?s"
    unfolding ok_def ledger_but_def r b t using okD [OF s] w a by (auto simp: py.row_put kind_bases split: if_splits)
qed

subsection \<open>Reading\<close>

lemma ok_less: "ok h B E N s \<Longrightarrow> N' \<subseteq> N \<Longrightarrow> ok h B E N' s"
  by (auto simp: ok_def)

lemma maintains_learn:
  assumes "triple (ok h B E N) m (\<lambda>x s. ok h B E (N \<union> F x) s \<and> C x)" "\<And>x. C x \<Longrightarrow> maintains (ok h B E (N \<union> F x)) (f x)"
  shows "maintains (ok h B E N) (bindT m f)"
proof (rule maintains_seq [OF assms(1)], rule triple_pure)
  fix x assume "C x"
  from triple_maintains [OF assms(2) [OF this]] show "triple (ok h B E (N \<union> F x)) (f x) (\<lambda>_. ok h B E N)"
    by (rule triple_weaken) (auto intro: ok_less)
qed

lemma rows_row: "ok h B E N s \<Longrightarrow> p \<in> set (rows purchases s) \<Longrightarrow> row purchases (rb_id (pu_base p)) s = Some p"
  "ok h B E N s \<Longrightarrow> x \<in> set (rows gifts s) \<Longrightarrow> row gifts (rb_id (gf_base x)) s = Some x"
  "ok h B E N s \<Longrightarrow> g \<in> set (rows entitlements s) \<Longrightarrow> row entitlements (rb_id (en_base g)) s = Some g"
  using wf_tbl_row [of pu_base "cm_purchases s" p] wf_tbl_row [of gf_base "cm_gifts s" x] wf_tbl_row [of en_base "cm_entitlements s" g] okD(1-3)
  by (auto simp: set_rows row_def purchases_def gifts_def entitlements_def)

lemma learn_purchases:
  "(\<And>ps. maintains (ok h B E (N \<union> Has_purchase ` set ps)) (f ps)) \<Longrightarrow> maintains (ok h B E N) (bindT (listT purchases) f)"
  by (rule maintains_learn [where F = "\<lambda>ps. Has_purchase ` set ps" and C = "\<lambda>_. True"])
    (auto intro!: triple_list simp: ok_def dest: rows_row(1) [unfolded ok_def, rotated])


lemma learn_gifts:
  "(\<And>gs. maintains (ok h B E (N \<union> Has_gift ` set gs)) (f gs)) \<Longrightarrow> maintains (ok h B E N) (bindT (listT gifts) f)"
  by (rule maintains_learn [where F = "\<lambda>gs. Has_gift ` set gs" and C = "\<lambda>_. True"])
    (auto intro!: triple_list simp: ok_def dest: rows_row(2) [unfolded ok_def, rotated])

lemma learn_grants:
  assumes "\<And>gs. \<forall>g \<in> set gs. single_source g \<Longrightarrow> maintains (ok h B E N) (f gs)"
  shows "maintains (ok h B E N) (bindT (listT entitlements) f)"
proof (rule maintains_learn [where F = "\<lambda>_. {}" and C = "\<lambda>gs. \<forall>g \<in> set gs. single_source g"])
  show "triple (ok h B E N) (listT entitlements) (\<lambda>gs s. ok h B E (N \<union> {}) s \<and> (\<forall>g \<in> set gs. single_source g))"
    by (rule triple_list) (auto dest: rows_row(3) okD(7))
qed (use assms in simp)

lemma learn_purchase:
  assumes "maintains (ok h B E N) (f None)" "\<And>p. rb_id (pu_base p) = i \<Longrightarrow> maintains (ok h B E (insert (Has_purchase p) N)) (f (Some p))"
  shows "maintains (ok h B E N) (bindT (getT purchases i) f)"
proof (rule maintains_learn [where F = "\<lambda>v. Has_purchase ` set_option v" and C = "\<lambda>v. \<forall>p \<in> set_option v. rb_id (pu_base p) = i"])
  show "triple (ok h B E N) (getT purchases i) (\<lambda>v s. ok h B E (N \<union> Has_purchase ` set_option v) s \<and> (\<forall>p \<in> set_option v. rb_id (pu_base p) = i))"
    by (rule triple_get) (auto simp: ok_def dest: ok_keys(1) [unfolded ok_def, OF conjI])
next
  fix v :: "purchase option" assume "\<forall>p \<in> set_option v. rb_id (pu_base p) = i"
  then show "maintains (ok h B E (N \<union> Has_purchase ` set_option v)) (f v)" using assms by (cases v) auto
qed

lemma case_purchase:
  "maintains (ok h B E N) a \<Longrightarrow> (\<And>p. maintains (ok h B E (insert (Has_purchase p) N)) (b p)) \<Longrightarrow>
     maintains (ok h B E N) (bindT (getT purchases i) (\<lambda>v. case v of None \<Rightarrow> a | Some p \<Rightarrow> b p))"
  by (rule learn_purchase) simp_all

lemma learn_grant:
  assumes "maintains (ok h B E N) (f None)" "\<And>g. single_source g \<Longrightarrow> maintains (ok h B E N) (f (Some g))"
  shows "maintains (ok h B E N) (bindT (getT entitlements i) f)"
proof (rule maintains_learn [where F = "\<lambda>_. {}" and C = "\<lambda>v. \<forall>g \<in> set_option v. single_source g"])
  show "triple (ok h B E N) (getT entitlements i) (\<lambda>v s. ok h B E (N \<union> {}) s \<and> (\<forall>g \<in> set_option v. single_source g))"
    by (rule triple_get) (auto dest: okD(7))
next
  fix v :: "entitlement option" assume "\<forall>g \<in> set_option v. single_source g"
  then show "maintains (ok h B E (N \<union> {})) (f v)" using assms by (cases v) auto
qed

subsection \<open>Revoking all grants of one source\<close>

lemma single_source_simps [simp]:
  "single_source (g\<lparr> en_state := st \<rparr>) = single_source g" "single_source (g\<lparr> en_contentRemoved := b \<rparr>) = single_source g"
  "single_source (g\<lparr> en_customerId := c \<rparr>) = single_source g"
  by (simp_all add: single_source_def)

lemma triple_revoke_each:
  assumes "\<forall>g \<in> set xs. single_source g"
  shows "triple (\<lambda>s. ok h B E {} s \<and> (\<forall>k g. row entitlements k s = Some g \<and> en_state g = Active \<and> E g \<longrightarrow> g \<in> set xs))
     (eachT (\<lambda>g. putT pf entitlements (g\<lparr> en_state := Revoked \<rparr>)) xs) (\<lambda>_. ok h B nothing {})"
  using assms
proof (induction xs)
  case Nil
  show ?case by (simp, rule triple_return) (auto simp: ok_def ledger_but_def)
next
  case (Cons x xs)
  let ?x = "x\<lparr> en_state := Revoked \<rparr>"
  have put: "triple (\<lambda>s. ok h B E {} s \<and> (\<forall>k g. row entitlements k s = Some g \<and> en_state g = Active \<and> E g \<longrightarrow> g \<in> set (x # xs)))
     (putT pf entitlements ?x) (\<lambda>_ s. ok h B E {} s \<and> (\<forall>k g. row entitlements k s = Some g \<and> en_state g = Active \<and> E g \<longrightarrow> g \<in> set xs))"
    (is "triple (\<lambda>s. _ \<and> ?left s) _ _")
  proof (rule tripleI, elim conjE)
    fix s u s' assume s: "ok h B E {} s" and left: "?left s" and e: "putT pf entitlements ?x s = Inr (u, s')"
    have "maintains (ok h B E {}) (putT pf entitlements ?x)" using Cons.prems by (intro ok_put_grant) auto
    then have s': "ok h B E {} s'" using e s by (simp add: maintains_def triple_def)
    have "s' = kd_set entitlements (AList.update (rb_id (kd_base entitlements ?x)) ?x (kd_get entitlements s)) s"
      using e by (auto simp: putT_def Let_def split: if_splits option.splits)
    then have r: "row entitlements k s' = (if k = rb_id (en_base x) then Some ?x else row entitlements k s)" for k
      by (simp only: en.row_put) (simp add: kind_bases)
    have "g \<in> set xs" if "row entitlements k s' = Some g" "en_state g = Active" "E g" for k g
      using that left ok_keys(2) [OF s, of k g] by (auto simp: r split: if_splits)
    with s' show "ok h B E {} s' \<and> (\<forall>k g. row entitlements k s' = Some g \<and> en_state g = Active \<and> E g \<longrightarrow> g \<in> set xs)" by blast
  qed
  show ?case unfolding eachT.simps by (rule triple_bind [OF put]) (use Cons in simp)
qed

lemma triple_revoke_all:
  "triple (ok h B E {}) (bindT (listT entitlements) (\<lambda>all. eachT (\<lambda>g. putT pf entitlements (g\<lparr> en_state := Revoked \<rparr>)) (filter E all)))
     (\<lambda>_. ok h B nothing {})"
proof (rule triple_bind)
  show "triple (ok h B E {}) (listT entitlements) (\<lambda>all s. (ok h B E {} s \<and>
      (\<forall>k g. row entitlements k s = Some g \<and> en_state g = Active \<and> E g \<longrightarrow> g \<in> set (filter E all))) \<and> (\<forall>g \<in> set all. single_source g))"
    by (rule triple_list) (auto dest: rows_row(3) okD(7) row_in_rows)
next
  fix all
  show "triple (\<lambda>s. (ok h B E {} s \<and> (\<forall>k g. row entitlements k s = Some g \<and> en_state g = Active \<and> E g \<longrightarrow> g \<in> set (filter E all)))
       \<and> (\<forall>g \<in> set all. single_source g))
     (eachT (\<lambda>g. putT pf entitlements (g\<lparr> en_state := Revoked \<rparr>)) (filter E all)) (\<lambda>_. ok h B nothing {})"
    by (rule triple_pure, rule triple_revoke_each) simp
qed


subsection \<open>Transactions that write the four tables\<close>

lemma ok_eraseCustomer: "maintains (ok h B E N) (eraseCustomerT pf x)"
  unfolding eraseCustomerT_def Let_def
  by (intro learn_grants learn_purchases learn_gifts tx_rules ok_put_grant ok_put_purchase ok_put_gift) auto

lemma backed_ids: "en_purchaseId g' = en_purchaseId g \<Longrightarrow> en_giftId g' = en_giftId g \<Longrightarrow> backed s g' = backed s g"
  by (simp add: backed_def)

lemma single_source_ids: "en_purchaseId g' = en_purchaseId g \<Longrightarrow> en_giftId g' = en_giftId g \<Longrightarrow> single_source g' = single_source g"
  by (simp add: single_source_def)

lemma revised_grant_ids [simp]:
  "en_purchaseId (revised_grant pf offer b g) = en_purchaseId g" "en_giftId (revised_grant pf offer b g) = en_giftId g"
  by (simp_all add: revised_grant_def)

lemma ok_refresh_grants:
  assumes sel: "\<And>g s. selected g \<Longrightarrow> single_source g \<Longrightarrow> ok h B E N s \<Longrightarrow> backed s g"
    and new: "\<And>a b. single_source (new_grant a b)" "\<And>a b s. ok h B E N s \<Longrightarrow> backed s (new_grant a b)"
  shows "maintains (ok h B E N) (refresh_grants pf original offer selected new_grant)"
proof -
  have drop: "maintains (ok h B E N) (putT pf entitlements (g\<lparr> en_state := Revoked, en_contentRemoved := True \<rparr>))"
    if "\<forall>g \<in> set all. single_source g" "g \<in> set (filter selected all)" for all g
    by (rule ok_put_grant) (use that in auto)
  have keep: "maintains (ok h B E N) (putT pf entitlements (revised_grant pf offer b
      (case List.find (\<lambda>g. en_benefit g = b) (filter selected all) of Some g \<Rightarrow> g | None \<Rightarrow> new_grant a b)))"
    if "\<forall>g \<in> set all. single_source g" for all a b
  proof -
    let ?g = "case List.find (\<lambda>g. en_benefit g = b) (filter selected all) of Some g \<Rightarrow> g | None \<Rightarrow> new_grant a b"
    have "single_source ?g \<and> (\<forall>s. ok h B E N s \<longrightarrow> backed s ?g)"
      using new that sel by (auto split: option.split dest: find_SomeD)
    then show ?thesis
      by (intro ok_put_grant) (simp_all add: single_source_ids [of "revised_grant pf offer b ?g" ?g] backed_ids [of "revised_grant pf offer b ?g" ?g])
  qed
  show ?thesis unfolding refresh_grants_def Let_def
    by (rule learn_grants) (intro tx_rules drop keep; assumption)
qed

lemma backed_purchase:
  assumes "ok h B E N s" "Has_purchase p \<in> N" "pu_state p = Active" "en_purchaseId g = Some (rb_id (pu_base p))" "en_giftId g = None"
  shows "backed s g"
  using okD(9) [OF assms(1,2)] assms(3-) by (auto simp: backed_def)

lemma backed_gift:
  assumes "ok h B E N s" "Has_gift x \<in> N" "gf_state x = Gf_claimed" "en_giftId g = Some (rb_id (gf_base x))" "en_purchaseId g = None"
  shows "backed s g"
  using okD(9) [OF assms(1,2)] assms(3-) by (auto simp: backed_def)

lemma ok_update_purchase:
  assumes "Has_purchase p \<in> N" "pu_state p = Active"
  shows "maintains (ok h B E N) (update_purchase_contents pf offer p)"
proof -
  have ref: "maintains (ok h B E N) (refresh_grants pf original offer (\<lambda>g. en_purchaseId g = Some (rb_id (pu_base p))) (purchase_grant pf p))" for original
    by (rule ok_refresh_grants)
      (auto simp: single_source_def purchase_grant_def intro: backed_purchase [OF _ assms])
  have put: "maintains (ok h B E N) (putT pf purchases (p\<lparr> pu_contentOfferVersionId := Some (of_id offer) \<rparr>))"
    by (rule ok_put_purchase [OF assms(1)]) simp_all
  show ?thesis unfolding update_purchase_contents_def by (intro tx_rules ref put)
qed

lemma ok_update_gift:
  assumes "Has_gift x \<in> N" "gf_state x = Gf_claimed"
  shows "maintains (ok h B E N) (update_gift_contents pf offer x)"
proof -
  have ref: "maintains (ok h B E N) (refresh_grants pf original offer (\<lambda>g. en_giftId g = Some (rb_id (gf_base x))) (gift_grant pf x offer))" for original
    by (rule ok_refresh_grants)
      (auto simp: single_source_def gift_grant_def intro: backed_gift [OF _ assms])
  have put: "maintains (ok h B E N) (putT pf gifts (x\<lparr> gf_contentOfferVersionId := Some (of_id offer) \<rparr>))"
    by (rule ok_put_gift [OF assms(1)]) simp_all
  show ?thesis unfolding update_gift_contents_def by (intro tx_rules ref put)
qed

lemma ok_updateAccessContents [tx_rules]: "maintains (ok h B E N) (updateAccessContentsT pf offer)"
  unfolding updateAccessContentsT_def
  by (intro learn_purchases learn_gifts maintains_bind maintains_each ok_update_purchase ok_update_gift) auto

lemma ok_publishOffer: "maintains (ok h B E N) (publishOfferT pf sc a c m i)"
  unfolding publishOfferT_def Let_def by (intro tx_rules)

lemma ok_claimed_grants:
  assumes "gf_state x = Gf_claimed" "\<And>b. en_giftId (grant b) = Some (rb_id (gf_base x))" "\<And>b. en_purchaseId (grant b) = None"
    and "maintains (ok h B E {Has_gift x}) before" "\<And>y. maintains (ok h B E {Has_gift x}) (after y)"
  shows "maintains (ok h B E {}) (bindT (putT pf gifts x) (\<lambda>_. bindT before (\<lambda>_.
    bindT (eachT (\<lambda>b. insertT pf entitlements (grant b) []) bs) after)))"
proof -
  have "maintains (ok h B E {Has_gift x}) (insertT pf entitlements (grant b) [])" for b
    by (rule ok_insert_grant) (use assms(1-3) in \<open>auto simp: single_source_def intro!: backed_gift [where x = x]\<close>)
  then have "maintains (ok h B E {Has_gift x}) (bindT before (\<lambda>_. bindT (eachT (\<lambda>b. insertT pf entitlements (grant b) []) bs) after))"
    by (intro maintains_bind maintains_each assms(4,5))
  then have "triple (ok h B E {Has_gift x}) (bindT before (\<lambda>_. bindT (eachT (\<lambda>b. insertT pf entitlements (grant b) []) bs) after)) (\<lambda>_. ok h B E {})"
    by (rule triple_weaken [OF triple_maintains]) (auto intro: ok_less)
  then show ?thesis by (intro maintainsI triple_bind [OF triple_claim_gift] assms(1))
qed

lemma ok_claim_gift: "maintains (ok h B E {}) (claim_gift pf c g)"
  unfolding claim_gift_def Let_def
  by (intro tx_rules ok_claimed_grants) simp_all

lemma ok_claimGifts [tx_rules]: "maintains (ok h B E {}) (claimGiftsT pf c)"
  unfolding claimGiftsT_def by (intro tx_rules ok_claim_gift)

lemma ok_quote: "maintains (ok h B E {}) (quoteT pf a b c)"
  unfolding quoteT_def by (intro tx_rules)

lemma ok_checkout: "maintains (ok h B E {}) (checkoutT pf a b c d e f)"
  unfolding checkoutT_def Let_def by (intro tx_rules)

lemma ok_myAccess: "maintains (ok h B E {}) (myAccessT pf a)"
  unfolding myAccessT_def Let_def by (intro tx_rules)

lemma ok_giftOffer: "maintains (ok h B E N) (giftOfferT pf a b c d e f)"
  unfolding giftOfferT_def Let_def by (intro tx_rules ok_insert_gift)

lemma ok_manualGrant: "maintains (ok h B E N) (manualGrantT pf sc a b c d e)"
  unfolding manualGrantT_def Let_def
  by (intro tx_rules ok_insert_grant) (simp_all add: single_source_def backed_def)

lemma ok_revoke: "maintains (ok h B E N) (revokeT pf a b c d)"
  unfolding revokeT_def
  by (intro learn_grant tx_rules ok_put_grant) simp_all


lemma ok_reassign:
  assumes "Has_purchase p \<in> N" "pu_state p = Active" "single_source g" "en_purchaseId g = Some (rb_id (pu_base p))"
  shows "maintains (ok h B E N) (putT pf entitlements (g\<lparr> en_customerId := c \<rparr>))"
  by (rule ok_put_grant) (use assms in \<open>auto simp: single_source_def intro!: backed_purchase [OF _ assms(1,2)]\<close>)

lemma ok_claim_purchase:
  assumes "Has_purchase p \<in> N"
  shows "maintains (ok h B E N) (putT pf purchases (p\<lparr> pu_customerId := c, pu_claimedAt := t \<rparr>))"
    and "maintains (ok h B E N) (putT pf purchases (p\<lparr> pu_customerId := c, pu_claimedAt := t, pu_buyerEmail := e \<rparr>))"
  by (rule ok_put_purchase [OF assms]; simp)+

lemma ok_reassign_all:
  assumes "Has_purchase p \<in> N" "\<not> (c \<or> pu_state p \<noteq> Active)" "\<forall>g \<in> set all. single_source g"
    and "g \<in> set (filter (\<lambda>g. en_purchaseId g = Some (rb_id (pu_base p))) all)"
  shows "maintains (ok h B E N) (putT pf entitlements (g\<lparr> en_customerId := c' \<rparr>))"
  by (rule ok_reassign [OF assms(1)]) (use assms in auto)

lemma ok_redeemClaim: "maintains (ok h B E N) (redeemClaimT pf a b c)"
  unfolding redeemClaimT_def
  by (intro case_purchase learn_grants ok_claim_purchase ok_reassign_all insertI1 tx_rules) (rule insertI1 | assumption)+

lemma triple_forget: "maintains (ok h B E N) m \<Longrightarrow> triple (ok h B E N) m (\<lambda>_. ok h B E {})"
  unfolding maintains_def triple_def using ok_less [OF _ empty_subsetI] by blast

lemma bindT_assoc: "bindT (bindT m f) g = bindT m (\<lambda>x. bindT (f x) g)"
  by (rule ext) (simp add: bindT_def split: sum.split prod.split)

lemma triple_seen: "triple I (getT K i) (\<lambda>v s. I s \<and> v = row K i s)"
  by (rule triple_get) simp

lemma triple_keep: "triple I m R \<Longrightarrow> (\<And>x. triple (R x) (f x) (\<lambda>y. J)) \<Longrightarrow> triple I (bindT m f) (\<lambda>y. J)"
  by (rule triple_bind)

lemma triple_then: "triple P m (\<lambda>_. I) \<Longrightarrow> (\<And>x. maintains I (f x)) \<Longrightarrow> triple P (bindT m f) (\<lambda>_. I)"
  by (rule triple_bind) (auto simp: maintains_def)

lemma ok_revokeGift: "maintains (ok h B nothing {}) (revokeGiftT pf a b i)"
  unfolding revokeGiftT_def
proof (rule maintains_seq [OF triple_seen])
  fix v
  show "triple (\<lambda>s. ok h B nothing {} s \<and> v = row gifts i s)
     (case v of None \<Rightarrow> throwT ''gift_not_found''
     | Some g \<Rightarrow> if sc_ownerId (rb_scope (gf_base g)) \<noteq> b then throwT ''gift_not_found''
       else bindT (putT pf gifts (g\<lparr> gf_state := Gf_revoked \<rparr>)) (\<lambda>_.
         bindT (listT entitlements) (\<lambda>all.
         bindT (eachT (\<lambda>x. putT pf entitlements (x\<lparr> en_state := Revoked \<rparr>)) (filter (\<lambda>x. en_giftId x = Some i) all)) (\<lambda>_.
         bindT (notify_discord pf (rb_scope (gf_base g)) (gf_customerId g)) (\<lambda>_.
         auditT pf (rb_scope (gf_base g)) a ''gift.revoke'' i None)))))
     (\<lambda>_. ok h B nothing {})"
  proof (cases v)
    case None
    then show ?thesis by (simp add: triple_throw)
  next
    case (Some g)
    have "triple (\<lambda>s. ok h B nothing {} s \<and> row gifts i s = Some g) (bindT (putT pf gifts (g\<lparr> gf_state := Gf_revoked \<rparr>)) (\<lambda>_.
         bindT (bindT (listT entitlements) (\<lambda>all. eachT (\<lambda>x. putT pf entitlements (x\<lparr> en_state := Revoked \<rparr>)) (filter (\<lambda>x. en_giftId x = Some i) all))) (\<lambda>_.
         bindT (notify_discord pf (rb_scope (gf_base g)) (gf_customerId g)) (\<lambda>_.
         auditT pf (rb_scope (gf_base g)) a ''gift.revoke'' i None))))
       (\<lambda>_. ok h B nothing {})"
      by (rule triple_bind [OF triple_revoke_gift], rule triple_then [OF triple_revoke_all]) (intro tx_rules)
    then have "triple (\<lambda>s. ok h B nothing {} s \<and> v = row gifts i s) (bindT (putT pf gifts (g\<lparr> gf_state := Gf_revoked \<rparr>)) (\<lambda>_.
         bindT (listT entitlements) (\<lambda>all.
         bindT (eachT (\<lambda>x. putT pf entitlements (x\<lparr> en_state := Revoked \<rparr>)) (filter (\<lambda>x. en_giftId x = Some i) all)) (\<lambda>_.
         bindT (notify_discord pf (rb_scope (gf_base g)) (gf_customerId g)) (\<lambda>_.
         auditT pf (rb_scope (gf_base g)) a ''gift.revoke'' i None)))))
       (\<lambda>_. ok h B nothing {})"
      unfolding bindT_assoc by (rule triple_weaken) (use Some in auto)
    then show ?thesis by (cases "sc_ownerId (rb_scope (gf_base g)) = b") (simp_all add: Some triple_throw)
  qed
qed

lemma triple_revokePurchase:
  assumes i: "i = pkey h j"
  shows "triple (\<lambda>s. ok h {j} nothing N s \<and> existing = row purchases i s) (revokePurchaseT pf sc i existing) (\<lambda>_. ok h {} nothing {})"
proof -
  let ?E = "\<lambda>g. en_purchaseId g = Some i"
  have "triple (\<lambda>s. ok h {j} nothing N s \<and> existing = row purchases i s)
      (case existing of Some p \<Rightarrow> putT pf purchases (p\<lparr> pu_state := Revoked \<rparr>) | None \<Rightarrow> returnT ()) (\<lambda>_. ok h {} ?E {})"
  proof (cases existing)
    case None
    have "ok h {} ?E {} s" if "ok h {j} nothing N s" "row purchases i s = None" for s
      using that i by (fastforce simp: ok_def ledger_but_def)
    then show ?thesis using None by (auto intro!: triple_return)
  next
    case (Some p)
    have "triple (\<lambda>s. ok h {j} nothing N s \<and> existing = row purchases i s) (putT pf purchases (p\<lparr> pu_state := Revoked \<rparr>)) (\<lambda>_. ok h {} ?E {})"
      by (rule triple_weaken [OF triple_revoke_purchase [OF i]]) (use Some in auto)
    then show ?thesis using Some by simp
  qed
  moreover have "triple (ok h {} ?E {}) (bindT (bindT (listT entitlements) (\<lambda>all. eachT (\<lambda>g. putT pf entitlements (g\<lparr> en_state := Revoked \<rparr>)) (filter ?E all)))
      (\<lambda>_. case existing of Some p \<Rightarrow> notify_discord pf sc (pu_customerId p) | None \<Rightarrow> returnT ())) (\<lambda>_. ok h {} nothing {})"
    by (rule triple_then [OF triple_revoke_all]) (intro tx_rules)
  ultimately show ?thesis unfolding revokePurchaseT_def bindT_assoc by (rule triple_bind)
qed

lemma triple_grantPurchase:
  assumes "pf_hash pf = h" "i = rb_id (py_base q)" "\<not> final (py_state q)"
  shows "triple (ok h {} nothing {Has_payment q}) (grantPurchaseT pf sc i e offer contents order) (\<lambda>_. ok h {} nothing {})"
proof -
  have each: "maintains (ok h {} nothing {Has_purchase p}) (insertT pf entitlements g us)"
    if "pu_state p = Active" "en_purchaseId g = Some (rb_id (pu_base p))" "en_giftId g = None" for p g us
    by (rule ok_insert_grant) (use that in \<open>auto simp: single_source_def intro!: backed_purchase\<close>)
  let ?p = "\<lambda>b. new_purchase pf sc i offer contents order b"
  have p: "rb_id (pu_base (?p b)) = pkey h i" "pu_paymentId (?p b) = i" "pu_state (?p b) = Active" for b
    using assms(1) by (simp_all add: new_purchase_def base_def)
  show ?thesis unfolding grantPurchaseT_def Let_def
  proof (rule triple_bind)
    show "triple (ok h {} nothing {Has_payment q}) (case pe_buyerEmail e of None \<Rightarrow> returnT None
        | Some b \<Rightarrow> if truthy b then bindT (liftT (email b)) (\<lambda>x. returnT (Some x)) else returnT None)
        (\<lambda>_. ok h {} nothing {Has_payment q})"
      by (rule triple_maintains) (intro tx_rules)
  next
    fix b
    show "triple (ok h {} nothing {Has_payment q})
      (bindT (insertT pf purchases (?p b) [key pf [json_string ''purchase-payment'', json_string i]]) (\<lambda>_.
       bindT (whenT (list_ex is_package (accessBenefits offer contents)) (ensureContentPackageT pf contents)) (\<lambda>_.
       bindT (eachT (\<lambda>x. bindT (liftT (grant_end pf e offer)) (\<lambda>endsAt.
         insertT pf entitlements \<lparr> en_base = base pf sc (grant_key pf ''grant'' (purchase_key pf i) x), en_customerId = pu_customerId (?p b),
           en_purchaseId = Some (purchase_key pf i), en_giftId = None, en_contentRemoved = False, en_source = ''payment'', en_reason = None,
           en_benefit = x, en_startsAt = now pf, en_endsAt = endsAt, en_state = Active, en_assetIds = benefit_assets pf contents x \<rparr> []))
         (accessBenefits offer contents)) (\<lambda>_.
       if truthy_opt (pu_customerId (?p b)) then notify_discord pf sc (pu_customerId (?p b)) else createClaimT pf (purchase_key pf i)))))
      (\<lambda>_. ok h {} nothing {})"
    proof (rule triple_bind)
      show "triple (ok h {} nothing {Has_payment q}) (insertT pf purchases (?p b) [key pf [json_string ''purchase-payment'', json_string i]])
          (\<lambda>_. ok h {} nothing {Has_purchase (?p b)})"
        by (rule triple_insert_purchase) (use p assms(2,3) in simp_all)
    qed (rule triple_forget, intro tx_rules each, use p assms(1) in simp_all)
  qed
qed


subsection \<open>Evidence\<close>

lemma learn_payment:
  assumes "\<And>v. \<forall>q \<in> set_option v. rb_id (py_base q) = i \<Longrightarrow> maintains (ok h B E N) (f v)"
  shows "maintains (ok h B E N) (bindT (getT payments i) f)"
proof (rule maintains_learn [where F = "\<lambda>_. {}" and C = "\<lambda>v. \<forall>q \<in> set_option v. rb_id (py_base q) = i"])
  show "triple (ok h B E N) (getT payments i) (\<lambda>v s. ok h B E (N \<union> {}) s \<and> (\<forall>q \<in> set_option v. rb_id (py_base q) = i))"
    by (rule triple_get) (auto dest: ok_keys(4))
qed (use assms in simp)

lemma learn_lift: "(\<And>x. r = Inr x \<Longrightarrow> maintains I (f x)) \<Longrightarrow> maintains I (bindT (liftT r) f)"
  by (auto simp: maintains_def triple_def bindT_def liftT_def split: sum.splits)

lemma triple_when: "triple P m (\<lambda>_. J) \<Longrightarrow> (\<And>s. P s \<Longrightarrow> J s) \<Longrightarrow> triple P (whenT c m) (\<lambda>_. J)"
  by (cases c) (simp_all add: whenT_def triple_bind triple_return)

lemma settled_payment_id: "settled_payment pf e v n x y z p = Inr q \<Longrightarrow> rb_id (py_base q) = rb_id (py_base p)"
  by (auto simp: settled_payment_def Let_def try_then_def split: sum.splits)

lemma triple_settle:
  assumes h: "pf_hash pf = h" and i: "rb_id (py_base q) = i"
    and before: "\<And>B N. maintains (ok h B nothing N) orders" "\<And>B N. maintains (ok h B nothing N) find_contents"
    and after: "maintains (ok h {} nothing {}) after"
  shows "maintains (ok h {} nothing {}) (bindT (putT pf payments q) (\<lambda>_. bindT orders (\<lambda>_. bindT find_contents (\<lambda>contents.
    bindT (getT purchases (purchase_key pf i)) (\<lambda>existing.
    bindT (case (offer, contents) of
         (Some x, Some c) \<Rightarrow> whenT (valid \<and> existing = None \<and> py_state q \<in> {Completed, Partially_refunded}) (grantPurchaseT pf sc i e x c order)
       | _ \<Rightarrow> returnT ()) (\<lambda>_.
    bindT (whenT (py_state q \<in> {Refunded, Reversed}) (revokePurchaseT pf sc (purchase_key pf i) existing)) (\<lambda>_. after)))))))"
proof -
  let ?B = "if final (py_state q) then {i} else {}"
  let ?I = "ok h ?B nothing {Has_payment q}"
  have grant: "triple (\<lambda>s. ?I s \<and> existing = row purchases (purchase_key pf i) s)
      (case (offer, contents) of
         (Some x, Some c) \<Rightarrow> whenT (valid \<and> existing = None \<and> py_state q \<in> {Completed, Partially_refunded}) (grantPurchaseT pf sc i e x c order)
       | _ \<Rightarrow> returnT ())
      (\<lambda>_ s. if final (py_state q) then ?I s \<and> existing = row purchases (purchase_key pf i) s else ok h {} nothing {} s)" for existing contents
  proof (cases "final (py_state q)")
    case True
    then have "\<not> (valid \<and> existing = None \<and> py_state q \<in> {Completed, Partially_refunded})" by (auto simp: final_def)
    then have "(case (offer, contents) of
         (Some x, Some c) \<Rightarrow> whenT (valid \<and> existing = None \<and> py_state q \<in> {Completed, Partially_refunded}) (grantPurchaseT pf sc i e x c order)
       | _ \<Rightarrow> returnT ()) = returnT ()"
      by (cases offer; cases contents) (simp_all only: whenT_def if_False prod.case option.case)
    then show ?thesis using True by (simp only:) (rule triple_return, simp)
  next
    case False
    have g: "triple ?I (grantPurchaseT pf sc i e x c order) (\<lambda>_. ok h {} nothing {})" for x c
      using triple_grantPurchase [OF h i [symmetric] False] False by simp
    have J: "ok h {} nothing {} s" if "?I s" for s using that False by (auto intro: ok_less)
    have r: "triple ?I (returnT ()) (\<lambda>_. ok h {} nothing {})" by (rule triple_return) (rule J)
    have "triple ?I (whenT cond (grantPurchaseT pf sc i e x c order)) (\<lambda>_. ok h {} nothing {})" for x c cond
      by (rule triple_when [OF g]) (rule J)
    then have "triple ?I (case (offer, contents) of
         (Some x, Some c) \<Rightarrow> whenT (valid \<and> existing = None \<and> py_state q \<in> {Completed, Partially_refunded}) (grantPurchaseT pf sc i e x c order)
       | _ \<Rightarrow> returnT ()) (\<lambda>_. ok h {} nothing {})"
      using r by (cases offer; cases contents) (simp_all only: prod.case option.case)
    then show ?thesis using False by (auto intro: triple_weaken)
  qed
  have revoke: "triple (\<lambda>s. if final (py_state q) then ?I s \<and> existing = row purchases (purchase_key pf i) s else ok h {} nothing {} s)
      (whenT (py_state q \<in> {Refunded, Reversed}) (revokePurchaseT pf sc (purchase_key pf i) existing)) (\<lambda>_. ok h {} nothing {})" for existing
  proof (cases "final (py_state q)")
    case True
    have "triple (\<lambda>s. ok h {i} nothing {Has_payment q} s \<and> existing = row purchases (purchase_key pf i) s)
        (bindT (revokePurchaseT pf sc (purchase_key pf i) existing) (\<lambda>_. returnT ())) (\<lambda>_. ok h {} nothing {})"
      by (rule triple_bind [OF triple_revokePurchase]) (simp_all add: h triple_return)
    then show ?thesis using True by (simp add: whenT_def final_def)
  next
    case False
    then show ?thesis by (auto simp: whenT_def final_def intro!: triple_return)
  qed
  show ?thesis
  proof (intro maintainsI triple_bind)
    show "triple (ok h {} nothing {}) (putT pf payments q) (\<lambda>_. ?I)" using triple_put_payment [of h nothing pf q] by (simp only: i)
    show "triple ?I orders (\<lambda>_. ?I)" "triple ?I find_contents (\<lambda>_. ?I)" by (rule triple_maintains before)+
    show "triple ?I (getT purchases (purchase_key pf i)) (\<lambda>v s. ?I s \<and> v = row purchases (purchase_key pf i) s)" by (rule triple_seen)
    show "triple (ok h {} nothing {}) after (\<lambda>_. ok h {} nothing {})" by (rule triple_maintains [OF after])
  qed (rule grant revoke)+
qed

lemma ok_applyEvidence:
  assumes "pf_hash pf = h"
  shows "maintains (ok h {} nothing {}) (applyEvidenceT pf sc c e n)"
  unfolding applyEvidenceT_def Let_def
  by (intro learn_payment learn_lift triple_settle tx_rules assms)
    (auto dest!: settled_payment_id simp: new_payment_def base_def split: option.splits)

lemma ok_collect: "(\<And>x. maintains I (f x)) \<Longrightarrow> maintains I (collectT f xs)"
  by (induction xs) (auto intro: tx_rules)

lemma ok_reconcile:
  assumes "pf_hash pf = h"
  shows "maintains (ok h {} nothing {}) (reconcileT pf sc c es n)"
  unfolding reconcileT_def by (intro tx_rules ok_collect ok_applyEvidence assms)


subsection \<open>Delivery\<close>

lemma ok_prepared_files [tx_rules]: "maintains (ok h B E N) (prepared_filesT pf latest xs)"
proof (induction xs)
  case (Cons x xs)
  show ?case by (cases x) (simp only: prepared_filesT.simps Let_def, intro tx_rules Cons)
qed (simp add: tx_rules)

lemma ok_refreshCollection: "maintains (ok h B E N) (refreshCollectionT pf latest prepared)"
  unfolding refreshCollectionT_def Let_def by (intro tx_rules)

lemma ok_priorCheckout: "maintains (ok h B E N) (priorCheckoutT pf a b c)"
  unfolding priorCheckoutT_def by (intro tx_rules)

lemma ok_customerCollections: "maintains (ok h B E N) (customerCollectionsT pf a)"
  unfolding customerCollectionsT_def Let_def by (intro tx_rules)

lemma ok_order: "maintains (ok h B E N) (orderT pf a i)"
  unfolding orderT_def Let_def by (intro tx_rules)

lemma ok_gifts: "maintains (ok h B E {}) (giftsT pf a)"
  unfolding giftsT_def by (intro tx_rules)

lemma ok_authorizeDownload: "maintains (ok h B E N) (authorizeDownloadT pf a i)"
  unfolding authorizeDownloadT_def by (intro tx_rules)

lemma ok_package_built: "maintains (ok h B E N) (package_builtT pf job x a b n)"
  unfolding package_builtT_def by (intro tx_rules)

lemma ok_beginDiscord: "maintains (ok h B E N) (beginDiscordT pf a c v)"
  unfolding beginDiscordT_def Let_def by (intro tx_rules)

lemma ok_oauth_state [tx_rules]: "maintains (ok h B E N) (oauth_stateT pf a st)"
  unfolding oauth_stateT_def by (intro tx_rules)

lemma ok_discordFlow: "maintains (ok h B E N) (discordFlowT pf a st)"
  unfolding discordFlowT_def by (intro tx_rules)

lemma ok_consumeDiscord: "maintains (ok h B E N) (consumeDiscordT pf a st)"
  unfolding consumeDiscordT_def Let_def by (intro tx_rules)

lemma ok_configureGuild: "maintains (ok h B E N) (configureGuildT pf sc a g rs u)"
  unfolding configureGuildT_def by (intro tx_rules)

lemma ok_connectDiscord: "maintains (ok h B E N) (connectDiscordT pf a u)"
  unfolding connectDiscordT_def by (intro tx_rules)

lemma ok_observeRole: "maintains (ok h B E N) (observeRoleT pf job t m)"
  unfolding observeRoleT_def Let_def by (intro tx_rules)

lemma ok_roleConflict: "maintains (ok h B E N) (roleConflictT pf r)"
  unfolding roleConflictT_def Let_def by (intro tx_rules)

lemma ok_settleRole: "maintains (ok h B E N) (settleRoleT pf job t r)"
  unfolding settleRoleT_def Let_def by (intro tx_rules)

lemma ok_externalMapping: "maintains (ok h B E N) (externalMappingT pf a i p mer)"
  unfolding externalMappingT_def Let_def by (intro tx_rules)

lemma ok_queue_upto [tx_rules]: "maintains (ok h B E N) (queue_upto pf batch n xs)"
proof (induction xs arbitrary: n)
  case (Cons x xs)
  show ?case by (cases x) (simp only: queue_upto.simps, intro tx_rules Cons)
qed (simp add: tx_rules)

lemma ok_backlog [tx_rules]: "maintains (ok h B E N) (backlogT pf sc)"
  unfolding backlogT_def Let_def by (intro tx_rules)

lemma ok_converge [tx_rules]: "maintains (ok h B E N) (convergeT pf t)"
  unfolding convergeT_def by (intro tx_rules)

lemma ok_expireRole: "single_source g \<Longrightarrow> maintains (ok h B E N) (expireRoleT pf g)"
  unfolding expireRoleT_def by (intro maintains_bind ok_put_grant ok_notify) simp_all

lemma ok_prune: "blind (ok h B E N) K \<Longrightarrow> maintains (ok h B E N) (pruneT K old)"
  unfolding pruneT_def by (intro tx_rules)

lemma ok_cleanup [tx_rules]: "maintains (ok h B E N) (cleanupT pf)"
  unfolding cleanupT_def by (intro ok_prune tx_rules)

lemma ok_schedule: "maintains (ok h B E N) (scheduleT pf batch d)"
  unfolding scheduleT_def by (intro learn_grants ok_expireRole tx_rules) auto

end
