(* ===== verification/Commerce_Ledger.thy ===== *)
theory Commerce_Ledger
  imports Commerce_Access
begin

text \<open>
  The ledger over time: the store's reachable states under every modelled transaction of the commerce service, what payment
  evidence may change in a payment, single use of purchase claims and the price after the ownership discount.
\<close>

subsection \<open>Reachable ledgers\<close>

text \<open>One transaction of the service, its answer dropped.\<close>

definition quiet :: "'a tx \<Rightarrow> unit tx" where
  "quiet m = bindT m (\<lambda>_. returnT ())"

inductive service_tx :: "platform \<Rightarrow> unit tx \<Rightarrow> bool" for pf where
  tx_issue: "service_tx pf (quiet (operationalIssueT pf sc code who))"
| tx_erase: "service_tx pf (quiet (eraseCustomerT pf subject))"
| tx_begin_login: "service_tx pf (quiet (beginEmailLoginT pf address ret))"
| tx_redeem_login: "service_tx pf (quiet (redeemEmailLoginT pf i token attach))"
| tx_attach: "service_tx pf (quiet (attachAccountCustomerT pf a b c))"
| tx_issue_session: "service_tx pf (quiet (issueAccountSessionT pf subject a))"
| tx_revoke_session: "service_tx pf (quiet (revokeAccountSessionT pf credential))"
| tx_begin_verification: "service_tx pf (quiet (beginEmailVerificationT pf subject address))"
| tx_verify: "service_tx pf (quiet (verifyEmailT pf subject i token))"
| tx_register: "service_tx pf (quiet (registerAssetT pf sc actor asset))"
| tx_availability: "service_tx pf (quiet (setAssetAvailabilityT pf actor owner asset available))"
| tx_publish: "service_tx pf (quiet (publishOfferT pf sc actor connection support input))"
| tx_visibility: "service_tx pf (quiet (setOfferPublishedT pf actor owner i published))"
| tx_quote: "service_tx pf (quiet (quoteT pf subject offerId included))"
| tx_checkout: "service_tx pf (quiet (checkoutT pf subject offer connection idem expected included))"
| tx_cancel: "service_tx pf (quiet (cancelSubscriptionT pf subject i))"
| tx_capture: "service_tx pf (quiet (captureT pf subject i))"
| tx_reconcile: "service_tx pf (quiet (reconcileT pf sc connectionId evidence event))"
| tx_redeem: "service_tx pf (quiet (redeemClaimT pf subject i token))"
| tx_resend: "service_tx pf (quiet (resendClaimT pf actor owner purchaseId))"
| tx_recover: "service_tx pf (quiet (recoverClaimsT pf subject))"
| tx_retry_discord: "service_tx pf (quiet (retryCustomerDiscordT pf subject))"
| tx_retry: "service_tx pf (quiet (retryT pf actor owner kind i))"
| tx_gift: "service_tx pf (quiet (giftOfferT pf actor offer requestId recipient months requestHash))"
| tx_revoke_gift: "service_tx pf (quiet (revokeGiftT pf actor owner i))"
| tx_grant: "service_tx pf (quiet (manualGrantT pf sc actor customerId b reason endsAt))"
| tx_revoke: "service_tx pf (quiet (revokeT pf actor owner grantId reason))"
| tx_access: "service_tx pf (quiet (myAccessT pf subject))"
| tx_created: "service_tx pf (quiet (order_createdT pf i orderId planId url merchant))"
| tx_stalled: "service_tx pf (quiet (order_stalledT pf i))"
| tx_status: "service_tx pf (quiet (order_statusT pf i approved failed))"
| tx_claim_job: "service_tx pf (quiet (claimJobT pf worker))"
| tx_finish_job: "service_tx pf (quiet (finishJobT pf job))"
| tx_fail_job: "service_tx pf (quiet (failJobT pf job code retryAfter))"
| tx_prior: "service_tx pf (quiet (priorCheckoutT pf subject offerId idem))"
| tx_refresh: "service_tx pf (quiet (refreshCollectionT pf latest prepared))"
| tx_collections: "service_tx pf (quiet (customerCollectionsT pf subject))"
| tx_order: "service_tx pf (quiet (orderT pf subject i))"
| tx_gifts: "service_tx pf (quiet (giftsT pf subject))"
| tx_authorize: "service_tx pf (quiet (authorizeDownloadT pf subject asset))"
| tx_built: "service_tx pf (quiet (package_builtT pf job x objectId checksum len))"
| tx_begin_discord: "service_tx pf (quiet (beginDiscordT pf subject creator v))"
| tx_discord_flow: "service_tx pf (quiet (discordFlowT pf subject st))"
| tx_consume_discord: "service_tx pf (quiet (consumeDiscordT pf subject st))"
| tx_guild: "service_tx pf (quiet (configureGuildT pf sc actor guild roles url))"
| tx_connect: "service_tx pf (quiet (connectDiscordT pf subject user))"
| tx_observe: "service_tx pf (quiet (observeRoleT pf job target member))"
| tx_conflict: "service_tx pf (quiet (roleConflictT pf role))"
| tx_settle: "service_tx pf (quiet (settleRoleT pf job target role))"
| tx_mapping: "service_tx pf (quiet (externalMappingT pf actor offerId paymentId merchant))"
| tx_schedule: "service_tx pf (quiet (scheduleT pf batch recentDays))"

text \<open>A service transaction at any time, or any write that leaves the payments, purchases, grants and gifts as they are
  (the rate limiter, webhooks, sign-in accounts and the creator's Discord set-up write other tables only).\<close>

inductive commerce_step :: "(string \<Rightarrow> string) \<Rightarrow> commerce \<Rightarrow> commerce \<Rightarrow> bool" for h where
  commit: "service_tx pf m \<Longrightarrow> pf_hash pf = h \<Longrightarrow> commerce_step h s (snd (transaction m s))"
| elsewhere: "cm_payments s' = cm_payments s \<Longrightarrow> cm_purchases s' = cm_purchases s \<Longrightarrow> cm_entitlements s' = cm_entitlements s
    \<Longrightarrow> cm_gifts s' = cm_gifts s \<Longrightarrow> commerce_step h s s'"

definition no_commerce :: commerce where
  "no_commerce = \<lparr> cm_customers = [], cm_offers = [], cm_checkouts = [], cm_payments = [], cm_refunds = [], cm_purchases = [],
     cm_entitlements = [], cm_claims = [], cm_emailProofs = [], cm_assets = [], cm_packages = [], cm_jobs = [], cm_events = [],
     cm_audits = [], cm_rates = [], cm_guilds = [], cm_discordRoles = [], cm_oauth = [], cm_logins = [], cm_sessions = [],
     cm_mappings = [], cm_gifts = [], cm_uniques = [], cm_drawn = 0 \<rparr>"

inductive commerce_reachable :: "(string \<Rightarrow> string) \<Rightarrow> commerce \<Rightarrow> bool" for h where
  created: "commerce_reachable h no_commerce"
| stepped: "commerce_reachable h s \<Longrightarrow> commerce_step h s s' \<Longrightarrow> commerce_reachable h s'"

lemma maintains_quiet [tx_rules]: "maintains I m \<Longrightarrow> maintains I (quiet m)"
  unfolding quiet_def by (intro tx_rules)

lemmas service_ok = ok_operationalIssue ok_eraseCustomer ok_beginEmailLogin ok_redeemEmailLogin ok_attachAccountCustomer
  ok_issueAccountSession ok_revokeAccountSession ok_beginEmailVerification ok_verifyEmail ok_registerAsset ok_setAssetAvailability
  ok_publishOffer ok_setOfferPublished ok_quote ok_checkout ok_cancelSubscription ok_capture ok_redeemClaim ok_resendClaim
  ok_recoverClaims ok_retryCustomerDiscord ok_retry ok_giftOffer ok_revokeGift ok_manualGrant ok_revoke ok_myAccess
  ok_order_created ok_order_stalled ok_order_status ok_claimJob ok_finishJob ok_failJob ok_priorCheckout ok_refreshCollection
  ok_customerCollections ok_order ok_gifts ok_authorizeDownload ok_package_built ok_beginDiscord ok_discordFlow ok_consumeDiscord
  ok_configureGuild ok_connectDiscord ok_observeRole ok_roleConflict ok_settleRole ok_externalMapping ok_schedule

lemma service_keeps_ledger:
  assumes "service_tx pf m"
  shows "maintains (ok (pf_hash pf) {} nothing {}) m"
  using assms by (cases rule: service_tx.cases) (auto intro!: maintains_quiet intro: service_ok ok_reconcile [OF refl])

lemma reachable_ok: "commerce_reachable h s \<Longrightarrow> ok h {} nothing {} s"
proof (induction rule: commerce_reachable.induct)
  case created
  show ?case by (simp add: ok_def ledger_but_def no_commerce_def wf_tbl_def row_def purchases_def entitlements_def)
next
  case (stepped s s')
  from stepped.hyps(2) show ?case
  proof (cases rule: commerce_step.cases)
    case (commit pf m)
    have "ok (pf_hash pf) {} nothing {} (snd (transaction m s))"
      by (rule transaction_maintains [OF service_keeps_ledger [OF commit(2)]]) (simp add: stepped.IH commit(3))
    then show ?thesis by (simp add: commit(1,3))
  next
    case elsewhere
    then show ?thesis using stepped.IH ok_tables [of s' s] by simp
  qed
qed

text \<open>C29: Access is always backed. In every state the service's transactions can reach, a grant that is active and came from a
  purchase has an active purchase whose payment is stored and neither refunded nor reversed; one that came from a gift has a
  gift that is claimed and not revoked. So a refund or a chargeback leaves no active access behind, whatever came between.\<close>

theorem access_is_backed:
  assumes "commerce_reachable h s" "row entitlements k s = Some g" "en_state g = Active"
  shows "(\<forall>i. en_purchaseId g = Some i \<longrightarrow> (\<exists>p q. row purchases i s = Some p \<and> pu_state p = Active
       \<and> row payments (pu_paymentId p) s = Some q \<and> py_state q \<noteq> Refunded \<and> py_state q \<noteq> Reversed))
    \<and> (\<forall>i. en_giftId g = Some i \<longrightarrow> (\<exists>x. row gifts i s = Some x \<and> gf_state x = Gf_claimed))"
  using okD(8) [OF reachable_ok [OF assms(1)] assms(2,3)] okD(6) [OF reachable_ok [OF assms(1)]]
  by (fastforce simp: backed_def final_def)

subsection \<open>What evidence may change in a payment\<close>

definition advanced :: "payment \<Rightarrow> payment \<Rightarrow> bool" where
  "advanced p q \<longleftrightarrow> rb_id (py_base q) = rb_id (py_base p) \<and> py_paidMinor q = py_paidMinor p \<and> py_currency q = py_currency p
     \<and> py_merchantId q = py_merchantId p \<and> py_connectionId q = py_connectionId p
     \<and> py_refundedMinor p \<le> py_refundedMinor q \<and> (final (py_state p) \<longrightarrow> final (py_state q)) \<and> (py_state p = Reversed \<longrightarrow> py_state q = Reversed)"

lemma payment_advanced_refl: "advanced p p" by (simp add: advanced_def)

lemma payment_advanced_trans: "advanced p q \<Longrightarrow> advanced q r \<Longrightarrow> advanced p r" by (auto simp: advanced_def)

lemma settled_state_final: "final (py_state p) \<Longrightarrow> final (settled_state e v n p)"
  by (auto simp: settled_state_def final_def)

lemma settled_state_reversed: "py_state p = Reversed \<Longrightarrow> settled_state e v n p = Reversed"
  by (simp add: settled_state_def)

lemma settled_advances:
  assumes "settled_payment pf e v (refunded_amount e n p) x y z p = Inr q"
  shows "advanced p q"
proof -
  have "py_refundedMinor q = refunded_amount e n p" "py_state q = settled_state e v (refunded_amount e n p) p"
    "rb_id (py_base q) = rb_id (py_base p)" "py_paidMinor q = py_paidMinor p" "py_currency q = py_currency p"
    "py_merchantId q = py_merchantId p" "py_connectionId q = py_connectionId p"
    using assms unfolding settled_payment_def Let_def try_then_def
    by (cases "latest_iso (py_providerUpdatedAt p) (pe_updatedAt e)"; clarsimp)+
  moreover have "py_refundedMinor p \<le> refunded_amount e n p" by (simp add: refunded_amount_def)
  ultimately show ?thesis by (simp add: advanced_def settled_state_final settled_state_reversed)
qed

text \<open>Predicates on the payments only: every transaction that writes other tables maintains them.\<close>

definition on_payments :: "(payment tbl \<Rightarrow> bool) \<Rightarrow> commerce \<Rightarrow> bool" where
  "on_payments P s \<longleftrightarrow> P (cm_payments s)"

named_theorems pay_rules \<open>transactions that leave the payments\<close>

lemma on_payments_blindI:
  assumes "\<And>t s. cm_payments (kd_set K t s) = cm_payments s"
  shows "blind (on_payments P) K"
  using assms by (simp add: blind_def on_payments_def)

lemma on_payments_blind [pay_rules]:
  "blind (on_payments P) purchases" "blind (on_payments P) entitlements" "blind (on_payments P) gifts" "blind (on_payments P) checkouts"
  "blind (on_payments P) refunds" "blind (on_payments P) claims" "blind (on_payments P) assets" "blind (on_payments P) packages"
  "blind (on_payments P) jobs" "blind (on_payments P) audits"
  by (rule on_payments_blindI, simp add: kind_defs)+

lemma on_payments_fresh [pay_rules]: "maintains (on_payments P) (fresh pf)"
  by (rule maintains_fresh) (simp add: on_payments_def)

lemma on_payments_audit [pay_rules]: "maintains (on_payments P) (auditT pf sc a b c d)"
  unfolding auditT_def by (intro tx_rules pay_rules)

lemma on_payments_queue [pay_rules]: "maintains (on_payments P) (queueT pf sc k i d)"
  unfolding queueT_def by (intro tx_rules pay_rules)

lemma on_payments_notify [pay_rules]: "maintains (on_payments P) (notify_discord pf sc c)"
  unfolding notify_discord_def by (intro tx_rules pay_rules)

lemma on_payments_package [pay_rules]: "maintains (on_payments P) (ensureContentPackageT pf x)"
  unfolding ensureContentPackageT_def Let_def by (intro tx_rules pay_rules)

lemma on_payments_contents [pay_rules]: "maintains (on_payments P) (currentContentsT pf x)"
  unfolding currentContentsT_def Let_def by (intro tx_rules pay_rules)

lemma on_payments_claim [pay_rules]: "maintains (on_payments P) (createClaimT pf i)"
  unfolding createClaimT_def by (intro tx_rules pay_rules)

lemma on_payments_refund [pay_rules]: "maintains (on_payments P) (record_refund pf sc i r)"
  unfolding record_refund_def Let_def by (intro tx_rules pay_rules)

lemma on_payments_grant [pay_rules]: "maintains (on_payments P) (grantPurchaseT pf sc i e x c order)"
  unfolding grantPurchaseT_def Let_def by (intro tx_rules pay_rules)

lemma on_payments_revoke [pay_rules]: "maintains (on_payments P) (revokePurchaseT pf sc i existing)"
  unfolding revokePurchaseT_def by (intro tx_rules pay_rules)

definition grown :: "payment tbl \<Rightarrow> payment tbl \<Rightarrow> bool" where
  "grown t0 t \<longleftrightarrow> wf_tbl py_base t \<and> (\<forall>i p. map_of t0 i = Some p \<longrightarrow> (\<exists>q. map_of t i = Some q \<and> advanced p q))"

definition grown_with :: "payment tbl \<Rightarrow> string \<Rightarrow> payment option \<Rightarrow> payment tbl \<Rightarrow> bool" where
  "grown_with t0 i v t \<longleftrightarrow> grown t0 t \<and> map_of t i = v"

lemma triple_front: "maintains I m \<Longrightarrow> (\<And>x. triple I (f x) Q) \<Longrightarrow> triple I (bindT m f) Q"
  unfolding maintains_def by (rule triple_bind)

lemma triple_front_lift: "(\<And>x. r = Inr x \<Longrightarrow> triple I (f x) Q) \<Longrightarrow> triple I (bindT (liftT r) f) Q"
  by (auto simp: triple_def bindT_def liftT_def split: sum.splits)

lemma triple_if: "(c \<Longrightarrow> triple I a Q) \<Longrightarrow> (\<not> c \<Longrightarrow> triple I b Q) \<Longrightarrow> triple I (if c then a else b) Q"
  by simp

lemma triple_start:
  assumes "\<And>v. \<forall>q \<in> set_option v. rb_id (py_base q) = i \<Longrightarrow> triple (on_payments (grown_with t i v)) (f v) (\<lambda>_. on_payments (grown t))"
  shows "maintains (on_payments (grown t)) (bindT (getT payments i) f)"
proof (rule maintains_seq)
  show "triple (on_payments (grown t)) (getT payments i)
    (\<lambda>v s. on_payments (grown_with t i v) s \<and> (\<forall>q \<in> set_option v. rb_id (py_base q) = i))"
    by (rule triple_get) (auto simp: on_payments_def grown_with_def grown_def row_def payments_def dest: wf_tbl_key)
next
  fix v show "triple (\<lambda>s. on_payments (grown_with t i v) s \<and> (\<forall>q \<in> set_option v. rb_id (py_base q) = i)) (f v) (\<lambda>_. on_payments (grown t))"
    by (rule triple_pure) (rule assms)
qed

lemma triple_advance:
  assumes "rb_id (py_base q) = i" "\<And>p. v = Some p \<Longrightarrow> advanced p q"
  shows "triple (on_payments (grown_with t i v)) (putT pf payments q) (\<lambda>_. on_payments (grown t))"
proof (rule triple_put)
  fix s assume s: "on_payments (grown_with t i v) s"
  let ?t = "AList.update i q (cm_payments s)"
  have v: "map_of (cm_payments s) i = v" and w: "wf_tbl py_base (cm_payments s)"
    and g: "\<And>j p. map_of t j = Some p \<Longrightarrow> \<exists>r. map_of (cm_payments s) j = Some r \<and> advanced p r"
    using s by (auto simp: on_payments_def grown_with_def grown_def)
  have "\<exists>r. map_of ?t j = Some r \<and> advanced p r" if "map_of t j = Some p" for j p
    using g [OF that] v assms(2) by (auto simp: update_conv' intro: payment_advanced_trans)
  moreover have "wf_tbl py_base ?t" using wf_tbl_update [OF w, of q] assms(1) by simp
  ultimately have "grown t ?t" by (simp add: grown_def)
  then show "on_payments (grown t) (kd_set payments (AList.update (rb_id (kd_base payments q)) q (kd_get payments s)) s)"
    using assms(1) by (simp add: on_payments_def payments_def)
qed

lemma evidence_grows: "maintains (on_payments (grown t)) (applyEvidenceT pf sc c e n)"
  unfolding applyEvidenceT_def Let_def
  by (intro triple_start triple_front_lift triple_bind [OF triple_advance] triple_front triple_if triple_throw triple_maintains tx_rules pay_rules)
    (auto dest: settled_payment_id settled_advances simp: new_payment_def base_def split: option.splits)

lemma on_payments_reconcile: "maintains (on_payments (grown t)) (reconcileT pf sc c es n)"
  unfolding reconcileT_def by (intro tx_rules ok_collect evidence_grows)

text \<open>C30: Evidence never reopens a payment. Whatever evidence the provider sends, in whatever order and with whatever timestamps,
  reconciling it keeps every stored payment: the amount paid, the currency, the merchant and the connection do not change, the
  refunded amount never shrinks, a refunded payment stays refunded or becomes reversed, and a reversed one stays reversed.\<close>

theorem evidence_never_reopens:
  assumes "commerce_reachable h s" "row payments i s = Some p"
  shows "\<exists>q. row payments i (snd (transaction (reconcileT pf sc connectionId evidence event) s)) = Some q
    \<and> py_paidMinor q = py_paidMinor p \<and> py_currency q = py_currency p \<and> py_merchantId q = py_merchantId p \<and> py_connectionId q = py_connectionId p
    \<and> py_refundedMinor p \<le> py_refundedMinor q
    \<and> (py_state p = Refunded \<longrightarrow> py_state q \<in> {Refunded, Reversed}) \<and> (py_state p = Reversed \<longrightarrow> py_state q = Reversed)"
proof -
  have "on_payments (grown (cm_payments s)) s"
    using okD(4) [OF reachable_ok [OF assms(1)]] by (auto simp: on_payments_def grown_def intro: payment_advanced_refl)
  then have "on_payments (grown (cm_payments s)) (snd (transaction (reconcileT pf sc connectionId evidence event) s))"
    by (rule transaction_maintains [OF on_payments_reconcile])
  then show ?thesis
    using assms(2) by (fastforce simp: on_payments_def grown_def row_def payments_def advanced_def final_def)
qed

subsection \<open>Purchase claims\<close>

definition on_claims :: "(claim tbl \<Rightarrow> bool) \<Rightarrow> commerce \<Rightarrow> bool" where
  "on_claims P s \<longleftrightarrow> P (cm_claims s)"

lemma on_claims_blindI:
  assumes "\<And>t s. cm_claims (kd_set K t s) = cm_claims s"
  shows "blind (on_claims P) K"
  using assms by (simp add: blind_def on_claims_def)

lemma on_claims_blind [pay_rules]:
  "blind (on_claims P) purchases" "blind (on_claims P) entitlements" "blind (on_claims P) customers" "blind (on_claims P) jobs"
  "blind (on_claims P) audits"
  by (rule on_claims_blindI, simp add: kind_defs)+

lemma on_claims_fresh [pay_rules]: "maintains (on_claims P) (fresh pf)"
  by (rule maintains_fresh) (simp add: on_claims_def)

lemma on_claims_customer: "maintains (on_claims P) (customerT pf subject)"
  unfolding customerT_def scopeT_def Let_def by (intro tx_rules pay_rules)

lemma on_claims_queue [pay_rules]: "maintains (on_claims P) (queueT pf sc k i d)"
  unfolding queueT_def by (intro tx_rules pay_rules)

lemma on_claims_audit [pay_rules]: "maintains (on_claims P) (auditT pf sc a b c d)"
  unfolding auditT_def by (intro tx_rules pay_rules)

definition claim_is :: "string \<Rightarrow> claim option \<Rightarrow> claim tbl \<Rightarrow> bool" where
  "claim_is i v t \<longleftrightarrow> map_of t i = v"

definition claim_used :: "string \<Rightarrow> claim tbl \<Rightarrow> bool" where
  "claim_used i t \<longleftrightarrow> (\<exists>c. map_of t i = Some c \<and> truthy_opt (cl_consumedAt c))"

lemma triple_get_claim:
  assumes "triple (on_claims (claim_is i v)) (f v) Q"
  shows "triple (on_claims (claim_is i v)) (bindT (getT claims i) f) Q"
  using assms by (auto simp: triple_def bindT_def getT_def on_claims_def claim_is_def row_def claims_def)

lemma triple_use_claim:
  assumes "rb_id (cl_base c) = i" "truthy_opt (cl_consumedAt c)"
  shows "triple P (putT pf claims c) (\<lambda>_. on_claims (claim_used i))"
  by (rule triple_put) (use assms in \<open>simp add: on_claims_def claim_used_def claims_def update_conv'\<close>)

lemma to_iso_truthy: "to_iso t = Some s \<Longrightarrow> s \<noteq> []"
  by (auto simp: to_iso_def Let_def split: if_splits prod.splits)

lemma now_truthy: "\<bar>pf_time pf\<bar> \<le> 8640000000000000 \<Longrightarrow> now pf \<noteq> []"
  using to_iso_Some_iff [of "pf_time pf"] by (auto simp: now_def dest: to_iso_truthy split: option.split)

lemma triple_option: "(v = None \<Longrightarrow> triple I a Q) \<Longrightarrow> (\<And>x. v = Some x \<Longrightarrow> triple I (b x) Q) \<Longrightarrow> triple I (case v of None \<Rightarrow> a | Some x \<Rightarrow> b x) Q"
  by (cases v) auto

lemma triple_always: "C \<Longrightarrow> triple P m (\<lambda>_ _. C)"
  by (simp add: triple_def)

lemma redeem_open:
  "triple (on_claims (claim_is i v)) (redeemClaimT pf subject i token)
    (\<lambda>_ _. \<exists>c. v = Some c \<and> proof_open pf (cl_expiresAt c) (cl_consumedAt c) (cl_tokenHash c) token)"
  unfolding redeemClaimT_def
  by (rule triple_front [OF on_claims_customer], rule triple_get_claim, rule triple_option, rule triple_throw, rule triple_if,
      rule triple_throw, rule triple_always) auto

lemma redeem_uses_claim:
  assumes "\<forall>c \<in> set_option v. rb_id (cl_base c) = i" "\<bar>pf_time pf\<bar> \<le> 8640000000000000"
  shows "triple (on_claims (claim_is i v)) (redeemClaimT pf subject i token) (\<lambda>_. on_claims (claim_used i))"
  unfolding redeemClaimT_def
  by (intro triple_bind [OF triple_use_claim [where i = i]] triple_front on_claims_customer triple_get_claim triple_option triple_throw triple_if
      triple_maintains tx_rules pay_rules)
    (use assms in \<open>auto simp: now_truthy\<close>)


text \<open>C31: A purchase claim is redeemed once. A redemption succeeds only with the claim's token, before it expires and when it was
  not consumed; afterwards every redemption of that claim is refused, whoever tries, with whatever token and at whatever time.\<close>

theorem claim_redeemed_once:
  assumes "transaction (redeemClaimT pf subject i token) s = (Inr p, s')"
    and "\<forall>c. row claims i s = Some c \<longrightarrow> rb_id (cl_base c) = i" "\<bar>pf_time pf\<bar> \<le> 8640000000000000"
  shows "(\<exists>c. row claims i s = Some c \<and> cl_tokenHash c = pf_hash pf token \<and> now pf < cl_expiresAt c \<and> \<not> truthy_opt (cl_consumedAt c))
    \<and> isl (fst (transaction (redeemClaimT pf' subject' i token') s'))"
proof -
  let ?v = "row claims i s"
  have run: "redeemClaimT pf subject i token s = Inr (p, s')"
    using assms(1) by (auto simp: transaction_def split: sum.splits)
  have s: "on_claims (claim_is i ?v) s" by (simp add: on_claims_def claim_is_def row_def claims_def)
  have used: "on_claims (claim_used i) s'"
    by (rule tripleD [OF redeem_uses_claim run s]) (use assms(2,3) in auto)
  then have s': "on_claims (claim_is i (row claims i s')) s'" "\<exists>c. row claims i s' = Some c \<and> truthy_opt (cl_consumedAt c)"
    by (auto simp: on_claims_def claim_is_def claim_used_def row_def claims_def)
  have "isl (redeemClaimT pf' subject' i token' s')"
  proof (rule ccontr)
    assume "\<not> isl (redeemClaimT pf' subject' i token' s')"
    then obtain x t where "redeemClaimT pf' subject' i token' s' = Inr (x, t)" by (auto simp: isl_def) (metis sum.exhaust surj_pair)
    from tripleD [OF redeem_open this s'(1)] s'(2) show False by (auto simp: proof_open_def)
  qed
  then have "isl (fst (transaction (redeemClaimT pf' subject' i token') s'))"
    by (auto simp: transaction_def split: sum.split)
  with tripleD [OF redeem_open run s] show ?thesis by (auto simp: proof_open_def)
qed

subsection \<open>Prices after the ownership discount\<close>

lemma discounted_bounds:
  assumes "0 < a" "0 \<le> p" "p \<le> 100"
  shows "1 \<le> discounted a p" "discounted a p \<le> a" "a * (100 - p) \<le> 100 * discounted a p + 49"
proof -
  have "a * (100 - p) \<le> a * 100" using assms by (intro mult_left_mono) auto
  then have "(a * (100 - p) + 50) div 100 \<le> a" by linarith
  then show "discounted a p \<le> a" using assms(1) by (simp add: discounted_def)
  show "1 \<le> discounted a p" by (simp add: discounted_def)
  show "a * (100 - p) \<le> 100 * discounted a p + 49" by (simp add: discounted_def)
qed

lemma priced_bounds:
  assumes "0 < of_amountMinor offer"
  shows "1 \<le> qt_amountMinor (priced offer owned) \<and> qt_amountMinor (priced offer owned) \<le> of_amountMinor offer
    \<and> 75 * of_amountMinor offer \<le> 100 * qt_amountMinor (priced offer owned) + 49
    \<and> (case qt_ownershipDiscount (priced offer owned) of None \<Rightarrow> qt_amountMinor (priced offer owned) = of_amountMinor offer
      | Some d \<Rightarrow> od_baseAmountMinor d = of_amountMinor offer
          \<and> od_discountMinor d = of_amountMinor offer - qt_amountMinor (priced offer owned))"
  using discounted_bounds [OF assms, of 20] discounted_bounds [OF assms, of 25] assms
  by (simp add: priced_def Let_def) linarith?

lemma owned_subset: "set (owned_collections pf customer offer included ps gs stored grants) \<subseteq> set included"
  by (auto simp: owned_collections_def Let_def set_js_set split: if_splits option.splits)

lemma owned_never:
  "of_billing offer \<noteq> None \<or> of_external offer \<noteq> None \<Longrightarrow> owned_collections pf customer offer included ps gs stored grants = []"
  by (auto simp: owned_collections_def Let_def)

lemma triple_given: "(C \<Longrightarrow> triple (\<lambda>_. True) m Q) \<Longrightarrow> triple (\<lambda>_. C) m Q"
  by (auto simp: triple_def)

lemma triple_any: "triple P m (\<lambda>_ _. True)"
  by (simp add: triple_def)

lemma triple_priced:
  "o' = Some offer \<Longrightarrow> of_published offer \<Longrightarrow> triple P (ownershipPriceT pf c offer included) (\<lambda>q _. \<exists>offer. o' = Some offer \<and> of_published offer
     \<and> (\<exists>customer ps gs stored grants. q = priced offer (owned_collections pf customer offer included ps gs stored grants)))"
  unfolding ownershipPriceT_def triple_def bindT_def listT_def lookT_def returnT_def by (clarsimp, intro exI, rule refl)

text \<open>C32: The quoted price. A quote is for a published offer, in its currency, and for an offer with a positive amount it lies
  between one minor unit and that amount and is at least three quarters of it (up to rounding). Without a discount it is the full
  amount; a discount accounts for the exact difference, is only given for collections of the quoted content, and never on
  subscriptions or external offers.\<close>

theorem quote_bounds:
  assumes "fst (transaction (quoteT pf subject v included) s) = Inr q"
  shows "\<exists>offer. row offers v s = Some offer \<and> of_published offer \<and> qt_currency q = of_currency offer
    \<and> (0 < of_amountMinor offer \<longrightarrow> 1 \<le> qt_amountMinor q \<and> qt_amountMinor q \<le> of_amountMinor offer
        \<and> 75 * of_amountMinor offer \<le> 100 * qt_amountMinor q + 49)
    \<and> (qt_ownershipDiscount q = None \<longrightarrow> qt_amountMinor q = of_amountMinor offer)
    \<and> (\<forall>d. qt_ownershipDiscount q = Some d \<longrightarrow> of_billing offer = None \<and> of_external offer = None
        \<and> od_collectionIds d \<noteq> [] \<and> set (od_collectionIds d) \<subseteq> set included
        \<and> od_discountMinor d = of_amountMinor offer - qt_amountMinor q)"
proof -
  obtain s' where run: "quoteT pf subject v included s = Inr (q, s')"
    using assms by (auto simp: transaction_def split: sum.splits)
  have "triple (\<lambda>t. t = s) (quoteT pf subject v included) (\<lambda>q _. \<exists>offer. row offers v s = Some offer \<and> of_published offer
     \<and> (\<exists>customer ps gs stored grants. q = priced offer (owned_collections pf customer offer included ps gs stored grants)))"
    unfolding quoteT_def
  proof (rule triple_bind [where R = "\<lambda>found t. found = row offers v s"], rule triple_get, simp)
    fix found
    show "triple (\<lambda>t. found = row offers v s) (case found of None \<Rightarrow> throwT ''offer_unavailable''
       | Some current \<Rightarrow> if \<not> of_published current then throwT ''offer_unavailable''
         else bindT (customerT pf subject) (\<lambda>c. bindT (claimGiftsT pf c) (\<lambda>_. ownershipPriceT pf c current included)))
      (\<lambda>q _. \<exists>offer. row offers v s = Some offer \<and> of_published offer
        \<and> (\<exists>customer ps gs stored grants. q = priced offer (owned_collections pf customer offer included ps gs stored grants)))"
      by (rule triple_given, intro triple_option triple_throw triple_if triple_any [THEN triple_bind] triple_priced) simp_all
  qed
  from tripleD [OF this run refl] obtain offer customer ps gs stored grants where o: "row offers v s = Some offer" "of_published offer"
    and q: "q = priced offer (owned_collections pf customer offer included ps gs stored grants)" by blast
  let ?owned = "owned_collections pf customer offer included ps gs stored grants"
  have d: "of_billing offer = None \<and> of_external offer = None \<and> od_collectionIds d \<noteq> [] \<and> set (od_collectionIds d) \<subseteq> set included
      \<and> od_discountMinor d = of_amountMinor offer - qt_amountMinor q" if "qt_ownershipDiscount q = Some d" for d
  proof -
    have "?owned \<noteq> []" using that unfolding q by (auto simp: priced_def)
    moreover from this have "of_billing offer = None \<and> of_external offer = None" using owned_never by blast
    ultimately show ?thesis
      using that owned_subset [of pf customer offer included ps gs stored grants] unfolding q
      by (auto simp: priced_def Let_def split: if_splits dest: arg_cong [where f = length])
  qed
  have "qt_currency q = of_currency offer" "qt_ownershipDiscount q = None \<Longrightarrow> qt_amountMinor q = of_amountMinor offer"
    unfolding q by (auto simp: priced_def Let_def split: if_splits)
  moreover have "0 < of_amountMinor offer \<Longrightarrow> 1 \<le> qt_amountMinor q \<and> qt_amountMinor q \<le> of_amountMinor offer
      \<and> 75 * of_amountMinor offer \<le> 100 * qt_amountMinor q + 49"
    using priced_bounds [of offer ?owned] unfolding q by blast
  ultimately show ?thesis using o d by (intro exI [of _ offer] conjI allI impI) simp_all
qed


subsection \<open>A shop\<close>

text \<open>One published offer, one order for it and the provider's evidence that it was paid.\<close>

definition shop_platform :: platform where
  "shop_platform = \<lparr> pf_time = 1767225600000, pf_hash = (\<lambda>s. s), pf_mac = (\<lambda>s. s), pf_uuid = (\<lambda>n. ''u'' @ nat_str n), pf_deployment = ''d'' \<rparr>"

definition shop_scope :: scope where
  "shop_scope = \<lparr> sc_deploymentId = ''d'', sc_ownerId = ''creator'', sc_environment = Live \<rparr>"

definition shop_time :: string where "shop_time = ''2026-01-01T00:00:00.000Z''"

definition shop_base :: "string \<Rightarrow> record_base" where
  "shop_base i = \<lparr> rb_scope = shop_scope, rb_id = i, rb_createdAt = shop_time, rb_updatedAt = shop_time \<rparr>"

definition shop_offer :: offer where
  "shop_offer = \<lparr> of_base = shop_base ''offer'', of_billing = None, of_collectionRoots = None, of_contentSourceRevision = None,
     of_financialOfferVersionId = None, of_commandHash = None, of_offerId = ''o'', of_version = 1, of_slug = ''prints'', of_title = ''Prints'',
     of_description = [], of_supportEmail = ''help@x.io'', of_connectionId = ''con'', of_merchantId = ''m'', of_currency = ''EUR'',
     of_amountMinor = 999, of_benefits = [Gallery ''c1''], of_files = [''f1''], of_previews = [], of_terms = ''t'',
     of_durationSeconds = None, of_published = True, of_external = None \<rparr>"

definition shop_order :: checkout where
  "shop_order = \<lparr> co_base = shop_base ''order'', co_ownershipDiscount = None, co_billing = None, co_subscriptionState = None,
     co_customerId = ''ann'', co_offerVersionId = ''offer'', co_connectionId = ''con'', co_merchantId = ''m'', co_currency = ''EUR'',
     co_amountMinor = 999, co_reference = ''ref'', co_idempotencyKey = ''k'', co_providerOrderId = Some ''P1'', co_providerPlanId = None,
     co_approvalUrl = None, co_state = Co_pending, co_captureRequestId = ''cap'', co_reviewReason = None \<rparr>"

definition shop_evidence :: payment_evidence where
  "shop_evidence = \<lparr> pe_captureId = ''C1'', pe_orderId = Some ''P1'', pe_reference = Some ''ref'', pe_mappingId = None, pe_merchantId = ''m'',
     pe_currency = ''EUR'', pe_paidMinor = 999, pe_refundedMinor = 0, pe_status = Completed, pe_updatedAt = shop_time, pe_paidAt = None,
     pe_subscriptionInterval = None, pe_subscriptionPlanId = None, pe_buyerEmail = None, pe_unsupported = False, pe_refunds = [], pe_dispute = None \<rparr>"

definition shop :: commerce where
  "shop = no_commerce\<lparr> cm_offers := [(''offer'', shop_offer)], cm_checkouts := [(''order'', shop_order)] \<rparr>"

definition paid_shop :: commerce where
  "paid_shop = snd (transaction (reconcileT shop_platform shop_scope ''con'' [shop_evidence] None) shop)"

definition shop_payment :: string where
  "shop_payment = payment_key shop_platform shop_scope shop_evidence"

definition shop_grant :: string where
  "shop_grant = grant_key shop_platform ''grant'' (purchase_key shop_platform shop_payment) (Gallery ''c1'')"

lemma transaction_quiet: "snd (transaction (quiet m) s) = snd (transaction m s)"
  by (simp add: transaction_def quiet_def bindT_def returnT_def split: sum.split prod.split)

lemma paid_shop_reachable: "commerce_reachable (\<lambda>s. s) paid_shop"
proof -
  have "commerce_reachable (\<lambda>s. s) shop"
    by (rule stepped [OF created elsewhere]) (simp_all add: shop_def no_commerce_def)
  then have "commerce_reachable (\<lambda>s. s) (snd (transaction (quiet (reconcileT shop_platform shop_scope ''con'' [shop_evidence] None)) shop))"
    by (rule stepped) (rule commit [OF tx_reconcile], simp add: shop_platform_def)
  then show ?thesis by (simp only: transaction_quiet paid_shop_def)
qed

lemma shop_clock: "now shop_platform = shop_time" "date_parse shop_time = Some 1767225600000" "to_iso 1767225600000 = Some shop_time"
  "currencyExponent ''EUR'' = Inr 2"
  by code_simp+

lemma bindT_step: "m = m' \<Longrightarrow> s = s' \<Longrightarrow> bindT m f s = bindT m' f s'"
  by simp

lemma shop_records [simp]:
  "pe_captureId shop_evidence = ''C1''" "pe_orderId shop_evidence = Some ''P1''" "pe_reference shop_evidence = Some ''ref''"
  "pe_mappingId shop_evidence = None" "pe_merchantId shop_evidence = ''m''" "pe_currency shop_evidence = ''EUR''" "pe_paidMinor shop_evidence = 999"
  "pe_refundedMinor shop_evidence = 0" "pe_status shop_evidence = Completed" "pe_updatedAt shop_evidence = shop_time"
  "pe_buyerEmail shop_evidence = None" "\<not> pe_unsupported shop_evidence" "pe_refunds shop_evidence = []" "pe_dispute shop_evidence = None"
  "co_base shop_order = shop_base ''order''" "co_customerId shop_order = ''ann''" "co_offerVersionId shop_order = ''offer''"
  "co_connectionId shop_order = ''con''" "co_merchantId shop_order = ''m''" "co_currency shop_order = ''EUR''" "co_amountMinor shop_order = 999"
  "co_reference shop_order = ''ref''" "co_providerOrderId shop_order = Some ''P1''"
  "of_base shop_offer = shop_base ''offer''" "of_billing shop_offer = None" "of_collectionRoots shop_offer = None" "of_connectionId shop_offer = ''con''"
  "of_benefits shop_offer = [Gallery ''c1'']" "of_files shop_offer = [''f1'']" "of_durationSeconds shop_offer = None"
  "of_published shop_offer" "of_external shop_offer = None"
  "rb_scope (shop_base i) = shop_scope" "rb_id (shop_base i) = i"
  by (simp_all add: shop_evidence_def shop_order_def shop_offer_def shop_base_def)

lemma shop_tables [simp]:
  "cm_payments shop = []" "cm_checkouts shop = [(''order'', shop_order)]" "cm_offers shop = [(''offer'', shop_offer)]" "cm_mappings shop = []"
  "cm_refunds shop = []" "cm_purchases shop = []" "cm_entitlements shop = []" "cm_jobs shop = []" "cm_audits shop = []"
  "cm_discordRoles shop = []" "cm_customers shop = []" "cm_gifts shop = []" "cm_uniques shop = []" "cm_drawn shop = 0"
  by (simp_all add: shop_def no_commerce_def)

lemma shop_scopes [simp]:
  "sc_deploymentId shop_scope = ''d''" "sc_ownerId shop_scope = ''creator''" "pf_deployment shop_platform = ''d''"
  "pf_uuid shop_platform n = ''u'' @ nat_str n"
  by (simp_all add: shop_scope_def shop_platform_def)

lemma shop_keys [simp]: "key shop_platform v \<noteq> []"
  by (simp add: key_def shop_platform_def json_array_def)

lemma shop_pkeys [simp]: "pkey (pf_hash shop_platform) i \<noteq> []"
  by (simp add: pkey_def shop_platform_def json_array_def)

lemma paid_shop_grant:
  "\<exists>p s'. applyEvidenceT shop_platform shop_scope ''con'' shop_evidence None shop = Inr ((p, True), s')
    \<and> map_option en_state (row entitlements shop_grant s') = Some Active
    \<and> map_option en_purchaseId (row entitlements shop_grant s') = Some (Some (purchase_key shop_platform shop_payment))
    \<and> map_option py_paidMinor (row payments shop_payment s') = Some 999"
  by (simp add: Let_def max_safe_int_def whenT_def grantPurchaseT_def applyEvidenceT_def evidence_ok_def safe_int_def shop_clock bindT_def
      getT_def listT_def liftT_def kind_defs row_def rows_def returnT_def
      same_def override_def evidence_problem_def new_payment_def refund_total_def refunded_amount_def settled_payment_def latest_iso_def
      settled_state_def try_then_def of_id_def putT_def base_def storable_def currentContentsT_def versions_of_def
      order_after_def new_purchase_def accessBenefits_def insertT_def grant_end_def payment_key_def purchase_key_def
      grant_key_def is_package_def is_role_def new_job_def queueT_def notify_discord_def auditT_def fresh_def benefit_assets_def shop_grant_def shop_payment_def
      cong: bindT_step)


lemma paid_shop_facts:
  "map_option en_state (row entitlements shop_grant paid_shop) = Some Active"
  "map_option en_purchaseId (row entitlements shop_grant paid_shop) = Some (Some (purchase_key shop_platform shop_payment))"
  "map_option py_paidMinor (row payments shop_payment paid_shop) = Some 999"
  using paid_shop_grant by (auto simp: paid_shop_def transaction_def reconcileT_def bindT_def returnT_def)

theorem access_is_backed_witness:
  "\<exists>p q. row purchases (purchase_key shop_platform shop_payment) paid_shop = Some p \<and> pu_state p = Active
     \<and> row payments (pu_paymentId p) paid_shop = Some q \<and> py_state q \<noteq> Refunded \<and> py_state q \<noteq> Reversed"
proof -
  obtain g where g: "row entitlements shop_grant paid_shop = Some g" using paid_shop_facts(1) by (cases "row entitlements shop_grant paid_shop") auto
  then show ?thesis using access_is_backed [OF paid_shop_reachable g] paid_shop_facts(1,2) by auto
qed

theorem evidence_never_reopens_witness:
  "\<exists>q. row payments shop_payment (snd (transaction (reconcileT shop_platform shop_scope ''con'' [shop_evidence\<lparr> pe_status := Reversed \<rparr>] None) paid_shop)) = Some q
     \<and> py_paidMinor q = 999"
proof -
  obtain p where p: "row payments shop_payment paid_shop = Some p" using paid_shop_facts(3) by (cases "row payments shop_payment paid_shop") auto
  then show ?thesis using evidence_never_reopens [OF paid_shop_reachable p] paid_shop_facts(3) by fastforce
qed

lemma shop_quote: "fst (transaction (quoteT shop_platform ''ann'' ''offer'' [''c1'']) shop) = Inr (priced shop_offer [])"
  by (simp add: quoteT_def customerT_def scopeT_def claimGiftsT_def ownershipPriceT_def owned_collections_def transaction_def Let_def bindT_def
      getT_def listT_def lookT_def kind_defs row_def rows_def returnT_def insertT_def base_def storable_def own_scope_def customer_key_def
      cong: bindT_step)

theorem quote_bounds_witness: "1 \<le> qt_amountMinor (priced shop_offer []) \<and> qt_amountMinor (priced shop_offer []) \<le> 999"
  using quote_bounds [OF shop_quote] by (auto simp: row_def offers_def shop_offer_def)

text \<open>A shop with an unclaimed purchase.\<close>

definition claim_shop :: commerce where
  "claim_shop = no_commerce\<lparr>
     cm_customers := [(customer_key shop_platform ''ann'', \<lparr> cu_base = shop_base (customer_key shop_platform ''ann''), cu_accountUserId = None,
        cu_subjectId = ''ann'', cu_verifiedEmails = [''a@x.io''], cu_discordUserId = None, cu_erasedAt = None \<rparr>)],
     cm_claims := [(''cl'', \<lparr> cl_base = shop_base ''cl'', cl_purchaseId = ''pu'', cl_email = ''a@x.io'', cl_tokenHash = ''token'',
        cl_expiresAt = ''2026-01-02T00:00:00.000Z'', cl_consumedAt = None \<rparr>)],
     cm_purchases := [(''pu'', \<lparr> pu_base = shop_base ''pu'', pu_paymentId = ''p'', pu_offerVersionId = ''offer'', pu_contentOfferVersionId = None,
        pu_customerId = None, pu_buyerEmail = Some ''a@x.io'', pu_state = Active, pu_claimedAt = None \<rparr>)] \<rparr>"

lemma shop_open: "\<not> ''2026-01-02T00:00:00.000Z'' \<le> shop_time" "shop_time \<noteq> []"
  by code_simp+

lemma shop_hash: "pf_hash shop_platform = (\<lambda>s. s)"
  by (simp add: shop_platform_def)

lemma claim_shop_redeem: "\<exists>s'. redeemClaimT shop_platform ''ann'' ''cl'' ''token'' claim_shop = Inr (''pu'', s')"
  by (simp add: redeemClaimT_def claim_shop_def no_commerce_def customerT_def Let_def bindT_def cu_id_def
      getT_def listT_def kind_defs row_def rows_def returnT_def insertT_def putT_def base_def storable_def shop_clock shop_open shop_hash proof_open_def
      customer_key_def queueT_def auditT_def fresh_def cong: bindT_step)

theorem claim_redeemed_once_witness:
  "isl (fst (transaction (redeemClaimT shop_platform ''ann'' ''cl'' ''token'')
      (snd (transaction (redeemClaimT shop_platform ''ann'' ''cl'' ''token'') claim_shop))))"
proof -
  obtain s' where s': "transaction (redeemClaimT shop_platform ''ann'' ''cl'' ''token'') claim_shop = (Inr ''pu'', s')"
    using claim_shop_redeem by (auto simp: transaction_def)
  then show ?thesis
    using claim_redeemed_once [OF s', where pf' = shop_platform and subject' = "''ann''" and token' = "''token''"]
    by (simp add: claim_shop_def row_def claims_def shop_platform_def)
qed

end
