(* ===== verification/Job_Queue.thy ===== *)
theory Job_Queue
  imports JS_Text JS_Date
begin

text \<open>
  The durable job queue: the contract of \<open>packages/jobs/src/index.ts\<close> and \<open>retry-backoff.ts\<close>, and the queue of the local
  adapter, \<open>LocalSqliteJobQueue\<close> in \<open>adapters/local/src/index.ts\<close>. The table is a list of rows; an UPDATE maps over it and a
  SELECT sorts it. Timestamps are ISO texts, compared as texts the way SQLite does; the current one and the fresh identifiers
  are arguments of an operation.
\<close>

subsection \<open>Jobs\<close>

datatype job_phase = Queued | Leased | Job_completed | Retry_scheduled | Dead_lettered | Cancelled

record queued_job =
  jq_id :: string
  jq_cellId :: string
  jq_type :: string
  jq_payload :: string
  jq_storedKey :: string
  jq_state :: job_phase
  jq_attempt :: nat
  jq_maxAttempts :: nat
  jq_availableAt :: string
  jq_leaseToken :: "string option"
  jq_leaseExpiresAt :: "string option"
  jq_createdAt :: string
  jq_updatedAt :: string
  jq_correlationId :: "string option"
  jq_lastError :: "(string \<times> string) option"

type_synonym queue = "queued_job list"

datatype queue_error = Job_not_recoverable | Lease_arguments | Lease_invalid | Foreign_cell | Backoff_arguments | Backoff_sample
  | Time_range

definition recoverable :: "job_phase \<Rightarrow> bool" where
  "recoverable st \<longleftrightarrow> st = Retry_scheduled \<or> st = Dead_lettered"

definition requireRecoverableJob :: "job_phase \<Rightarrow> queue_error + unit" where
  "requireRecoverableJob st = (if \<not> recoverable st then Inl Job_not_recoverable else Inr ())"

definition requireLocalJob :: "queued_job \<Rightarrow> string \<Rightarrow> queue_error + unit" where
  "requireLocalJob j workerCellId = (if \<not> nonblank workerCellId \<or> jq_cellId j \<noteq> workerCellId then Inl Foreign_cell else Inr ())"

text \<open>The stored key keeps the keys of different cells apart; a row answers its key without the prefix.\<close>

definition stored_key :: "string \<Rightarrow> string \<Rightarrow> string" where
  "stored_key cell idempotencyKey = cell @ CHR '':'' # idempotencyKey"

definition shown_key :: "queued_job \<Rightarrow> string" where
  "shown_key j = (if starts_with (jq_storedKey j) (jq_cellId j @ '':'') then drop (length (jq_cellId j) + 1) (jq_storedKey j) else jq_storedKey j)"

subsection \<open>The queue of the local adapter\<close>

definition find_job :: "string \<Rightarrow> queue \<Rightarrow> queued_job option" where
  "find_job i q = List.find (\<lambda>j. jq_id j = i) q"

definition find_by_key :: "string \<Rightarrow> string \<Rightarrow> queue \<Rightarrow> queued_job option" where
  "find_by_key cell storedKey q = List.find (\<lambda>j. jq_cellId j = cell \<and> jq_storedKey j = storedKey) q"

text \<open>An UPDATE with a WHERE condition.\<close>

definition update_where :: "(queued_job \<Rightarrow> bool) \<Rightarrow> (queued_job \<Rightarrow> queued_job) \<Rightarrow> queue \<Rightarrow> queue" where
  "update_where c f q = map (\<lambda>j. if c j then f j else j) q"

record job_input =
  ji_cellId :: string
  ji_type :: string
  ji_payload :: string
  ji_idempotencyKey :: string
  ji_maxAttempts :: nat
  ji_availableAt :: "string option"
  ji_correlationId :: "string option"

definition new_queued :: "string \<Rightarrow> string \<Rightarrow> job_input \<Rightarrow> queued_job" where
  "new_queued t i input = \<lparr> jq_id = i, jq_cellId = ji_cellId input, jq_type = ji_type input, jq_payload = ji_payload input,
     jq_storedKey = stored_key (ji_cellId input) (ji_idempotencyKey input), jq_state = Queued, jq_attempt = 0, jq_maxAttempts = ji_maxAttempts input,
     jq_availableAt = (case ji_availableAt input of Some a \<Rightarrow> a | None \<Rightarrow> t), jq_leaseToken = None, jq_leaseExpiresAt = None,
     jq_createdAt = t, jq_updatedAt = t, jq_correlationId = ji_correlationId input, jq_lastError = None \<rparr>"

text \<open>\<open>enqueueSync\<close>. The insertion fails on the key's unique index only when another process won the key in between, and then answers
  its row, so that case is the first one again.\<close>

definition enqueue :: "string \<Rightarrow> string \<Rightarrow> job_input \<Rightarrow> queue \<Rightarrow> queued_job \<times> queue" where
  "enqueue t i input q =
     (case find_by_key (ji_cellId input) (stored_key (ji_cellId input) (ji_idempotencyKey input)) q of
        Some j \<Rightarrow> (j, q)
      | None \<Rightarrow> (new_queued t i input, q @ [new_queued t i input]))"

definition lease_expired :: "string \<Rightarrow> string \<Rightarrow> queued_job \<Rightarrow> bool" where
  "lease_expired t cell j \<longleftrightarrow> jq_cellId j = cell \<and> jq_state j = Leased \<and> (case jq_leaseExpiresAt j of Some e \<Rightarrow> e \<le> t | None \<Rightarrow> False)"

definition exhaust :: "string \<Rightarrow> queued_job \<Rightarrow> queued_job" where
  "exhaust t j = j\<lparr> jq_state := Dead_lettered, jq_leaseToken := None, jq_leaseExpiresAt := None,
     jq_lastError := Some (''lease_attempts_exhausted'', ''Worker leases expired through the configured attempt budget.''), jq_updatedAt := t \<rparr>"

definition reclaim :: "string \<Rightarrow> queued_job \<Rightarrow> queued_job" where
  "reclaim t j = j\<lparr> jq_state := Retry_scheduled, jq_availableAt := t, jq_leaseToken := None, jq_leaseExpiresAt := None, jq_updatedAt := t \<rparr>"

text \<open>The two UPDATEs that precede a lease: expired leases of the cell are dead-lettered or become available again.\<close>

definition sweep :: "string \<Rightarrow> string \<Rightarrow> queue \<Rightarrow> queue" where
  "sweep t cell q =
     update_where (lease_expired t cell) (reclaim t)
       (update_where (\<lambda>j. lease_expired t cell j \<and> jq_maxAttempts j \<le> jq_attempt j) (exhaust t) q)"

definition leasable :: "string \<Rightarrow> string \<Rightarrow> string list \<Rightarrow> queued_job \<Rightarrow> bool" where
  "leasable t cell types j \<longleftrightarrow> jq_cellId j = cell \<and> jq_state j \<in> {Queued, Retry_scheduled} \<and> jq_availableAt j \<le> t
     \<and> (types = [] \<or> jq_type j \<in> set types)"

definition next_job :: "string \<Rightarrow> string \<Rightarrow> string list \<Rightarrow> queue \<Rightarrow> queued_job option" where
  "next_job t cell types q = (case sort_key (\<lambda>j. (jq_availableAt j, jq_id j)) (filter (leasable t cell types) q) of j # _ \<Rightarrow> Some j | [] \<Rightarrow> None)"

definition claimed :: "string \<Rightarrow> string \<Rightarrow> string \<Rightarrow> queued_job \<Rightarrow> queued_job" where
  "claimed t token expiresAt j = j\<lparr> jq_state := Leased, jq_attempt := jq_attempt j + 1, jq_leaseToken := Some token,
     jq_leaseExpiresAt := Some expiresAt, jq_updatedAt := t \<rparr>"

definition lease_expiry :: "string \<Rightarrow> int \<Rightarrow> string option" where
  "lease_expiry t seconds = Option.bind (date_parse t) (\<lambda>ms. to_iso (ms + seconds * 1000))"

definition lease :: "string \<Rightarrow> string \<Rightarrow> string \<Rightarrow> string list \<Rightarrow> int \<Rightarrow> queue \<Rightarrow> (queue_error + (queued_job \<times> string) option) \<times> queue" where
  "lease t token cell types seconds q =
     (if \<not> nonblank cell \<or> \<not> safe_int seconds \<or> seconds \<le> 0 then (Inl Lease_arguments, q)
      else (let swept = sweep t cell q in
        case lease_expiry t seconds of None \<Rightarrow> (Inl Time_range, swept)
        | Some expiresAt \<Rightarrow> (case next_job t cell types swept of None \<Rightarrow> (Inr None, swept)
          | Some j \<Rightarrow> (Inr (Some (claimed t token expiresAt j, token)),
              update_where (\<lambda>x. jq_id x = jq_id j \<and> jq_state x \<in> {Queued, Retry_scheduled}) (claimed t token expiresAt) swept))))"

definition holds_lease :: "string \<Rightarrow> string \<Rightarrow> string \<Rightarrow> queued_job \<Rightarrow> bool" where
  "holds_lease t i token j \<longleftrightarrow> jq_id j = i \<and> jq_state j = Leased \<and> jq_leaseToken j = Some token
     \<and> (case jq_leaseExpiresAt j of Some e \<Rightarrow> t < e | None \<Rightarrow> False)"

definition settled :: "string \<Rightarrow> job_phase \<Rightarrow> (string \<times> string) option \<Rightarrow> string option \<Rightarrow> queued_job \<Rightarrow> queued_job" where
  "settled t st error availableAt j =
     (let exhausted = (st = Retry_scheduled \<and> jq_maxAttempts j \<le> jq_attempt j) in
      j\<lparr> jq_state := (if exhausted then Dead_lettered else st), jq_lastError := error,
         jq_availableAt := (if exhausted then jq_availableAt j else case availableAt of Some a \<Rightarrow> a | None \<Rightarrow> jq_availableAt j),
         jq_leaseToken := None, jq_leaseExpiresAt := None, jq_updatedAt := t \<rparr>)"

definition transition :: "string \<Rightarrow> string \<Rightarrow> string \<Rightarrow> job_phase \<Rightarrow> (string \<times> string) option \<Rightarrow> string option \<Rightarrow> queue \<Rightarrow> (queue_error + unit) \<times> queue" where
  "transition t i token st error availableAt q =
     (if length (filter (holds_lease t i token) q) \<noteq> 1 then (Inl Lease_invalid, update_where (holds_lease t i token) (settled t st error availableAt) q)
      else (Inr (), update_where (holds_lease t i token) (settled t st error availableAt) q))"

definition complete_job :: "string \<Rightarrow> string \<Rightarrow> string \<Rightarrow> queue \<Rightarrow> (queue_error + unit) \<times> queue" where
  "complete_job t i token = transition t i token Job_completed None None"

definition retry_job :: "string \<Rightarrow> string \<Rightarrow> string \<Rightarrow> string \<times> string \<Rightarrow> string \<Rightarrow> queue \<Rightarrow> (queue_error + unit) \<times> queue" where
  "retry_job t i token error retryAt = transition t i token Retry_scheduled (Some error) (Some retryAt)"

definition dead_letter :: "string \<Rightarrow> string \<Rightarrow> string \<Rightarrow> string \<times> string \<Rightarrow> queue \<Rightarrow> (queue_error + unit) \<times> queue" where
  "dead_letter t i token error = transition t i token Dead_lettered (Some error) None"

definition cancel_job :: "string \<Rightarrow> string \<Rightarrow> string option \<Rightarrow> queue \<Rightarrow> queue" where
  "cancel_job t i reason = update_where (\<lambda>j. jq_id j = i) (\<lambda>j. j\<lparr> jq_state := Cancelled,
     jq_lastError := (if truthy_opt reason then Some (''cancelled'', the reason) else None), jq_updatedAt := t \<rparr>)"

definition recovered :: "string \<Rightarrow> string option \<Rightarrow> queued_job \<Rightarrow> queued_job" where
  "recovered t availableAt j = j\<lparr> jq_state := Queued, jq_availableAt := (case availableAt of Some a \<Rightarrow> a | None \<Rightarrow> t), jq_leaseToken := None,
     jq_leaseExpiresAt := None, jq_lastError := None, jq_updatedAt := t \<rparr>"

definition recover_job :: "string \<Rightarrow> string \<Rightarrow> string option \<Rightarrow> queue \<Rightarrow> (queue_error + queued_job) \<times> queue" where
  "recover_job t i availableAt q =
     (case List.find (\<lambda>j. jq_id j = i \<and> recoverable (jq_state j)) q of
        None \<Rightarrow> (Inl Job_not_recoverable, q)
      | Some j \<Rightarrow> (Inr (recovered t availableAt j), update_where (\<lambda>x. jq_id x = i \<and> recoverable (jq_state x)) (recovered t availableAt) q))"

text \<open>\<open>list\<close>: newest first, at least one and at most a hundred rows.\<close>

definition list_jobs :: "string \<Rightarrow> job_phase list \<Rightarrow> int \<Rightarrow> queue \<Rightarrow> queued_job list" where
  "list_jobs cell states limit q =
     take (nat (max 1 (min 100 limit))) (List.rev (sort_key (\<lambda>j. (jq_createdAt j, jq_id j))
       (filter (\<lambda>j. jq_cellId j = cell \<and> (states = [] \<or> jq_state j \<in> set states)) q)))"

definition schedule_job :: "string \<Rightarrow> string \<Rightarrow> string \<Rightarrow> string \<Rightarrow> string \<Rightarrow> string \<Rightarrow> string \<Rightarrow> queue \<Rightarrow> queue" where
  "schedule_job t i cell ty idem payload runAt q =
     snd (enqueue t i \<lparr> ji_cellId = cell, ji_type = ty, ji_payload = payload, ji_idempotencyKey = idem, ji_maxAttempts = 3,
       ji_availableAt = Some runAt, ji_correlationId = None \<rparr> q)"

definition cancel_schedule :: "string \<Rightarrow> string \<Rightarrow> string \<Rightarrow> queue \<Rightarrow> queue" where
  "cancel_schedule t cell idem = update_where (\<lambda>j. jq_cellId j = cell \<and> jq_storedKey j = stored_key cell idem)
     (\<lambda>j. j\<lparr> jq_state := Cancelled, jq_updatedAt := t \<rparr>)"

subsection \<open>Retry delays\<close>

text \<open>\<open>equalJitterRetryDelaySeconds\<close>: the random sample is the fraction \<open>num / den\<close>. Exact integers stand for the numbers, so the
  model is the code where the product stays a safe integer.\<close>

definition retry_delay :: "int \<Rightarrow> int \<Rightarrow> int \<Rightarrow> int \<Rightarrow> int \<times> int \<Rightarrow> queue_error + int" where
  "retry_delay attempt baseDelay maximum maximumExponent sample =
     (if \<not> safe_int attempt \<or> attempt < 0 \<or> \<not> safe_int baseDelay \<or> baseDelay < 1 \<or> \<not> safe_int maximum \<or> maximum < 1
         \<or> \<not> safe_int maximumExponent \<or> maximumExponent < 0
      then Inl Backoff_arguments
      else (let exponent = min (max 0 (attempt - 1)) maximumExponent;
                ceiling = min maximum (baseDelay * 2 ^ nat exponent);
                lower = (ceiling + 1) div 2;
                (num, den) = sample
            in if den \<le> 0 \<or> num < 0 \<or> den \<le> num then Inl Backoff_sample
               else Inr (lower + num * (ceiling - lower + 1) div den)))"

lemma div_less_bound: "0 < (d::int) \<Longrightarrow> a < c * d \<Longrightarrow> a div d < c"
proof -
  assume d: "0 < d" and a: "a < c * d"
  have "(a div d) * d \<le> a" using d by (metis minus_mod_eq_div_mult diff_le_eq le_add_same_cancel1 pos_mod_sign)
  then have "(a div d) * d < c * d" using a by simp
  then show ?thesis using d by simp
qed

text \<open>An accepted delay keeps the equal-jitter promise: at least half of the capped backoff, at most all of it.\<close>

lemma retry_delay_bounds:
  assumes "retry_delay attempt baseDelay maximum maximumExponent sample = Inr d"
  shows "1 \<le> d \<and> d \<le> maximum"
proof -
  define exponent where "exponent = min (max 0 (attempt - 1)) maximumExponent"
  define ceiling where "ceiling = min maximum (baseDelay * 2 ^ nat exponent)"
  define lower where "lower = (ceiling + 1) div 2"
  obtain num den where s: "sample = (num, den)" by (cases sample)
  define bad where "bad = (\<not> safe_int attempt \<or> attempt < 0 \<or> \<not> safe_int baseDelay \<or> baseDelay < 1 \<or> \<not> safe_int maximum \<or> maximum < 1
      \<or> \<not> safe_int maximumExponent \<or> maximumExponent < 0)"
  have "retry_delay attempt baseDelay maximum maximumExponent sample = (if bad then Inl Backoff_arguments
      else if den \<le> 0 \<or> num < 0 \<or> den \<le> num then Inl Backoff_sample else Inr (lower + num * (ceiling - lower + 1) div den))"
    by (simp only: retry_delay_def Let_def s prod.case exponent_def ceiling_def lower_def bad_def)
  then have "\<not> bad" "0 \<le> num" and b: "num < den" and d: "d = lower + num * (ceiling - lower + 1) div den"
    using assms by (simp_all split: if_split_asm)
  then have b: "1 \<le> baseDelay" "1 \<le> maximum" "0 \<le> num" "num < den" using b by (simp_all add: bad_def)
  have "1 \<le> baseDelay * 2 ^ nat exponent" using b(1) mult_mono [of 1 baseDelay 1 "2 ^ nat exponent :: int"] by simp
  then have c: "1 \<le> ceiling" "ceiling \<le> maximum" using b(2) by (simp_all add: ceiling_def)
  then have l: "1 \<le> lower" "lower \<le> ceiling" unfolding lower_def by linarith+
  have "num * (ceiling - lower + 1) < den * (ceiling - lower + 1)" using b(4) l by simp
  then have "num * (ceiling - lower + 1) div den < ceiling - lower + 1"
    using b(3,4) by (intro div_less_bound) (simp_all add: mult.commute)
  moreover have "0 \<le> num * (ceiling - lower + 1) div den" using b l by (simp add: pos_imp_zdiv_nonneg_iff)
  ultimately show ?thesis using c l unfolding d by linarith
qed

subsection \<open>Rows and updates\<close>

named_theorems queue_defs \<open>the operations of the queue\<close>

lemmas [queue_defs] = complete_job_def retry_job_def dead_letter_def cancel_job_def cancel_schedule_def transition_def

lemma update_where_ids: "(\<And>j. jq_id (f j) = jq_id j) \<Longrightarrow> map jq_id (update_where c f q) = map jq_id q"
  by (induction q) (simp_all add: update_where_def)

lemma find_update_where:
  assumes "\<And>j. jq_id (f j) = jq_id j"
  shows "find_job i (update_where c f q) = map_option (\<lambda>j. if c j then f j else j) (find_job i q)"
  using assms by (induction q) (auto simp: find_job_def update_where_def)

lemma find_job_id: "find_job i q = Some j \<Longrightarrow> jq_id j = i \<and> j \<in> set q"
  by (auto simp: find_job_def find_Some_iff)

lemma find_job_in: "distinct (map jq_id q) \<Longrightarrow> j \<in> set q \<Longrightarrow> find_job (jq_id j) q = Some j"
  by (induction q) (auto simp: find_job_def image_iff)

lemma keeps_id [simp]:
  "jq_id (exhaust t j) = jq_id j" "jq_id (reclaim t j) = jq_id j" "jq_id (claimed t token e j) = jq_id j" "jq_id (settled t st err a j) = jq_id j"
  "jq_id (recovered t av j) = jq_id j"
  by (simp_all add: exhaust_def reclaim_def claimed_def settled_def recovered_def Let_def)

definition swept :: "string \<Rightarrow> string \<Rightarrow> queued_job \<Rightarrow> queued_job" where
  "swept t cell j = (if lease_expired t cell j then if jq_maxAttempts j \<le> jq_attempt j then exhaust t j else reclaim t j else j)"

lemma sweep_map: "sweep t cell q = map (swept t cell) q"
  by (simp add: sweep_def update_where_def swept_def lease_expired_def exhaust_def reclaim_def)

lemma swept_id [simp]: "jq_id (swept t cell j) = jq_id j"
  by (simp add: swept_def)

lemma find_sweep: "find_job i (sweep t cell q) = map_option (swept t cell) (find_job i q)"
  by (induction q) (auto simp: sweep_map find_job_def)

lemma next_job_in: "next_job t cell types q = Some j \<Longrightarrow> j \<in> set q \<and> leasable t cell types j"
proof -
  assume "next_job t cell types q = Some j"
  then obtain rest where "sort_key (\<lambda>j. (jq_availableAt j, jq_id j)) (filter (leasable t cell types) q) = j # rest"
    by (auto simp: next_job_def split: list.splits)
  then have "j \<in> set (sort_key (\<lambda>j. (jq_availableAt j, jq_id j)) (filter (leasable t cell types) q))" by simp
  then show ?thesis by simp
qed

lemma lease_cases:
  assumes "lease t token cell types seconds q = (r, q')"
  obtains (bad) e where "r = Inl e" "q' = q \<or> q' = sweep t cell q"
    | (idle) "r = Inr None" "q' = sweep t cell q" "next_job t cell types (sweep t cell q) = None"
    | (work) j expiresAt where "r = Inr (Some (claimed t token expiresAt j, token))" "next_job t cell types (sweep t cell q) = Some j"
        "lease_expiry t seconds = Some expiresAt"
        "q' = update_where (\<lambda>x. jq_id x = jq_id j \<and> jq_state x \<in> {Queued, Retry_scheduled}) (claimed t token expiresAt) (sweep t cell q)"
proof (cases "\<not> nonblank cell \<or> \<not> safe_int seconds \<or> seconds \<le> 0")
  case True
  then show ?thesis using assms bad [of Lease_arguments] by (simp add: lease_def)
next
  case False
  then have l: "lease t token cell types seconds q = (case lease_expiry t seconds of None \<Rightarrow> (Inl Time_range, sweep t cell q)
      | Some e \<Rightarrow> (case next_job t cell types (sweep t cell q) of None \<Rightarrow> (Inr None, sweep t cell q)
        | Some j \<Rightarrow> (Inr (Some (claimed t token e j, token)),
            update_where (\<lambda>x. jq_id x = jq_id j \<and> jq_state x \<in> {Queued, Retry_scheduled}) (claimed t token e) (sweep t cell q))))"
    by (simp only: lease_def Let_def if_False)
  show ?thesis
  proof (cases "lease_expiry t seconds")
    case None
    then show ?thesis using assms bad [of Time_range] unfolding l by simp
  next
    case e: (Some e)
    show ?thesis
    proof (cases "next_job t cell types (sweep t cell q)")
      case None
      then have "r = Inr None" "q' = sweep t cell q" using assms e unfolding l by simp_all
      then show ?thesis by (rule idle) (rule None)
    next
      case (Some j)
      then have "r = Inr (Some (claimed t token e j, token))"
        "q' = update_where (\<lambda>x. jq_id x = jq_id j \<and> jq_state x \<in> {Queued, Retry_scheduled}) (claimed t token e) (sweep t cell q)"
        using assms e unfolding l by simp_all
      then show ?thesis by (rule work [OF _ Some e])
    qed
  qed
qed

subsection \<open>Termination of work\<close>

text \<open>What a job can still cost the workers: a claim and a settlement for every attempt that is left, and one last claim when
  recovery has put an exhausted job back.\<close>

definition job_budget :: "queued_job \<Rightarrow> nat" where
  "job_budget j = (if jq_state j = Leased then 2 * (jq_maxAttempts j - jq_attempt j) + 1
     else if jq_state j \<in> {Queued, Retry_scheduled} then if jq_attempt j < jq_maxAttempts j then 2 * (jq_maxAttempts j - jq_attempt j) else 2
     else 0)"

definition queue_budget :: "queue \<Rightarrow> nat" where
  "queue_budget q = sum_list (map job_budget q)"

inductive worker_step :: "queue \<Rightarrow> queue \<Rightarrow> bool" where
  step_lease: "lease t token cell types seconds q = (Inr (Some r), q') \<Longrightarrow> worker_step q q'"
| step_complete: "complete_job t i token q = (Inr (), q') \<Longrightarrow> worker_step q q'"
| step_retry: "retry_job t i token error retryAt q = (Inr (), q') \<Longrightarrow> worker_step q q'"
| step_dead: "dead_letter t i token error q = (Inr (), q') \<Longrightarrow> worker_step q q'"

text \<open>A run of \<open>n\<close> effective steps; polls that find no work may come in between.\<close>

inductive worker_run :: "nat \<Rightarrow> queue \<Rightarrow> queue \<Rightarrow> bool" where
  run_refl: "worker_run 0 q q"
| run_step: "worker_run n q q' \<Longrightarrow> worker_step q' q'' \<Longrightarrow> worker_run (Suc n) q q''"
| run_poll: "worker_run n q q' \<Longrightarrow> lease t token cell types seconds q' = (Inr None, q'') \<Longrightarrow> worker_run n q q''"

lemma budget_map_le: "(\<And>j. j \<in> set q \<Longrightarrow> job_budget (f j) \<le> job_budget j) \<Longrightarrow> queue_budget (map f q) \<le> queue_budget q"
  by (induction q) (force simp: queue_budget_def)+

lemma budget_update_less:
  assumes "\<And>j. j \<in> set q \<Longrightarrow> c j \<Longrightarrow> job_budget (f j) < job_budget j" "\<exists>j \<in> set q. c j"
  shows "queue_budget (update_where c f q) < queue_budget q"
  using assms
proof (induction q)
  case (Cons x q)
  have le: "queue_budget (update_where c f q) \<le> queue_budget q"
    unfolding update_where_def by (rule budget_map_le) (use Cons.prems(1) in \<open>auto intro: less_imp_le\<close>)
  show ?case
  proof (cases "c x")
    case True
    then show ?thesis using Cons.prems(1) [of x] le by (simp add: update_where_def queue_budget_def)
  next
    case False
    then have "queue_budget (update_where c f q) < queue_budget q" using Cons by auto
    then show ?thesis using False by (simp add: update_where_def queue_budget_def)
  qed
qed simp

lemma budget_sweep: "queue_budget (sweep t cell q) \<le> queue_budget q"
  unfolding sweep_map by (rule budget_map_le) (auto simp: swept_def lease_expired_def exhaust_def reclaim_def job_budget_def)

lemma budget_claimed: "jq_state j \<in> {Queued, Retry_scheduled} \<Longrightarrow> job_budget (claimed t token e j) < job_budget j"
  by (auto simp: claimed_def job_budget_def)

lemma budget_settled:
  assumes "holds_lease t i token j" "st \<in> {Job_completed, Retry_scheduled, Dead_lettered}"
  shows "job_budget (settled t st err a j) < job_budget j"
  using assms by (auto simp: holds_lease_def settled_def Let_def job_budget_def)

lemma budget_transition:
  assumes "transition t i token st err a q = (Inr (), q')" "st \<in> {Job_completed, Retry_scheduled, Dead_lettered}"
  shows "queue_budget q' < queue_budget q"
proof -
  have one: "length (filter (holds_lease t i token) q) = 1" and q': "q' = update_where (holds_lease t i token) (settled t st err a) q"
    using assms(1) by (auto simp: transition_def split: if_splits)
  from one have "\<exists>j \<in> set q. holds_lease t i token j" by (metis filter_False list.size(3) zero_neq_one)
  then show ?thesis unfolding q' by (intro budget_update_less budget_settled assms(2)) auto
qed

lemma budget_step: "worker_step q q' \<Longrightarrow> queue_budget q' < queue_budget q"
proof (induction rule: worker_step.induct)
  case (step_lease t token cell types seconds q r q')
  from step_lease show ?case
  proof (cases rule: lease_cases)
    case (work j e)
    have "j \<in> set (sweep t cell q)" "jq_state j \<in> {Queued, Retry_scheduled}" using next_job_in [OF work(2)] by (auto simp: leasable_def)
    then have "queue_budget q' < queue_budget (sweep t cell q)"
      unfolding work(4) by (intro budget_update_less budget_claimed) auto
    then show ?thesis using budget_sweep [of t cell q] by simp
  qed simp_all
qed (auto simp: complete_job_def retry_job_def dead_letter_def intro: budget_transition)

text \<open>C33: Work terminates. Between manual recoveries and new jobs, the workers of all cells together can claim and settle jobs only
  boundedly often, however leases expire and whatever the handlers report: a run of n claims and settlements uses up n units of
  the budget, which starts as at most two for each attempt left, plus two, per job.\<close>

theorem worker_runs_terminate:
  assumes "worker_run n q q'"
  shows "n + queue_budget q' \<le> queue_budget q \<and> queue_budget q \<le> (\<Sum>j\<leftarrow>q. 2 * (jq_maxAttempts j - jq_attempt j) + 2)"
proof -
  have "n + queue_budget q' \<le> queue_budget q" using assms
  proof (induction rule: worker_run.induct)
    case (run_step n q q' q'')
    then show ?case using budget_step [of q' q''] by simp
  next
    case (run_poll n q q' t token cell types seconds q'')
    from run_poll.hyps(2) have "q'' = sweep t cell q'" by (cases rule: lease_cases) simp_all
    then show ?case using run_poll.IH budget_sweep [of t cell q'] by simp
  qed simp
  moreover have "queue_budget q \<le> (\<Sum>j\<leftarrow>q. 2 * (jq_maxAttempts j - jq_attempt j) + 2)"
    unfolding queue_budget_def by (rule sum_list_mono) (simp add: job_budget_def)
  ultimately show ?thesis by simp
qed

subsection \<open>Leases exclude each other\<close>

lemma leased_result:
  assumes "distinct (map jq_id q)" "lease t token cell types seconds q = (Inr (Some (j, token')), q')"
  shows "find_job (jq_id j) q' = Some j" "jq_state j = Leased" "jq_leaseToken j = Some token" "token' = token" "distinct (map jq_id q')"
    and "jq_leaseExpiresAt j = lease_expiry t seconds" "lease_expiry t seconds \<noteq> None"
proof -
  obtain k e where w: "(j, token') = (claimed t token e k, token)" "next_job t cell types (sweep t cell q) = Some k" "lease_expiry t seconds = Some e"
      "q' = update_where (\<lambda>x. jq_id x = jq_id k \<and> jq_state x \<in> {Queued, Retry_scheduled}) (claimed t token e) (sweep t cell q)"
    using assms(2) by (cases rule: lease_cases) auto
  have k: "k \<in> set (sweep t cell q)" "jq_state k \<in> {Queued, Retry_scheduled}" using next_job_in [OF w(2)] by (auto simp: leasable_def)
  have d: "distinct (map jq_id (sweep t cell q))" using assms(1) by (simp add: sweep_map comp_def)
  show "find_job (jq_id j) q' = Some j" using w(1) k(2) find_job_in [OF d k(1)] unfolding w(4) by (simp add: find_update_where)
  show "distinct (map jq_id q')" unfolding w(4) using d by (subst update_where_ids) simp_all
  show "jq_state j = Leased" "jq_leaseToken j = Some token" "token' = token" "jq_leaseExpiresAt j = lease_expiry t seconds" "lease_expiry t seconds \<noteq> None"
    using w(1,3) by (simp_all add: claimed_def)
qed

lemma lease_other:
  assumes "distinct (map jq_id q)" "find_job i q = Some j" "jq_state j = Leased" "jq_leaseExpiresAt j = Some e" "t < e"
    and "lease t token cell types seconds q = (r, q')"
  shows "find_job i q' = Some j \<and> (\<forall>k token'. r = Inr (Some (k, token')) \<longrightarrow> jq_id k \<noteq> i)"
proof -
  have "\<not> e \<le> t" using assms(5) by (simp add: not_le)
  then have kept: "swept t cell j = j" using assms(4) by (simp add: swept_def lease_expired_def)
  then have s: "find_job i (sweep t cell q) = Some j" using assms(2) by (simp add: find_sweep)
  from assms(6) show ?thesis
  proof (cases rule: lease_cases)
    case bad
    then show ?thesis using s assms(2) by auto
  next
    case idle
    then show ?thesis using s by simp
  next
    case (work k x)
    have k: "k \<in> set (sweep t cell q)" "jq_state k \<in> {Queued, Retry_scheduled}" using next_job_in [OF work(2)] by (auto simp: leasable_def)
    have d: "distinct (map jq_id (sweep t cell q))" using assms(1) by (simp add: sweep_map comp_def)
    have "jq_id k \<noteq> i" using find_job_in [OF d k(1)] k(2) s assms(3) by auto
    then show ?thesis using s assms(3) unfolding work by (simp add: find_update_where)
  qed
qed

text \<open>C34: A lease is exclusive. The job a worker leased is stored as leased under its token. Until the lease expires no other
  poll, of whatever worker and cell, answers that job or changes its row; and whoever settles it with another token, for instance
  the token of an earlier lease that expired, is refused and leaves the whole queue as it is.\<close>

theorem lease_is_exclusive:
  assumes "distinct (map jq_id q)" "lease t token cell types seconds q = (Inr (Some (j, token1)), q1)"
    and "lease t2 token2 cell2 types2 seconds2 q1 = (r, q2)" "t2 < the (jq_leaseExpiresAt j)" "stale \<noteq> token"
  shows "find_job (jq_id j) q1 = Some j \<and> jq_leaseToken j = Some token
    \<and> find_job (jq_id j) q2 = Some j \<and> \<not> (\<exists>k token'. r = Inr (Some (k, token')) \<and> jq_id k = jq_id j)
    \<and> complete_job t3 (jq_id j) stale q1 = (Inl Lease_invalid, q1)
    \<and> retry_job t3 (jq_id j) stale error retryAt q1 = (Inl Lease_invalid, q1)
    \<and> dead_letter t3 (jq_id j) stale error q1 = (Inl Lease_invalid, q1)"
proof -
  note l = leased_result [OF assms(1,2)]
  have other: "find_job (jq_id j) q2 = Some j" "\<not> (\<exists>k token'. r = Inr (Some (k, token')) \<and> jq_id k = jq_id j)"
    using lease_other [OF l(5) l(1,2) _ _ assms(3)] assms(4) l(6,7) by auto
  have no: "\<not> holds_lease t3 (jq_id j) stale x" if "x \<in> set q1" for x
  proof
    assume h: "holds_lease t3 (jq_id j) stale x"
    then have "find_job (jq_id j) q1 = Some x" using find_job_in [OF l(5) that] by (simp add: holds_lease_def)
    then show False using h l(1,3) assms(5) by (auto simp: holds_lease_def)
  qed
  then have "filter (holds_lease t3 (jq_id j) stale) q1 = []" "update_where (holds_lease t3 (jq_id j) stale) f q1 = q1" for f
    by (auto simp: filter_empty_conv update_where_def intro: map_idI)
  then show ?thesis using l(1,3) other by (simp add: queue_defs)
qed

subsection \<open>The life of a job\<close>

text \<open>The abstract machine a caller of the queue relies on: how often a job was attempted and, while it runs, whose token holds
  it until when.\<close>

datatype lifecycle = Waiting nat | Running nat string string | Ended nat job_phase

datatype life_event = Claim_life string string | Finish_life string string | Fail_life string string | Kill_life string string
  | Lapse_life string | Cancel_life | Recover_life

fun life_step :: "nat \<Rightarrow> life_event \<Rightarrow> lifecycle \<Rightarrow> lifecycle" where
  "life_step m (Claim_life token e) (Waiting n) = Running (n + 1) token e"
| "life_step m (Finish_life token t) (Running n h e) = (if h = token \<and> t < e then Ended n Job_completed else Running n h e)"
| "life_step m (Fail_life token t) (Running n h e) =
     (if h = token \<and> t < e then if m \<le> n then Ended n Dead_lettered else Waiting n else Running n h e)"
| "life_step m (Kill_life token t) (Running n h e) = (if h = token \<and> t < e then Ended n Dead_lettered else Running n h e)"
| "life_step m (Lapse_life t) (Running n h e) = (if e \<le> t then if m \<le> n then Ended n Dead_lettered else Waiting n else Running n h e)"
| "life_step m Cancel_life l = Ended (case l of Waiting n \<Rightarrow> n | Running n _ _ \<Rightarrow> n | Ended n _ \<Rightarrow> n) Cancelled"
| "life_step m Recover_life (Ended n Dead_lettered) = Waiting n"
| "life_step m ev l = l"

definition life :: "queued_job \<Rightarrow> lifecycle" where
  "life j = (if jq_state j \<in> {Queued, Retry_scheduled} then Waiting (jq_attempt j)
     else if jq_state j = Leased then Running (jq_attempt j) (the (jq_leaseToken j)) (the (jq_leaseExpiresAt j))
     else Ended (jq_attempt j) (jq_state j))"

datatype queue_call = Enqueue string string job_input | Lease string string string "string list" int | Complete string string string
  | Retry string string string "string \<times> string" string | Dead_letter string string string "string \<times> string" | Cancel string string "string option"
  | Recover string string "string option" | Cancel_schedule string string string

fun run_call :: "queue_call \<Rightarrow> queue \<Rightarrow> queue" where
  "run_call (Enqueue t i input) q = snd (enqueue t i input q)"
| "run_call (Lease t token cell types seconds) q = snd (lease t token cell types seconds q)"
| "run_call (Complete t i token) q = snd (complete_job t i token q)"
| "run_call (Retry t i token error retryAt) q = snd (retry_job t i token error retryAt q)"
| "run_call (Dead_letter t i token error) q = snd (dead_letter t i token error q)"
| "run_call (Cancel t i reason) q = cancel_job t i reason q"
| "run_call (Recover t i availableAt) q = snd (recover_job t i availableAt q)"
| "run_call (Cancel_schedule t cell idem) q = cancel_schedule t cell idem q"

text \<open>What a call means for one job.\<close>

fun life_events :: "queue_call \<Rightarrow> queue \<Rightarrow> queued_job \<Rightarrow> life_event list" where
  "life_events (Lease t token cell types seconds) q j =
     (if \<not> nonblank cell \<or> \<not> safe_int seconds \<or> seconds \<le> 0 then []
      else (if jq_cellId j = cell then [Lapse_life t] else [])
        @ (case fst (lease t token cell types seconds q) of
             Inr (Some (k, _)) \<Rightarrow> if jq_id k = jq_id j then [Claim_life token (the (jq_leaseExpiresAt k))] else []
           | _ \<Rightarrow> []))"
| "life_events (Complete t i token) q j = (if jq_id j = i then [Finish_life token t] else [])"
| "life_events (Retry t i token error retryAt) q j = (if jq_id j = i then [Fail_life token t] else [])"
| "life_events (Dead_letter t i token error) q j = (if jq_id j = i then [Kill_life token t] else [])"
| "life_events (Cancel t i reason) q j = (if jq_id j = i then [Cancel_life] else [])"
| "life_events (Recover t i availableAt) q j = (if jq_id j = i then [Recover_life] else [])"
| "life_events (Cancel_schedule t cell idem) q j = (if jq_cellId j = cell \<and> jq_storedKey j = stored_key cell idem then [Cancel_life] else [])"
| "life_events (Enqueue t i input) q j = []"

definition queue_ok :: "queue \<Rightarrow> bool" where
  "queue_ok q \<longleftrightarrow> distinct (map jq_id q)
     \<and> (\<forall>j \<in> set q. jq_state j = Leased \<longrightarrow> jq_leaseToken j \<noteq> None \<and> jq_leaseExpiresAt j \<noteq> None)"

lemma life_swept:
  assumes "jq_state j = Leased \<Longrightarrow> jq_leaseToken j \<noteq> None \<and> jq_leaseExpiresAt j \<noteq> None"
  shows "life (swept t cell j) = (if jq_cellId j = cell then life_step (jq_maxAttempts j) (Lapse_life t) (life j) else life j)"
  using assms by (cases "jq_state j") (auto simp: swept_def lease_expired_def exhaust_def reclaim_def life_def)

lemma life_settled:
  assumes "jq_state j = Leased \<Longrightarrow> jq_leaseToken j \<noteq> None \<and> jq_leaseExpiresAt j \<noteq> None" "st \<in> {Job_completed, Retry_scheduled, Dead_lettered}"
  shows "life (if holds_lease t i token j then settled t st err a j else j) =
    (if jq_id j = i then life_step (jq_maxAttempts j) (case st of Job_completed \<Rightarrow> Finish_life token t | Retry_scheduled \<Rightarrow> Fail_life token t
       | _ \<Rightarrow> Kill_life token t) (life j) else life j)"
  using assms by (cases "jq_state j") (auto simp: holds_lease_def settled_def Let_def life_def)

lemma life_recovered:
  "life (if jq_id j = i \<and> recoverable (jq_state j) then recovered t a j else j) =
     (if jq_id j = i then life_step (jq_maxAttempts j) Recover_life (life j) else life j)"
  by (cases "jq_state j") (auto simp: recoverable_def recovered_def life_def)

lemma life_cancelled: "jq_attempt j' = jq_attempt j \<Longrightarrow> jq_state j' = Cancelled \<Longrightarrow> life j' = life_step m Cancel_life (life j)"
  by (cases "jq_state j") (auto simp: life_def)


lemma queue_okD: "queue_ok q \<Longrightarrow> find_job i q = Some j \<Longrightarrow> jq_state j = Leased \<Longrightarrow> jq_leaseToken j \<noteq> None \<and> jq_leaseExpiresAt j \<noteq> None"
  by (auto simp: queue_ok_def dest!: find_job_id)

lemma life_lease:
  assumes ok: "queue_ok q" and j: "find_job i q = Some j"
  shows "\<exists>j'. find_job i (run_call (Lease t token cell types seconds) q) = Some j' \<and> jq_maxAttempts j' = jq_maxAttempts j
    \<and> life j' = fold (life_step (jq_maxAttempts j)) (life_events (Lease t token cell types seconds) q j) (life j)"
proof (cases "\<not> nonblank cell \<or> \<not> safe_int seconds \<or> seconds \<le> 0")
  case True
  then show ?thesis using j by (auto simp: lease_def)
next
  case False
  let ?s = "swept t cell j"
  have s: "find_job i (sweep t cell q) = Some ?s" using j by (simp add: find_sweep)
  have i: "jq_id j = i" using find_job_id [OF j] by simp
  have m: "jq_maxAttempts ?s = jq_maxAttempts j" by (simp add: swept_def exhaust_def reclaim_def)
  have l: "life ?s = fold (life_step (jq_maxAttempts j)) (if jq_cellId j = cell then [Lapse_life t] else []) (life j)"
    using life_swept [OF queue_okD [OF ok j]] by simp
  obtain r q' where e: "lease t token cell types seconds q = (r, q')" by fastforce
  from e show ?thesis
  proof (cases rule: lease_cases)
    case (bad err)
    then have "q' = sweep t cell q" using False e by (auto simp: lease_def Let_def split: option.splits)
    then show ?thesis using s m l False bad(1) e by auto
  next
    case idle
    then show ?thesis using s m l False e by auto
  next
    case (work k x)
    have k: "k \<in> set (sweep t cell q)" "jq_state k \<in> {Queued, Retry_scheduled}" using next_job_in [OF work(2)] by (auto simp: leasable_def)
    have d: "distinct (map jq_id (sweep t cell q))" using ok by (simp add: queue_ok_def sweep_map comp_def)
    have q': "find_job i q' = Some (if jq_id k = i \<and> jq_state ?s \<in> {Queued, Retry_scheduled} then claimed t token x ?s else ?s)"
      using s i unfolding work(4) by (simp add: find_update_where eq_commute [of i])
    have ks: "jq_id k = i \<Longrightarrow> k = ?s" using find_job_in [OF d k(1)] s by simp
    show ?thesis
    proof (cases "jq_id k = i")
      case True
      then have "life (claimed t token x ?s) = life_step (jq_maxAttempts j) (Claim_life token x) (life ?s)"
        using ks k(2) by (auto simp: claimed_def life_def)
      then show ?thesis using q' True ks k(2) m l False e i by (auto simp: work claimed_def)
    next
      case other: False
      then show ?thesis using q' m l False e i other [symmetric] by (auto simp: work)
    qed
  qed
qed

text \<open>C35: The table refines the life of a job. Whatever call the queue serves, every stored job is still stored with its attempt
  budget, and the part of it a caller relies on, attempts made and current holder with its deadline, has changed exactly as
  the abstract machine says for the events the call means for this job: in particular an attempt is counted only by a claim, a job ends
  dead-lettered exactly when its budget is used up, and nothing but a recovery revives an ended job.\<close>

theorem queue_refines_life:
  assumes "queue_ok q" "find_job i q = Some j"
  shows "\<exists>j'. find_job i (run_call call q) = Some j' \<and> jq_maxAttempts j' = jq_maxAttempts j
    \<and> life j' = fold (life_step (jq_maxAttempts j)) (life_events call q j) (life j)"
proof (cases call)
  case (Lease t token cell types seconds)
  then show ?thesis using life_lease [OF assms] by simp
next
  case (Enqueue t i' input)
  then show ?thesis using assms(2) by (auto simp: enqueue_def find_job_def find_append split: option.splits)
next
  case (Recover t i' availableAt)
  have "snd (recover_job t i' availableAt q) = update_where (\<lambda>x. jq_id x = i' \<and> recoverable (jq_state x)) (recovered t availableAt) q"
    by (auto simp: recover_job_def update_where_def find_None_iff intro!: map_idI [symmetric] split: option.splits)
  moreover have "jq_maxAttempts (recovered t availableAt j) = jq_maxAttempts j" by (simp add: recovered_def)
  ultimately show ?thesis using Recover assms(2) life_recovered [of j i' t availableAt] by (simp add: find_update_where)
next
  case (Cancel t i' reason)
  then show ?thesis using assms(2) life_cancelled [of "j\<lparr>jq_state := Cancelled,
      jq_lastError := (if truthy_opt reason then Some (''cancelled'', the reason) else None), jq_updatedAt := t\<rparr>" j "jq_maxAttempts j"]
    by (auto simp: queue_defs find_update_where simp del: life_step.simps)
next
  case (Cancel_schedule t cell idem)
  then show ?thesis using assms(2) life_cancelled [of "j\<lparr>jq_state := Cancelled, jq_updatedAt := t\<rparr>" j "jq_maxAttempts j"]
    by (auto simp: queue_defs find_update_where simp del: life_step.simps)
next
  case (Complete t i' token)
  then show ?thesis using assms(2) life_settled [OF queue_okD [OF assms], of Job_completed t i' token None None]
    by (auto simp: queue_defs find_update_where settled_def Let_def)
next
  case (Retry t i' token error retryAt)
  then show ?thesis using assms(2) life_settled [OF queue_okD [OF assms], of Retry_scheduled t i' token "Some error" "Some retryAt"]
    by (auto simp: queue_defs find_update_where settled_def Let_def)
next
  case (Dead_letter t i' token error)
  then show ?thesis using assms(2) life_settled [OF queue_okD [OF assms], of Dead_lettered t i' token "Some error" None]
    by (auto simp: queue_defs find_update_where settled_def Let_def)
qed


subsection \<open>A drill on concrete queues\<close>

definition drill_job :: queued_job where
  "drill_job = new_queued ''2026-01-01T00:00:00.000Z'' ''j1'' \<lparr> ji_cellId = ''c'', ji_type = ''mail'', ji_payload = ''{}'', ji_idempotencyKey = ''k'',
     ji_maxAttempts = 1, ji_availableAt = None, ji_correlationId = None \<rparr>"

definition drill_leased :: queued_job where
  "drill_leased = claimed ''2026-01-01T00:00:00.000Z'' ''t1'' ''2026-01-01T00:00:30.000Z'' drill_job"

lemma drill_lease:
  "lease ''2026-01-01T00:00:00.000Z'' ''t1'' ''c'' [''mail''] 30 [drill_job] = (Inr (Some (drill_leased, ''t1'')), [drill_leased])"
  by code_simp

lemma drill_retry: "retry_job ''2026-01-01T00:00:10.000Z'' ''j1'' ''t1'' (''smtp'', ''refused'') ''2026-01-01T00:01:00.000Z'' [drill_leased] =
    (Inr (), [settled ''2026-01-01T00:00:10.000Z'' Retry_scheduled (Some (''smtp'', ''refused'')) (Some ''2026-01-01T00:01:00.000Z'') drill_leased])"
  by code_simp

lemma drill_facts: "jq_id drill_leased = ''j1''" "the (jq_leaseExpiresAt drill_leased) = ''2026-01-01T00:00:30.000Z''"
    "''2026-01-01T00:00:20.000Z'' < ''2026-01-01T00:00:30.000Z''" "queue_ok [drill_job]" "queue_ok [drill_leased]" "find_job ''j1'' [drill_leased] = Some drill_leased"
  by (code_simp)+

theorem worker_runs_terminate_witness:
  "2 + queue_budget [settled ''2026-01-01T00:00:10.000Z'' Retry_scheduled (Some (''smtp'', ''refused'')) (Some ''2026-01-01T00:01:00.000Z'') drill_leased]
     \<le> queue_budget [drill_job]"
  using worker_runs_terminate [OF run_step [OF run_step [OF run_refl step_lease [OF drill_lease]] step_retry [OF drill_retry]]]
  by (simp add: numeral_2_eq_2)

theorem lease_is_exclusive_witness:
  "complete_job ''2026-01-01T00:00:25.000Z'' ''j1'' ''t0'' [drill_leased] = (Inl Lease_invalid, [drill_leased])
    \<and> find_job ''j1'' (snd (lease ''2026-01-01T00:00:20.000Z'' ''t2'' ''c'' [] 30 [drill_leased])) = Some drill_leased"
  using lease_is_exclusive [OF _ drill_lease surjective_pairing, where ?t2.0 = "''2026-01-01T00:00:20.000Z''" and stale = "''t0''" and ?token2.0 = "''t2''"
      and ?cell2.0 = "''c''" and ?types2.0 = "[]" and ?seconds2.0 = 30 and ?t3.0 = "''2026-01-01T00:00:25.000Z''"] drill_facts(1-3)
  by simp

theorem queue_refines_life_witness:
  "\<exists>j'. find_job ''j1'' (run_call (Lease ''2026-01-01T00:00:30.000Z'' ''t2'' ''c'' [] 30) [drill_leased]) = Some j' \<and> life j' = Ended 1 Dead_lettered"
proof -
  have "fold (life_step (jq_maxAttempts drill_leased)) (life_events (Lease ''2026-01-01T00:00:30.000Z'' ''t2'' ''c'' [] 30) [drill_leased] drill_leased)
      (life drill_leased) = Ended 1 Dead_lettered" by code_simp
  then show ?thesis
    using queue_refines_life [OF drill_facts(5,6), of "Lease ''2026-01-01T00:00:30.000Z'' ''t2'' ''c'' [] 30"] by auto
qed

end
