(* ===== verification/Website_Hosting.thy ===== *)
theory Website_Hosting
  imports JS_Text JS_Date
begin

text \<open>
  The records of website hosting, \<open>packages/core/src/website-hosting.ts\<close> and \<open>packages/persistence/src/website-hosting.ts\<close>,
  and the hosting half of \<open>SqliteWebsiteStore\<close> in \<open>adapters/local/src/websites.ts\<close>. The one SQL table of JSON payloads is a table
  per kind; each is an association list from workspace and id to the payload, in order of insertion. A method that runs inside
  \<open>atomic\<close> is a function that answers an error, which leaves the store as it was, or a result and the new store.
\<close>

subsection \<open>Records\<close>

datatype web_error = Website_error string "nat option" | Activation_rejected string "nat option" | Other_error

datatype hosting_family = Native | Aws | Netlify | Cloudflare_pages | Sftp | Hostinger

datatype staging = Private_staging | Public_staging | No_staging
datatype activation_mode = Release_reference | Filesystem_pointer | In_place
datatype propagation = Local_propagation | Provider_propagation | Operator_propagation
datatype rollback_mode = Retained_artifact | Provider_rollback | Unsupported_rollback
datatype domain_mode = Provider_assisted | Operator_managed
datatype redirect_mode = Native_redirects | Portable_redirects
datatype unpublish_mode = Confirmed_unpublish | Operator_required

record hosting_capabilities =
  hp_emergencySuspension :: "bool option"
  hp_provision :: bool
  hp_select :: bool
  hp_staging :: staging
  hp_activation :: activation_mode
  hp_propagation :: propagation
  hp_rollback :: rollback_mode
  hp_domains :: domain_mode
  hp_redirects :: redirect_mode
  hp_headers :: bool
  hp_unpublish :: unpublish_mode
  hp_maxFiles :: nat
  hp_maxBytes :: nat
  hp_maxFileBytes :: nat

datatype connection_state = Connected | Reconnect_connection | Disconnected
datatype authorization_kind = Administrator_auth | Oauth_auth | Api_token_auth | Ssh_key_auth

record hosting_connection =
  hc_id :: string
  hc_workspaceId :: string
  hc_revision :: int
  hc_family :: hosting_family
  hc_accountId :: string
  hc_authorization :: authorization_kind
  hc_credentialReference :: "string option"
  hc_permissions :: "string list"
  hc_state :: connection_state

datatype serving = Unpublished_serving | Active_serving | Suspended_serving

record target_lock =
  lk_attemptId :: string
  lk_executionId :: string

record hosting_target =
  tg_id :: string
  tg_workspaceId :: string
  tg_websiteId :: string
  tg_revision :: int
  tg_label :: string
  tg_adapterId :: string
  tg_family :: hosting_family
  tg_connectionId :: "string option"
  tg_accountId :: string
  tg_remoteId :: string
  tg_publicUrl :: string
  tg_basePath :: string
  tg_ownershipMarker :: string
  tg_config :: "(string \<times> string) list"
  tg_capabilities :: hosting_capabilities
  tg_desiredGeneration :: int
  tg_activeGeneration :: int
  tg_activeAttemptId :: "string option"
  tg_activeReleaseId :: "string option"
  tg_activeArtifactDigest :: "string option"
  tg_servingRemovalRequired :: bool
  tg_serving :: serving
  tg_lock :: "target_lock option"

datatype attempt_state = Queued_attempt | Generating | Uploading | Activating | Verifying | Published | Unpublished | Failed_attempt
  | Reconnect_required | Unknown_outcome | Superseded | Cancelled_attempt

record checkpoint =
  cp_releaseId :: "string option"
  cp_data :: "(string \<times> string) list"

record verification =
  vf_observedAt :: string
  vf_associationConfirmed :: bool
  vf_publicConfirmed :: bool
  vf_locations :: "string list"
  vf_reasons :: "string list"

datatype dependency_kind = Website_dependency | Document_dependency | Publication_dependency | Asset_dependency | Catalogue_dependency
  | Policy_dependency

record website_dependency =
  wd_kind :: dependency_kind
  wd_id :: string
  wd_revision :: string

record website_limits =
  wl_export :: bool
  wl_maxPages :: nat
  wl_maxAssets :: nat
  wl_maxBytes :: nat

datatype publish_operation = Publish_operation | Rollback_operation | Unpublish_operation

record approved_target =
  at_id :: string
  at_revision :: int
  at_connectionRevision :: "int option"
  at_accountId :: string

record publish_plan =
  pn_id :: string
  pn_workspaceId :: string
  pn_websiteId :: string
  pn_actorId :: string
  pn_fingerprint :: string
  pn_snapshotReference :: string
  pn_websiteRevision :: int
  pn_dependencies :: "website_dependency list"
  pn_creatorIdentityId :: string
  pn_targets :: "approved_target list"
  pn_binding :: "(string \<times> int) option"
  pn_policyRevision :: string
  pn_limits :: website_limits
  pn_createdAt :: string
  pn_expiresAt :: string

record publish_intent =
  pi_id :: string
  pi_workspaceId :: string
  pi_websiteId :: string
  pi_actorId :: string
  pi_operation :: publish_operation
  pi_planId :: "string option"
  pi_snapshotReference :: "string option"
  pi_idempotencyKey :: string
  pi_approvalFingerprint :: string
  pi_createdAt :: string
  pi_attemptIds :: "string list"

record deployment_attempt =
  da_id :: string
  da_workspaceId :: string
  da_targetId :: string
  da_targetRevision :: int
  da_intentId :: string
  da_generation :: int
  da_revision :: int
  da_connectionRevision :: "int option"
  da_accountId :: string
  da_state :: attempt_state
  da_checkpoint :: checkpoint
  da_artifactDigest :: "string option"
  da_sourceArtifactDigest :: "string option"
  da_marker :: "string option"
  da_dependencies :: "website_dependency list"
  da_creatorIdentityId :: string
  da_binding :: "(string \<times> int) option"
  da_renderLimits :: "website_limits option"
  da_executionId :: "string option"
  da_activationStarted :: bool
  da_retryAfter :: "string option"
  da_verification :: "verification option"
  da_errorCode :: "string option"
  da_updatedAt :: string

record destination_binding =
  wb_id :: string
  wb_workspaceId :: string
  wb_websiteId :: string
  wb_revision :: int
  wb_label :: string
  wb_targetIds :: "string list"
  wb_enabled :: bool

datatype domain_state = Domain_requested | Verification_pending | Dns_pending | Certificate_pending | Domain_ready | Domain_active | Domain_error
  | Domain_removing | Domain_removed

record hosting_domain =
  hd_id :: string
  hd_workspaceId :: string
  hd_targetId :: string
  hd_revision :: int
  hd_hostname :: string
  hd_primary :: bool
  hd_state :: domain_state
  hd_providerId :: "string option"
  hd_instructions :: "string list"

text \<open>The claim of a remote root, and a stored snapshot, whose private encoding stays opaque.\<close>

record hosting_root =
  hr_id :: string
  hr_revision :: int
  hr_workspaceId :: string
  hr_targetId :: string

record plan_snapshot =
  sn_id :: string
  sn_revision :: int
  sn_encoded :: string

type_synonym 'r rows = "((string \<times> string) \<times> 'r) list"

record hosting =
  ho_bindings :: "destination_binding rows"
  ho_connections :: "hosting_connection rows"
  ho_targets :: "hosting_target rows"
  ho_roots :: "hosting_root rows"
  ho_plans :: "publish_plan rows"
  ho_snapshots :: "plan_snapshot rows"
  ho_intents :: "publish_intent rows"
  ho_attempts :: "deployment_attempt rows"
  ho_domains :: "hosting_domain rows"
  ho_outbox :: "(string \<times> string) list"

definition empty_hosting :: hosting where
  "empty_hosting = \<lparr> ho_bindings = [], ho_connections = [], ho_targets = [], ho_roots = [], ho_plans = [], ho_snapshots = [], ho_intents = [],
     ho_attempts = [], ho_domains = [], ho_outbox = [] \<rparr>"

subsection \<open>Rows\<close>

definition web_throw :: "string \<Rightarrow> web_error + 'a" where
  "web_throw code = Inl (Website_error code None)"

definition web_read :: "'r rows \<Rightarrow> string \<Rightarrow> string \<Rightarrow> 'r option" where
  "web_read rows w i = map_of rows (w, i)"

definition web_list :: "'r rows \<Rightarrow> string \<Rightarrow> 'r list" where
  "web_list rows w = map snd (sort_key (\<lambda>r. snd (fst r)) (filter (\<lambda>r. fst (fst r) = w) rows))"

text \<open>\<open>save\<close>: an insertion of the first revision, or a compare-and-swap on the stored one.\<close>

definition web_save :: "('r \<Rightarrow> string) \<Rightarrow> ('r \<Rightarrow> int) \<Rightarrow> string \<Rightarrow> 'r \<Rightarrow> int \<Rightarrow> 'r rows \<Rightarrow> web_error + 'r rows" where
  "web_save ident revision w value expected rows =
     (if w = [] \<or> ident value = [] \<or> \<not> safe_int expected \<or> expected < 0 \<or> revision value \<noteq> expected + 1 then web_throw ''revision_conflict''
      else if expected = 0 then
        (if web_read rows w (ident value) = None then Inr (rows @ [((w, ident value), value)]) else web_throw ''revision_conflict'')
      else (case web_read rows w (ident value) of
          Some old \<Rightarrow> if revision old = expected then Inr (AList.update (w, ident value) value rows) else web_throw ''revision_conflict''
        | None \<Rightarrow> web_throw ''revision_conflict''))"

text \<open>\<open>replace\<close>: the payload at an unchanged revision.\<close>

definition web_replace :: "('r \<Rightarrow> string) \<Rightarrow> ('r \<Rightarrow> int) \<Rightarrow> string \<Rightarrow> 'r \<Rightarrow> 'r rows \<Rightarrow> web_error + 'r rows" where
  "web_replace ident revision w value rows =
     (case web_read rows w (ident value) of
        Some old \<Rightarrow> if revision old = revision value then Inr (AList.update (w, ident value) value rows) else web_throw ''revision_conflict''
      | None \<Rightarrow> web_throw ''revision_conflict'')"

definition web_delete :: "string \<Rightarrow> string \<Rightarrow> 'r rows \<Rightarrow> 'r rows" where
  "web_delete w i = filter (\<lambda>r. fst r \<noteq> (w, i))"

abbreviation save_target where "save_target w t expected s \<equiv>
  try_then (web_save tg_id tg_revision w t expected (ho_targets s)) (\<lambda>rows. Inr (s\<lparr> ho_targets := rows \<rparr>))"
abbreviation put_target where "put_target w t s \<equiv>
  try_then (web_replace tg_id tg_revision w t (ho_targets s)) (\<lambda>rows. Inr (s\<lparr> ho_targets := rows \<rparr>))"
abbreviation save_attempt where "save_attempt w a expected s \<equiv>
  try_then (web_save da_id da_revision w a expected (ho_attempts s)) (\<lambda>rows. Inr (s\<lparr> ho_attempts := rows \<rparr>))"

definition getTarget :: "hosting \<Rightarrow> string \<Rightarrow> string \<Rightarrow> hosting_target option" where "getTarget s = web_read (ho_targets s)"
definition getAttempt :: "hosting \<Rightarrow> string \<Rightarrow> string \<Rightarrow> deployment_attempt option" where "getAttempt s = web_read (ho_attempts s)"
definition getIntent :: "hosting \<Rightarrow> string \<Rightarrow> string \<Rightarrow> publish_intent option" where "getIntent s = web_read (ho_intents s)"
definition getPlan :: "hosting \<Rightarrow> string \<Rightarrow> string \<Rightarrow> publish_plan option" where "getPlan s = web_read (ho_plans s)"
definition getBinding :: "hosting \<Rightarrow> string \<Rightarrow> string \<Rightarrow> destination_binding option" where "getBinding s = web_read (ho_bindings s)"
definition getConnection :: "hosting \<Rightarrow> string \<Rightarrow> string \<Rightarrow> hosting_connection option" where "getConnection s = web_read (ho_connections s)"

definition getSnapshot :: "hosting \<Rightarrow> string \<Rightarrow> string \<Rightarrow> string option" where
  "getSnapshot s w i = map_option sn_encoded (web_read (ho_snapshots s) w i)"

definition listConnections :: "hosting \<Rightarrow> string \<Rightarrow> hosting_connection list" where
  "listConnections s w = web_list (ho_connections s) w"

definition listBindings :: "hosting \<Rightarrow> string \<Rightarrow> string \<Rightarrow> destination_binding list" where
  "listBindings s w site = filter (\<lambda>b. wb_websiteId b = site) (web_list (ho_bindings s) w)"

definition listTargets :: "hosting \<Rightarrow> string \<Rightarrow> string \<Rightarrow> hosting_target list" where
  "listTargets s w site = filter (\<lambda>t. tg_websiteId t = site) (web_list (ho_targets s) w)"

definition listAttempts :: "hosting \<Rightarrow> string \<Rightarrow> string \<Rightarrow> deployment_attempt list" where
  "listAttempts s w site = filter (\<lambda>a. da_targetId a \<in> tg_id ` set (listTargets s w site)) (web_list (ho_attempts s) w)"

definition listDomains :: "hosting \<Rightarrow> string \<Rightarrow> string \<Rightarrow> hosting_domain list" where
  "listDomains s w target = filter (\<lambda>d. hd_targetId d = target) (web_list (ho_domains s) w)"


subsection \<open>The store\<close>

text \<open>\<open>saveBinding\<close> and \<open>saveConnection\<close>: a binding stays with its website, a connection with its account.\<close>

definition saveBinding :: "destination_binding \<Rightarrow> int \<Rightarrow> hosting \<Rightarrow> web_error + hosting" where
  "saveBinding b expected s =
     (if (case getBinding s (wb_workspaceId b) (wb_id b) of Some old \<Rightarrow> wb_websiteId old \<noteq> wb_websiteId b | None \<Rightarrow> False)
      then web_throw ''foreign_reference''
      else try_then (web_save wb_id wb_revision (wb_workspaceId b) b expected (ho_bindings s)) (\<lambda>rows. Inr (s\<lparr> ho_bindings := rows \<rparr>)))"

definition saveConnection :: "hosting_connection \<Rightarrow> int \<Rightarrow> hosting \<Rightarrow> web_error + hosting" where
  "saveConnection c expected s =
     (if (case getConnection s (hc_workspaceId c) (hc_id c) of
            Some old \<Rightarrow> hc_accountId old \<noteq> hc_accountId c \<or> hc_family old \<noteq> hc_family c | None \<Rightarrow> False)
      then web_throw ''account_changed''
      else try_then (web_save hc_id hc_revision (hc_workspaceId c) c expected (ho_connections s)) (\<lambda>rows. Inr (s\<lparr> ho_connections := rows \<rparr>)))"

definition setServingState :: "string \<Rightarrow> string \<Rightarrow> serving \<Rightarrow> bool \<Rightarrow> hosting \<Rightarrow> web_error + hosting" where
  "setServingState w i state operatorRequired s =
     (case getTarget s w i of
        None \<Rightarrow> web_throw ''target_not_found''
      | Some t \<Rightarrow> put_target w (t\<lparr> tg_serving := state, tg_servingRemovalRequired := operatorRequired \<rparr>) s)"

fun family_name :: "hosting_family \<Rightarrow> string" where
  "family_name Native = ''native''"
| "family_name Aws = ''aws''"
| "family_name Netlify = ''netlify''"
| "family_name Cloudflare_pages = ''cloudflare-pages''"
| "family_name Sftp = ''sftp''"
| "family_name Hostinger = ''hostinger''"

definition root_id :: "hosting_target \<Rightarrow> string" where
  "root_id t = json_array [json_string (family_name (tg_family t)), json_string (tg_accountId t), json_string (tg_remoteId t)]"

definition kept_state :: "hosting_target \<Rightarrow> hosting_target \<Rightarrow> hosting_target" where
  "kept_state old t = t\<lparr> tg_desiredGeneration := tg_desiredGeneration old, tg_activeGeneration := tg_activeGeneration old,
     tg_activeAttemptId := tg_activeAttemptId old, tg_activeReleaseId := tg_activeReleaseId old, tg_activeArtifactDigest := tg_activeArtifactDigest old,
     tg_serving := tg_serving old, tg_servingRemovalRequired := tg_servingRemovalRequired old, tg_lock := tg_lock old \<rparr>"

text \<open>\<open>saveTarget\<close>: a remote root belongs to one target of one workspace, and a reconfigured target keeps its deployment state.\<close>

definition saveTarget :: "hosting_target \<Rightarrow> int \<Rightarrow> hosting \<Rightarrow> web_error + hosting" where
  "saveTarget t expected s =
     (let w = tg_workspaceId t; old = getTarget s w (tg_id t); owner = web_read (ho_roots s) ''_hosting_roots'' (root_id t) in
      if (case owner of Some r \<Rightarrow> hr_workspaceId r \<noteq> w \<or> hr_targetId r \<noteq> tg_id t | None \<Rightarrow> False) then web_throw ''hosting_root_in_use''
      else try_then
        (if owner = None then web_save hr_id hr_revision ''_hosting_roots''
             \<lparr> hr_id = root_id t, hr_revision = 1, hr_workspaceId = w, hr_targetId = tg_id t \<rparr> 0 (ho_roots s)
         else Inr (ho_roots s)) (\<lambda>roots.
      if (case old of Some o' \<Rightarrow> tg_websiteId o' \<noteq> tg_websiteId t \<or> tg_accountId o' \<noteq> tg_accountId t \<or> tg_remoteId o' \<noteq> tg_remoteId t
              \<or> tg_connectionId o' \<noteq> tg_connectionId t \<or> tg_adapterId o' \<noteq> tg_adapterId t | None \<Rightarrow> False)
      then web_throw ''target_identity_changed''
      else save_target w (case old of Some o' \<Rightarrow> kept_state o' t | None \<Rightarrow> t) expected (s\<lparr> ho_roots := roots \<rparr>)))"

definition putPlan :: "publish_plan \<Rightarrow> string \<Rightarrow> hosting \<Rightarrow> web_error + hosting" where
  "putPlan p encoded s =
     try_then (web_save pn_id (\<lambda>_. 1) (pn_workspaceId p) p 0 (ho_plans s)) (\<lambda>plans.
     try_then (web_save sn_id sn_revision (pn_workspaceId p) \<lparr> sn_id = pn_snapshotReference p, sn_revision = 1, sn_encoded = encoded \<rparr> 0 (ho_snapshots s))
       (\<lambda>snapshots. Inr (s\<lparr> ho_plans := plans, ho_snapshots := snapshots \<rparr>)))"

text \<open>\<open>cleanupUnacceptedPlans\<close>: expired plans no intent refers to, the oldest rows first.\<close>

definition unaccepted :: "string \<Rightarrow> hosting \<Rightarrow> (string \<times> string) \<times> publish_plan \<Rightarrow> bool" where
  "unaccepted now s r \<longleftrightarrow> pn_expiresAt (snd r) \<le> now
     \<and> \<not> list_ex (\<lambda>i. fst (fst i) = fst (fst r) \<and> pi_planId (snd i) = Some (snd (fst r))) (ho_intents s)"

definition bounded_limit :: "int \<Rightarrow> nat" where
  "bounded_limit n = nat (max 1 (min n 100))"

definition cleanupUnacceptedPlans :: "string \<Rightarrow> int \<Rightarrow> hosting \<Rightarrow> web_error + (nat \<times> hosting)" where
  "cleanupUnacceptedPlans now limit s =
     (if date_parse now = None then web_throw ''invalid_retention''
      else (let gone = take (bounded_limit limit) (filter (unaccepted now s) (ho_plans s)) in
        Inr (length gone, s\<lparr> ho_snapshots := fold (\<lambda>r. web_delete (fst (fst r)) (pn_snapshotReference (snd r))) gone (ho_snapshots s),
          ho_plans := fold (\<lambda>r. web_delete (fst (fst r)) (snd (fst r))) gone (ho_plans s) \<rparr>)))"

record accept_input =
  ai_intent :: publish_intent
  ai_plan :: "publish_plan option"
  ai_targets :: "hosting_target list"
  ai_attempts :: "deployment_attempt list"

definition connection_ok :: "hosting \<Rightarrow> string \<Rightarrow> hosting_target \<Rightarrow> deployment_attempt \<Rightarrow> bool" where
  "connection_ok s w t a \<longleftrightarrow> (case tg_connectionId t of None \<Rightarrow> True | Some c \<Rightarrow> c = [] \<or>
     (case getConnection s w c of None \<Rightarrow> False
      | Some c \<Rightarrow> hc_state c = Connected \<and> hc_accountId c = da_accountId a \<and> Some (hc_revision c) = da_connectionRevision a))"

definition acceptTarget :: "string \<Rightarrow> deployment_attempt list \<Rightarrow> hosting_target \<Rightarrow> hosting \<Rightarrow> web_error + hosting" where
  "acceptTarget w attempts expected s =
     (case getTarget s w (tg_id expected) of None \<Rightarrow> web_throw ''revision_conflict''
      | Some t \<Rightarrow>
        if tg_revision t \<noteq> tg_revision expected \<or> tg_desiredGeneration t \<noteq> tg_desiredGeneration expected then web_throw ''revision_conflict''
        else (case List.find (\<lambda>a. da_targetId a = tg_id t) attempts of None \<Rightarrow> web_throw ''generation_conflict''
          | Some a \<Rightarrow>
            if da_generation a \<noteq> tg_desiredGeneration t + 1 then web_throw ''generation_conflict''
            else if \<not> connection_ok s w t a then web_throw ''reconnect_required''
            else try_then (put_target w (t\<lparr> tg_desiredGeneration := da_generation a \<rparr>) s) (\<lambda>s.
                 try_then (save_attempt w a 0 s) (\<lambda>s.
                 if (w, da_id a) \<in> set (ho_outbox s) then Inl Other_error else Inr (s\<lparr> ho_outbox := ho_outbox s @ [(w, da_id a)] \<rparr>)))))"

fun acceptTargets :: "string \<Rightarrow> deployment_attempt list \<Rightarrow> hosting_target list \<Rightarrow> hosting \<Rightarrow> web_error + hosting" where
  "acceptTargets w attempts [] s = Inr s"
| "acceptTargets w attempts (t # ts) s = try_then (acceptTarget w attempts t s) (acceptTargets w attempts ts)"

definition plan_approved :: "hosting \<Rightarrow> publish_intent \<Rightarrow> publish_plan \<Rightarrow> bool" where
  "plan_approved s i p = (case getPlan s (pi_workspaceId i) (pn_id p) of None \<Rightarrow> False
     | Some saved \<Rightarrow> pn_fingerprint saved = pi_approvalFingerprint i \<and> pn_actorId saved = pi_actorId i
         \<and> \<not> (case (date_parse (pn_expiresAt saved), date_parse (pi_createdAt i)) of (Some e, Some c) \<Rightarrow> e \<le> c | _ \<Rightarrow> False))"

definition binding_current :: "hosting \<Rightarrow> string \<Rightarrow> (string \<times> int) option \<Rightarrow> bool" where
  "binding_current s w binding = (case binding of None \<Rightarrow> True
     | Some (i, revision) \<Rightarrow> (case getBinding s w i of Some b \<Rightarrow> wb_enabled b \<and> wb_revision b = revision | None \<Rightarrow> False))"

definition acceptIntent :: "accept_input \<Rightarrow> hosting \<Rightarrow> web_error + (publish_intent \<times> hosting)" where
  "acceptIntent input s =
     (let intent = ai_intent input; w = pi_workspaceId intent in
      case getIntent s w (pi_id intent) of
        Some existing \<Rightarrow>
          if pi_approvalFingerprint existing \<noteq> pi_approvalFingerprint intent \<or> pi_attemptIds existing \<noteq> pi_attemptIds intent
          then web_throw ''idempotency_conflict'' else Inr (existing, s)
      | None \<Rightarrow>
          if (case ai_plan input of Some p \<Rightarrow> \<not> plan_approved s intent p | None \<Rightarrow> False) then web_throw ''invalid_approval''
          else if (case ai_plan input of Some p \<Rightarrow> \<not> binding_current s w (pn_binding p) | None \<Rightarrow> False) then web_throw ''binding_changed''
          else try_then (acceptTargets w (ai_attempts input) (ai_targets input) s) (\<lambda>s.
               try_then (web_save pi_id (\<lambda>_. 1) w intent 0 (ho_intents s)) (\<lambda>intents. Inr (intent, s\<lparr> ho_intents := intents \<rparr>))))"

definition pendingOutbox :: "int \<Rightarrow> hosting \<Rightarrow> (string \<times> string) list" where
  "pendingOutbox limit s = take (bounded_limit limit) (ho_outbox s)"

definition acknowledgeOutbox :: "string \<Rightarrow> string \<Rightarrow> hosting \<Rightarrow> hosting" where
  "acknowledgeOutbox w i s = s\<lparr> ho_outbox := filter (\<lambda>r. r \<noteq> (w, i)) (ho_outbox s) \<rparr>"

text \<open>\<open>claim\<close>: the target's lock for a new execution of the attempt, unless another attempt holds it or its activation has started.\<close>

definition claim_target :: "string \<Rightarrow> string \<Rightarrow> string \<Rightarrow> string \<Rightarrow> hosting \<Rightarrow> web_error + (bool \<times> hosting)" where
  "claim_target w targetId attemptId executionId s =
     (case (getTarget s w targetId, getAttempt s w attemptId) of
        (Some t, Some a) \<Rightarrow>
          if da_targetId a \<noteq> tg_id t then Inr (False, s)
          else if (case tg_lock t of Some l \<Rightarrow> lk_attemptId l \<noteq> attemptId \<or> da_activationStarted a | None \<Rightarrow> False) then Inr (False, s)
          else try_then (put_target w (t\<lparr> tg_lock := Some \<lparr> lk_attemptId = attemptId, lk_executionId = executionId \<rparr> \<rparr>) s) (\<lambda>s.
               try_then (save_attempt w (a\<lparr> da_executionId := Some executionId, da_revision := da_revision a + 1 \<rparr>) (da_revision a) s) (\<lambda>s.
               Inr (True, s)))
      | _ \<Rightarrow> Inr (False, s))"

definition holds_lock :: "hosting_target \<Rightarrow> string \<Rightarrow> string \<Rightarrow> bool" where
  "holds_lock t attemptId executionId \<longleftrightarrow> tg_lock t = Some \<lparr> lk_attemptId = attemptId, lk_executionId = executionId \<rparr>"

definition assertOwner :: "string \<Rightarrow> string \<Rightarrow> string \<Rightarrow> string \<Rightarrow> hosting \<Rightarrow> web_error + hosting_target" where
  "assertOwner w targetId attemptId executionId s =
     (case getTarget s w targetId of
        Some t \<Rightarrow> if holds_lock t attemptId executionId then Inr t else web_throw ''writer_fenced''
      | None \<Rightarrow> web_throw ''writer_fenced'')"

definition updateAttempt :: "deployment_attempt \<Rightarrow> int \<Rightarrow> string \<Rightarrow> hosting \<Rightarrow> web_error + hosting" where
  "updateAttempt a expected executionId s =
     try_then (assertOwner (da_workspaceId a) (da_targetId a) (da_id a) executionId s) (\<lambda>_. save_attempt (da_workspaceId a) a expected s)"

definition settled_target :: "deployment_attempt \<Rightarrow> (string option \<times> bool) option \<Rightarrow> hosting_target \<Rightarrow> hosting_target" where
  "settled_target a outcome t =
     (let t' = (case outcome of
         Some (releaseId, disabled) \<Rightarrow> if tg_activeGeneration t \<le> da_generation a
           then t\<lparr> tg_servingRemovalRequired := \<not> disabled \<and> tg_servingRemovalRequired t, tg_activeGeneration := da_generation a,
             tg_activeAttemptId := Some (da_id a), tg_activeReleaseId := releaseId, tg_activeArtifactDigest := da_artifactDigest a,
             tg_serving := (if disabled then Unpublished_serving else if tg_serving t = Suspended_serving then Suspended_serving else Active_serving) \<rparr>
           else t
       | None \<Rightarrow> t)
      in t'\<lparr> tg_lock := (if da_state a = Unknown_outcome then tg_lock t else None) \<rparr>)"

definition finishAttempt :: "deployment_attempt \<Rightarrow> int \<Rightarrow> string \<Rightarrow> (string option \<times> bool) option \<Rightarrow> hosting \<Rightarrow> web_error + hosting" where
  "finishAttempt a expected executionId outcome s =
     try_then (assertOwner (da_workspaceId a) (da_targetId a) (da_id a) executionId s) (\<lambda>t.
     try_then (save_attempt (da_workspaceId a) a expected s) (\<lambda>s.
     try_then (put_target (da_workspaceId a) (settled_target a outcome t) s) (\<lambda>s. Inr (acknowledgeOutbox (da_workspaceId a) (da_id a) s))))"

definition saveDomain :: "hosting_domain \<Rightarrow> int \<Rightarrow> hosting \<Rightarrow> web_error + hosting" where
  "saveDomain d expected s =
     try_then (web_save hd_id hd_revision (hd_workspaceId d) d expected (ho_domains s)) (\<lambda>rows. Inr (s\<lparr> ho_domains := rows \<rparr>))"


subsection \<open>What an operation changes\<close>

named_theorems hosting_effects \<open>what a successful operation leaves in the tables of targets and attempts\<close>

definition put2 :: "(string \<Rightarrow> string \<Rightarrow> 'r option) \<Rightarrow> string \<Rightarrow> string \<Rightarrow> 'r \<Rightarrow> string \<Rightarrow> string \<Rightarrow> 'r option" where
  "put2 f w i v = (\<lambda>w' j. if w' = w \<and> j = i then Some v else f w' j)"

lemma put2_same [simp]: "put2 f w i v w i = Some v" by (simp add: put2_def)

lemma put2_other [simp]: "j \<noteq> i \<or> w' \<noteq> w \<Longrightarrow> put2 f w i v w' j = f w' j" by (auto simp: put2_def)

lemma put2_Some: "put2 f w i v w' j = Some x \<longleftrightarrow> (w' = w \<and> j = i \<and> x = v \<or> \<not> (w' = w \<and> j = i) \<and> f w' j = Some x)"
  by (auto simp: put2_def)

lemma web_read_update: "web_read (AList.update (w, i) v rows) = put2 (web_read rows) w i v"
  by (rule ext)+ (simp add: web_read_def put2_def update_conv')

lemma web_save_Inr:
  assumes "web_save ident revision w v e rows = Inr rows'"
  shows "web_read rows' = put2 (web_read rows) w (ident v) v" "revision v = e + 1"
    and "e = 0 \<and> web_read rows w (ident v) = None \<or> e \<noteq> 0 \<and> (\<exists>old. web_read rows w (ident v) = Some old \<and> revision old = e)"
proof -
  have ok: "w \<noteq> []" "ident v \<noteq> []" "revision v = e + 1"
    using assms by (auto simp: web_save_def web_throw_def split: if_splits)
  then show "revision v = e + 1" by simp
  show "e = 0 \<and> web_read rows w (ident v) = None \<or> e \<noteq> 0 \<and> (\<exists>old. web_read rows w (ident v) = Some old \<and> revision old = e)"
    using assms by (auto simp: web_save_def web_throw_def split: if_splits option.splits)
  show "web_read rows' = put2 (web_read rows) w (ident v) v"
  proof (cases "e = 0")
    case True
    then have n: "web_read rows w (ident v) = None" "rows' = rows @ [((w, ident v), v)]"
      using assms by (auto simp: web_save_def web_throw_def split: if_splits)
    show ?thesis unfolding n(2)
    proof (intro ext)
      fix w' j
      show "web_read (rows @ [((w, ident v), v)]) w' j = put2 (web_read rows) w (ident v) v w' j"
        using n(1) by (cases "map_of rows (w', j)") (auto simp: web_read_def put2_def map_add_def)
    qed
  next
    case False
    then have "rows' = AList.update (w, ident v) v rows"
      using assms by (auto simp: web_save_def web_throw_def split: if_splits option.splits)
    then show ?thesis by (simp add: web_read_update)
  qed
qed

lemma web_replace_Inr:
  assumes "web_replace ident revision w v rows = Inr rows'"
  shows "web_read rows' = put2 (web_read rows) w (ident v) v" "\<exists>old. web_read rows w (ident v) = Some old \<and> revision old = revision v"
  using assms by (auto simp: web_replace_def web_throw_def web_read_update split: if_splits option.splits)

lemma save_attempt_Inr:
  assumes "save_attempt w a e s = Inr s'"
  shows "getAttempt s' = put2 (getAttempt s) w (da_id a) a" "getTarget s' = getTarget s" "da_revision a = e + 1"
    and "e = 0 \<and> getAttempt s w (da_id a) = None \<or> e \<noteq> 0 \<and> (\<exists>old. getAttempt s w (da_id a) = Some old \<and> da_revision old = e)"
  using assms by (auto simp: getAttempt_def getTarget_def dest: web_save_Inr)

lemma put_target_Inr:
  assumes "put_target w t s = Inr s'"
  shows "getTarget s' = put2 (getTarget s) w (tg_id t) t" "getAttempt s' = getAttempt s"
    and "\<exists>old. getTarget s w (tg_id t) = Some old \<and> tg_revision old = tg_revision t"
  using assms by (auto simp: getAttempt_def getTarget_def dest: web_replace_Inr)

lemma assertOwner_Inr: "assertOwner w i a e s = Inr t \<longleftrightarrow> getTarget s w i = Some t \<and> holds_lock t a e"
  by (auto simp: assertOwner_def web_throw_def split: option.splits)

lemma quiet_effects [hosting_effects]:
  "saveBinding b e s = Inr s' \<Longrightarrow> getTarget s' = getTarget s \<and> getAttempt s' = getAttempt s"
  "saveConnection c e s = Inr s' \<Longrightarrow> getTarget s' = getTarget s \<and> getAttempt s' = getAttempt s"
  "putPlan p x s = Inr s' \<Longrightarrow> getTarget s' = getTarget s \<and> getAttempt s' = getAttempt s"
  "cleanupUnacceptedPlans now n s = Inr (m, s') \<Longrightarrow> getTarget s' = getTarget s \<and> getAttempt s' = getAttempt s"
  "getTarget (acknowledgeOutbox w i s) = getTarget s" "getAttempt (acknowledgeOutbox w i s) = getAttempt s"
  "saveDomain d e s = Inr s' \<Longrightarrow> getTarget s' = getTarget s \<and> getAttempt s' = getAttempt s"
  by (auto simp: saveBinding_def saveConnection_def putPlan_def cleanupUnacceptedPlans_def acknowledgeOutbox_def saveDomain_def web_throw_def
      Let_def getTarget_def getAttempt_def split: if_splits)

lemma updateAttempt_Inr:
  assumes "updateAttempt a e x s = Inr s'"
  obtains t where "getTarget s (da_workspaceId a) (da_targetId a) = Some t" "holds_lock t (da_id a) x" "getTarget s' = getTarget s"
    "getAttempt s' = put2 (getAttempt s) (da_workspaceId a) (da_id a) a"
proof -
  obtain t where t: "getTarget s (da_workspaceId a) (da_targetId a) = Some t" "holds_lock t (da_id a) x"
    and s: "save_attempt (da_workspaceId a) a e s = Inr s'"
    using assms unfolding updateAttempt_def try_then_Inr_iff assertOwner_Inr by blast
  show ?thesis using t save_attempt_Inr [OF s] by (intro that) auto
qed

lemma settled_id [simp]: "tg_id (settled_target a outcome t) = tg_id t"
  by (auto simp: settled_target_def Let_def split: option.splits)

lemma finishAttempt_Inr:
  assumes "finishAttempt a e x outcome s = Inr s'"
  obtains t where "getTarget s (da_workspaceId a) (da_targetId a) = Some t" "holds_lock t (da_id a) x"
    "getTarget s' = put2 (getTarget s) (da_workspaceId a) (tg_id t) (settled_target a outcome t)"
    "getAttempt s' = put2 (getAttempt s) (da_workspaceId a) (da_id a) a"
proof -
  obtain t s1 s2 where t: "getTarget s (da_workspaceId a) (da_targetId a) = Some t" "holds_lock t (da_id a) x"
    and s1: "save_attempt (da_workspaceId a) a e s = Inr s1"
    and s2: "put_target (da_workspaceId a) (settled_target a outcome t) s1 = Inr s2"
    and s': "s' = acknowledgeOutbox (da_workspaceId a) (da_id a) s2"
    using assms unfolding finishAttempt_def try_then_Inr_iff assertOwner_Inr by blast
  show ?thesis using t save_attempt_Inr(1,2) [OF s1] put_target_Inr(1,2) [OF s2] by (intro that) (simp_all add: s' hosting_effects)
qed

lemma claim_Inr:
  assumes "claim_target w i j x s = Inr (ok, s')"
  obtains (refused) "\<not> ok" "s' = s"
    | (granted) t a where ok "getTarget s w i = Some t" "getAttempt s w j = Some a" "da_targetId a = tg_id t"
        "\<And>l. tg_lock t = Some l \<Longrightarrow> lk_attemptId l = j \<and> \<not> da_activationStarted a"
        "getTarget s' = put2 (getTarget s) w (tg_id t) (t\<lparr> tg_lock := Some \<lparr> lk_attemptId = j, lk_executionId = x \<rparr> \<rparr>)"
        "getAttempt s' = put2 (getAttempt s) w (da_id a) (a\<lparr> da_executionId := Some x, da_revision := da_revision a + 1 \<rparr>)"
proof (cases ok)
  case False
  then have "s' = s" using assms by (auto simp: claim_target_def web_throw_def split: option.splits if_splits)
  with False show ?thesis by (rule refused)
next
  case True
  obtain t a where t: "getTarget s w i = Some t" "getAttempt s w j = Some a"
    using assms True by (auto simp: claim_target_def split: option.splits)
  then have c: "da_targetId a = tg_id t" "\<And>l. tg_lock t = Some l \<Longrightarrow> lk_attemptId l = j \<and> \<not> da_activationStarted a"
    using assms True by (auto simp: claim_target_def split: if_splits option.splits)
  have n: "\<not> (case tg_lock t of Some l \<Rightarrow> lk_attemptId l \<noteq> j \<or> da_activationStarted a | None \<Rightarrow> False)"
    using c(2) by (auto split: option.splits)
  obtain s1 where s1: "put_target w (t\<lparr> tg_lock := Some \<lparr> lk_attemptId = j, lk_executionId = x \<rparr> \<rparr>) s = Inr s1"
    and s2: "save_attempt w (a\<lparr> da_executionId := Some x, da_revision := da_revision a + 1 \<rparr>) (da_revision a) s1 = Inr s'"
    using assms unfolding claim_target_def t option.case prod.case if_not_P [OF n] using c(1) by fastforce
  show ?thesis using granted True t c put_target_Inr(1,2) [OF s1] save_attempt_Inr(1,2) [OF s2] by simp
qed


subsection \<open>The deployment invariant\<close>

definition in_activation :: "deployment_attempt \<Rightarrow> bool" where
  "in_activation a \<longleftrightarrow> da_state a = Activating \<or> da_state a = Unknown_outcome"

definition locked_by :: "hosting_target \<Rightarrow> string \<Rightarrow> bool" where
  "locked_by t j \<longleftrightarrow> (case tg_lock t of Some l \<Rightarrow> lk_attemptId l = j | None \<Rightarrow> False)"

definition target_ok :: "(string \<Rightarrow> string \<Rightarrow> deployment_attempt option) \<Rightarrow> string \<Rightarrow> string \<Rightarrow> hosting_target \<Rightarrow> bool" where
  "target_ok A w i t \<longleftrightarrow> tg_id t = i \<and> 0 \<le> tg_activeGeneration t \<and> tg_activeGeneration t \<le> tg_desiredGeneration t
     \<and> (\<forall>j. locked_by t j \<longrightarrow> (\<exists>a. A w j = Some a \<and> da_targetId a = i))
     \<and> (\<forall>j. tg_activeAttemptId t = Some j \<longrightarrow> (\<exists>a. A w j = Some a \<and> da_targetId a = i \<and> da_generation a = tg_activeGeneration t))"

definition attempt_ok :: "(string \<Rightarrow> string \<Rightarrow> hosting_target option) \<Rightarrow> string \<Rightarrow> string \<Rightarrow> deployment_attempt \<Rightarrow> bool" where
  "attempt_ok T w j a \<longleftrightarrow> da_id a = j \<and> da_workspaceId a = w \<and> 0 < da_generation a \<and> (da_state a = Activating \<longrightarrow> da_activationStarted a)
     \<and> (\<exists>t. T w (da_targetId a) = Some t \<and> da_generation a \<le> tg_desiredGeneration t \<and> (in_activation a \<longrightarrow> locked_by t j))"

definition tables_ok :: "(string \<Rightarrow> string \<Rightarrow> hosting_target option) \<Rightarrow> (string \<Rightarrow> string \<Rightarrow> deployment_attempt option) \<Rightarrow> bool" where
  "tables_ok T A \<longleftrightarrow> (\<forall>w i t. T w i = Some t \<longrightarrow> target_ok A w i t) \<and> (\<forall>w j a. A w j = Some a \<longrightarrow> attempt_ok T w j a)
     \<and> (\<forall>w i j a b. A w i = Some a \<longrightarrow> A w j = Some b \<longrightarrow> da_targetId a = da_targetId b \<longrightarrow> da_generation a = da_generation b \<longrightarrow> i = j)"

definition hosting_ok :: "hosting \<Rightarrow> bool" where
  "hosting_ok s \<longleftrightarrow> tables_ok (getTarget s) (getAttempt s)"

text \<open>What a later version of an attempt keeps.\<close>

definition continues :: "deployment_attempt \<Rightarrow> deployment_attempt \<Rightarrow> bool" where
  "continues a a' \<longleftrightarrow> da_id a' = da_id a \<and> da_workspaceId a' = da_workspaceId a \<and> da_targetId a' = da_targetId a \<and> da_generation a' = da_generation a
     \<and> (da_activationStarted a \<longrightarrow> da_activationStarted a') \<and> (da_state a' = Activating \<longrightarrow> da_activationStarted a')"

lemma tables_okD:
  assumes "tables_ok T A"
  shows "T w i = Some t \<Longrightarrow> target_ok A w i t" "A w j = Some a \<Longrightarrow> attempt_ok T w j a"
    and "A w i = Some a \<Longrightarrow> A w j = Some b \<Longrightarrow> da_targetId a = da_targetId b \<Longrightarrow> da_generation a = da_generation b \<Longrightarrow> i = j"
  using assms unfolding tables_ok_def by blast+

lemma target_ok_mono:
  assumes "target_ok A w i t" "\<And>j a. A w j = Some a \<Longrightarrow> \<exists>a'. A' w j = Some a' \<and> da_targetId a' = da_targetId a \<and> da_generation a' = da_generation a"
  shows "target_ok A' w i t"
proof -
  have "\<exists>a. A' w j = Some a \<and> da_targetId a = i" if "locked_by t j" for j
    using assms(1) assms(2) [of j] that unfolding target_ok_def by force
  moreover have "\<exists>a. A' w j = Some a \<and> da_targetId a = i \<and> da_generation a = tg_activeGeneration t" if "tg_activeAttemptId t = Some j" for j
    using assms(1) assms(2) [of j] that unfolding target_ok_def by force
  ultimately show ?thesis using assms(1) by (simp add: target_ok_def)
qed

lemma tables_ok_attempt:
  assumes ok: "tables_ok T A" and a: "A w j = Some a" and c: "continues a a'"
    and l: "\<And>t. T w (da_targetId a) = Some t \<Longrightarrow> in_activation a' \<Longrightarrow> locked_by t j"
  shows "tables_ok T (put2 A w j a')"
  unfolding tables_ok_def
proof (intro conjI allI impI)
  fix w' i t assume "T w' i = Some t"
  then have "target_ok A w' i t" by (rule tables_okD(1) [OF ok])
  then show "target_ok (put2 A w j a') w' i t" by (rule target_ok_mono) (use a c in \<open>auto simp: put2_def continues_def\<close>)
next
  fix w' i x assume x: "put2 A w j a' w' i = Some x"
  show "attempt_ok T w' i x"
  proof (cases "w' = w \<and> i = j")
    case True
    then have x': "x = a'" "w' = w" "i = j" using x by simp_all
    obtain t where t: "T w (da_targetId a) = Some t" "da_generation a \<le> tg_desiredGeneration t" using tables_okD(2) [OF ok a] unfolding attempt_ok_def by blast
    have c': "da_id a' = da_id a" "da_workspaceId a' = da_workspaceId a" "da_targetId a' = da_targetId a" "da_generation a' = da_generation a"
        "da_state a' = Activating \<Longrightarrow> da_activationStarted a'"
      using c by (simp_all add: continues_def)
    show ?thesis using tables_okD(2) [OF ok a] t l [OF t(1)] c' unfolding x' attempt_ok_def by simp
  next
    case False
    then show ?thesis using x tables_okD(2) [OF ok] by (auto simp: put2_Some)
  qed
next
  fix w' i k x y
  assume x: "put2 A w j a' w' i = Some x" and y: "put2 A w j a' w' k = Some y" and e: "da_targetId x = da_targetId y" "da_generation x = da_generation y"
  have earlier: "\<exists>z0. A w' l = Some z0 \<and> da_targetId z0 = da_targetId z \<and> da_generation z0 = da_generation z"
    if "put2 A w j a' w' l = Some z" for l z
    using that a c by (cases "w' = w \<and> l = j") (simp_all add: put2_def continues_def)
  obtain x0 y0 where "A w' i = Some x0" "A w' k = Some y0" "da_targetId x0 = da_targetId x" "da_generation x0 = da_generation x"
      "da_targetId y0 = da_targetId y" "da_generation y0 = da_generation y"
    using earlier [OF x] earlier [OF y] by blast
  then show "i = k" using tables_okD(3) [OF ok] e by metis
qed

lemma tables_ok_target:
  assumes ok: "tables_ok T A" and t: "T w i = Some t" and o': "target_ok A w i t'" and d: "tg_desiredGeneration t \<le> tg_desiredGeneration t'"
    and l: "\<And>j a. A w j = Some a \<Longrightarrow> da_targetId a = i \<Longrightarrow> in_activation a \<Longrightarrow> locked_by t j \<Longrightarrow> locked_by t' j"
  shows "tables_ok (put2 T w i t') A"
  unfolding tables_ok_def
proof (intro conjI allI impI)
  fix w' i' x assume "put2 T w i t' w' i' = Some x"
  then show "target_ok A w' i' x" using tables_okD(1) [OF ok] o' by (auto simp: put2_Some)
next
  fix w' j a assume a: "A w' j = Some a"
  note k = tables_okD(2) [OF ok a]
  show "attempt_ok (put2 T w i t') w' j a"
  proof (cases "w' = w \<and> da_targetId a = i")
    case True
    then show ?thesis using k t d l [of j a] a by (auto simp: attempt_ok_def)
  next
    case False
    then show ?thesis using k by (auto simp: attempt_ok_def put2_Some)
  qed
next
  fix w' i j a b
  assume "A w' i = Some a" "A w' j = Some b" "da_targetId a = da_targetId b" "da_generation a = da_generation b"
  then show "i = j" by (rule tables_okD(3) [OF ok])
qed

lemma tables_ok_new_target:
  assumes ok: "tables_ok T A" and t: "T w i = None" and o': "target_ok A w i t'"
  shows "tables_ok (put2 T w i t') A"
  unfolding tables_ok_def
proof (intro conjI allI impI)
  fix w' i' x assume "put2 T w i t' w' i' = Some x"
  then show "target_ok A w' i' x" using tables_okD(1) [OF ok] o' by (auto simp: put2_Some)
next
  fix w' j a assume a: "A w' j = Some a"
  note k = tables_okD(2) [OF ok a]
  then have "\<not> (w' = w \<and> da_targetId a = i)" using t by (auto simp: attempt_ok_def)
  then show "attempt_ok (put2 T w i t') w' j a" using k by (auto simp: attempt_ok_def put2_Some)
next
  fix w' i j a b
  assume "A w' i = Some a" "A w' j = Some b" "da_targetId a = da_targetId b" "da_generation a = da_generation b"
  then show "i = j" by (rule tables_okD(3) [OF ok])
qed


lemma tables_ok_new_attempt:
  assumes ok: "tables_ok T A" and n: "A w j = None" and o': "attempt_ok T w j a'"
    and g: "\<And>i b. A w i = Some b \<Longrightarrow> da_targetId b = da_targetId a' \<Longrightarrow> da_generation b < da_generation a'"
  shows "tables_ok T (put2 A w j a')"
  unfolding tables_ok_def
proof (intro conjI allI impI)
  fix w' i t assume "T w' i = Some t"
  then have "target_ok A w' i t" by (rule tables_okD(1) [OF ok])
  then show "target_ok (put2 A w j a') w' i t" by (rule target_ok_mono) (use n in \<open>auto simp: put2_def\<close>)
next
  fix w' i x assume "put2 A w j a' w' i = Some x"
  then show "attempt_ok T w' i x" using tables_okD(2) [OF ok] o' by (auto simp: put2_Some)
next
  fix w' i k x y
  assume x: "put2 A w j a' w' i = Some x" and y: "put2 A w j a' w' k = Some y" and e: "da_targetId x = da_targetId y" "da_generation x = da_generation y"
  show "i = k"
  proof (cases "w' = w \<and> (i = j \<or> k = j)")
    case True
    then show ?thesis using x y e g by (fastforce simp: put2_Some)
  next
    case False
    then have "A w' i = Some x" "A w' k = Some y" using x y by (auto simp: put2_Some)
    then show ?thesis using tables_okD(3) [OF ok] e by blast
  qed
qed

lemma holds_lock_locked: "holds_lock t j x \<Longrightarrow> locked_by t j"
  by (simp add: holds_lock_def locked_by_def)

lemma locked_by_unique: "locked_by t i \<Longrightarrow> locked_by t j \<Longrightarrow> i = j"
  by (auto simp: locked_by_def split: option.splits)

lemma getTarget_id: "hosting_ok s \<Longrightarrow> getTarget s w i = Some t \<Longrightarrow> tg_id t = i"
  by (auto simp: hosting_ok_def target_ok_def dest: tables_okD(1))

lemma getAttempt_id: "hosting_ok s \<Longrightarrow> getAttempt s w j = Some a \<Longrightarrow> da_id a = j \<and> da_workspaceId a = w"
  by (auto simp: hosting_ok_def attempt_ok_def dest: tables_okD(2))

lemma ok_update:
  assumes ok: "hosting_ok s" and u: "updateAttempt a e x s = Inr s'" and b: "getAttempt s (da_workspaceId a) (da_id a) = Some b" "continues b a"
  shows "hosting_ok s'"
proof -
  obtain t where t: "getTarget s (da_workspaceId a) (da_targetId a) = Some t" "holds_lock t (da_id a) x"
    and s': "getTarget s' = getTarget s" "getAttempt s' = put2 (getAttempt s) (da_workspaceId a) (da_id a) a" using updateAttempt_Inr [OF u] .
  show ?thesis unfolding hosting_ok_def s'
    by (rule tables_ok_attempt [where A = "getAttempt s" and w = "da_workspaceId a" and j = "da_id a", OF _ b]) (use ok t b(2) holds_lock_locked in \<open>auto simp: hosting_ok_def continues_def\<close>)
qed

lemma settled_lock: "tg_lock (settled_target a outcome t) = (if da_state a = Unknown_outcome then tg_lock t else None)"
  by (auto simp: settled_target_def Let_def split: option.splits)

lemma settled_generations: "tg_desiredGeneration (settled_target a outcome t) = tg_desiredGeneration t"
    "tg_activeGeneration (settled_target a outcome t) = (if outcome \<noteq> None \<and> tg_activeGeneration t \<le> da_generation a then da_generation a else tg_activeGeneration t)"
    "tg_activeAttemptId (settled_target a outcome t) = (if outcome \<noteq> None \<and> tg_activeGeneration t \<le> da_generation a then Some (da_id a) else tg_activeAttemptId t)"
  by (auto simp: settled_target_def Let_def split: option.splits)

lemma ok_finish:
  assumes ok: "hosting_ok s" and u: "finishAttempt a e x outcome s = Inr s'" and b: "getAttempt s (da_workspaceId a) (da_id a) = Some b" "continues b a"
    and st: "da_state a \<noteq> Activating"
  shows "hosting_ok s'"
proof -
  let ?w = "da_workspaceId a" and ?A = "put2 (getAttempt s) (da_workspaceId a) (da_id a) a"
  obtain t where t: "getTarget s ?w (da_targetId a) = Some t" "holds_lock t (da_id a) x"
    and s': "getTarget s' = put2 (getTarget s) ?w (tg_id t) (settled_target a outcome t)" "getAttempt s' = ?A" using finishAttempt_Inr [OF u] .
  have i: "tg_id t = da_targetId a" using getTarget_id [OF ok t(1)] .
  have l: "locked_by t (da_id a)" using holds_lock_locked [OF t(2)] .
  have A: "tables_ok (getTarget s) ?A"
    by (rule tables_ok_attempt [where A = "getAttempt s" and w = "da_workspaceId a" and j = "da_id a", OF _ b]) (use ok t b(2) l in \<open>auto simp: hosting_ok_def continues_def\<close>)
  note k = tables_okD(1) [OF A t(1)] and ka = tables_okD(2) [OF A, of ?w "da_id a" a]
  have "target_ok ?A ?w (da_targetId a) (settled_target a outcome t)"
  proof -
    have g: "da_generation a \<le> tg_desiredGeneration t" "0 < da_generation a" using ka t(1) by (auto simp: attempt_ok_def)
    have "\<exists>a'. ?A ?w j = Some a' \<and> da_targetId a' = da_targetId a" if "locked_by (settled_target a outcome t) j" for j
    proof -
      have "locked_by t j" using that by (auto simp: locked_by_def settled_lock split: if_splits)
      then have "j = da_id a" using locked_by_unique l by blast
      then show ?thesis by simp
    qed
    moreover have "\<exists>a'. ?A ?w j = Some a' \<and> da_targetId a' = da_targetId a \<and> da_generation a' = tg_activeGeneration (settled_target a outcome t)"
      if j: "tg_activeAttemptId (settled_target a outcome t) = Some j" for j
    proof (cases "outcome \<noteq> None \<and> tg_activeGeneration t \<le> da_generation a")
      case True
      then show ?thesis using j by (auto simp: settled_generations)
    next
      case False
      then have j': "tg_activeAttemptId t = Some j" and ag: "tg_activeGeneration (settled_target a outcome t) = tg_activeGeneration t"
        using j by (auto simp: settled_generations)
      show ?thesis using k j' unfolding ag target_ok_def by blast
    qed
    ultimately show ?thesis using k g i unfolding target_ok_def by (simp add: settled_generations)
  qed
  then have "tables_ok (put2 (getTarget s) ?w (da_targetId a) (settled_target a outcome t)) ?A"
  proof (rule tables_ok_target [OF A t(1)])
    fix j c assume c: "?A ?w j = Some c" "in_activation c" "locked_by t j"
    then have "j = da_id a" using l locked_by_unique by blast
    then have "da_state a = Unknown_outcome" using c st by (auto simp: in_activation_def)
    then show "locked_by (settled_target a outcome t) j" using c by (simp add: locked_by_def settled_lock)
  qed (simp add: settled_generations)
  then show ?thesis unfolding hosting_ok_def s' i .
qed


lemma ok_claim:
  assumes ok: "hosting_ok s" and c: "claim_target w i j x s = Inr (granted, s')"
  shows "hosting_ok s'"
  using c
proof (cases rule: claim_Inr)
  case refused
  then show ?thesis using ok by simp
next
  case (granted t a)
  let ?t = "t\<lparr> tg_lock := Some \<lparr> lk_attemptId = j, lk_executionId = x \<rparr> \<rparr>" and ?a = "a\<lparr> da_executionId := Some x, da_revision := da_revision a + 1 \<rparr>"
  have T: "tables_ok (getTarget s) (getAttempt s)" using ok by (simp add: hosting_ok_def)
  have i: "tg_id t = i" and j: "da_id a = j" using getTarget_id [OF ok granted(2)] getAttempt_id [OF ok granted(3)] by simp_all
  note k = tables_okD(1) [OF T granted(2)] and ka = tables_okD(2) [OF T granted(3)]
  have "target_ok (getAttempt s) w i ?t" using k granted(3,4) i by (auto simp: target_ok_def locked_by_def)
  then have T1: "tables_ok (put2 (getTarget s) w i ?t) (getAttempt s)"
  proof (rule tables_ok_target [OF T granted(2)])
    fix l b assume "locked_by t l"
    then show "locked_by ?t l" using granted(5) by (auto simp: locked_by_def split: option.splits)
  qed simp
  have "tables_ok (put2 (getTarget s) w i ?t) (put2 (getAttempt s) w j ?a)"
  proof (rule tables_ok_attempt [where A = "getAttempt s" and w = w and j = j, OF T1 granted(3)])
    show "continues a ?a" using ka by (simp add: continues_def attempt_ok_def)
    fix u assume "put2 (getTarget s) w i ?t w (da_targetId a) = Some u"
    then show "locked_by u j" using granted(4) i by (auto simp: locked_by_def)
  qed
  then show ?thesis unfolding hosting_ok_def granted(6,7) i j .
qed

lemma saveTarget_Inr:
  assumes "saveTarget t e s = Inr s'"
  shows "getTarget s' = put2 (getTarget s) (tg_workspaceId t) (tg_id t)
      (case getTarget s (tg_workspaceId t) (tg_id t) of Some old \<Rightarrow> kept_state old t | None \<Rightarrow> t)" "getAttempt s' = getAttempt s"
proof -
  let ?t = "case getTarget s (tg_workspaceId t) (tg_id t) of Some old \<Rightarrow> kept_state old t | None \<Rightarrow> t"
  have r: "web_save tg_id tg_revision (tg_workspaceId t) ?t e (ho_targets s) = Inr (ho_targets s') \<and> ho_attempts s' = ho_attempts s"
    using assms unfolding saveTarget_def Let_def web_throw_def by (auto split: if_splits)
  have i: "tg_id ?t = tg_id t" by (simp add: kept_state_def split: option.splits)
  show "getTarget s' = put2 (getTarget s) (tg_workspaceId t) (tg_id t) ?t"
    using web_save_Inr(1) [OF conjunct1 [OF r]] unfolding i by (simp add: getTarget_def)
  show "getAttempt s' = getAttempt s" using r by (simp add: getAttempt_def)
qed

text \<open>A target as \<open>configureTarget\<close> submits it: without deployment state.\<close>

definition undeployed :: "hosting_target \<Rightarrow> bool" where
  "undeployed t \<longleftrightarrow> tg_desiredGeneration t = 0 \<and> tg_activeGeneration t = 0 \<and> tg_activeAttemptId t = None \<and> tg_lock t = None"

lemma ok_saveTarget:
  assumes ok: "hosting_ok s" and u: "saveTarget t e s = Inr s'" "undeployed t"
  shows "hosting_ok s'"
proof -
  have T: "tables_ok (getTarget s) (getAttempt s)" using ok by (simp add: hosting_ok_def)
  show ?thesis
  proof (cases "getTarget s (tg_workspaceId t) (tg_id t)")
    case None
    have "target_ok (getAttempt s) (tg_workspaceId t) (tg_id t) t" using u(2) by (simp add: target_ok_def undeployed_def locked_by_def)
    then show ?thesis unfolding hosting_ok_def saveTarget_Inr [OF u(1)] None option.case by (rule tables_ok_new_target [OF T None])
  next
    case (Some old)
    have "target_ok (getAttempt s) (tg_workspaceId t) (tg_id t) (kept_state old t)"
      using tables_okD(1) [OF T Some] by (simp add: target_ok_def kept_state_def locked_by_def)
    then show ?thesis unfolding hosting_ok_def saveTarget_Inr [OF u(1)] Some option.case
      by (rule tables_ok_target [OF T Some]) (simp_all add: kept_state_def locked_by_def)
  qed
qed

lemma ok_serving:
  assumes ok: "hosting_ok s" and u: "setServingState w i state required s = Inr s'"
  shows "hosting_ok s'"
proof -
  have T: "tables_ok (getTarget s) (getAttempt s)" using ok by (simp add: hosting_ok_def)
  obtain t where t: "getTarget s w i = Some t" and p: "put_target w (t\<lparr> tg_serving := state, tg_servingRemovalRequired := required \<rparr>) s = Inr s'"
    using u by (auto simp: setServingState_def web_throw_def split: option.splits)
  have i: "tg_id t = i" using getTarget_id [OF ok t] .
  have "target_ok (getAttempt s) w i (t\<lparr> tg_serving := state, tg_servingRemovalRequired := required \<rparr>)"
    using tables_okD(1) [OF T t] by (simp add: target_ok_def locked_by_def)
  then have "tables_ok (put2 (getTarget s) w i (t\<lparr> tg_serving := state, tg_servingRemovalRequired := required \<rparr>)) (getAttempt s)"
    by (rule tables_ok_target [OF T t]) (simp_all add: locked_by_def)
  then show ?thesis using put_target_Inr(1,2) [OF p] i by (simp add: hosting_ok_def)
qed

text \<open>An attempt as \<open>accept\<close> submits it.\<close>

definition fresh_attempt :: "string \<Rightarrow> deployment_attempt \<Rightarrow> bool" where
  "fresh_attempt w a \<longleftrightarrow> da_workspaceId a = w \<and> da_state a = Queued_attempt \<and> \<not> da_activationStarted a"

lemma acceptTarget_Inr:
  assumes "acceptTarget w attempts e s = Inr s'"
  obtains t a where "getTarget s w (tg_id e) = Some t" "a \<in> set attempts" "da_targetId a = tg_id t" "da_generation a = tg_desiredGeneration t + 1"
    "getTarget s' = put2 (getTarget s) w (tg_id t) (t\<lparr> tg_desiredGeneration := da_generation a \<rparr>)"
    "getAttempt s' = put2 (getAttempt s) w (da_id a) a" "getAttempt s w (da_id a) = None" "da_revision a = 1"
proof -
  obtain t a where t: "getTarget s w (tg_id e) = Some t" and f: "List.find (\<lambda>a. da_targetId a = tg_id t) attempts = Some a"
    using assms by (auto simp: acceptTarget_def web_throw_def split: option.splits if_splits)
  have g: "da_generation a = tg_desiredGeneration t + 1"
    using assms t f by (auto simp: acceptTarget_def web_throw_def split: if_splits)
  obtain s1 s2 where s1: "put_target w (t\<lparr> tg_desiredGeneration := da_generation a \<rparr>) s = Inr s1" and s2: "save_attempt w a 0 s1 = Inr s2"
    and s': "s' = s2\<lparr> ho_outbox := ho_outbox s2 @ [(w, da_id a)] \<rparr>"
    using assms unfolding acceptTarget_def t f option.case web_throw_def by (auto split: if_splits)
  have a: "a \<in> set attempts" "da_targetId a = tg_id t" using find_SomeD [OF f] by simp_all
  have n: "getTarget s' = getTarget s2" "getAttempt s' = getAttempt s2" by (simp_all add: s' getTarget_def getAttempt_def)
  show ?thesis
    using t a g put_target_Inr(1,2) [OF s1] save_attempt_Inr [OF s2] by (intro that [of t a]) (simp_all add: n)
qed

lemma ok_acceptTarget:
  assumes ok: "hosting_ok s" and u: "acceptTarget w attempts e s = Inr s'" and f: "\<And>a. a \<in> set attempts \<Longrightarrow> fresh_attempt w a"
  shows "hosting_ok s'"
proof -
  have T: "tables_ok (getTarget s) (getAttempt s)" using ok by (simp add: hosting_ok_def)
  obtain t a where t: "getTarget s w (tg_id e) = Some t" and a: "a \<in> set attempts" "da_targetId a = tg_id t" "da_generation a = tg_desiredGeneration t + 1"
    and s': "getTarget s' = put2 (getTarget s) w (tg_id t) (t\<lparr> tg_desiredGeneration := da_generation a \<rparr>)"
      "getAttempt s' = put2 (getAttempt s) w (da_id a) a" and n: "getAttempt s w (da_id a) = None"
    using acceptTarget_Inr [OF u] by metis
  let ?t = "t\<lparr> tg_desiredGeneration := da_generation a \<rparr>"
  have i: "tg_id t = tg_id e" using getTarget_id [OF ok t] .
  note k = tables_okD(1) [OF T t]
  have "target_ok (getAttempt s) w (tg_id t) ?t" using k a(3) i by (simp add: target_ok_def locked_by_def)
  then have T1: "tables_ok (put2 (getTarget s) w (tg_id t) ?t) (getAttempt s)"
    by (rule tables_ok_target [OF T t [folded i]]) (use a(3) in \<open>simp_all add: locked_by_def\<close>)
  have "tables_ok (put2 (getTarget s) w (tg_id t) ?t) (put2 (getAttempt s) w (da_id a) a)"
  proof (rule tables_ok_new_attempt [OF T1 n])
    show "attempt_ok (put2 (getTarget s) w (tg_id t) ?t) w (da_id a) a"
      using f [OF a(1)] a k by (simp add: attempt_ok_def fresh_attempt_def in_activation_def target_ok_def)
    fix j b assume b: "getAttempt s w j = Some b" "da_targetId b = da_targetId a"
    have "da_generation b \<le> tg_desiredGeneration t" using tables_okD(2) [OF T b(1)] b(2) a(2) t i by (auto simp: attempt_ok_def)
    then show "da_generation b < da_generation a" using a(3) by simp
  qed
  then show ?thesis by (simp add: hosting_ok_def s')
qed

lemma ok_acceptTargets:
  "acceptTargets w attempts ts s = Inr s' \<Longrightarrow> hosting_ok s \<Longrightarrow> (\<And>a. a \<in> set attempts \<Longrightarrow> fresh_attempt w a) \<Longrightarrow> hosting_ok s'"
  by (induction ts arbitrary: s) (auto intro: ok_acceptTarget)

lemma acceptIntent_Inr:
  assumes "acceptIntent input s = Inr (r, s')"
  obtains (replayed) "getIntent s (pi_workspaceId (ai_intent input)) (pi_id (ai_intent input)) = Some r" "s' = s"
      "pi_approvalFingerprint r = pi_approvalFingerprint (ai_intent input)"
    | (accepted) s1 where "getIntent s (pi_workspaceId (ai_intent input)) (pi_id (ai_intent input)) = None" "r = ai_intent input"
      "acceptTargets (pi_workspaceId r) (ai_attempts input) (ai_targets input) s = Inr s1" "getTarget s' = getTarget s1" "getAttempt s' = getAttempt s1"
proof (cases "getIntent s (pi_workspaceId (ai_intent input)) (pi_id (ai_intent input))")
  case (Some existing)
  then show ?thesis using assms replayed by (auto simp: acceptIntent_def Let_def web_throw_def split: if_splits)
next
  case None
  obtain s1 rows where "acceptTargets (pi_workspaceId (ai_intent input)) (ai_attempts input) (ai_targets input) s = Inr s1"
      "r = ai_intent input" "s' = s1\<lparr> ho_intents := rows \<rparr>"
    using assms unfolding acceptIntent_def Let_def None option.case web_throw_def by (auto split: if_splits)
  then show ?thesis using None by (intro accepted) (simp_all add: getTarget_def getAttempt_def)
qed

lemma ok_acceptIntent:
  assumes ok: "hosting_ok s" and u: "acceptIntent input s = Inr (r, s')" and f: "\<And>a. a \<in> set (ai_attempts input) \<Longrightarrow> fresh_attempt (pi_workspaceId (ai_intent input)) a"
  shows "hosting_ok s'"
  using u
proof (cases rule: acceptIntent_Inr)
  case replayed
  then show ?thesis using ok by simp
next
  case (accepted s1)
  then show ?thesis using ok_acceptTargets [OF accepted(3) ok] f by (simp add: hosting_ok_def)
qed


subsection \<open>Deployments of one target never overlap\<close>

text \<open>The calls of the publishing service on the store, each one atomic, in any interleaving. What they submit is what the service
  submits: undeployed targets, fresh attempts, and later versions of the stored attempt.\<close>

inductive hosting_step :: "hosting \<Rightarrow> hosting \<Rightarrow> bool" where
  step_binding: "saveBinding b e s = Inr s' \<Longrightarrow> hosting_step s s'"
| step_connection: "saveConnection c e s = Inr s' \<Longrightarrow> hosting_step s s'"
| step_serving: "setServingState w i state required s = Inr s' \<Longrightarrow> hosting_step s s'"
| step_configure: "saveTarget t e s = Inr s' \<Longrightarrow> undeployed t \<Longrightarrow> hosting_step s s'"
| step_plan: "putPlan p x s = Inr s' \<Longrightarrow> hosting_step s s'"
| step_cleanup: "cleanupUnacceptedPlans now n s = Inr (m, s') \<Longrightarrow> hosting_step s s'"
| step_accept: "acceptIntent input s = Inr (r, s') \<Longrightarrow> (\<And>a. a \<in> set (ai_attempts input) \<Longrightarrow> fresh_attempt (pi_workspaceId (ai_intent input)) a)
    \<Longrightarrow> hosting_step s s'"
| step_acknowledge: "hosting_step s (acknowledgeOutbox w i s)"
| step_claim: "claim_target w i j x s = Inr (granted, s') \<Longrightarrow> hosting_step s s'"
| step_update: "updateAttempt a e x s = Inr s' \<Longrightarrow> getAttempt s (da_workspaceId a) (da_id a) = Some b \<Longrightarrow> continues b a \<Longrightarrow> hosting_step s s'"
| step_finish: "finishAttempt a e x outcome s = Inr s' \<Longrightarrow> getAttempt s (da_workspaceId a) (da_id a) = Some b \<Longrightarrow> continues b a
    \<Longrightarrow> da_state a \<noteq> Activating \<Longrightarrow> hosting_step s s'"
| step_domain: "saveDomain d e s = Inr s' \<Longrightarrow> hosting_step s s'"

inductive hosting_reachable :: "hosting \<Rightarrow> bool" where
  hosting_start: "hosting_reachable empty_hosting"
| hosting_next: "hosting_reachable s \<Longrightarrow> hosting_step s s' \<Longrightarrow> hosting_reachable s'"

lemma hosting_ok_same: "getTarget s' = getTarget s \<Longrightarrow> getAttempt s' = getAttempt s \<Longrightarrow> hosting_ok s \<Longrightarrow> hosting_ok s'"
  by (simp add: hosting_ok_def)

lemma step_ok: "hosting_step s s' \<Longrightarrow> hosting_ok s \<Longrightarrow> hosting_ok s'"
proof (induction rule: hosting_step.induct)
  case step_binding
  then show ?case using hosting_effects(1) hosting_ok_same by blast
next
  case step_connection
  then show ?case using hosting_effects(2) hosting_ok_same by blast
next
  case step_plan
  then show ?case using hosting_effects(3) hosting_ok_same by blast
next
  case step_cleanup
  then show ?case using hosting_effects(4) hosting_ok_same by blast
next
  case step_acknowledge
  then show ?case using hosting_effects(5,6) hosting_ok_same by blast
next
  case step_domain
  then show ?case using hosting_effects(7) hosting_ok_same by blast
next
  case (step_serving w i state required s s')
  show ?case by (rule ok_serving [OF step_serving(2,1)])
next
  case (step_configure t e s s')
  show ?case by (rule ok_saveTarget [OF step_configure(3,1,2)])
next
  case (step_accept input s r s')
  show ?case by (rule ok_acceptIntent [OF step_accept(3) step_accept(1,2)])
next
  case (step_claim w i j x s granted s')
  show ?case by (rule ok_claim [OF step_claim(2,1)])
next
  case (step_update a e x s s' b)
  show ?case by (rule ok_update [OF step_update(4,1-3)])
next
  case (step_finish a e x outcome s s' b)
  show ?case by (rule ok_finish [OF step_finish(5,1-4)])
qed

lemma hosting_reachable_ok: "hosting_reachable s \<Longrightarrow> hosting_ok s"
proof (induction rule: hosting_reachable.induct)
  case hosting_start
  show ?case by (simp add: hosting_ok_def tables_ok_def empty_hosting_def getTarget_def getAttempt_def web_read_def)
next
  case (hosting_next s s')
  show ?case by (rule step_ok [OF hosting_next.hyps(2) hosting_next.IH])
qed

lemma claim_refused:
  assumes "getTarget s w i = Some t" "tg_lock t = Some l" "lk_attemptId l \<noteq> j"
  shows "claim_target w i j x s = Inr (False, s)"
  using assms by (auto simp: claim_target_def split: option.splits)

lemma activation_alone:
  assumes ok: "hosting_ok s" and a: "getAttempt s w i = Some a" "in_activation a"
  shows "\<exists>t. getTarget s w (da_targetId a) = Some t \<and> locked_by t i \<and> da_generation a \<le> tg_desiredGeneration t"
    and "getAttempt s w j = Some b \<Longrightarrow> da_targetId b = da_targetId a \<Longrightarrow> in_activation b \<or> da_generation b = da_generation a \<Longrightarrow> j = i"
    and "da_state a = Activating \<Longrightarrow> da_activationStarted a"
    and "j \<noteq> i \<or> da_activationStarted a \<Longrightarrow> claim_target w (da_targetId a) j x s = Inr (False, s)"
proof -
  have T: "tables_ok (getTarget s) (getAttempt s)" using ok by (simp add: hosting_ok_def)
  note ka = tables_okD(2) [OF T a(1)]
  obtain t where t: "getTarget s w (da_targetId a) = Some t" "locked_by t i" "da_generation a \<le> tg_desiredGeneration t"
    using ka a(2) by (auto simp: attempt_ok_def)
  then show "\<exists>t. getTarget s w (da_targetId a) = Some t \<and> locked_by t i \<and> da_generation a \<le> tg_desiredGeneration t" by blast
  obtain l where l: "tg_lock t = Some l" "lk_attemptId l = i" using t(2) by (auto simp: locked_by_def split: option.splits)
  show "j = i" if "getAttempt s w j = Some b" "da_targetId b = da_targetId a" "in_activation b \<or> da_generation b = da_generation a"
  proof (cases "in_activation b")
    case True
    then show ?thesis using tables_okD(2) [OF T that(1)] that(2) t(1,2) locked_by_unique by (auto simp: attempt_ok_def)
  next
    case False
    then show ?thesis using tables_okD(3) [OF T that(1) a(1)] that(2,3) by simp
  qed
  show "da_state a = Activating \<Longrightarrow> da_activationStarted a" using ka by (simp add: attempt_ok_def)
  show "claim_target w (da_targetId a) j x s = Inr (False, s)" if "j \<noteq> i \<or> da_activationStarted a"
  proof (cases "j = i")
    case False
    then show ?thesis using claim_refused [OF t(1) l(1)] l(2) by simp
  next
    case True
    then have "da_activationStarted a" using that by simp
    then show ?thesis using t(1) l a(1) True by (simp add: claim_target_def)
  qed
qed

text \<open>C36: Deployments of a target never overlap. In every reachable store at most one attempt of a target is activating or has an
  unknown outcome, whatever workers run and crash; the target's lock names it, so that a claim of the target for any other attempt is refused
  without effect, and so is a claim for itself once its activation is marked as started, which it is whenever it is activating. No two attempts of a
  target share a generation. (An attempt whose outcome became unknown before that mark may be claimed again, but only for
  itself: \<open>unmarked_attempt_reclaimed\<close>.)\<close>

theorem one_activation_per_target:
  assumes "hosting_reachable s" "getAttempt s w i = Some a" "in_activation a"
  shows "(\<forall>j b. getAttempt s w j = Some b \<and> da_targetId b = da_targetId a \<and> (in_activation b \<or> da_generation b = da_generation a) \<longrightarrow> j = i)
    \<and> (\<exists>t. getTarget s w (da_targetId a) = Some t \<and> locked_by t i \<and> da_generation a \<le> tg_desiredGeneration t)
    \<and> (da_state a = Activating \<longrightarrow> da_activationStarted a)
    \<and> (\<forall>j x. j \<noteq> i \<or> da_activationStarted a \<longrightarrow> claim_target w (da_targetId a) j x s = Inr (False, s))"
  using activation_alone [OF hosting_reachable_ok [OF assms(1)] assms(2,3)] by blast

subsection \<open>Serving never moves back\<close>

text \<open>\<open>t'\<close> is a later version of the target \<open>t\<close>: what it serves differs only by a release of a generation at least as new.\<close>

definition advances :: "(string \<Rightarrow> string \<Rightarrow> deployment_attempt option) \<Rightarrow> string \<Rightarrow> hosting_target \<Rightarrow> hosting_target \<Rightarrow> bool" where
  "advances A w t t' \<longleftrightarrow> tg_desiredGeneration t \<le> tg_desiredGeneration t' \<and> tg_activeGeneration t \<le> tg_activeGeneration t'
     \<and> ((tg_activeAttemptId t', tg_activeReleaseId t', tg_activeArtifactDigest t') \<noteq> (tg_activeAttemptId t, tg_activeReleaseId t, tg_activeArtifactDigest t)
        \<longrightarrow> (\<exists>j a. A w j = Some a \<and> tg_activeAttemptId t' = Some j \<and> tg_activeArtifactDigest t' = da_artifactDigest a
              \<and> tg_activeGeneration t' = da_generation a \<and> da_state a \<noteq> Activating))"

lemma advances_refl [simp]: "advances A w t t"
  by (simp add: advances_def)

lemma advances_same: "getTarget s' = getTarget s \<Longrightarrow> getTarget s w i = Some t \<Longrightarrow> \<exists>t'. getTarget s' w i = Some t' \<and> advances A w t t'"
  by auto

lemma acceptTargets_advances:
  assumes "hosting_ok s" "acceptTargets v attempts ts s = Inr s'" "getTarget s w i = Some t" "\<And>a. a \<in> set attempts \<Longrightarrow> fresh_attempt v a"
  shows "\<exists>d. getTarget s' w i = Some (t\<lparr> tg_desiredGeneration := d \<rparr>) \<and> tg_desiredGeneration t \<le> d"
  using assms
proof (induction ts arbitrary: s t)
  case Nil
  then have "getTarget s' w i = Some (t\<lparr> tg_desiredGeneration := tg_desiredGeneration t \<rparr>)" by simp
  then show ?case by blast
next
  case (Cons e ts)
  then obtain s1 where s1: "acceptTarget v attempts e s = Inr s1" and r: "acceptTargets v attempts ts s1 = Inr s'" by auto
  obtain u g where u: "getTarget s v (tg_id e) = Some u" "g = tg_desiredGeneration u + 1"
      "getTarget s1 = put2 (getTarget s) v (tg_id u) (u\<lparr> tg_desiredGeneration := g \<rparr>)"
    by (rule acceptTarget_Inr [OF s1])
  have "tg_id u = tg_id e" using getTarget_id [OF Cons.prems(1) u(1)] .
  have "\<exists>d. getTarget s1 w i = Some (t\<lparr> tg_desiredGeneration := d \<rparr>) \<and> tg_desiredGeneration t \<le> d"
  proof (cases "w = v \<and> i = tg_id e")
    case True
    then show ?thesis using u Cons.prems(3) \<open>tg_id u = tg_id e\<close> by (intro exI [of _ g]) simp
  next
    case False
    then show ?thesis using u Cons.prems(3) \<open>tg_id u = tg_id e\<close> by (intro exI [of _ "tg_desiredGeneration t"]) auto
  qed
  then obtain d1 where t1: "getTarget s1 w i = Some (t\<lparr> tg_desiredGeneration := d1 \<rparr>)" "tg_desiredGeneration t \<le> d1" by blast
  have "hosting_ok s1" using ok_acceptTarget [OF Cons.prems(1) s1] Cons.prems(4) by blast
  from Cons.IH [OF this r t1(1) Cons.prems(4)] obtain d where "getTarget s' w i = Some (t\<lparr> tg_desiredGeneration := d \<rparr>)" "d1 \<le> d" by auto
  then show ?case using t1(2) by auto
qed

lemma finish_advances:
  assumes ok: "hosting_ok s" and f: "finishAttempt a e x outcome s = Inr s'" "da_state a \<noteq> Activating" and t: "getTarget s w i = Some t"
  shows "\<exists>t'. getTarget s' w i = Some t' \<and> advances (getAttempt s') w t t'"
proof -
  obtain u where u: "getTarget s (da_workspaceId a) (da_targetId a) = Some u"
    and s': "getTarget s' = put2 (getTarget s) (da_workspaceId a) (tg_id u) (settled_target a outcome u)"
      "getAttempt s' = put2 (getAttempt s) (da_workspaceId a) (da_id a) a" using finishAttempt_Inr [OF f(1)] .
  have i: "tg_id u = da_targetId a" using getTarget_id [OF ok u] .
  show ?thesis
  proof (cases "w = da_workspaceId a \<and> i = da_targetId a")
    case True
    then have "advances (getAttempt s') w t (settled_target a outcome u)"
      using u t f(2) by (auto simp: advances_def settled_target_def Let_def s' split: option.splits)
    then show ?thesis using True i by (simp add: s')
  next
    case False
    then show ?thesis using t i by (auto simp: s')
  qed
qed

text \<open>C37: Serving never moves back. No call of the service lets a configured target disappear or lowers its desired or active
  generation, and what a target is recorded to serve changes only by a settled deployment whose generation is at least the
  active one: a slow worker of an older publication can never replace the release of a newer one.\<close>

theorem serving_never_moves_back:
  assumes "hosting_reachable s" "hosting_step s s'" "getTarget s w i = Some t"
  shows "\<exists>t'. getTarget s' w i = Some t' \<and> advances (getAttempt s') w t t'"
  using assms(2) hosting_reachable_ok [OF assms(1)] assms(3)
proof (induction rule: hosting_step.induct)
  case (step_serving v k state required s s')
  obtain u where u: "getTarget s v k = Some u" and p: "put_target v (u\<lparr> tg_serving := state, tg_servingRemovalRequired := required \<rparr>) s = Inr s'"
    using step_serving(1) by (auto simp: setServingState_def web_throw_def split: option.splits)
  have "tg_id u = k" using getTarget_id [OF step_serving(2) u] .
  then show ?case using u step_serving(3) put_target_Inr(1) [OF p] by (cases "w = v \<and> i = k") (auto simp: advances_def)
next
  case (step_configure u e s s')
  then show ?case unfolding saveTarget_Inr [OF step_configure(1)]
    by (cases "w = tg_workspaceId u \<and> i = tg_id u") (auto simp: advances_def kept_state_def)
next
  case (step_accept input s r s')
  from step_accept(1) show ?case
  proof (cases rule: acceptIntent_Inr)
    case replayed
    then show ?thesis using step_accept by auto
  next
    case (accepted s1)
    have f: "\<And>a. a \<in> set (ai_attempts input) \<Longrightarrow> fresh_attempt (pi_workspaceId r) a" using step_accept(2) accepted(2) by simp
    obtain d where "getTarget s1 w i = Some (t\<lparr> tg_desiredGeneration := d \<rparr>)" "tg_desiredGeneration t \<le> d"
      using acceptTargets_advances [OF step_accept(3) accepted(3) step_accept(4) f] by blast
    then show ?thesis by (simp add: accepted(4) advances_def)
  qed
next
  case (step_claim v k j x s granted s')
  from step_claim(1) show ?case
  proof (cases rule: claim_Inr)
    case refused
    then show ?thesis using step_claim(3) by auto
  next
    case (granted u a)
    have "tg_id u = k" using getTarget_id [OF step_claim(2) granted(2)] .
    then show ?thesis using granted(2,6) step_claim(3) by (cases "w = v \<and> i = k") (auto simp: advances_def)
  qed
next
  case (step_update a e x s s' b)
  have "getTarget s' = getTarget s" using updateAttempt_Inr [OF step_update(1)] .
  then show ?case using step_update(5) by (rule advances_same)
next
  case (step_finish a e x outcome s s' b)
  show ?case by (rule finish_advances [OF step_finish(5,1,4,6)])
next
  case step_binding
  then show ?case using hosting_effects(1) advances_same by blast
next
  case step_connection
  then show ?case using hosting_effects(2) advances_same by blast
next
  case step_plan
  then show ?case using hosting_effects(3) advances_same by blast
next
  case step_cleanup
  then show ?case using hosting_effects(4) advances_same by blast
next
  case step_acknowledge
  then show ?case using hosting_effects(5) advances_same by blast
next
  case step_domain
  then show ?case using hosting_effects(7) advances_same by blast
qed


subsection \<open>Fencing\<close>

text \<open>C38: A claim fences every earlier execution. Once a claim has been granted, whoever still works on that target under
  another execution or for another attempt can neither confirm that it owns the target, nor checkpoint, nor settle: each call throws, and a
  call that throws leaves the store as it was.\<close>

theorem claim_fences_others:
  assumes "hosting_reachable s" "claim_target w i j x s = Inr (True, s')" "y \<noteq> x \<or> da_id a \<noteq> j" "da_workspaceId a = w" "da_targetId a = i"
  shows "assertOwner w i (da_id a) y s' = web_throw ''writer_fenced'' \<and> updateAttempt a e y s' = web_throw ''writer_fenced''
    \<and> finishAttempt a e y outcome s' = web_throw ''writer_fenced''
    \<and> (\<exists>t. assertOwner w i j x s' = Inr t)"
proof -
  obtain t where t: "getTarget s' w i = Some t" "tg_lock t = Some \<lparr> lk_attemptId = j, lk_executionId = x \<rparr>"
    using assms(2)
  proof (cases rule: claim_Inr)
    case (granted t a)
    have "tg_id t = i" using getTarget_id [OF hosting_reachable_ok [OF assms(1)] granted(2)] .
    then show ?thesis using granted(6) by (intro that) auto
  qed simp
  have "assertOwner w i (da_id a) y s' = web_throw ''writer_fenced''"
    using t assms(3) by (auto simp: assertOwner_def holds_lock_def)
  moreover have "assertOwner w i j x s' = Inr t" using t by (simp add: assertOwner_def holds_lock_def)
  ultimately show ?thesis using assms(4,5) by (simp add: updateAttempt_def finishAttempt_def web_throw_def)
qed

subsection \<open>A drill: one target, two publications\<close>

definition drill_target :: hosting_target where
  "drill_target = \<lparr> tg_id = ''t'', tg_workspaceId = ''w'', tg_websiteId = ''site'', tg_revision = 1, tg_label = ''Home'', tg_adapterId = ''native:a'',
     tg_family = Native, tg_connectionId = None, tg_accountId = ''a'', tg_remoteId = ''r'', tg_publicUrl = ''u'', tg_basePath = ''/'', tg_ownershipMarker = ''m'',
     tg_config = [], tg_capabilities = \<lparr> hp_emergencySuspension = None, hp_provision = True, hp_select = True, hp_staging = Private_staging,
       hp_activation = Filesystem_pointer, hp_propagation = Local_propagation, hp_rollback = Retained_artifact, hp_domains = Operator_managed,
       hp_redirects = Portable_redirects, hp_headers = False, hp_unpublish = Confirmed_unpublish, hp_maxFiles = 9, hp_maxBytes = 99, hp_maxFileBytes = 99 \<rparr>,
     tg_desiredGeneration = 0, tg_activeGeneration = 0, tg_activeAttemptId = None, tg_activeReleaseId = None, tg_activeArtifactDigest = None,
     tg_servingRemovalRequired = False, tg_serving = Unpublished_serving, tg_lock = None \<rparr>"

definition drill_attempt :: "string \<Rightarrow> int \<Rightarrow> deployment_attempt" where
  "drill_attempt i n = \<lparr> da_id = i, da_workspaceId = ''w'', da_targetId = ''t'', da_targetRevision = 1, da_intentId = ''i'' @ i, da_generation = n, da_revision = 1,
     da_connectionRevision = None, da_accountId = ''a'', da_state = Queued_attempt, da_checkpoint = \<lparr> cp_releaseId = None, cp_data = [] \<rparr>,
     da_artifactDigest = Some ''d'', da_sourceArtifactDigest = Some ''e'', da_marker = Some ''k'', da_dependencies = [], da_creatorIdentityId = ''c'', da_binding = None,
     da_renderLimits = None, da_executionId = None, da_activationStarted = False, da_retryAfter = None, da_verification = None, da_errorCode = None,
     da_updatedAt = ''now'' \<rparr>"

definition drill_input :: "string \<Rightarrow> int \<Rightarrow> accept_input" where
  "drill_input i n = \<lparr> ai_intent = \<lparr> pi_id = ''i'' @ i, pi_workspaceId = ''w'', pi_websiteId = ''site'', pi_actorId = ''u'', pi_operation = Publish_operation,
     pi_planId = None, pi_snapshotReference = None, pi_idempotencyKey = i, pi_approvalFingerprint = ''f'', pi_createdAt = ''now'', pi_attemptIds = [i] \<rparr>,
     ai_plan = None, ai_targets = [drill_target\<lparr> tg_desiredGeneration := n - 1 \<rparr>], ai_attempts = [drill_attempt i n] \<rparr>"

definition result_store :: "hosting \<Rightarrow> web_error + ('a \<times> hosting) \<Rightarrow> hosting" where
  "result_store s r = (case r of Inr (_, s') \<Rightarrow> s' | Inl _ \<Rightarrow> s)"

definition drill1 :: hosting where "drill1 = (case saveTarget drill_target 0 empty_hosting of Inr s \<Rightarrow> s | Inl _ \<Rightarrow> empty_hosting)"
definition drill2 :: hosting where "drill2 = result_store drill1 (acceptIntent (drill_input ''p'' 1) drill1)"
definition drill3 :: hosting where "drill3 = result_store drill2 (acceptIntent (drill_input ''q'' 2) drill2)"
definition drill4 :: hosting where "drill4 = result_store drill3 (claim_target ''w'' ''t'' ''p'' ''x'' drill3)"

definition drill_activating :: deployment_attempt where
  "drill_activating = (drill_attempt ''p'' 1)\<lparr> da_revision := 3, da_executionId := Some ''x'', da_state := Activating, da_activationStarted := True \<rparr>"

definition drill5 :: hosting where "drill5 = (case updateAttempt drill_activating 2 ''x'' drill4 of Inr s \<Rightarrow> s | Inl _ \<Rightarrow> drill4)"

definition drill_published :: deployment_attempt where
  "drill_published = drill_activating\<lparr> da_revision := 4, da_state := Published \<rparr>"

definition drill6 :: hosting where
  "drill6 = (case finishAttempt drill_published 3 ''x'' (Some (Some ''r1'', False)) drill5 of Inr s \<Rightarrow> s | Inl _ \<Rightarrow> drill5)"

lemma drill_runs:
  "saveTarget drill_target 0 empty_hosting = Inr drill1"
  "acceptIntent (drill_input ''p'' 1) drill1 = Inr (ai_intent (drill_input ''p'' 1), drill2)"
  "acceptIntent (drill_input ''q'' 2) drill2 = Inr (ai_intent (drill_input ''q'' 2), drill3)"
  "claim_target ''w'' ''t'' ''p'' ''x'' drill3 = Inr (True, drill4)"
  "updateAttempt drill_activating 2 ''x'' drill4 = Inr drill5"
  "finishAttempt drill_published 3 ''x'' (Some (Some ''r1'', False)) drill5 = Inr drill6"
  by (code_simp)+

lemma drill_rows:
  "undeployed drill_target" "fresh_attempt ''w'' (drill_attempt ''p'' 1)" "fresh_attempt ''w'' (drill_attempt ''q'' 2)"
  "getAttempt drill4 ''w'' ''p'' = Some ((drill_attempt ''p'' 1)\<lparr> da_revision := 2, da_executionId := Some ''x'' \<rparr>)"
  "continues ((drill_attempt ''p'' 1)\<lparr> da_revision := 2, da_executionId := Some ''x'' \<rparr>) drill_activating"
  "getAttempt drill5 ''w'' ''p'' = Some drill_activating" "continues drill_activating drill_published"
  by (code_simp)+

lemma drill_ids: "da_workspaceId drill_activating = ''w''" "da_id drill_activating = ''p''" "da_workspaceId drill_published = ''w''"
    "da_id drill_published = ''p''" "da_state drill_published = Published" "da_state drill_activating = Activating" "da_targetId drill_activating = ''t''"
  by (simp_all add: drill_activating_def drill_published_def drill_attempt_def)

lemma drill_reachable: "hosting_reachable drill3" "hosting_reachable drill5"
proof -
  have 1: "hosting_reachable drill1" by (rule hosting_next [OF hosting_start step_configure [OF drill_runs(1) drill_rows(1)]])
  have 2: "hosting_reachable drill2"
    by (rule hosting_next [OF 1 step_accept [OF drill_runs(2)]]) (use drill_rows(2) in \<open>simp add: drill_input_def\<close>)
  show 3: "hosting_reachable drill3"
    by (rule hosting_next [OF 2 step_accept [OF drill_runs(3)]]) (use drill_rows(3) in \<open>simp add: drill_input_def\<close>)
  have 4: "hosting_reachable drill4" by (rule hosting_next [OF 3 step_claim [OF drill_runs(4)]])
  show "hosting_reachable drill5"
    by (rule hosting_next [OF 4 step_update [OF drill_runs(5)]]) (use drill_rows in \<open>simp_all add: drill_ids\<close>)
qed

theorem one_activation_per_target_witness:
  "claim_target ''w'' ''t'' ''q'' ''y'' drill5 = Inr (False, drill5) \<and> claim_target ''w'' ''t'' ''p'' ''y'' drill5 = Inr (False, drill5)"
proof -
  have a: "in_activation drill_activating" by (simp add: in_activation_def drill_ids)
  note r = one_activation_per_target [OF drill_reachable(2) drill_rows(6) a]
  then show ?thesis by (simp add: drill_ids)
qed

theorem serving_never_moves_back_witness:
  "\<exists>t'. getTarget drill6 ''w'' ''t'' = Some t' \<and> tg_desiredGeneration t' \<ge> 2"
proof -
  have s: "hosting_step drill5 drill6"
    by (rule step_finish [OF drill_runs(6), of drill_activating]) (use drill_rows in \<open>simp_all add: drill_ids\<close>)
  obtain t where t: "getTarget drill5 ''w'' ''t'' = Some t" "tg_desiredGeneration t = 2"
  proof
    show "getTarget drill5 ''w'' ''t'' = Some (the (getTarget drill5 ''w'' ''t''))" "tg_desiredGeneration (the (getTarget drill5 ''w'' ''t'')) = 2" by (code_simp)+
  qed
  show ?thesis using serving_never_moves_back [OF drill_reachable(2) s t(1)] t(2) by (auto simp: advances_def)
qed

theorem claim_fences_others_witness:
  "updateAttempt (drill_attempt ''p'' 1) 1 ''earlier'' drill4 = web_throw ''writer_fenced''
    \<and> finishAttempt (drill_attempt ''q'' 2) 1 ''x'' None drill4 = web_throw ''writer_fenced''"
  using claim_fences_others [OF drill_reachable(1) drill_runs(4), of "''earlier''" "drill_attempt ''p'' 1" 1 None]
    claim_fences_others [OF drill_reachable(1) drill_runs(4), of "''x''" "drill_attempt ''q'' 2" 1 None]
  by (simp add: drill_attempt_def)

text \<open>An attempt may end with an unknown outcome before its activation was marked, when an adapter passed the guard while preparing
  and then failed. It keeps the target, but a new execution of it is admitted.\<close>

definition drill_unmarked :: deployment_attempt where
  "drill_unmarked = (drill_attempt ''p'' 1)\<lparr> da_revision := 3, da_executionId := Some ''x'', da_state := Unknown_outcome \<rparr>"

definition drill7 :: hosting where "drill7 = (case finishAttempt drill_unmarked 2 ''x'' None drill4 of Inr s \<Rightarrow> s | Inl _ \<Rightarrow> drill4)"

lemma unmarked_attempt_reclaimed:
  "hosting_reachable drill7" "getAttempt drill7 ''w'' ''p'' = Some drill_unmarked" "in_activation drill_unmarked"
  "\<exists>s. claim_target ''w'' ''t'' ''p'' ''y'' drill7 = Inr (True, s)"
proof -
  have f: "finishAttempt drill_unmarked 2 ''x'' None drill4 = Inr drill7" by code_simp
  have i: "da_workspaceId drill_unmarked = ''w''" "da_id drill_unmarked = ''p''" "da_state drill_unmarked = Unknown_outcome"
    by (simp_all add: drill_unmarked_def drill_attempt_def)
  have "continues ((drill_attempt ''p'' 1)\<lparr> da_revision := 2, da_executionId := Some ''x'' \<rparr>) drill_unmarked" by code_simp
  then show "hosting_reachable drill7"
    by (intro hosting_next [OF hosting_next [OF drill_reachable(1) step_claim [OF drill_runs(4)]] step_finish [OF f]])
      (use drill_rows(4) in \<open>simp_all add: i\<close>)
  show "getAttempt drill7 ''w'' ''p'' = Some drill_unmarked" by code_simp
  show "in_activation drill_unmarked" by (simp add: in_activation_def i)
  have "\<exists>s. claim_target ''w'' ''t'' ''p'' ''y'' drill7 = Inr (True, s) \<longleftrightarrow> map_sum (\<lambda>_. ()) fst (claim_target ''w'' ''t'' ''p'' ''y'' drill7) = Inr True"
    by (cases "claim_target ''w'' ''t'' ''p'' ''y'' drill7") (auto simp: prod_eq_iff)
  moreover have "map_sum (\<lambda>_. ()) fst (claim_target ''w'' ''t'' ''p'' ''y'' drill7) = Inr True" by code_simp
  ultimately show "\<exists>s. claim_target ''w'' ''t'' ''p'' ''y'' drill7 = Inr (True, s)" by blast
qed

end
