(* ===== verification/Website_Publishing.thy ===== *)
theory Website_Publishing
  imports Website_Hosting
begin

text \<open>
  The worker side of \<open>WebsitePublishingService\<close> (\<open>packages/portability/src/website-publishing.ts\<close>): executing a deployment attempt and
  reconciling one whose activation may have happened. The commands that create, cancel and repair attempts are in \<open>Website_Commands\<close>, which
  shares the programs, ports and targets defined here. Every \<open>await\<close> is a point where other processes may
  change the store: \<open>pt_others\<close> says how, before each call on the store. Answers of the ports are functions of a counter of the calls made so far,
  so each call may be answered differently. The site renderer, the archive format, the digest and the platform's URL parsing are parameters. An
  absent \<open>hostingEnabled\<close> port is one that always answers true, an absent \<open>confirmQuiescent\<close> one that always answers false.
\<close>

subsection \<open>Ports\<close>

record actor =
  ac_workspaceId :: string
  ac_actorId :: string

datatype hosting_action = View_action | Publish_action | Manage_action

type_synonym files = "(string \<times> string) list"

record hosting_artifact =
  ha_digest :: string
  ha_sourceArtifactDigest :: string
  ha_marker :: string
  ha_files :: files
  ha_zip :: string

record hosting_context =
  cx_target :: hosting_target
  cx_connection :: "hosting_connection option"
  cx_attemptId :: string
  cx_generation :: int
  cx_operation :: publish_operation
  cx_artifact :: "hosting_artifact option"
  cx_checkpoint :: checkpoint

datatype outcome_state = Activated_outcome | Disabled_outcome | Pending_outcome | Unconfirmed_outcome | Failed_outcome

record hosting_outcome =
  oc_state :: outcome_state
  oc_releaseId :: "string option"
  oc_publicUrl :: "string option"
  oc_reason :: "string option"

text \<open>What an adapter does with a call: it may use the callbacks of the context, seeing the result of each, before it answers.\<close>

datatype callback = Before_upload | Before_activation | Save_checkpoint checkpoint

datatype ('c, 'r) conversation = Answer "web_error + 'r" | Callback 'c "web_error + unit \<Rightarrow> ('c, 'r) conversation"

datatype domain_operation = Request_domain | Verify_domain | Remove_domain

record domain_answer =
  dn_state :: domain_state
  dn_instructions :: "string list"
  dn_providerId :: "string option"

record captured =
  ca_encoded :: string
  ca_dependencies :: "website_dependency list"
  ca_creatorIdentityId :: string
  ca_limits :: website_limits
  ca_policyRevision :: string

record hosting_adapter =
  ad_id :: string
  ad_apiVersion :: string
  ad_family :: hosting_family
  ad_capabilities :: hosting_capabilities
  ad_validateTarget :: "nat \<Rightarrow> hosting_target \<Rightarrow> hosting_connection option \<Rightarrow> web_error + unit"
  ad_transformFiles :: "files \<Rightarrow> files"
  ad_prepare :: "nat \<Rightarrow> hosting_context \<Rightarrow> (callback, checkpoint) conversation"
  ad_activate :: "nat \<Rightarrow> hosting_context \<Rightarrow> (callback, hosting_outcome) conversation"
  ad_unpublish :: "(nat \<Rightarrow> hosting_context \<Rightarrow> (callback, hosting_outcome) conversation) option"
  ad_reconcile :: "nat \<Rightarrow> hosting_context \<Rightarrow> (callback, hosting_outcome) conversation"
  ad_suspend :: "(nat \<Rightarrow> hosting_target \<Rightarrow> web_error + unit) option"
  ad_resume :: "(nat \<Rightarrow> hosting_target \<Rightarrow> (unit, unit) conversation) option"
  ad_domain :: "(nat \<Rightarrow> hosting_target \<Rightarrow> hosting_connection option \<Rightarrow> hosting_domain \<Rightarrow> domain_operation \<Rightarrow> web_error + domain_answer) option"
  ad_verify :: "nat \<Rightarrow> hosting_context \<Rightarrow> hosting_outcome \<Rightarrow> (callback, verification) conversation"

record publishing_port =
  pt_others :: "nat \<Rightarrow> hosting \<Rightarrow> hosting"
  pt_now :: "nat \<Rightarrow> string"
  pt_uuid :: "nat \<Rightarrow> string"
  pt_adapters :: "hosting_adapter list"
  pt_hostingEnabled :: "nat \<Rightarrow> actor \<Rightarrow> hosting_adapter \<Rightarrow> web_error + bool"
  pt_authorize :: "nat \<Rightarrow> actor \<Rightarrow> hosting_action \<Rightarrow> hosting_target option \<Rightarrow> web_error + unit"
  pt_authorizePublication :: "nat \<Rightarrow> actor \<Rightarrow> string \<Rightarrow> string \<Rightarrow> website_dependency list \<Rightarrow> web_error + unit"
  pt_websiteGet :: "nat \<Rightarrow> actor \<Rightarrow> string \<Rightarrow> web_error + (int \<times> string)"
  pt_listWebsites :: "nat \<Rightarrow> string \<Rightarrow> web_error + string list"
  pt_capture :: "nat \<Rightarrow> actor \<Rightarrow> string \<Rightarrow> int \<Rightarrow> web_error + captured"
  pt_planFingerprint :: "captured \<Rightarrow> approved_target list \<Rightarrow> (string \<times> int) option \<Rightarrow> string"
  pt_operatorDomain :: "(nat \<Rightarrow> hosting_target \<Rightarrow> hosting_domain \<Rightarrow> domain_operation \<Rightarrow> web_error + domain_answer) option"
  pt_pathname :: "string \<Rightarrow> web_error + string"
  pt_hostname :: "string \<Rightarrow> web_error + string"
  pt_plainUrl :: "string \<Rightarrow> bool"
  pt_externalUrl :: "string \<Rightarrow> web_error + string"
  pt_secure :: "string \<Rightarrow> bool"
  pt_domainToAscii :: "string \<Rightarrow> string"
  pt_enqueue :: "nat \<Rightarrow> string \<Rightarrow> string \<Rightarrow> web_error + unit"
  pt_audit :: "nat \<Rightarrow> string \<Rightarrow> web_error + unit"
  pt_confirmQuiescent :: "nat \<Rightarrow> hosting_target \<Rightarrow> deployment_attempt \<Rightarrow> string \<Rightarrow> web_error + bool"
  pt_variant :: "string \<Rightarrow> hosting_target \<Rightarrow> web_error + string"
  pt_render :: "string \<Rightarrow> website_limits \<Rightarrow> web_error + string \<times> files"
  pt_validateFiles :: "string \<Rightarrow> files \<Rightarrow> web_error + unit"
  pt_zip :: "files \<Rightarrow> web_error + string"
  pt_digest :: "string \<Rightarrow> string"
  pt_href :: "string \<Rightarrow> web_error + string"
  pt_putArtifact :: "nat \<Rightarrow> string \<Rightarrow> string \<Rightarrow> string \<Rightarrow> files \<Rightarrow> web_error + unit"
  pt_getArtifact :: "nat \<Rightarrow> string \<Rightarrow> string \<Rightarrow> web_error + (string \<times> files) option"

subsection \<open>Programs\<close>

text \<open>The store, the counter of calls, the variables an execution assigns (the attempt, the checkpoint of its context, whether
  the guard passed before an activation, the confirmed outcome) and, for the theorems only, the guards passed and the
  serving-changing calls made, each with the store at that moment.\<close>

datatype hosting_event = Guarded hosting | Serving_change hosting

record run =
  rn_store :: hosting
  rn_tick :: nat
  rn_attempt :: deployment_attempt
  rn_checkpoint :: checkpoint
  rn_guardPassed :: bool
  rn_confirmed :: "(string option \<times> bool) option"
  rn_trace :: "hosting_event list"

type_synonym 'a prog = "run \<Rightarrow> (web_error + 'a) \<times> run"

definition throw_web :: "string \<Rightarrow> 'a prog" where
  "throw_web code r = (web_throw code, r)"

definition store_call :: "publishing_port \<Rightarrow> (hosting \<Rightarrow> web_error + ('a \<times> hosting)) \<Rightarrow> 'a prog" where
  "store_call port f r =
     (let s = pt_others port (rn_tick r) (rn_store r); r' = r\<lparr> rn_tick := rn_tick r + 1, rn_store := s \<rparr> in
      case f s of Inl e \<Rightarrow> (Inl e, r') | Inr (x, s') \<Rightarrow> (Inr x, r'\<lparr> rn_store := s' \<rparr>))"

definition store_read :: "publishing_port \<Rightarrow> (hosting \<Rightarrow> web_error + 'a) \<Rightarrow> 'a prog" where
  "store_read port f = store_call port (\<lambda>s. try_then (f s) (\<lambda>x. Inr (x, s)))"

definition store_write :: "publishing_port \<Rightarrow> (hosting \<Rightarrow> web_error + hosting) \<Rightarrow> unit prog" where
  "store_write port f = store_call port (\<lambda>s. try_then (f s) (\<lambda>s'. Inr ((), s')))"

definition port_call :: "(nat \<Rightarrow> web_error + 'a) \<Rightarrow> 'a prog" where
  "port_call f r = (f (rn_tick r), r\<lparr> rn_tick := rn_tick r + 1 \<rparr>)"

definition now_time :: "publishing_port \<Rightarrow> string prog" where
  "now_time port = port_call (\<lambda>n. Inr (pt_now port n))"

definition fresh_id :: "publishing_port \<Rightarrow> string prog" where
  "fresh_id port = port_call (\<lambda>n. Inr (pt_uuid port n))"

definition read_run :: "(run \<Rightarrow> 'a) \<Rightarrow> 'a prog" where
  "read_run f r = (Inr (f r), r)"

definition set_run :: "(run \<Rightarrow> run) \<Rightarrow> unit prog" where
  "set_run f r = (Inr (), f r)"

definition catch_prog :: "'a prog \<Rightarrow> (web_error \<Rightarrow> 'a prog) \<Rightarrow> 'a prog" where
  "catch_prog m h r = (case m r of (Inl e, r') \<Rightarrow> h e r' | (Inr x, r') \<Rightarrow> (Inr x, r'))"

definition when_web :: "bool \<Rightarrow> unit prog \<Rightarrow> unit prog" where
  "when_web c m = (if c then m else eff_return ())"

definition check_web :: "bool \<Rightarrow> string \<Rightarrow> unit prog" where
  "check_web ok code = (if ok then eff_return () else throw_web code)"

text \<open>A value asserted to be there: without it JavaScript throws a \<open>TypeError\<close>.\<close>

definition present :: "'a option \<Rightarrow> 'a prog" where
  "present x = eff_lift (case x of Some v \<Rightarrow> Inr v | None \<Rightarrow> Inl Other_error)"

subsection \<open>Targets, connections, artifacts\<close>

definition terminal :: "attempt_state \<Rightarrow> bool" where
  "terminal st \<longleftrightarrow> st \<in> {Published, Unpublished, Failed_attempt, Reconnect_required, Superseded, Cancelled_attempt}"

definition find_adapter :: "publishing_port \<Rightarrow> string \<Rightarrow> web_error + hosting_adapter" where
  "find_adapter port i = (case List.find (\<lambda>a. ad_id a = i) (pt_adapters port) of
     Some a \<Rightarrow> if ad_apiVersion a \<noteq> ''2'' then web_throw ''hosting_unavailable'' else Inr a
   | None \<Rightarrow> web_throw ''hosting_unavailable'')"

definition target_of :: "publishing_port \<Rightarrow> actor \<Rightarrow> string \<Rightarrow> hosting_action \<Rightarrow> hosting_target prog" where
  "target_of port actor i action =
     eff_bind (store_read port (\<lambda>s. case getTarget s (ac_workspaceId actor) i of Some t \<Rightarrow> Inr t | None \<Rightarrow> web_throw ''target_not_found'')) (\<lambda>t.
     eff_bind (port_call (\<lambda>n. pt_authorize port n actor action (Some t))) (\<lambda>_. eff_return t))"

definition connection_of :: "publishing_port \<Rightarrow> hosting_target \<Rightarrow> hosting_connection option prog" where
  "connection_of port t =
     (if \<not> truthy_opt (tg_connectionId t) then eff_return None
      else store_read port (\<lambda>s. case getConnection s (tg_workspaceId t) (the (tg_connectionId t)) of
          None \<Rightarrow> web_throw ''reconnect_required''
        | Some c \<Rightarrow> if hc_state c \<noteq> Connected \<or> hc_accountId c \<noteq> tg_accountId t \<or> hc_family c \<noteq> tg_family t then web_throw ''reconnect_required''
                   else Inr (Some c)))"

definition readArtifact :: "publishing_port \<Rightarrow> hosting_target \<Rightarrow> deployment_attempt \<Rightarrow> hosting_artifact prog" where
  "readArtifact port t a =
     (if \<not> truthy_opt (da_artifactDigest a) \<or> \<not> truthy_opt (da_sourceArtifactDigest a) \<or> \<not> truthy_opt (da_marker a) then throw_web ''artifact_unavailable''
      else let d = the (da_artifactDigest a) in
        eff_bind (port_call (\<lambda>n. pt_getArtifact port n (tg_workspaceId t) d)) (\<lambda>found.
        case found of None \<Rightarrow> throw_web ''artifact_unavailable''
        | Some (archive, files) \<Rightarrow>
            if pt_digest port archive \<noteq> d then throw_web ''artifact_unavailable''
            else eff_bind (eff_lift (pt_zip port files)) (\<lambda>z.
              if pt_digest port z \<noteq> d then throw_web ''artifact_unavailable''
              else eff_return \<lparr> ha_digest = d, ha_sourceArtifactDigest = the (da_sourceArtifactDigest a), ha_marker = the (da_marker a),
                ha_files = files, ha_zip = archive \<rparr>)))"


subsection \<open>Executing an attempt\<close>

record execution =
  ex_workspaceId :: string
  ex_executionId :: string
  ex_intent :: publish_intent
  ex_actor :: actor
  ex_target :: hosting_target
  ex_adapter :: hosting_adapter
  ex_connection :: "hosting_connection option"

definition update_attempt :: "publishing_port \<Rightarrow> string \<Rightarrow> (deployment_attempt \<Rightarrow> deployment_attempt) \<Rightarrow> unit prog" where
  "update_attempt port executionId patch =
     eff_bind (now_time port) (\<lambda>t.
     eff_bind (read_run rn_attempt) (\<lambda>a.
       let a' = (patch a)\<lparr> da_revision := da_revision a + 1, da_updatedAt := t \<rparr> in
     eff_bind (store_write port (updateAttempt a' (da_revision a) executionId)) (\<lambda>_.
     set_run (\<lambda>r. r\<lparr> rn_attempt := a' \<rparr>))))"

definition finish_attempt :: "publishing_port \<Rightarrow> string \<Rightarrow> attempt_state \<Rightarrow> string option \<Rightarrow> (string option \<times> bool) option \<Rightarrow> unit prog" where
  "finish_attempt port executionId state errorCode outcome =
     eff_bind (now_time port) (\<lambda>t.
     eff_bind (read_run rn_attempt) (\<lambda>a.
       let a' = a\<lparr> da_state := state, da_errorCode := errorCode, da_revision := da_revision a + 1, da_updatedAt := t \<rparr> in
     eff_bind (store_write port (finishAttempt a' (da_revision a) executionId (if state \<in> {Published, Unpublished} then outcome else None))) (\<lambda>_.
     set_run (\<lambda>r. r\<lparr> rn_attempt := a' \<rparr>))))"

text \<open>\<open>guard\<close>: the execution still owns the target, its generation is the desired one, and everything it was approved with is
  unchanged and still authorized.\<close>

definition guard_checks :: "publishing_port \<Rightarrow> execution \<Rightarrow> hosting_target \<Rightarrow> unit prog" where
  "guard_checks port ex current =
     eff_bind (read_run rn_attempt) (\<lambda>a.
       let w = ex_workspaceId ex; operation = pi_operation (ex_intent ex) in
     eff_bind (check_web (tg_desiredGeneration current = da_generation a) ''superseded'') (\<lambda>_.
     eff_bind (check_web (tg_revision current = da_targetRevision a \<and> tg_accountId current = da_accountId a) ''revision_conflict'') (\<lambda>_.
     eff_bind (when_web (da_binding a \<noteq> None)
       (store_read port (\<lambda>s. if binding_current s w (da_binding a) then Inr () else web_throw ''binding_changed''))) (\<lambda>_.
     eff_bind (port_call (\<lambda>n. pt_authorize port n (ex_actor ex) Publish_action (Some current))) (\<lambda>_.
     eff_bind (when_web (operation \<noteq> Unpublish_operation)
       (eff_bind (port_call (\<lambda>n. pt_hostingEnabled port n (ex_actor ex) (ex_adapter ex))) (\<lambda>enabled. check_web enabled ''hosting_unavailable''))) (\<lambda>_.
     eff_bind (connection_of port current) (\<lambda>c.
     eff_bind (check_web (map_option hc_revision c = da_connectionRevision a) ''reconnect_required'') (\<lambda>_.
     when_web (operation \<noteq> Unpublish_operation)
       (port_call (\<lambda>n. pt_authorizePublication port n (ex_actor ex) (pi_websiteId (ex_intent ex)) (da_creatorIdentityId a) (da_dependencies a)))))))))))"

definition guard :: "publishing_port \<Rightarrow> execution \<Rightarrow> unit prog" where
  "guard port ex =
     eff_bind (read_run rn_attempt) (\<lambda>a.
     eff_bind (store_read port (\<lambda>s. try_then (assertOwner (ex_workspaceId ex) (tg_id (ex_target ex)) (da_id a) (ex_executionId ex) s) (\<lambda>t. Inr (t, s))))
       (\<lambda>(current, s).
     eff_bind (guard_checks port ex current) (\<lambda>_.
     set_run (\<lambda>r. r\<lparr> rn_trace := rn_trace r @ [Guarded s] \<rparr>))))"

fun handle_callback :: "publishing_port \<Rightarrow> execution \<Rightarrow> callback \<Rightarrow> unit prog" where
  "handle_callback port ex Before_upload = guard port ex"
| "handle_callback port ex Before_activation = eff_bind (guard port ex) (\<lambda>_. set_run (\<lambda>r. r\<lparr> rn_guardPassed := True \<rparr>))"
| "handle_callback port ex (Save_checkpoint c) =
     eff_bind (update_attempt port (ex_executionId ex) (\<lambda>a. a\<lparr> da_checkpoint := c \<rparr>)) (\<lambda>_. set_run (\<lambda>r. r\<lparr> rn_checkpoint := c \<rparr>))"

primrec converse :: "('c \<Rightarrow> unit prog) \<Rightarrow> ('c, 'r) conversation \<Rightarrow> 'r prog" where
  "converse handle (Answer result) = eff_lift result"
| "converse handle (Callback c k) = (\<lambda>r. case handle c r of (result, r') \<Rightarrow> converse handle (k result) r')"

definition release_file :: "string \<Rightarrow> string" where
  "release_file marker = ''{\"version\":\"1\",\"release\":'' @ json_string marker @ ''}'' @ [char_of (10 :: nat)]"

definition fits :: "hosting_capabilities \<Rightarrow> files \<Rightarrow> bool" where
  "fits c files \<longleftrightarrow> length files \<le> hp_maxFiles c \<and> (\<forall>f \<in> set files. length (snd f) \<le> hp_maxFileBytes c)
     \<and> sum_list (map (\<lambda>f. length (snd f)) files) \<le> hp_maxBytes c"

definition generate :: "publishing_port \<Rightarrow> execution \<Rightarrow> unit prog" where
  "generate port ex =
     (let w = ex_workspaceId ex; t = ex_target ex; caps = ad_capabilities (ex_adapter ex) in
     eff_bind (update_attempt port (ex_executionId ex) (\<lambda>a. a\<lparr> da_state := Generating \<rparr>)) (\<lambda>_.
     eff_bind (present (pi_snapshotReference (ex_intent ex))) (\<lambda>reference.
     eff_bind (store_read port (\<lambda>s. case getSnapshot s w reference of
         Some v \<Rightarrow> Inr v | None \<Rightarrow> web_throw ''snapshot_unavailable'')) (\<lambda>snapshot.
     eff_bind (eff_lift (pt_variant port snapshot t)) (\<lambda>variant.
     eff_bind (read_run rn_attempt) (\<lambda>a.
     case da_renderLimits a of None \<Rightarrow> throw_web ''snapshot_unavailable''
     | Some limits \<Rightarrow>
     eff_bind (eff_lift (pt_render port variant
         (limits\<lparr> wl_maxAssets := min (wl_maxAssets limits) (hp_maxFiles caps), wl_maxBytes := min (wl_maxBytes limits) (hp_maxBytes caps) \<rparr>)))
       (\<lambda>(sourceDigest, built).
       let files = ad_transformFiles (ex_adapter ex) built in
     eff_bind (eff_lift (pt_zip port files)) (\<lambda>plain.
       let marker = pt_digest port (''website-release:'' @ pt_digest port plain @ '':'' @ tg_ownershipMarker t);
           released = AList.update ''ubeeq-release.json'' (release_file marker) files in
     eff_bind (check_web (map_of files ''ubeeq-release.json'' = None) ''reserved_file'') (\<lambda>_.
     eff_bind (check_web (fits caps released) ''provider_limit'') (\<lambda>_.
     eff_bind (eff_lift (pt_validateFiles port variant released)) (\<lambda>_.
     eff_bind (eff_lift (pt_zip port released)) (\<lambda>archive.
     eff_bind (port_call (\<lambda>n. pt_putArtifact port n w (pt_digest port archive) archive released)) (\<lambda>_.
     update_attempt port (ex_executionId ex)
       (\<lambda>a. a\<lparr> da_artifactDigest := Some (pt_digest port archive), da_sourceArtifactDigest := Some sourceDigest, da_marker := Some marker \<rparr>))))))))))))))"

definition data_of :: "deployment_attempt \<Rightarrow> string \<Rightarrow> string option" where
  "data_of a key = map_of (cp_data (da_checkpoint a)) key"

definition context_of :: "execution \<Rightarrow> hosting_artifact option \<Rightarrow> run \<Rightarrow> hosting_context" where
  "context_of ex artifact r = \<lparr> cx_target = ex_target ex, cx_connection = ex_connection ex, cx_attemptId = da_id (rn_attempt r),
     cx_generation = da_generation (rn_attempt r), cx_operation = pi_operation (ex_intent ex), cx_artifact = artifact, cx_checkpoint = rn_checkpoint r \<rparr>"

definition talk :: "publishing_port \<Rightarrow> execution \<Rightarrow> hosting_artifact option \<Rightarrow> (nat \<Rightarrow> hosting_context \<Rightarrow> (callback, 'r) conversation) \<Rightarrow> 'r prog" where
  "talk port ex artifact f =
     eff_bind (read_run (context_of ex artifact)) (\<lambda>cx. eff_bind (port_call (\<lambda>n. Inr (f n cx))) (converse (handle_callback port ex)))"

definition prepare_step :: "publishing_port \<Rightarrow> execution \<Rightarrow> hosting_artifact option \<Rightarrow> unit prog" where
  "prepare_step port ex artifact =
     eff_bind (update_attempt port (ex_executionId ex) (\<lambda>a. a\<lparr> da_state := Uploading \<rparr>)) (\<lambda>_.
     eff_bind (talk port ex artifact (ad_prepare (ex_adapter ex))) (\<lambda>c. handle_callback port ex (Save_checkpoint c)))"

text \<open>The serving-changing call; its durable mark is written immediately before it.\<close>

definition activation_step :: "publishing_port \<Rightarrow> execution \<Rightarrow> hosting_artifact option \<Rightarrow> hosting_outcome prog" where
  "activation_step port ex artifact =
     eff_bind (update_attempt port (ex_executionId ex) (\<lambda>a. a\<lparr> da_state := Activating, da_activationStarted := True \<rparr>)) (\<lambda>_.
     if pi_operation (ex_intent ex) = Unpublish_operation then
       (case ad_unpublish (ex_adapter ex) of
          None \<Rightarrow> eff_return \<lparr> oc_state = Failed_outcome, oc_releaseId = None, oc_publicUrl = None, oc_reason = Some ''operator_action_required'' \<rparr>
        | Some f \<Rightarrow> eff_bind (set_run (\<lambda>r. r\<lparr> rn_trace := rn_trace r @ [Serving_change (rn_store r)] \<rparr>)) (\<lambda>_. talk port ex artifact f))
     else eff_bind (set_run (\<lambda>r. r\<lparr> rn_trace := rn_trace r @ [Serving_change (rn_store r)] \<rparr>)) (\<lambda>_.
       talk port ex artifact (ad_activate (ex_adapter ex))))"

definition same_url :: "publishing_port \<Rightarrow> hosting_outcome \<Rightarrow> hosting_target \<Rightarrow> bool prog" where
  "same_url port outcome t =
     (if \<not> truthy_opt (oc_publicUrl outcome) then eff_return True
      else eff_bind (eff_lift (pt_href port (the (oc_publicUrl outcome)))) (\<lambda>u.
           eff_bind (eff_lift (pt_href port (tg_publicUrl t))) (\<lambda>v. eff_return (u = v))))"

definition confirm_step :: "publishing_port \<Rightarrow> execution \<Rightarrow> hosting_artifact option \<Rightarrow> hosting_outcome \<Rightarrow> unit prog" where
  "confirm_step port ex artifact outcome =
     (let x = ex_executionId ex; disabled = (oc_state outcome = Disabled_outcome); confirmed = (oc_releaseId outcome, disabled) in
     eff_bind (if truthy_opt (oc_releaseId outcome) then same_url port outcome (ex_target ex) else eff_return False) (\<lambda>ok.
     eff_bind (check_web ok ''target_identity_changed'') (\<lambda>_.
     eff_bind (set_run (\<lambda>r. r\<lparr> rn_confirmed := Some confirmed \<rparr>)) (\<lambda>_.
     eff_bind (update_attempt port x (\<lambda>a. a\<lparr> da_state := Verifying, da_checkpoint := (da_checkpoint a)\<lparr> cp_releaseId := oc_releaseId outcome \<rparr> \<rparr>)) (\<lambda>_.
     eff_bind (talk port ex artifact (\<lambda>n cx. ad_verify (ex_adapter ex) n cx outcome)) (\<lambda>v.
     eff_bind (update_attempt port x (\<lambda>a. a\<lparr> da_verification := Some v \<rparr>)) (\<lambda>_.
     if \<not> vf_associationConfirmed v then finish_attempt port x Unknown_outcome (Some ''association_unconfirmed'') None
     else eff_bind (finish_attempt port x
         (if vf_publicConfirmed v then if disabled then Unpublished else Published else Verifying)
         (if vf_publicConfirmed v then None else Some ''verification_pending'') (Some confirmed)) (\<lambda>_.
       port_call (\<lambda>n. pt_audit port n ''website.deployment'')))))))))"

definition deploy :: "publishing_port \<Rightarrow> execution \<Rightarrow> unit prog" where
  "deploy port ex =
     (let x = ex_executionId ex; t = ex_target ex; publishing = (pi_operation (ex_intent ex) \<noteq> Unpublish_operation) in
     eff_bind (read_run rn_attempt) (\<lambda>a.
     eff_bind (when_web (ad_family (ex_adapter ex) = Hostinger \<and> \<not> truthy_opt (data_of a ''hostingerPreparingAt''))
       (eff_bind (now_time port) (\<lambda>now. update_attempt port x
          (\<lambda>a. a\<lparr> da_checkpoint := (da_checkpoint a)\<lparr> cp_data := AList.update ''hostingerPreparingAt'' now (cp_data (da_checkpoint a)) \<rparr> \<rparr>)))) (\<lambda>_.
     eff_bind (guard port ex) (\<lambda>_.
     eff_bind (port_call (\<lambda>n. ad_validateTarget (ex_adapter ex) n t (ex_connection ex))) (\<lambda>_.
     eff_bind (when_web (publishing \<and> \<not> truthy_opt (da_artifactDigest a)) (generate port ex)) (\<lambda>_.
     eff_bind (read_run rn_attempt) (\<lambda>a.
     eff_bind (if publishing then eff_bind (readArtifact port t a) (\<lambda>f. eff_return (Some f)) else eff_return None) (\<lambda>artifact.
     eff_bind (set_run (\<lambda>r. r\<lparr> rn_checkpoint := da_checkpoint (rn_attempt r) \<rparr>)) (\<lambda>_.
     eff_bind (when_web publishing (prepare_step port ex artifact)) (\<lambda>_.
     eff_bind (guard port ex) (\<lambda>_.
     eff_bind (activation_step port ex artifact) (\<lambda>outcome.
     case oc_state outcome of
       Unconfirmed_outcome \<Rightarrow> finish_attempt port x Unknown_outcome (Some (case oc_reason outcome of Some why \<Rightarrow> why | None \<Rightarrow> ''activation_unconfirmed'')) None
     | Pending_outcome \<Rightarrow> finish_attempt port x Unknown_outcome (Some (case oc_reason outcome of Some why \<Rightarrow> why | None \<Rightarrow> ''activation_unconfirmed'')) None
     | Failed_outcome \<Rightarrow> finish_attempt port x Failed_attempt (Some (case oc_reason outcome of Some why \<Rightarrow> why | None \<Rightarrow> ''activation_failed'')) None
     | _ \<Rightarrow> confirm_step port ex artifact outcome))))))))))))"


datatype execution_result = Attempt_result deployment_attempt | Busy_result

fun error_code :: "web_error \<Rightarrow> string" where
  "error_code (Website_error code _) = code"
| "error_code (Activation_rejected code _) = code"
| "error_code Other_error = ''hosting_failed''"

fun error_seconds :: "web_error \<Rightarrow> nat" where
  "error_seconds (Website_error _ s) = (case s of Some n \<Rightarrow> n | None \<Rightarrow> 0)"
| "error_seconds (Activation_rejected _ s) = (case s of Some n \<Rightarrow> n | None \<Rightarrow> 0)"
| "error_seconds Other_error = 0"

fun rejected :: "web_error \<Rightarrow> bool" where
  "rejected (Activation_rejected _ _) = True"
| "rejected _ = False"

definition mark_retry :: "publishing_port \<Rightarrow> string \<Rightarrow> nat \<Rightarrow> unit prog" where
  "mark_retry port x seconds =
     eff_bind (now_time port) (\<lambda>now.
     case Option.bind (date_parse now) (\<lambda>ms. to_iso (ms + int seconds * 1000)) of
       None \<Rightarrow> eff_lift (Inl Other_error)
     | Some after \<Rightarrow> update_attempt port x (\<lambda>a. a\<lparr> da_retryAfter := Some after \<rparr>))"

text \<open>A provider that is still preparing its site is tried again for a quarter of an hour.\<close>

definition preparing :: "publishing_port \<Rightarrow> web_error \<Rightarrow> bool prog" where
  "preparing port e =
     eff_bind (read_run rn_attempt) (\<lambda>a.
     let since = data_of a ''hostingerPreparingAt'' in
     if e \<noteq> Other_error \<and> truthy_opt since \<and> \<not> da_activationStarted a
        \<and> error_code e \<in> {''provider_outcome_unknown'', ''rate_limited'', ''setup_pending''}
     then eff_bind (now_time port) (\<lambda>now. eff_return (case (date_parse now, date_parse (the since)) of
            (Some n, Some p) \<Rightarrow> n - p < 900000 | _ \<Rightarrow> False))
     else eff_return False)"

definition failure_state :: "run \<Rightarrow> web_error \<Rightarrow> attempt_state" where
  "failure_state r e =
     (if rn_confirmed r \<noteq> None then Verifying
      else if rn_guardPassed r \<and> \<not> rejected e then Unknown_outcome
      else if error_code e = ''superseded'' then Superseded
      else if error_code e = ''reconnect_required'' then Reconnect_required
      else Failed_attempt)"

definition failure_step :: "publishing_port \<Rightarrow> string \<Rightarrow> string \<Rightarrow> string \<Rightarrow> web_error \<Rightarrow> execution_result prog" where
  "failure_step port w attemptId x e =
     eff_bind (preparing port e) (\<lambda>again.
     eff_bind (read_run rn_attempt) (\<lambda>a.
     if again then
       eff_bind (when_web (error_seconds e \<noteq> 0) (mark_retry port x (error_seconds e))) (\<lambda>_.
       eff_bind (finish_attempt port x Uploading (Some (error_code e)) None) (\<lambda>_. read_run (\<lambda>r. Attempt_result (rn_attempt r))))
     else if e \<noteq> Other_error \<and> error_code e = ''upload_interrupted'' \<and> truthy_opt (data_of a ''archive'') then
       eff_bind (finish_attempt port x Uploading (Some ''upload_interrupted'') None) (\<lambda>_. read_run (\<lambda>r. Attempt_result (rn_attempt r)))
     else if error_code e = ''writer_fenced'' then
       eff_bind (store_read port (\<lambda>s. Inr (getAttempt s w attemptId))) (\<lambda>found. eff_bind (present found) (\<lambda>a. eff_return (Attempt_result a)))
     else
       eff_bind (when_web (rejected e \<and> error_seconds e \<noteq> 0) (mark_retry port x (error_seconds e))) (\<lambda>_.
       eff_bind (read_run (\<lambda>r. r)) (\<lambda>r.
       eff_bind (finish_attempt port x (failure_state r e) (Some (error_code e)) (rn_confirmed r)) (\<lambda>_.
       read_run (\<lambda>r. Attempt_result (rn_attempt r)))))))"

definition run_execution :: "publishing_port \<Rightarrow> string \<Rightarrow> string \<Rightarrow> publish_intent \<Rightarrow> execution_result prog" where
  "run_execution port w x intent =
     eff_bind (read_run rn_attempt) (\<lambda>a.
     eff_bind (store_read port (assertOwner w (da_targetId a) (da_id a) x)) (\<lambda>t.
     eff_bind (eff_lift (find_adapter port (tg_adapterId t))) (\<lambda>adapter.
     eff_bind (connection_of port t) (\<lambda>connection.
     eff_bind (deploy port \<lparr> ex_workspaceId = w, ex_executionId = x, ex_intent = intent,
         ex_actor = \<lparr> ac_workspaceId = w, ac_actorId = pi_actorId intent \<rparr>, ex_target = t, ex_adapter = adapter, ex_connection = connection \<rparr>) (\<lambda>_.
     read_run (\<lambda>r. Attempt_result (rn_attempt r)))))))"

subsection \<open>Reconciling an attempt\<close>

text \<open>The context of a reconciliation refuses to restage or activate; \<open>beforeUpload\<close> is absent, so calling it conditionally does nothing.\<close>

primrec converse_read_only :: "(callback, 'r) conversation \<Rightarrow> web_error + 'r" where
  "converse_read_only (Answer result) = result"
| "converse_read_only (Callback c k) = converse_read_only (k (if c = Before_upload then Inr () else web_throw ''reconcile_read_only''))"

definition reconcile_settle :: "publishing_port \<Rightarrow> string \<Rightarrow> string \<Rightarrow> deployment_attempt \<Rightarrow> hosting_target \<Rightarrow> execution_result prog" where
  "reconcile_settle port w x a t =
     eff_bind (store_read port (\<lambda>s. Inr (getIntent s w (da_intentId a)))) (\<lambda>found.
     eff_bind (present found) (\<lambda>intent.
       let actor = \<lparr> ac_workspaceId = w, ac_actorId = pi_actorId intent \<rparr>; publishing = (pi_operation intent \<noteq> Unpublish_operation) in
     eff_bind (eff_lift (find_adapter port (tg_adapterId t))) (\<lambda>adapter.
     eff_bind (port_call (\<lambda>n. pt_authorize port n actor Publish_action (Some t))) (\<lambda>_.
     eff_bind (connection_of port t) (\<lambda>connection.
     eff_bind (when_web publishing (port_call (\<lambda>n. pt_authorizePublication port n actor (pi_websiteId intent) (da_creatorIdentityId a) (da_dependencies a)))) (\<lambda>_.
     eff_bind (if publishing then eff_bind (readArtifact port t a) (\<lambda>f. eff_return (Some f)) else eff_return None) (\<lambda>artifact.
       let cx = \<lparr> cx_target = t, cx_connection = connection, cx_attemptId = da_id a, cx_generation = da_generation a, cx_operation = pi_operation intent,
           cx_artifact = artifact, cx_checkpoint = da_checkpoint a \<rparr> in
     eff_bind (port_call (\<lambda>n. converse_read_only (ad_reconcile adapter n cx))) (\<lambda>result.
     if oc_state result \<notin> {Activated_outcome, Disabled_outcome} then eff_return (Attempt_result a)
     else eff_bind (port_call (\<lambda>n. converse_read_only (ad_verify adapter n cx result))) (\<lambda>v.
     if \<not> vf_associationConfirmed v then eff_return (Attempt_result a)
     else let disabled = (oc_state result = Disabled_outcome) in
       eff_bind (now_time port) (\<lambda>now.
       let a' = a\<lparr> da_revision := da_revision a + 1, da_errorCode := (if vf_publicConfirmed v then None else da_errorCode a), da_verification := Some v,
             da_checkpoint := (da_checkpoint a)\<lparr> cp_releaseId := oc_releaseId result \<rparr>,
             da_state := (if vf_publicConfirmed v then if disabled then Unpublished else Published else Verifying), da_updatedAt := now \<rparr> in
       eff_bind (store_write port (finishAttempt a' (da_revision a) x (if vf_publicConfirmed v then Some (oc_releaseId result, disabled) else None))) (\<lambda>_.
       eff_return (Attempt_result a'))))))))))))"

definition reconcile :: "publishing_port \<Rightarrow> string \<Rightarrow> string \<Rightarrow> execution_result prog" where
  "reconcile port w i =
     eff_bind (store_read port (\<lambda>s. case getAttempt s w i of Some a \<Rightarrow> Inr a | None \<Rightarrow> web_throw ''attempt_not_found'')) (\<lambda>a.
     if terminal (da_state a) then eff_return (Attempt_result a)
     else eff_bind (store_read port (\<lambda>s. case getTarget s w (da_targetId a) of Some t \<Rightarrow> Inr t | None \<Rightarrow> web_throw ''target_not_found'')) (\<lambda>t.
     if tg_activeGeneration t > da_generation a then eff_return (Attempt_result (a\<lparr> da_state := Superseded \<rparr>))
     else if locked_by t (da_id a) then reconcile_settle port w (lk_executionId (the (tg_lock t))) a t
     else eff_bind (fresh_id port) (\<lambda>x.
       eff_bind (store_call port (claim_target w (tg_id t) (da_id a) x)) (\<lambda>granted.
       if \<not> granted then eff_return Busy_result
       else eff_bind (store_read port (\<lambda>s. Inr (getAttempt s w (da_id a)))) (\<lambda>found. eff_bind (present found) (\<lambda>a.
         eff_bind (store_read port (\<lambda>s. Inr (getTarget s w (tg_id t)))) (\<lambda>found. eff_bind (present found) (\<lambda>t.
         reconcile_settle port w x a t))))))))"

definition execute :: "publishing_port \<Rightarrow> string \<Rightarrow> string \<Rightarrow> execution_result prog" where
  "execute port w i =
     eff_bind (store_read port (\<lambda>s. case getAttempt s w i of Some a \<Rightarrow> Inr a | None \<Rightarrow> web_throw ''attempt_not_found'')) (\<lambda>a.
     if terminal (da_state a) then eff_return (Attempt_result a)
     else if da_activationStarted a then reconcile port w i
     else eff_bind (fresh_id port) (\<lambda>x.
       eff_bind (store_call port (claim_target w (da_targetId a) (da_id a) x)) (\<lambda>granted.
       if \<not> granted then eff_return Busy_result
       else eff_bind (store_read port (\<lambda>s. Inr (getAttempt s w i))) (\<lambda>found. eff_bind (present found) (\<lambda>a.
         eff_bind (store_read port (\<lambda>s. Inr (getIntent s w (da_intentId a)))) (\<lambda>found. eff_bind (present found) (\<lambda>intent.
         eff_bind (set_run (\<lambda>r. r\<lparr> rn_attempt := a, rn_guardPassed := False, rn_confirmed := None \<rparr>)) (\<lambda>_.
         catch_prog (run_execution port w x intent) (failure_step port w i x)))))))))"


subsection \<open>Other processes\<close>

text \<open>A later version of an attempt.\<close>

definition newer :: "deployment_attempt \<Rightarrow> deployment_attempt \<Rightarrow> bool" where
  "newer a b \<longleftrightarrow> continues a b \<and> (b = a \<or> da_revision a < da_revision b)"

lemma continues_trans: "continues a b \<Longrightarrow> continues b c \<Longrightarrow> continues a c"
  by (simp add: continues_def)

lemma newer_trans: "newer a b \<Longrightarrow> newer b c \<Longrightarrow> newer a c"
  by (auto simp: newer_def intro: continues_trans)

lemma stored_started: "hosting_ok s \<Longrightarrow> getAttempt s w i = Some a \<Longrightarrow> da_state a = Activating \<Longrightarrow> da_activationStarted a"
  by (auto simp: hosting_ok_def attempt_ok_def dest: tables_okD(2))

lemma newer_stored: "hosting_ok s \<Longrightarrow> getAttempt s w i = Some a \<Longrightarrow> newer a a"
  by (auto simp: newer_def continues_def dest: stored_started)

lemma updateAttempt_revision:
  assumes "updateAttempt a e x s = Inr s'"
  shows "da_revision a = e + 1" "getAttempt s (da_workspaceId a) (da_id a) = Some b \<Longrightarrow> da_revision b = e"
proof -
  have u: "save_attempt (da_workspaceId a) a e s = Inr s'" using assms unfolding updateAttempt_def try_then_Inr_iff by blast
  show "da_revision a = e + 1" by (rule save_attempt_Inr(3) [OF u])
  show "getAttempt s (da_workspaceId a) (da_id a) = Some b \<Longrightarrow> da_revision b = e" using save_attempt_Inr(4) [OF u] by auto
qed

lemma finishAttempt_revision:
  assumes "finishAttempt a e x outcome s = Inr s'"
  shows "da_revision a = e + 1" "getAttempt s (da_workspaceId a) (da_id a) = Some b \<Longrightarrow> da_revision b = e"
proof -
  obtain s1 where u: "save_attempt (da_workspaceId a) a e s = Inr s1" using assms unfolding finishAttempt_def try_then_Inr_iff by blast
  show "da_revision a = e + 1" by (rule save_attempt_Inr(3) [OF u])
  show "getAttempt s (da_workspaceId a) (da_id a) = Some b \<Longrightarrow> da_revision b = e" using save_attempt_Inr(4) [OF u] by auto
qed

lemma put2_newer: "hosting_ok s \<Longrightarrow> getAttempt s w i = Some a \<Longrightarrow> (v = w \<and> j = i \<Longrightarrow> newer a a') \<Longrightarrow> \<exists>b. put2 (getAttempt s) v j a' w i = Some b \<and> newer a b"
  using newer_stored by (cases "w = v \<and> i = j") auto

lemma acceptTargets_attempts:
  "acceptTargets v attempts ts s = Inr s' \<Longrightarrow> getAttempt s w i = Some a \<Longrightarrow> getAttempt s' w i = Some a"
proof (induction ts arbitrary: s)
  case (Cons e ts)
  then obtain s1 where s1: "acceptTarget v attempts e s = Inr s1" and r: "acceptTargets v attempts ts s1 = Inr s'" by auto
  obtain x where x: "getAttempt s1 = put2 (getAttempt s) v (da_id x) x" "getAttempt s v (da_id x) = None" by (rule acceptTarget_Inr [OF s1])
  have "getAttempt s1 w i = Some a" using x Cons.prems(2) by (cases "w = v \<and> i = da_id x") auto
  then show ?case by (rule Cons.IH [OF r])
qed simp

lemma step_newer:
  assumes "hosting_step s s'" "hosting_ok s" "getAttempt s w i = Some a"
  shows "\<exists>b. getAttempt s' w i = Some b \<and> newer a b"
proof -
  have same: "\<exists>b. getAttempt s' w i = Some b \<and> newer a b" if "getAttempt s' = getAttempt s"
    using assms(2,3) that newer_stored by auto
  from assms(1) show ?thesis
  proof (cases rule: hosting_step.cases)
    case (step_serving v k state required)
    then show ?thesis by (intro same) (auto simp: setServingState_def web_throw_def getAttempt_def split: option.splits)
  next
    case step_configure
    then show ?thesis by (intro same) (rule saveTarget_Inr)
  next
    case (step_accept input r)
    from step_accept(1) show ?thesis
    proof (cases rule: acceptIntent_Inr)
      case replayed
      then show ?thesis by (intro same) simp
    next
      case (accepted s1)
      then show ?thesis using acceptTargets_attempts [OF accepted(3) assms(3)] newer_stored [OF assms(2,3)] by auto
    qed
  next
    case (step_claim v k j x granted)
    from step_claim(1) show ?thesis
    proof (cases rule: claim_Inr)
      case refused
      then show ?thesis by (intro same) simp
    next
      case (granted t b)
      have b: "da_id b = j" using getAttempt_id [OF assms(2) granted(3)] by simp
      show ?thesis unfolding granted(7) b
      proof (rule put2_newer [OF assms(2,3)])
        assume "v = w \<and> j = i"
        then have "b = a" using granted(3) assms(3) by simp
        then show "newer a (b\<lparr> da_executionId := Some x, da_revision := da_revision b + 1 \<rparr>)"
          using stored_started [OF assms(2,3)] by (simp add: newer_def continues_def)
      qed
    qed
  next
    case (step_update c e x b)
    have s': "getAttempt s' = put2 (getAttempt s) (da_workspaceId c) (da_id c) c" by (rule updateAttempt_Inr [OF step_update(1)])
    show ?thesis unfolding s'
      by (rule put2_newer [OF assms(2,3)]) (use step_update assms(3) updateAttempt_revision [OF step_update(1)] in \<open>auto simp: newer_def\<close>)
  next
    case (step_finish c e x outcome b)
    have s': "getAttempt s' = put2 (getAttempt s) (da_workspaceId c) (da_id c) c" by (rule finishAttempt_Inr [OF step_finish(1)])
    show ?thesis unfolding s'
      by (rule put2_newer [OF assms(2,3)]) (use step_finish assms(3) finishAttempt_revision [OF step_finish(1)] in \<open>auto simp: newer_def\<close>)
  next
    case step_binding
    then show ?thesis using hosting_effects(1) same by blast
  next
    case step_connection
    then show ?thesis using hosting_effects(2) same by blast
  next
    case step_plan
    then show ?thesis using hosting_effects(3) same by blast
  next
    case step_cleanup
    then show ?thesis using hosting_effects(4) same by blast
  next
    case step_acknowledge
    then show ?thesis using hosting_effects(6) same by blast
  next
    case step_domain
    then show ?thesis using hosting_effects(7) same by blast
  qed
qed

definition others_follow_protocol :: "publishing_port \<Rightarrow> bool" where
  "others_follow_protocol port \<longleftrightarrow> (\<forall>n s. hosting_step\<^sup>*\<^sup>* s (pt_others port n s))"

lemma steps_reachable: "hosting_step\<^sup>*\<^sup>* s s' \<Longrightarrow> hosting_reachable s \<Longrightarrow> hosting_reachable s'"
  by (induction rule: rtranclp_induct) (auto intro: hosting_next)

lemma steps_newer:
  assumes "hosting_step\<^sup>*\<^sup>* s s'" "hosting_reachable s" "getAttempt s w i = Some a"
  shows "\<exists>b. getAttempt s' w i = Some b \<and> newer a b"
  using assms(1)
proof (induction rule: rtranclp_induct)
  case base
  then show ?case using assms(3) newer_stored [OF hosting_reachable_ok [OF assms(2)]] by auto
next
  case (step u v)
  then obtain b where b: "getAttempt u w i = Some b" "newer a b" by blast
  have "hosting_ok u" by (rule hosting_reachable_ok [OF steps_reachable [OF step(1) assms(2)]])
  from step_newer [OF step(2) this b(1)] show ?case using newer_trans [OF b(2)] by blast
qed


subsection \<open>What a piece of an execution does\<close>

named_theorems prog_rules \<open>pieces of an execution that change nothing but their own attempt\<close>

text \<open>An execution is identified by workspace, attempt, target, generation and execution id.\<close>

type_synonym deployment_key = "string \<times> string \<times> string \<times> int \<times> string"

fun bound_to :: "deployment_key \<Rightarrow> run \<Rightarrow> bool" where
  "bound_to (w, i, tid, gen, x) r \<longleftrightarrow> hosting_reachable (rn_store r)
     \<and> (\<exists>b. getAttempt (rn_store r) w i = Some b \<and> newer (rn_attempt r) b \<and> da_targetId b = tid \<and> da_generation b = gen)"

fun guarded_by :: "deployment_key \<Rightarrow> hosting \<Rightarrow> bool" where
  "guarded_by (w, i, tid, gen, x) s \<longleftrightarrow> hosting_reachable s
     \<and> (\<exists>t. getTarget s w tid = Some t \<and> holds_lock t i x \<and> tg_desiredGeneration t = gen)"

fun changing_by :: "deployment_key \<Rightarrow> hosting \<Rightarrow> bool" where
  "changing_by (w, i, tid, gen, x) s \<longleftrightarrow> hosting_reachable s
     \<and> (\<exists>a t. getAttempt s w i = Some a \<and> da_targetId a = tid \<and> da_generation a = gen \<and> da_state a = Activating
          \<and> getTarget s w tid = Some t \<and> holds_lock t i x)"

definition only_guards :: "deployment_key \<Rightarrow> run \<Rightarrow> run \<Rightarrow> bool" where
  "only_guards k r r' \<longleftrightarrow> (\<exists>gs. rn_trace r' = rn_trace r @ map Guarded gs \<and> list_all (guarded_by k) gs)"

definition one_change :: "deployment_key \<Rightarrow> run \<Rightarrow> run \<Rightarrow> bool" where
  "one_change k r r' \<longleftrightarrow> (\<exists>gs g s gs'. rn_trace r' = rn_trace r @ map Guarded gs @ [Guarded g, Serving_change s] @ map Guarded gs'
     \<and> list_all (guarded_by k) (gs @ g # gs') \<and> changing_by k s)"

definition quiet :: "deployment_key \<Rightarrow> 'a prog \<Rightarrow> bool" where
  "quiet k m \<longleftrightarrow> (\<forall>r res r'. bound_to k r \<longrightarrow> m r = (res, r') \<longrightarrow> bound_to k r' \<and> only_guards k r r')"

definition changes_once :: "deployment_key \<Rightarrow> 'a prog \<Rightarrow> bool" where
  "changes_once k m \<longleftrightarrow> (\<forall>r res r'. bound_to k r \<longrightarrow> m r = (res, r') \<longrightarrow> bound_to k r' \<and> (only_guards k r r' \<or> one_change k r r'))"

lemma quietD: "quiet k m \<Longrightarrow> bound_to k r \<Longrightarrow> m r = (res, r') \<Longrightarrow> bound_to k r' \<and> only_guards k r r'"
  unfolding quiet_def by blast

lemma only_guards_refl [simp]: "rn_trace r' = rn_trace r \<Longrightarrow> only_guards k r r'"
  unfolding only_guards_def by (intro exI [of _ "[]"]) simp

lemma only_guards_trans: "only_guards k r r' \<Longrightarrow> only_guards k r' r'' \<Longrightarrow> only_guards k r r''"
  unfolding only_guards_def by (metis append.assoc list_all_append map_append)

lemma change_after_guards: "only_guards k r r' \<Longrightarrow> one_change k r' r'' \<Longrightarrow> one_change k r r''"
proof -
  assume "only_guards k r r'" "one_change k r' r''"
  then obtain hs gs g s gs' where "rn_trace r' = rn_trace r @ map Guarded hs" "list_all (guarded_by k) hs"
      "rn_trace r'' = rn_trace r' @ map Guarded gs @ [Guarded g, Serving_change s] @ map Guarded gs'"
      "list_all (guarded_by k) (gs @ g # gs')" "changing_by k s"
    unfolding only_guards_def one_change_def by blast
  then show ?thesis unfolding one_change_def by (intro exI [of _ "hs @ gs"] exI [of _ g] exI [of _ s] exI [of _ gs']) simp
qed

lemma change_before_guards: "one_change k r r' \<Longrightarrow> only_guards k r' r'' \<Longrightarrow> one_change k r r''"
proof -
  assume "one_change k r r'" "only_guards k r' r''"
  then obtain hs gs g s gs' where "rn_trace r'' = rn_trace r' @ map Guarded hs" "list_all (guarded_by k) hs"
      "rn_trace r' = rn_trace r @ map Guarded gs @ [Guarded g, Serving_change s] @ map Guarded gs'"
      "list_all (guarded_by k) (gs @ g # gs')" "changing_by k s"
    unfolding only_guards_def one_change_def by blast
  then show ?thesis unfolding one_change_def by (intro exI [of _ gs] exI [of _ g] exI [of _ s] exI [of _ "gs' @ hs"]) simp
qed

lemma quiet_bind [prog_rules]:
  assumes "quiet k m" "\<And>x. quiet k (f x)"
  shows "quiet k (eff_bind m f)"
  unfolding quiet_def
proof (intro allI impI)
  fix r res r' assume b: "bound_to k r" and e: "eff_bind m f r = (res, r')"
  from e show "bound_to k r' \<and> only_guards k r r'"
  proof (cases rule: eff_bindE)
    case (throws e)
    then show ?thesis using quietD [OF assms(1) b] by blast
  next
    case (continues x r1)
    then show ?thesis using quietD [OF assms(1) b continues(1)] quietD [OF assms(2)] only_guards_trans by blast
  qed
qed

lemma changes_quiet: "quiet k m \<Longrightarrow> changes_once k m"
  unfolding quiet_def changes_once_def by blast

lemma changes_bind:
  assumes "quiet k m" "\<And>x. changes_once k (f x)"
  shows "changes_once k (eff_bind m f)"
  unfolding changes_once_def
proof (intro allI impI)
  fix r res r' assume b: "bound_to k r" and e: "eff_bind m f r = (res, r')"
  from e show "bound_to k r' \<and> (only_guards k r r' \<or> one_change k r r')"
  proof (cases rule: eff_bindE)
    case (throws e)
    then show ?thesis using quietD [OF assms(1) b] by blast
  next
    case (continues x r1)
    then have q: "bound_to k r1" "only_guards k r r1" using quietD [OF assms(1) b] by blast+
    then have "bound_to k r' \<and> (only_guards k r1 r' \<or> one_change k r1 r')" using assms(2) continues(2) unfolding changes_once_def by blast
    then show ?thesis using q(2) only_guards_trans change_after_guards by blast
  qed
qed

lemma quiet_same: "(\<And>r res r'. m r = (res, r') \<Longrightarrow> rn_store r' = rn_store r \<and> rn_attempt r' = rn_attempt r \<and> rn_trace r' = rn_trace r) \<Longrightarrow> quiet k m"
  by (cases k) (auto simp: quiet_def)

lemma quiet_basics [prog_rules]:
  "quiet k (eff_return x)" "quiet k (eff_lift y)" "quiet k (throw_web code)" "quiet k (read_run f)" "quiet k (port_call g)" "quiet k (present z)"
  "quiet k (check_web ok code)" "quiet k (now_time port)" "quiet k (fresh_id port)"
  by (rule quiet_same, auto simp: eff_return_def eff_lift_def throw_web_def read_run_def port_call_def present_def check_web_def now_time_def fresh_id_def
      split: if_splits)+

lemma quiet_set [prog_rules]:
  "quiet k (set_run (\<lambda>r. r\<lparr> rn_guardPassed := b \<rparr>))" "quiet k (set_run (\<lambda>r. r\<lparr> rn_confirmed := c \<rparr>))" "quiet k (set_run (\<lambda>r. r\<lparr> rn_checkpoint := f r \<rparr>))"
  by (rule quiet_same, auto simp: set_run_def)+

lemma quiet_when [prog_rules]: "quiet k m \<Longrightarrow> quiet k (when_web c m)"
  by (simp add: when_web_def prog_rules)

lemma bound_step:
  assumes "others_follow_protocol port" "bound_to k r" "hosting_step\<^sup>*\<^sup>* (pt_others port n (rn_store r)) s'"
  shows "bound_to k (r\<lparr> rn_tick := m, rn_store := s' \<rparr>)" "hosting_reachable (pt_others port n (rn_store r))"
proof -
  obtain w i tid gen x where k: "k = (w, i, tid, gen, x)" by (cases k)
  have o': "hosting_step\<^sup>*\<^sup>* (rn_store r) (pt_others port n (rn_store r))" using assms(1) by (simp add: others_follow_protocol_def)
  then have s: "hosting_step\<^sup>*\<^sup>* (rn_store r) s'" using assms(3) by (rule rtranclp_trans)
  have h: "hosting_reachable (rn_store r)" using assms(2) by (simp add: k)
  show "hosting_reachable (pt_others port n (rn_store r))" by (rule steps_reachable [OF o' h])
  obtain b where b: "getAttempt (rn_store r) w i = Some b" "newer (rn_attempt r) b" "da_targetId b = tid" "da_generation b = gen"
    using assms(2) by (auto simp: k)
  obtain c where "getAttempt s' w i = Some c" "newer b c" using steps_newer [OF s h b(1)] by blast
  then show "bound_to k (r\<lparr> rn_tick := m, rn_store := s' \<rparr>)"
    using steps_reachable [OF s h] newer_trans [OF b(2)] b(3,4) by (auto simp: k newer_def continues_def)
qed

lemma quiet_store_call:
  assumes "others_follow_protocol port" "\<And>s y s'. f s = Inr (y, s') \<Longrightarrow> hosting_step\<^sup>*\<^sup>* s s'"
  shows "quiet k (store_call port f)"
  unfolding quiet_def
proof (intro allI impI)
  fix r res r' assume b: "bound_to k r" and e: "store_call port f r = (res, r')"
  obtain s' where "r' = r\<lparr> rn_tick := rn_tick r + 1, rn_store := s' \<rparr>" "hosting_step\<^sup>*\<^sup>* (pt_others port (rn_tick r) (rn_store r)) s'"
  proof (cases "f (pt_others port (rn_tick r) (rn_store r))")
    case (Inl err)
    then show ?thesis using e by (intro that [of "pt_others port (rn_tick r) (rn_store r)"]) (auto simp: store_call_def Let_def)
  next
    case (Inr p)
    then show ?thesis using e assms(2) by (intro that [of "snd p"]) (auto simp: store_call_def Let_def split: prod.splits)
  qed
  then show "bound_to k r' \<and> only_guards k r r'" using bound_step(1) [OF assms(1) b] by simp
qed

lemma quiet_store_read [prog_rules]: "others_follow_protocol port \<Longrightarrow> quiet k (store_read port f)"
  unfolding store_read_def by (rule quiet_store_call) auto

lemma quiet_connection [prog_rules]: "others_follow_protocol port \<Longrightarrow> quiet k (connection_of port t)"
  by (simp add: connection_of_def prog_rules)

lemma quiet_artifact [prog_rules]: "others_follow_protocol port \<Longrightarrow> quiet k (readArtifact port t a)"
  by (auto simp: readArtifact_def Let_def split: option.splits prod.splits intro!: prog_rules)


subsection \<open>Checkpoints and settlements\<close>

definition stamped :: "publishing_port \<Rightarrow> run \<Rightarrow> (deployment_attempt \<Rightarrow> deployment_attempt) \<Rightarrow> deployment_attempt" where
  "stamped port r patch = (patch (rn_attempt r))\<lparr> da_revision := da_revision (rn_attempt r) + 1, da_updatedAt := pt_now port (rn_tick r) \<rparr>"

lemma update_attempt_eq:
  "update_attempt port x patch r =
     (let s = pt_others port (rn_tick r + 1) (rn_store r) in
      case updateAttempt (stamped port r patch) (da_revision (rn_attempt r)) x s of
        Inl e \<Rightarrow> (Inl e, r\<lparr> rn_tick := rn_tick r + 2, rn_store := s \<rparr>)
      | Inr s' \<Rightarrow> (Inr (), r\<lparr> rn_tick := rn_tick r + 2, rn_store := s', rn_attempt := stamped port r patch \<rparr>))"
  by (simp add: update_attempt_def eff_bind_def now_time_def port_call_def read_run_def store_write_def store_call_def set_run_def stamped_def
      Let_def split: sum.splits)

lemma finish_attempt_eq:
  "finish_attempt port x state err outcome r =
     (let s = pt_others port (rn_tick r + 1) (rn_store r); a = stamped port r (\<lambda>a. a\<lparr> da_state := state, da_errorCode := err \<rparr>) in
      case finishAttempt a (da_revision (rn_attempt r)) x (if state \<in> {Published, Unpublished} then outcome else None) s of
        Inl e \<Rightarrow> (Inl e, r\<lparr> rn_tick := rn_tick r + 2, rn_store := s \<rparr>)
      | Inr s' \<Rightarrow> (Inr (), r\<lparr> rn_tick := rn_tick r + 2, rn_store := s', rn_attempt := a \<rparr>))"
  by (simp add: finish_attempt_def eff_bind_def now_time_def port_call_def read_run_def store_write_def store_call_def set_run_def stamped_def
      Let_def split: sum.splits)

definition keeps_identity :: "(deployment_attempt \<Rightarrow> deployment_attempt) \<Rightarrow> bool" where
  "keeps_identity f \<longleftrightarrow> (\<forall>a. da_id (f a) = da_id a \<and> da_workspaceId (f a) = da_workspaceId a \<and> da_targetId (f a) = da_targetId a
     \<and> da_generation (f a) = da_generation a \<and> (da_activationStarted a \<longrightarrow> da_activationStarted (f a))
     \<and> (da_state (f a) = Activating \<longrightarrow> da_state a = Activating \<or> da_activationStarted (f a)))"

text \<open>The compare-and-swap succeeds only on the version the execution knows.\<close>

lemma stored_is_local:
  assumes "hosting_reachable s" "getAttempt s w i = Some b" "newer a b" "da_revision b = da_revision a"
  shows "b = a" "da_id a = i" "da_workspaceId a = w"
  using assms getAttempt_id [OF hosting_reachable_ok [OF assms(1)] assms(2)] by (auto simp: newer_def)

lemma stamped_continues:
  assumes "keeps_identity patch" "hosting_reachable s" "getAttempt s w i = Some (rn_attempt r)"
  shows "continues (rn_attempt r) (stamped port r patch)" "da_id (stamped port r patch) = da_id (rn_attempt r)"
    "da_workspaceId (stamped port r patch) = da_workspaceId (rn_attempt r)" "da_targetId (stamped port r patch) = da_targetId (rn_attempt r)"
  using assms(1) stored_started [OF hosting_reachable_ok [OF assms(2)] assms(3)]
  by (auto simp: keeps_identity_def stamped_def continues_def)

lemma bound_stored:
  assumes "hosting_reachable s" "getAttempt s w i = Some a" "da_targetId a = tid" "da_generation a = gen"
  shows "bound_to (w, i, tid, gen, x) (r\<lparr> rn_tick := n, rn_store := s, rn_attempt := a \<rparr>)"
  using assms newer_stored [OF hosting_reachable_ok [OF assms(1)] assms(2)] by auto

text \<open>Both writes start from the version stored, which is the execution's own.\<close>

lemma bound_at_write:
  assumes "others_follow_protocol port" "bound_to (w, i, tid, gen, x) r"
  obtains b where "hosting_reachable (pt_others port n (rn_store r))" "getAttempt (pt_others port n (rn_store r)) w i = Some b"
    "newer (rn_attempt r) b" "da_targetId b = tid" "da_generation b = gen" "da_id (rn_attempt r) = i" "da_workspaceId (rn_attempt r) = w"
    "da_targetId (rn_attempt r) = tid" "da_generation (rn_attempt r) = gen"
proof -
  have b: "bound_to (w, i, tid, gen, x) (r\<lparr> rn_tick := 0, rn_store := pt_others port n (rn_store r) \<rparr>)"
      "hosting_reachable (pt_others port n (rn_store r))"
    by (rule bound_step [OF assms rtranclp.rtrancl_refl])+
  then obtain b where b': "getAttempt (pt_others port n (rn_store r)) w i = Some b" "newer (rn_attempt r) b" "da_targetId b = tid" "da_generation b = gen"
    by auto
  have "da_id b = i" "da_workspaceId b = w" using getAttempt_id [OF hosting_reachable_ok [OF b(2)] b'(1)] by simp_all
  moreover have "continues (rn_attempt r) b" using b'(2) by (simp add: newer_def)
  ultimately have "da_id (rn_attempt r) = i" "da_workspaceId (rn_attempt r) = w" "da_targetId (rn_attempt r) = tid" "da_generation (rn_attempt r) = gen"
    using b'(3,4) by (simp_all add: continues_def)
  with b' b(2) show ?thesis by (intro that)
qed

lemma update_run:
  assumes "others_follow_protocol port" "bound_to (w, i, tid, gen, y) r" "keeps_identity patch" "update_attempt port x patch r = (res, r')"
  shows "bound_to (w, i, tid, gen, y) r'" "rn_trace r' = rn_trace r"
    and "res = Inr () \<Longrightarrow> getAttempt (rn_store r') w i = Some (rn_attempt r') \<and> rn_attempt r' = stamped port r patch
      \<and> da_targetId (rn_attempt r') = tid \<and> da_generation (rn_attempt r') = gen
      \<and> (\<exists>t. getTarget (rn_store r') w tid = Some t \<and> holds_lock t i x)"
proof -
  let ?s = "pt_others port (rn_tick r + 1) (rn_store r)" and ?a = "stamped port r patch"
  obtain b where b: "hosting_reachable ?s" "getAttempt ?s w i = Some b" "newer (rn_attempt r) b" "da_targetId b = tid" "da_generation b = gen"
    and l: "da_id (rn_attempt r) = i" "da_workspaceId (rn_attempt r) = w" "da_targetId (rn_attempt r) = tid" "da_generation (rn_attempt r) = gen"
    by (rule bound_at_write [OF assms(1,2)])
  have id: "da_id ?a = i" "da_workspaceId ?a = w" "da_targetId ?a = tid" "da_generation ?a = gen"
    using assms(3) l by (simp_all add: keeps_identity_def stamped_def)
  consider (no) e where "updateAttempt ?a (da_revision (rn_attempt r)) x ?s = Inl e" | (yes) s' where "updateAttempt ?a (da_revision (rn_attempt r)) x ?s = Inr s'"
    by (cases "updateAttempt ?a (da_revision (rn_attempt r)) x ?s")
  then have "bound_to (w, i, tid, gen, y) r' \<and> rn_trace r' = rn_trace r \<and> (res = Inr () \<longrightarrow> getAttempt (rn_store r') w i = Some (rn_attempt r')
      \<and> rn_attempt r' = ?a \<and> da_targetId (rn_attempt r') = tid \<and> da_generation (rn_attempt r') = gen
      \<and> (\<exists>t. getTarget (rn_store r') w tid = Some t \<and> holds_lock t i x))"
  proof cases
    case no
    then have "res = Inl e" "r' = r\<lparr> rn_tick := rn_tick r + 2, rn_store := ?s \<rparr>" using assms(4) by (simp_all add: update_attempt_eq Let_def)
    then show ?thesis using b by auto
  next
    case yes
    then have r': "r' = r\<lparr> rn_tick := rn_tick r + 2, rn_store := s', rn_attempt := ?a \<rparr>" using assms(4) by (simp add: update_attempt_eq Let_def)
    have "da_revision b = da_revision (rn_attempt r)" using updateAttempt_revision(2) [OF yes] b(2) id by simp
    then have ba: "b = rn_attempt r" using stored_is_local [OF b(1-3)] by simp
    have c: "continues b ?a" using stamped_continues(1) [OF assms(3) b(1), of w i] b(2) ba by simp
    have s': "hosting_reachable s'"
      by (rule hosting_next [OF b(1) step_update [OF yes]]) (use b(2) c id in simp_all)
    obtain t where "getTarget ?s w tid = Some t" "holds_lock t i x" "getTarget s' = getTarget ?s" "getAttempt s' = put2 (getAttempt ?s) w i ?a"
      using updateAttempt_Inr [OF yes] id by metis
    then show ?thesis using bound_stored [OF s', of w i ?a] id unfolding r' by auto
  qed
  then show "bound_to (w, i, tid, gen, y) r'" "rn_trace r' = rn_trace r" and "res = Inr () \<Longrightarrow> getAttempt (rn_store r') w i = Some (rn_attempt r')
      \<and> rn_attempt r' = stamped port r patch \<and> da_targetId (rn_attempt r') = tid \<and> da_generation (rn_attempt r') = gen
      \<and> (\<exists>t. getTarget (rn_store r') w tid = Some t \<and> holds_lock t i x)" by blast+
qed

lemma quiet_update [prog_rules]: "others_follow_protocol port \<Longrightarrow> keeps_identity patch \<Longrightarrow> quiet k (update_attempt port x patch)"
  unfolding quiet_def by (cases k) (metis only_guards_refl update_run(1,2))

lemma quiet_finish:
  assumes "others_follow_protocol port" "state \<noteq> Activating"
  shows "quiet k (finish_attempt port x state err outcome)"
  unfolding quiet_def
proof (intro allI impI)
  fix r res r' assume bd: "bound_to k r" and e: "finish_attempt port x state err outcome r = (res, r')"
  obtain w i tid gen y where k: "k = (w, i, tid, gen, y)" by (cases k)
  let ?s = "pt_others port (rn_tick r + 1) (rn_store r)" and ?a = "stamped port r (\<lambda>a. a\<lparr> da_state := state, da_errorCode := err \<rparr>)"
    and ?o = "if state \<in> {Published, Unpublished} then outcome else None"
  have patch: "keeps_identity (\<lambda>a. a\<lparr> da_state := state, da_errorCode := err \<rparr>)" using assms(2) by (simp add: keeps_identity_def)
  obtain b where b: "hosting_reachable ?s" "getAttempt ?s w i = Some b" "newer (rn_attempt r) b" "da_targetId b = tid" "da_generation b = gen"
    and l: "da_id (rn_attempt r) = i" "da_workspaceId (rn_attempt r) = w" "da_targetId (rn_attempt r) = tid" "da_generation (rn_attempt r) = gen"
    by (rule bound_at_write [OF assms(1) bd [unfolded k]])
  have id: "da_id ?a = i" "da_workspaceId ?a = w" "da_targetId ?a = tid" "da_generation ?a = gen" "da_state ?a = state" using l by (simp_all add: stamped_def)
  consider (no) e where "finishAttempt ?a (da_revision (rn_attempt r)) x ?o ?s = Inl e" | (yes) s' where "finishAttempt ?a (da_revision (rn_attempt r)) x ?o ?s = Inr s'"
    by (cases "finishAttempt ?a (da_revision (rn_attempt r)) x ?o ?s")
  then show "bound_to k r' \<and> only_guards k r r'"
  proof cases
    case no
    then have "r' = r\<lparr> rn_tick := rn_tick r + 2, rn_store := ?s \<rparr>" using e by (simp add: finish_attempt_eq Let_def)
    then show ?thesis using b by (auto simp: k)
  next
    case yes
    then have r': "r' = r\<lparr> rn_tick := rn_tick r + 2, rn_store := s', rn_attempt := ?a \<rparr>" using e by (simp add: finish_attempt_eq Let_def)
    have "da_revision b = da_revision (rn_attempt r)" using finishAttempt_revision(2) [OF yes] b(2) id by simp
    then have ba: "b = rn_attempt r" using stored_is_local [OF b(1-3)] by simp
    have c: "continues b ?a" using stamped_continues(1) [OF patch b(1), of w i] b(2) ba by simp
    have s': "hosting_reachable s'"
      by (rule hosting_next [OF b(1) step_finish [OF yes]]) (use b(2) c id assms(2) in simp_all)
    have "getAttempt s' = put2 (getAttempt ?s) (da_workspaceId ?a) (da_id ?a) ?a" by (rule finishAttempt_Inr [OF yes])
    then have "getAttempt s' = put2 (getAttempt ?s) w i ?a" using id by simp
    then show ?thesis using bound_stored [OF s', of w i ?a] id unfolding r' k by simp
  qed
qed


subsection \<open>The guard and the serving change\<close>

fun runs_as :: "deployment_key \<Rightarrow> execution \<Rightarrow> bool" where
  "runs_as (w, i, tid, gen, x) ex \<longleftrightarrow> ex_workspaceId ex = w \<and> tg_id (ex_target ex) = tid \<and> ex_executionId ex = x"

lemma quiet_guard_checks: "others_follow_protocol port \<Longrightarrow> quiet k (guard_checks port ex current)"
  unfolding guard_checks_def Let_def by (intro prog_rules)

lemma guard_checks_generation:
  assumes "guard_checks port ex current r = (Inr u, r')"
  shows "tg_desiredGeneration current = da_generation (rn_attempt r)"
proof (rule ccontr)
  assume "tg_desiredGeneration current \<noteq> da_generation (rn_attempt r)"
  then have "guard_checks port ex current r = (web_throw ''superseded'', r)"
    by (simp add: guard_checks_def Let_def eff_bind_def read_run_def check_web_def throw_web_def web_throw_def)
  then show False using assms by (simp add: web_throw_def)
qed

lemma store_read_eq:
  "store_read port f r = (f (pt_others port (rn_tick r) (rn_store r)),
     r\<lparr> rn_tick := rn_tick r + 1, rn_store := pt_others port (rn_tick r) (rn_store r) \<rparr>)"
  by (simp add: store_read_def store_call_def Let_def try_then_def split: sum.splits)

lemma read_run_bind: "eff_bind (read_run f) g r = g (f r) r"
  by (simp add: eff_bind_def read_run_def)

lemma guard_run:
  assumes p: "others_follow_protocol port" and b: "bound_to k r" and ex: "runs_as k ex" and e: "guard port ex r = (res, r')"
  shows "bound_to k r' \<and> (case res of Inl _ \<Rightarrow> only_guards k r r'
    | Inr _ \<Rightarrow> \<exists>gs g. rn_trace r' = rn_trace r @ map Guarded gs @ [Guarded g] \<and> list_all (guarded_by k) (gs @ [g]))"
proof -
  obtain w i tid gen x where k: "k = (w, i, tid, gen, x)" by (cases k)
  let ?s = "pt_others port (rn_tick r) (rn_store r)" and ?r = "r\<lparr> rn_tick := rn_tick r + 1, rn_store := pt_others port (rn_tick r) (rn_store r) \<rparr>"
  have s: "bound_to k ?r" "hosting_reachable ?s" by (rule bound_step [OF p b rtranclp.rtrancl_refl])+
  obtain c where l: "da_id (rn_attempt r) = i" "da_generation (rn_attempt r) = gen"
    by (rule bound_at_write [OF p b [unfolded k]])
  have ex': "ex_workspaceId ex = w" "tg_id (ex_target ex) = tid" "ex_executionId ex = x" using ex by (simp_all add: k)
  show ?thesis
  proof (cases "assertOwner w tid i x ?s")
    case (Inl err)
    then have "res = Inl err" "r' = ?r" using e by (simp_all add: guard_def read_run_def eff_bind_def store_read_eq l ex')
    then show ?thesis using s by simp
  next
    case (Inr t)
    then have t: "getTarget ?s w tid = Some t" "holds_lock t i x" by (simp_all add: assertOwner_Inr)
    have e': "eff_bind (guard_checks port ex t) (\<lambda>_. set_run (\<lambda>r. r\<lparr> rn_trace := rn_trace r @ [Guarded ?s] \<rparr>)) ?r = (res, r')"
      using e Inr by (simp add: guard_def read_run_def eff_bind_def store_read_eq l ex')
    then show ?thesis
    proof (cases rule: eff_bindE)
      case (throws err)
      then show ?thesis using quietD [OF quiet_guard_checks [OF p] s(1)] by (auto simp: only_guards_def)
    next
      case (continues u r1)
      have q: "bound_to k r1" "only_guards k ?r r1" using quietD [OF quiet_guard_checks [OF p] s(1) continues(1)] by simp_all
      have "tg_desiredGeneration t = gen" using guard_checks_generation [OF continues(1)] l by simp
      then have "guarded_by k ?s" using s t by (auto simp: k)
      moreover have "res = Inr ()" "r' = r1\<lparr> rn_trace := rn_trace r1 @ [Guarded ?s] \<rparr>" using continues(2) by (simp_all add: set_run_def)
      ultimately show ?thesis using q by (auto simp: only_guards_def k)
    qed
  qed
qed

lemma quiet_guard [prog_rules]:
  assumes "others_follow_protocol port" "runs_as k ex"
  shows "quiet k (guard port ex)"
  unfolding quiet_def
proof (intro allI impI)
  fix r res r' assume "bound_to k r" "guard port ex r = (res, r')"
  note g = guard_run [OF assms(1) this(1) assms(2) this(2)]
  show "bound_to k r' \<and> only_guards k r r'"
  proof (cases res)
    case (Inl e)
    then show ?thesis using g by simp
  next
    case (Inr u)
    then obtain gs h where "rn_trace r' = rn_trace r @ map Guarded (gs @ [h])" "list_all (guarded_by k) (gs @ [h])" using g by auto
    then show ?thesis using g unfolding only_guards_def by blast
  qed
qed

lemma keeps_identity_patches [prog_rules]:
  "keeps_identity (\<lambda>a. a\<lparr> da_checkpoint := f a \<rparr>)" "keeps_identity (\<lambda>a. a\<lparr> da_retryAfter := Some v \<rparr>)" "keeps_identity (\<lambda>a. a\<lparr> da_verification := Some u \<rparr>)"
  "keeps_identity (\<lambda>a. a\<lparr> da_state := Generating \<rparr>)" "keeps_identity (\<lambda>a. a\<lparr> da_state := Uploading \<rparr>)"
  "keeps_identity (\<lambda>a. a\<lparr> da_state := Verifying, da_checkpoint := f a \<rparr>)"
  "keeps_identity (\<lambda>a. a\<lparr> da_artifactDigest := Some d, da_sourceArtifactDigest := Some d', da_marker := Some m \<rparr>)"
  "keeps_identity (\<lambda>a. a\<lparr> da_state := Activating, da_activationStarted := True \<rparr>)"
  by (simp_all add: keeps_identity_def)

lemma quiet_callback [prog_rules]:
  assumes "others_follow_protocol port" "runs_as k ex"
  shows "quiet k (handle_callback port ex c)"
  by (cases c) (auto intro!: prog_rules assms)

lemma quiet_converse [prog_rules]:
  assumes "others_follow_protocol port" "runs_as k ex"
  shows "quiet k (converse (handle_callback port ex) conv)"
proof (induction conv)
  case (Answer result)
  show ?case by (simp add: prog_rules)
next
  case (Callback c f)
  show ?case unfolding quiet_def
  proof (intro allI impI)
    fix r res r' assume b: "bound_to k r" and e: "converse (handle_callback port ex) (Callback c f) r = (res, r')"
    obtain result r1 where h: "handle_callback port ex c r = (result, r1)" "converse (handle_callback port ex) (f result) r1 = (res, r')"
      using e by (auto split: prod.splits)
    have 1: "bound_to k r1" "only_guards k r r1" using quietD [OF quiet_callback [OF assms] b h(1)] by simp_all
    have q: "quiet k (converse (handle_callback port ex) (f result))" by (rule Callback.IH) simp
    show "bound_to k r' \<and> only_guards k r r'" using quietD [OF q 1(1) h(2)] 1(2) only_guards_trans by blast
  qed
qed

lemma quiet_talk [prog_rules]: "others_follow_protocol port \<Longrightarrow> runs_as k ex \<Longrightarrow> quiet k (talk port ex artifact f)"
  unfolding talk_def by (intro prog_rules)

lemma activation_run:
  assumes p: "others_follow_protocol port" and b: "bound_to k r" and ex: "runs_as k ex" and e: "activation_step port ex artifact r = (res, r')"
  shows "bound_to k r' \<and> (only_guards k r r'
    \<or> (\<exists>s gs. rn_trace r' = rn_trace r @ Serving_change s # map Guarded gs \<and> changing_by k s \<and> list_all (guarded_by k) gs))"
proof -
  obtain w i tid gen x where k: "k = (w, i, tid, gen, x)" by (cases k)
  let ?update = "update_attempt port (ex_executionId ex) (\<lambda>a. a\<lparr> da_state := Activating, da_activationStarted := True \<rparr>)"
  have ki: "keeps_identity (\<lambda>a. a\<lparr> da_state := Activating, da_activationStarted := True \<rparr>)" by (simp add: keeps_identity_def)
  from e [unfolded activation_step_def] show ?thesis
  proof (cases rule: eff_bindE)
    case (throws err)
    then show ?thesis using update_run(1,2) [OF p b [unfolded k] ki] by (simp add: k)
  next
    case (continues u r1)
    note up = update_run [OF p b [unfolded k] ki continues(1)]
    have b1: "bound_to k r1" and t1: "rn_trace r1 = rn_trace r" using up(1,2) by (simp_all add: k)
    have ch: "changing_by k (rn_store r1)"
      using up(1,3) ex by (auto simp: k stamped_def)
    have main: "bound_to k r' \<and> (\<exists>s gs. rn_trace r' = rn_trace r @ Serving_change s # map Guarded gs \<and> changing_by k s \<and> list_all (guarded_by k) gs)"
      if "eff_bind (set_run (\<lambda>r. r\<lparr> rn_trace := rn_trace r @ [Serving_change (rn_store r)] \<rparr>)) (\<lambda>_. talk port ex artifact f) r1 = (res, r')" for f
    proof -
      let ?r = "r1\<lparr> rn_trace := rn_trace r1 @ [Serving_change (rn_store r1)] \<rparr>"
      have "talk port ex artifact f ?r = (res, r')" using that by (simp add: eff_bind_def set_run_def)
      moreover have "bound_to k ?r" using b1 by (cases k) simp
      ultimately have "bound_to k r'" "only_guards k ?r r'" using quietD [OF quiet_talk [OF p ex]] by blast+
      then show ?thesis using t1 ch by (auto simp: only_guards_def)
    qed
    show ?thesis
    proof (cases "pi_operation (ex_intent ex) = Unpublish_operation")
      case False
      then show ?thesis using main [of "ad_activate (ex_adapter ex)"] continues(2) by auto
    next
      case True
      show ?thesis
      proof (cases "ad_unpublish (ex_adapter ex)")
        case None
        then have "r' = r1" using continues(2) True by (simp add: eff_return_def)
        then show ?thesis using b1 t1 by simp
      next
        case (Some f)
        then show ?thesis using main [of f] continues(2) True by auto
      qed
    qed
  qed
qed

lemma guarded_activation:
  assumes p: "others_follow_protocol port" and ex: "runs_as k ex" and rest: "\<And>o'. quiet k (rest o')"
  shows "changes_once k (eff_bind (guard port ex) (\<lambda>_. eff_bind (activation_step port ex artifact) rest))"
  unfolding changes_once_def
proof (intro allI impI)
  fix r res r' assume b: "bound_to k r" and e: "eff_bind (guard port ex) (\<lambda>_. eff_bind (activation_step port ex artifact) rest) r = (res, r')"
  from e show "bound_to k r' \<and> (only_guards k r r' \<or> one_change k r r')"
  proof (cases rule: eff_bindE)
    case (throws err)
    then show ?thesis using guard_run [OF p b ex throws(1)] by simp
  next
    case (continues u r1)
    obtain gs g where g: "bound_to k r1" "rn_trace r1 = rn_trace r @ map Guarded gs @ [Guarded g]" "list_all (guarded_by k) (gs @ [g])"
      using guard_run [OF p b ex continues(1)] by auto
    have og: "only_guards k r r1" unfolding only_guards_def by (rule exI [of _ "gs @ [g]"]) (use g in simp)
    have act: "bound_to k r2 \<and> (only_guards k r r2 \<or> one_change k r r2)" if "activation_step port ex artifact r1 = (o', r2)" for o' r2
    proof -
      note a = activation_run [OF p g(1) ex that]
      then show ?thesis
      proof (elim conjE disjE exE)
        assume "bound_to k r2" "only_guards k r1 r2"
        then show ?thesis using only_guards_trans [OF og] by blast
      next
        fix s hs assume "bound_to k r2" "rn_trace r2 = rn_trace r1 @ Serving_change s # map Guarded hs" "changing_by k s" "list_all (guarded_by k) hs"
        then show ?thesis using g unfolding one_change_def
          by (intro conjI disjI2 exI [of _ gs] exI [of _ g] exI [of _ s] exI [of _ hs]) auto
      qed
    qed
    from continues(2) show ?thesis
    proof (cases rule: eff_bindE)
      case (throws err)
      then show ?thesis using act by blast
    next
      case (continues o' r2)
      note a = act [OF continues(1)]
      have "bound_to k r'" "only_guards k r2 r'" using quietD [OF rest [of o']] continues(2) a by blast+
      then show ?thesis using a only_guards_trans change_before_guards by blast
    qed
  qed
qed


subsection \<open>One execution\<close>

lemma quiet_cases [prog_rules]:
  "quiet k m \<Longrightarrow> (\<And>v. quiet k (f v)) \<Longrightarrow> quiet k (case z of None \<Rightarrow> m | Some v \<Rightarrow> f v)"
  "(\<And>u v. quiet k (g u v)) \<Longrightarrow> quiet k (case q of (u, v) \<Rightarrow> g u v)"
  "quiet k m \<Longrightarrow> quiet k m' \<Longrightarrow> quiet k (if c then m else m')"
  by (simp_all split: option.split prod.split)

lemma quiet_generate [prog_rules]:
  assumes p: "others_follow_protocol port"
  shows "quiet k (generate port ex)"
  unfolding generate_def Let_def by (intro prog_rules p)

lemma quiet_finishing [prog_rules]:
  assumes "others_follow_protocol port"
  shows "quiet k (finish_attempt port x Unknown_outcome err outcome)" "quiet k (finish_attempt port x Failed_attempt err outcome)"
    "quiet k (finish_attempt port x Uploading err outcome)"
    "quiet k (finish_attempt port x (if c then if d then Unpublished else Published else Verifying) err outcome)"
    "quiet k (finish_attempt port x (failure_state r e) err outcome)"
  using assms by (auto intro!: quiet_finish simp: failure_state_def)

lemma quiet_prepare [prog_rules]:
  assumes p: "others_follow_protocol port" "runs_as k ex"
  shows "quiet k (prepare_step port ex artifact)"
  unfolding prepare_step_def by (intro prog_rules p)

lemma quiet_confirm [prog_rules]:
  assumes p: "others_follow_protocol port" "runs_as k ex"
  shows "quiet k (confirm_step port ex artifact outcome)"
  unfolding confirm_step_def same_url_def Let_def by (intro prog_rules p)

lemma quiet_failure [prog_rules]:
  assumes p: "others_follow_protocol port"
  shows "quiet k (failure_step port w i x e)"
  unfolding failure_step_def mark_retry_def preparing_def Let_def by (intro prog_rules p)

lemma deploy_changes_once:
  assumes p: "others_follow_protocol port" "runs_as k ex"
  shows "changes_once k (deploy port ex)"
  unfolding deploy_def Let_def
  by (intro changes_bind guarded_activation p prog_rules) (auto split: outcome_state.split intro!: prog_rules p)


subsection \<open>Silent programs\<close>

named_theorems silent_rules \<open>programs that follow the protocol of the store and make no serving change\<close>

text \<open>\<open>Q\<close> is what is known of the store; protocol steps keep it.\<close>

definition stable :: "(hosting \<Rightarrow> bool) \<Rightarrow> bool" where
  "stable Q \<longleftrightarrow> (\<forall>s s'. Q s \<longrightarrow> hosting_step\<^sup>*\<^sup>* s s' \<longrightarrow> Q s') \<and> (\<forall>s. Q s \<longrightarrow> hosting_reachable s)"

definition silent :: "(hosting \<Rightarrow> bool) \<Rightarrow> 'a prog \<Rightarrow> bool" where
  "silent Q m \<longleftrightarrow> (\<forall>r res r'. Q (rn_store r) \<longrightarrow> m r = (res, r') \<longrightarrow> hosting_step\<^sup>*\<^sup>* (rn_store r) (rn_store r') \<and> rn_trace r' = rn_trace r)"

fun knows :: "string \<Rightarrow> string \<Rightarrow> deployment_attempt \<Rightarrow> hosting \<Rightarrow> bool" where
  "knows w i a s \<longleftrightarrow> hosting_reachable s \<and> (\<exists>b. getAttempt s w i = Some b \<and> newer a b)"

lemma stable_reachable [silent_rules]: "stable hosting_reachable"
  unfolding stable_def using steps_reachable by blast

lemma stable_knows [silent_rules]: "stable (knows w i a)"
  unfolding stable_def
proof (intro conjI allI impI)
  fix s s' assume k: "knows w i a s" and s: "hosting_step\<^sup>*\<^sup>* s s'"
  obtain b where b: "getAttempt s w i = Some b" "newer a b" and h: "hosting_reachable s" using k by auto
  obtain c where "getAttempt s' w i = Some c" "newer b c" using steps_newer [OF s h b(1)] by blast
  then show "knows w i a s'" using steps_reachable [OF s h] newer_trans [OF b(2)] by auto
qed simp

lemma silent_bind [silent_rules]:
  assumes "stable Q" "silent Q m" "\<And>x. silent Q (f x)"
  shows "silent Q (eff_bind m f)"
  unfolding silent_def
proof (intro allI impI)
  fix r res r' assume q: "Q (rn_store r)" and e: "eff_bind m f r = (res, r')"
  from e show "hosting_step\<^sup>*\<^sup>* (rn_store r) (rn_store r') \<and> rn_trace r' = rn_trace r"
  proof (cases rule: eff_bindE)
    case (throws e)
    then show ?thesis using assms(2) q unfolding silent_def by blast
  next
    case (continues x r1)
    then have 1: "hosting_step\<^sup>*\<^sup>* (rn_store r) (rn_store r1)" "rn_trace r1 = rn_trace r" using assms(2) q unfolding silent_def by blast+
    then have "Q (rn_store r1)" using assms(1) q unfolding stable_def by blast
    then have "hosting_step\<^sup>*\<^sup>* (rn_store r1) (rn_store r')" "rn_trace r' = rn_trace r1" using assms(3) continues(2) unfolding silent_def by blast+
    then show ?thesis using 1 by (metis rtranclp_trans)
  qed
qed

lemma silent_same: "(\<And>r res r'. m r = (res, r') \<Longrightarrow> rn_store r' = rn_store r \<and> rn_trace r' = rn_trace r) \<Longrightarrow> silent Q m"
  unfolding silent_def by (metis rtranclp.rtrancl_refl)

lemma silent_basics [silent_rules]:
  "silent Q (eff_return x)" "silent Q (eff_lift y)" "silent Q (throw_web code)" "silent Q (port_call g)" "silent Q (present z)"
  "silent Q (now_time port)" "silent Q (fresh_id port)"
  by (rule silent_same, auto simp: eff_return_def eff_lift_def throw_web_def port_call_def present_def now_time_def fresh_id_def)+

lemma silent_when [silent_rules]: "silent Q m \<Longrightarrow> silent Q (when_web c m)"
  by (simp add: when_web_def silent_basics)

lemma silent_cases [silent_rules]:
  "silent Q m \<Longrightarrow> (\<And>v. silent Q (f v)) \<Longrightarrow> silent Q (case z of None \<Rightarrow> m | Some v \<Rightarrow> f v)"
  "(\<And>u v. silent Q (g u v)) \<Longrightarrow> silent Q (case q of (u, v) \<Rightarrow> g u v)"
  "silent Q m \<Longrightarrow> silent Q m' \<Longrightarrow> silent Q (if c then m else m')"
  by (simp_all split: option.split prod.split)

lemma silent_store_call:
  assumes "others_follow_protocol port" "stable Q" "\<And>s y s'. Q s \<Longrightarrow> f s = Inr (y, s') \<Longrightarrow> hosting_step\<^sup>*\<^sup>* s s'"
  shows "silent Q (store_call port f)"
  unfolding silent_def
proof (intro allI impI)
  fix r res r' assume q: "Q (rn_store r)" and e: "store_call port f r = (res, r')"
  let ?s = "pt_others port (rn_tick r) (rn_store r)"
  have o': "hosting_step\<^sup>*\<^sup>* (rn_store r) ?s" using assms(1) by (simp add: others_follow_protocol_def)
  then have q': "Q ?s" using q assms(2) unfolding stable_def by blast
  show "hosting_step\<^sup>*\<^sup>* (rn_store r) (rn_store r') \<and> rn_trace r' = rn_trace r"
  proof (cases "f ?s")
    case (Inl err)
    then show ?thesis using e o' by (auto simp: store_call_def Let_def)
  next
    case (Inr p)
    then have "rn_store r' = snd p" "rn_trace r' = rn_trace r" using e by (auto simp: store_call_def Let_def split: prod.splits)
    moreover have "hosting_step\<^sup>*\<^sup>* ?s (snd p)" using assms(3) [OF q', of "fst p" "snd p"] Inr by simp
    ultimately show ?thesis using o' by (metis rtranclp_trans)
  qed
qed

lemma silent_store_read [silent_rules]: "others_follow_protocol port \<Longrightarrow> stable Q \<Longrightarrow> silent Q (store_read port f)"
  unfolding store_read_def by (rule silent_store_call) auto

lemma silent_connection [silent_rules]: "others_follow_protocol port \<Longrightarrow> stable Q \<Longrightarrow> silent Q (connection_of port t)"
  by (simp add: connection_of_def silent_rules)

lemma silent_artifact [silent_rules]:
  assumes p: "others_follow_protocol port" "stable Q"
  shows "silent Q (readArtifact port t a)"
  unfolding readArtifact_def Let_def by (intro silent_rules p)

lemma silent_claim [silent_rules]:
  assumes "others_follow_protocol port" "stable Q"
  shows "silent Q (store_call port (claim_target w i j x))"
  by (rule silent_store_call [OF assms]) (blast intro: step_claim)

text \<open>A read may add to what is known.\<close>

lemma silent_learn:
  assumes p: "others_follow_protocol port" "stable Q" and learn: "\<And>s v. Q s \<Longrightarrow> f s = Inr v \<Longrightarrow> Q' v s" and rest: "\<And>v. silent (Q' v) (g v)"
  shows "silent Q (eff_bind (store_read port f) g)"
  unfolding silent_def
proof (intro allI impI)
  fix r res r' assume q: "Q (rn_store r)" and e: "eff_bind (store_read port f) g r = (res, r')"
  let ?s = "pt_others port (rn_tick r) (rn_store r)"
  have o': "hosting_step\<^sup>*\<^sup>* (rn_store r) ?s" using p(1) by (simp add: others_follow_protocol_def)
  then have q': "Q ?s" using q p(2) unfolding stable_def by blast
  from e show "hosting_step\<^sup>*\<^sup>* (rn_store r) (rn_store r') \<and> rn_trace r' = rn_trace r"
  proof (cases rule: eff_bindE)
    case (throws err)
    then show ?thesis using o' by (auto simp: store_read_eq)
  next
    case (continues v r1)
    then have 1: "f ?s = Inr v" "rn_store r1 = ?s" "rn_trace r1 = rn_trace r" by (auto simp: store_read_eq)
    then have "Q' v (rn_store r1)" using learn [OF q'] by simp
    then have "hosting_step\<^sup>*\<^sup>* (rn_store r1) (rn_store r')" "rn_trace r' = rn_trace r1" using rest continues(2) unfolding silent_def by blast+
    then show ?thesis using 1 o' by (metis rtranclp_trans)
  qed
qed

lemma silent_present: "(\<And>v. z = Some v \<Longrightarrow> silent Q (g v)) \<Longrightarrow> silent Q (eff_bind (present z) g)"
  by (cases z) (auto simp: silent_def eff_bind_def present_def eff_lift_def)

lemma silent_weaken: "silent Q m \<Longrightarrow> (\<And>s. Q' s \<Longrightarrow> Q s) \<Longrightarrow> silent Q' m"
  unfolding silent_def by blast


subsection \<open>Reconciliation and execution follow the protocol\<close>

lemma silent_settle [silent_rules]:
  assumes p: "others_follow_protocol port" and a': "continues a a' \<or> \<not> da_activationStarted a'" "da_id a' = da_id a" "da_workspaceId a' = da_workspaceId a"
    "da_targetId a' = da_targetId a" "da_generation a' = da_generation a" "da_activationStarted a' = da_activationStarted a" "da_state a' \<noteq> Activating"
  shows "silent (knows w i a) (store_write port (finishAttempt a' (da_revision a) x outcome))"
  unfolding store_write_def
proof (rule silent_store_call [OF p stable_knows])
  fix s y s' assume k: "knows w i a s" and f: "try_then (finishAttempt a' (da_revision a) x outcome s) (\<lambda>s'. Inr ((), s')) = Inr (y, s')"
  then have f': "finishAttempt a' (da_revision a) x outcome s = Inr s'" by auto
  obtain b where b: "hosting_reachable s" "getAttempt s w i = Some b" "newer a b" using k by auto
  have id: "da_id a = i" "da_workspaceId a = w"
    using getAttempt_id [OF hosting_reachable_ok [OF b(1)] b(2)] b(3) by (auto simp: newer_def continues_def)
  have "da_revision b = da_revision a" using finishAttempt_revision(2) [OF f'] b(2) a'(2,3) id by simp
  then have ba: "b = a" using stored_is_local [OF b] by simp
  have "continues a a'" using a' by (simp add: continues_def)
  then have "hosting_step s s'" using step_finish [OF f'] b(2) ba a' id by simp
  then show "hosting_step\<^sup>*\<^sup>* s s'" by blast
qed

lemma silent_reconcile_settle:
  assumes p: "others_follow_protocol port"
  shows "silent (knows w i a) (reconcile_settle port w x a t)"
  unfolding reconcile_settle_def Let_def
  by (intro silent_rules p) (simp_all add: continues_def)

lemma silent_knows_reachable: "silent hosting_reachable m \<Longrightarrow> silent (knows w i a) m"
  by (erule silent_weaken) simp

lemma reads_knows: "hosting_reachable s \<Longrightarrow> getAttempt s w i = Some a \<Longrightarrow> knows w i a s"
  using newer_stored [OF hosting_reachable_ok] by auto

lemma silent_reconcile:
  assumes p: "others_follow_protocol port"
  shows "silent hosting_reachable (reconcile port w i)"
  unfolding reconcile_def
proof (rule silent_learn [where Q' = "\<lambda>a. knows w i a", OF p stable_reachable])
  fix s a assume "hosting_reachable s" "(case getAttempt s w i of Some a \<Rightarrow> Inr a | None \<Rightarrow> web_throw ''attempt_not_found'') = Inr a"
  then show "knows w i a s" by (intro reads_knows) (auto simp: web_throw_def split: option.splits)
next
  fix a
  have claim: "silent (knows w i a)
     (eff_bind (fresh_id port) (\<lambda>x.
       eff_bind (store_call port (claim_target w (tg_id t) (da_id a) x)) (\<lambda>granted.
       if \<not> granted then eff_return Busy_result
       else eff_bind (store_read port (\<lambda>s. Inr (getAttempt s w (da_id a)))) (\<lambda>found. eff_bind (present found) (\<lambda>a.
         eff_bind (store_read port (\<lambda>s. Inr (getTarget s w (tg_id t)))) (\<lambda>found. eff_bind (present found) (\<lambda>t.
         reconcile_settle port w x a t)))))))" for t
  proof (rule silent_knows_reachable, rule silent_bind [OF stable_reachable silent_basics(7)],
      rule silent_bind [OF stable_reachable silent_claim [OF p stable_reachable]], rule silent_cases(3) [OF silent_basics(1)])
    fix x
    show "silent hosting_reachable (eff_bind (store_read port (\<lambda>s. Inr (getAttempt s w (da_id a)))) (\<lambda>found. eff_bind (present found) (\<lambda>a.
         eff_bind (store_read port (\<lambda>s. Inr (getTarget s w (tg_id t)))) (\<lambda>found. eff_bind (present found) (\<lambda>t.
         reconcile_settle port w x a t)))))"
    proof (rule silent_learn [where Q' = "\<lambda>f s. hosting_reachable s \<and> (\<forall>b. f = Some b \<longrightarrow> knows w (da_id a) b s)", OF p stable_reachable])
      fix s f assume "hosting_reachable s" "Inr (getAttempt s w (da_id a)) = Inr f"
      then show "hosting_reachable s \<and> (\<forall>b. f = Some b \<longrightarrow> knows w (da_id a) b s)" by (auto simp del: knows.simps intro: reads_knows)
    next
      fix f
      show "silent (\<lambda>s. hosting_reachable s \<and> (\<forall>b. f = Some b \<longrightarrow> knows w (da_id a) b s)) (eff_bind (present f) (\<lambda>a.
         eff_bind (store_read port (\<lambda>s. Inr (getTarget s w (tg_id t)))) (\<lambda>found. eff_bind (present found) (\<lambda>t. reconcile_settle port w x a t))))"
      proof (rule silent_present)
        fix b assume f: "f = Some b"
        have "silent (knows w (da_id a) b) (eff_bind (store_read port (\<lambda>s. Inr (getTarget s w (tg_id t)))) (\<lambda>found. eff_bind (present found)
            (\<lambda>t. reconcile_settle port w x b t)))"
          by (intro silent_bind stable_knows silent_store_read p silent_basics silent_reconcile_settle)
        then show "silent (\<lambda>s. hosting_reachable s \<and> (\<forall>b. f = Some b \<longrightarrow> knows w (da_id a) b s))
            (eff_bind (store_read port (\<lambda>s. Inr (getTarget s w (tg_id t)))) (\<lambda>found. eff_bind (present found) (\<lambda>t. reconcile_settle port w x b t)))"
          by (rule silent_weaken) (use f in blast)
      qed
    qed
  qed
  show "silent (knows w i a) (if terminal (da_state a) then eff_return (Attempt_result a)
     else eff_bind (store_read port (\<lambda>s. case getTarget s w (da_targetId a) of Some t \<Rightarrow> Inr t | None \<Rightarrow> web_throw ''target_not_found'')) (\<lambda>t.
     if tg_activeGeneration t > da_generation a then eff_return (Attempt_result (a\<lparr> da_state := Superseded \<rparr>))
     else if locked_by t (da_id a) then reconcile_settle port w (lk_executionId (the (tg_lock t))) a t
     else eff_bind (fresh_id port) (\<lambda>x.
       eff_bind (store_call port (claim_target w (tg_id t) (da_id a) x)) (\<lambda>granted.
       if \<not> granted then eff_return Busy_result
       else eff_bind (store_read port (\<lambda>s. Inr (getAttempt s w (da_id a)))) (\<lambda>found. eff_bind (present found) (\<lambda>a.
         eff_bind (store_read port (\<lambda>s. Inr (getTarget s w (tg_id t)))) (\<lambda>found. eff_bind (present found) (\<lambda>t.
         reconcile_settle port w x a t))))))))"
    by (intro silent_cases(3) silent_bind silent_basics stable_knows silent_store_read p silent_reconcile_settle claim)
qed

lemma changes_bind_quiet:
  assumes "changes_once k m" "\<And>x. quiet k (f x)"
  shows "changes_once k (eff_bind m f)"
  unfolding changes_once_def
proof (intro allI impI)
  fix r res r' assume b: "bound_to k r" and e: "eff_bind m f r = (res, r')"
  from e show "bound_to k r' \<and> (only_guards k r r' \<or> one_change k r r')"
  proof (cases rule: eff_bindE)
    case (throws err)
    then show ?thesis using assms(1) b unfolding changes_once_def by blast
  next
    case (continues x r1)
    then have 1: "bound_to k r1" "only_guards k r r1 \<or> one_change k r r1" using assms(1) b unfolding changes_once_def by blast+
    then show ?thesis using quietD [OF assms(2) 1(1) continues(2)] only_guards_trans change_before_guards by blast
  qed
qed

lemma changes_catch:
  assumes "changes_once k m" "\<And>e. quiet k (h e)"
  shows "changes_once k (catch_prog m h)"
  unfolding changes_once_def
proof (intro allI impI)
  fix r res r' assume b: "bound_to k r" and e: "catch_prog m h r = (res, r')"
  obtain res1 r1 where m: "m r = (res1, r1)" by (cases "m r")
  then have 1: "bound_to k r1" "only_guards k r r1 \<or> one_change k r r1" using assms(1) b unfolding changes_once_def by blast+
  show "bound_to k r' \<and> (only_guards k r r' \<or> one_change k r r')"
  proof (cases res1)
    case (Inr y)
    then show ?thesis using 1 e m by (auto simp: catch_prog_def)
  next
    case (Inl err)
    then have "h err r1 = (res, r')" using e m by (simp add: catch_prog_def)
    then show ?thesis using quietD [OF assms(2) 1(1)] 1(2) only_guards_trans change_before_guards by blast
  qed
qed

lemma run_execution_changes:
  assumes p: "others_follow_protocol port"
  shows "changes_once (w, i, tid, gen, x) (run_execution port w x intent)"
  unfolding changes_once_def
proof (intro allI impI)
  fix r res r' assume b: "bound_to (w, i, tid, gen, x) r" and e: "run_execution port w x intent r = (res, r')"
  let ?k = "(w, i, tid, gen, x)" and ?s = "pt_others port (rn_tick r) (rn_store r)"
  obtain c where l: "da_id (rn_attempt r) = i" "da_targetId (rn_attempt r) = tid" by (rule bound_at_write [OF p b])
  note e' = e [unfolded run_execution_def read_run_bind]
  from e' show "bound_to ?k r' \<and> (only_guards ?k r r' \<or> one_change ?k r r')"
  proof (cases rule: eff_bindE)
    case (throws err)
    then show ?thesis using quietD [OF quiet_store_read [OF p] b throws(1)] by blast
  next
    case (continues t r1)
    have 1: "bound_to ?k r1" "only_guards ?k r r1" using quietD [OF quiet_store_read [OF p] b continues(1)] by blast+
    have "hosting_reachable ?s" by (rule bound_step(2) [OF p b rtranclp.rtrancl_refl])
    moreover have "getTarget ?s w tid = Some t" using continues(1) l by (simp add: store_read_eq assertOwner_Inr)
    ultimately have t: "tg_id t = tid" by (intro getTarget_id [OF hosting_reachable_ok])
    have "changes_once ?k (eff_bind (eff_lift (find_adapter port (tg_adapterId t))) (\<lambda>adapter.
       eff_bind (connection_of port t) (\<lambda>connection.
       eff_bind (deploy port \<lparr> ex_workspaceId = w, ex_executionId = x, ex_intent = intent,
         ex_actor = \<lparr> ac_workspaceId = w, ac_actorId = pi_actorId intent \<rparr>, ex_target = t, ex_adapter = adapter, ex_connection = connection \<rparr>) (\<lambda>_.
       read_run (\<lambda>r. Attempt_result (rn_attempt r))))))"
    proof (rule changes_bind [OF quiet_basics(2)], rule changes_bind [OF quiet_connection [OF p]], rule changes_bind_quiet)
      fix adapter connection
      show "changes_once ?k (deploy port \<lparr> ex_workspaceId = w, ex_executionId = x, ex_intent = intent,
         ex_actor = \<lparr> ac_workspaceId = w, ac_actorId = pi_actorId intent \<rparr>, ex_target = t, ex_adapter = adapter, ex_connection = connection \<rparr>)"
        by (rule deploy_changes_once [OF p]) (simp add: t)
    qed (rule quiet_basics)
    then have "bound_to ?k r'" "only_guards ?k r1 r' \<or> one_change ?k r1 r'" using continues(2) 1(1) unfolding changes_once_def by blast+
    then show ?thesis using only_guards_trans [OF 1(2)] change_after_guards [OF 1(2)] by blast
  qed
qed


definition runs_once :: "string \<Rightarrow> string \<Rightarrow> 'a prog \<Rightarrow> bool" where
  "runs_once w i m \<longleftrightarrow> (\<forall>r res r'. hosting_reachable (rn_store r) \<longrightarrow> m r = (res, r') \<longrightarrow> hosting_reachable (rn_store r')
     \<and> (\<exists>tid gen x. only_guards (w, i, tid, gen, x) r r' \<or> one_change (w, i, tid, gen, x) r r'))"

lemma silent_run: "silent hosting_reachable m \<Longrightarrow> hosting_reachable (rn_store r) \<Longrightarrow> m r = (res, r') \<Longrightarrow> hosting_reachable (rn_store r') \<and> rn_trace r' = rn_trace r"
  unfolding silent_def using steps_reachable by blast

lemma runs_silent: "silent hosting_reachable m \<Longrightarrow> runs_once w i m"
  unfolding runs_once_def by (metis silent_run only_guards_refl)

lemma runs_bind:
  assumes "silent hosting_reachable m" "\<And>x. runs_once w i (f x)"
  shows "runs_once w i (eff_bind m f)"
  unfolding runs_once_def
proof (intro allI impI)
  fix r res r' assume h: "hosting_reachable (rn_store r)" and e: "eff_bind m f r = (res, r')"
  from e show "hosting_reachable (rn_store r') \<and> (\<exists>tid gen x. only_guards (w, i, tid, gen, x) r r' \<or> one_change (w, i, tid, gen, x) r r')"
  proof (cases rule: eff_bindE)
    case (throws err)
    then show ?thesis using silent_run [OF assms(1) h throws(1)] by simp
  next
    case (continues y r1)
    have 1: "hosting_reachable (rn_store r1)" "rn_trace r1 = rn_trace r" using silent_run [OF assms(1) h continues(1)] by simp_all
    then have "hosting_reachable (rn_store r') \<and> (\<exists>tid gen x. only_guards (w, i, tid, gen, x) r1 r' \<or> one_change (w, i, tid, gen, x) r1 r')"
      using assms(2) continues(2) unfolding runs_once_def by blast
    then show ?thesis using 1(2) by (simp add: only_guards_def one_change_def)
  qed
qed

lemma present_bind: "eff_bind (present z) g r = (case z of Some v \<Rightarrow> g v r | None \<Rightarrow> (Inl Other_error, r))"
  by (cases z) (simp_all add: eff_bind_def present_def eff_lift_def)

lemma runs_attempt:
  assumes p: "others_follow_protocol port"
  shows "runs_once w i (eff_bind (store_read port (\<lambda>s. Inr (getAttempt s w i))) (\<lambda>found. eff_bind (present found) (\<lambda>a.
     eff_bind (store_read port (\<lambda>s. Inr (getIntent s w (da_intentId a)))) (\<lambda>found. eff_bind (present found) (\<lambda>intent.
     eff_bind (set_run (\<lambda>r. r\<lparr> rn_attempt := a, rn_guardPassed := False, rn_confirmed := None \<rparr>)) (\<lambda>_.
     catch_prog (run_execution port w x intent) (failure_step port w i x)))))))"
  unfolding runs_once_def
proof (intro allI impI)
  fix r :: run and res r'
  let ?s1 = "pt_others port (rn_tick r) (rn_store r)"
  let ?s2 = "pt_others port (rn_tick r + 1) ?s1"
  let ?main = "\<lambda>intent. catch_prog (run_execution port w x intent) (failure_step port w i x)"
  assume h: "hosting_reachable (rn_store r)" and e: "eff_bind (store_read port (\<lambda>s. Inr (getAttempt s w i))) (\<lambda>found. eff_bind (present found) (\<lambda>a.
     eff_bind (store_read port (\<lambda>s. Inr (getIntent s w (da_intentId a)))) (\<lambda>found. eff_bind (present found) (\<lambda>intent.
     eff_bind (set_run (\<lambda>r. r\<lparr> rn_attempt := a, rn_guardPassed := False, rn_confirmed := None \<rparr>)) (\<lambda>_. ?main intent))))) r = (res, r')"
  have s1: "hosting_step\<^sup>*\<^sup>* (rn_store r) ?s1" and s2: "hosting_step\<^sup>*\<^sup>* ?s1 ?s2" using p by (simp_all add: others_follow_protocol_def)
  have h1: "hosting_reachable ?s1" and h2: "hosting_reachable ?s2" using steps_reachable [OF s1 h] steps_reachable [OF s2 steps_reachable [OF s1 h]] .
  show "hosting_reachable (rn_store r') \<and> (\<exists>tid gen x. only_guards (w, i, tid, gen, x) r r' \<or> one_change (w, i, tid, gen, x) r r')"
  proof (cases "getAttempt ?s1 w i")
    case None
    then have "rn_store r' = ?s1" "rn_trace r' = rn_trace r" using e by (auto simp: eff_bind_def store_read_eq present_def eff_lift_def)
    then show ?thesis using h1 by simp
  next
    case (Some a)
    show ?thesis
    proof (cases "getIntent ?s2 w (da_intentId a)")
      case None
      then have "rn_store r' = ?s2" "rn_trace r' = rn_trace r" using e Some by (auto simp: eff_bind_def store_read_eq present_def eff_lift_def)
      then show ?thesis using h2 by simp
    next
      case intent: (Some intent)
      let ?r = "r\<lparr> rn_tick := rn_tick r + 2, rn_store := ?s2, rn_attempt := a, rn_guardPassed := False, rn_confirmed := None \<rparr>"
      let ?k = "(w, i, da_targetId a, da_generation a, x)"
      have m: "?main intent ?r = (res, r')"
        using e Some intent by (simp add: eff_bind_def store_read_eq present_def eff_lift_def set_run_def)
      obtain b where "getAttempt ?s2 w i = Some b" "newer a b" using steps_newer [OF s2 h1 Some] by blast
      then have bd: "bound_to ?k ?r" using h2 by (auto simp: newer_def continues_def)
      have "changes_once ?k (?main intent)" by (rule changes_catch [OF run_execution_changes [OF p] quiet_failure [OF p]])
      then have c: "bound_to ?k r'" "only_guards ?k ?r r' \<or> one_change ?k ?r r'" using bd m unfolding changes_once_def by blast+
      have "only_guards ?k r r' \<or> one_change ?k r r'" using c(2) unfolding only_guards_def one_change_def by simp
      moreover have "hosting_reachable (rn_store r')" using c(1) by simp
      ultimately show ?thesis by blast
    qed
  qed
qed

lemma execute_runs:
  assumes p: "others_follow_protocol port"
  shows "runs_once w i (execute port w i)"
  unfolding execute_def
proof (rule runs_bind [OF silent_store_read [OF p stable_reachable]])
  fix a
  show "runs_once w i (if terminal (da_state a) then eff_return (Attempt_result a)
     else if da_activationStarted a then reconcile port w i
     else eff_bind (fresh_id port) (\<lambda>x.
       eff_bind (store_call port (claim_target w (da_targetId a) (da_id a) x)) (\<lambda>granted.
       if \<not> granted then eff_return Busy_result
       else eff_bind (store_read port (\<lambda>s. Inr (getAttempt s w i))) (\<lambda>found. eff_bind (present found) (\<lambda>a.
         eff_bind (store_read port (\<lambda>s. Inr (getIntent s w (da_intentId a)))) (\<lambda>found. eff_bind (present found) (\<lambda>intent.
         eff_bind (set_run (\<lambda>r. r\<lparr> rn_attempt := a, rn_guardPassed := False, rn_confirmed := None \<rparr>)) (\<lambda>_.
         catch_prog (run_execution port w x intent) (failure_step port w i x)))))))))"
    using runs_silent [OF silent_basics(1)] runs_silent [OF silent_reconcile [OF p]] runs_attempt [OF p]
    by (auto intro!: runs_bind [OF silent_basics(7)] runs_bind [OF silent_claim [OF p stable_reachable]])
qed

subsection \<open>What workers can do to a site\<close>

text \<open>C39: A site changes only under an exclusive, current deployment. However other processes interleave, crash or repeat their
  work, and whatever the provider answers, one execution of an attempt makes at most one serving-changing call. Directly before it a guard has passed, at
  which the execution held the target and its generation was the desired one; at the call the store durably says so: the attempt is
  marked as activating, its lock is held by this execution, no other attempt of the target is activating or uncertain, and no claim of the target by anyone succeeds.\<close>

theorem serving_changes_are_exclusive:
  assumes "others_follow_protocol port" "hosting_reachable (rn_store r)" "rn_trace r = []" "execute port w i r = (res, r')"
  shows "hosting_reachable (rn_store r') \<and> ((\<exists>gs. rn_trace r' = map Guarded gs)
    \<or> (\<exists>gs g s gs' tid gen x t t' a. rn_trace r' = map Guarded gs @ [Guarded g, Serving_change s] @ map Guarded gs'
        \<and> getTarget g w tid = Some t \<and> holds_lock t i x \<and> tg_desiredGeneration t = gen
        \<and> getAttempt s w i = Some a \<and> da_targetId a = tid \<and> da_generation a = gen \<and> da_state a = Activating
        \<and> getTarget s w tid = Some t' \<and> holds_lock t' i x
        \<and> (\<forall>j b. getAttempt s w j = Some b \<and> da_targetId b = tid \<and> in_activation b \<longrightarrow> j = i)
        \<and> (\<forall>j y. claim_target w tid j y s = Inr (False, s))))"
proof -
  obtain tid gen x where e: "hosting_reachable (rn_store r')" "only_guards (w, i, tid, gen, x) r r' \<or> one_change (w, i, tid, gen, x) r r'"
    using execute_runs [OF assms(1)] assms(2,4) unfolding runs_once_def by blast
  from e(2) show ?thesis
  proof
    assume "only_guards (w, i, tid, gen, x) r r'"
    then show ?thesis using e(1) assms(3) by (auto simp: only_guards_def)
  next
    assume "one_change (w, i, tid, gen, x) r r'"
    then obtain gs g s gs' where tr: "rn_trace r' = map Guarded gs @ [Guarded g, Serving_change s] @ map Guarded gs'"
      and g: "guarded_by (w, i, tid, gen, x) g" and c: "changing_by (w, i, tid, gen, x) s"
      unfolding one_change_def assms(3) by auto
    obtain t where t: "getTarget g w tid = Some t" "holds_lock t i x" "tg_desiredGeneration t = gen" using g by auto
    obtain a t' where a: "getAttempt s w i = Some a" "da_targetId a = tid" "da_generation a = gen" "da_state a = Activating"
        "getTarget s w tid = Some t'" "holds_lock t' i x" and h: "hosting_reachable s" using c by auto
    have act: "in_activation a" using a(4) by (simp add: in_activation_def)
    note alone = activation_alone [OF hosting_reachable_ok [OF h] a(1) act]
    have "\<forall>j b. getAttempt s w j = Some b \<and> da_targetId b = tid \<and> in_activation b \<longrightarrow> j = i"
    by (intro allI impI, elim conjE) (rule alone(2), assumption, simp add: a(2), rule disjI1, assumption)
    moreover have "\<forall>j y. claim_target w tid j y s = Inr (False, s)" using alone(4) alone(3) a(2,4) by blast
    ultimately show ?thesis using e(1) tr t a by blast
  qed
qed

text \<open>C40: A started activation is not repeated by later executions. Once the mark of an attempt's activation is stored, every execution of it
  that begins afterwards, after however many crashes and redeliveries, only reconciles: it makes no serving-changing call, and the
  mark stays. (An execution that read the attempt before another one completed it is not covered: \<open>late_claim_activates_again\<close>.)\<close>

theorem started_attempts_only_reconcile:
  assumes "others_follow_protocol port" "hosting_reachable (rn_store r)" "getAttempt (rn_store r) w i = Some a" "da_activationStarted a"
    and "execute port w i r = (res, r')"
  shows "rn_trace r' = rn_trace r \<and> (\<exists>b. getAttempt (rn_store r') w i = Some b \<and> da_activationStarted b \<and> da_generation b = da_generation a)"
proof -
  let ?s = "pt_others port (rn_tick r) (rn_store r)" and ?r = "r\<lparr> rn_tick := rn_tick r + 1, rn_store := pt_others port (rn_tick r) (rn_store r) \<rparr>"
  have s: "hosting_step\<^sup>*\<^sup>* (rn_store r) ?s" using assms(1) by (simp add: others_follow_protocol_def)
  obtain b where b: "getAttempt ?s w i = Some b" "newer a b" using steps_newer [OF s assms(2,3)] by blast
  have "da_activationStarted b" using b(2) assms(4) by (simp add: newer_def continues_def)
  then have m: "(if terminal (da_state b) then eff_return (Attempt_result b) else reconcile port w i) ?r = (res, r')"
    using assms(5) b(1) \<open>da_activationStarted b\<close> by (simp add: execute_def eff_bind_def store_read_eq split: if_splits)
  have "silent hosting_reachable (if terminal (da_state b) then eff_return (Attempt_result b) else reconcile port w i)"
    by (intro silent_cases(3) silent_basics silent_reconcile assms(1))
  moreover have "hosting_reachable (rn_store ?r)" using steps_reachable [OF s assms(2)] by simp
  ultimately have "hosting_step\<^sup>*\<^sup>* (rn_store ?r) (rn_store r') \<and> rn_trace r' = rn_trace ?r"
    using m unfolding silent_def by blast
  then have t: "hosting_step\<^sup>*\<^sup>* ?s (rn_store r')" "rn_trace r' = rn_trace r" by simp_all
  obtain c where "getAttempt (rn_store r') w i = Some c" "newer b c" using steps_newer [OF t(1) steps_reachable [OF s assms(2)] b(1)] by blast
  then show ?thesis using t(2) newer_trans [OF b(2)] assms(4) by (auto simp: newer_def continues_def)
qed


subsection \<open>A drill: executing the newer publication\<close>

definition drill_outcome :: hosting_outcome where
  "drill_outcome = \<lparr> oc_state = Activated_outcome, oc_releaseId = Some ''r1'', oc_publicUrl = None, oc_reason = None \<rparr>"

definition drill_adapter :: hosting_adapter where
  "drill_adapter = \<lparr> ad_id = ''native:a'', ad_apiVersion = ''2'', ad_family = Native, ad_capabilities = tg_capabilities drill_target,
     ad_validateTarget = \<lambda>n t c. Inr (), ad_transformFiles = \<lambda>f. f, ad_prepare = \<lambda>n cx. Answer (Inr \<lparr> cp_releaseId = None, cp_data = [] \<rparr>),
     ad_activate = \<lambda>n cx. Callback Before_activation (\<lambda>_. Answer (Inr drill_outcome)), ad_unpublish = None,
     ad_reconcile = \<lambda>n cx. Answer (Inr drill_outcome),
     ad_suspend = None, ad_resume = None, ad_domain = None,
     ad_verify = \<lambda>n cx o'. Answer (Inr \<lparr> vf_observedAt = ''now'', vf_associationConfirmed = True, vf_publicConfirmed = True, vf_locations = [], vf_reasons = [] \<rparr>) \<rparr>"

definition drill_port :: publishing_port where
  "drill_port = \<lparr> pt_others = \<lambda>n s. s, pt_now = \<lambda>n. ''now'', pt_uuid = \<lambda>n. ''x'', pt_adapters = [drill_adapter], pt_hostingEnabled = \<lambda>n a h. Inr True,
     pt_authorize = \<lambda>n a h t. Inr (), pt_authorizePublication = \<lambda>n a s c d. Inr (), pt_websiteGet = \<lambda>n a i. Inr (1, ''c''), pt_listWebsites = \<lambda>n w. Inr [''site''],
     pt_capture = \<lambda>n a i v. web_throw ''website_not_found'', pt_planFingerprint = \<lambda>c t b. ''f'', pt_operatorDomain = None, pt_pathname = \<lambda>u. Inr ''/'',
     pt_hostname = \<lambda>u. Inr u, pt_plainUrl = \<lambda>u. True, pt_externalUrl = \<lambda>u. Inr u, pt_secure = \<lambda>u. True,
     pt_domainToAscii = \<lambda>h. h, pt_enqueue = \<lambda>n w i. Inr (),
     pt_audit = \<lambda>n e. Inr (), pt_confirmQuiescent = \<lambda>n t a p. Inr True, pt_variant = \<lambda>s t. Inr s, pt_render = \<lambda>v l. Inr (''e'', []),
     pt_validateFiles = \<lambda>v f. Inr (), pt_zip = \<lambda>f. Inr ''z'', pt_digest = \<lambda>s. ''d'', pt_href = \<lambda>u. Inr u, pt_putArtifact = \<lambda>n w d z f. Inr (),
     pt_getArtifact = \<lambda>n w d. Inr (Some (''z'', [])) \<rparr>"

definition drill_run :: run where
  "drill_run = \<lparr> rn_store = drill3, rn_tick = 0, rn_attempt = drill_attempt ''q'' 2, rn_checkpoint = \<lparr> cp_releaseId = None, cp_data = [] \<rparr>,
     rn_guardPassed = False, rn_confirmed = None, rn_trace = [] \<rparr>"

lemma drill_protocol: "others_follow_protocol drill_port"
  by (simp add: others_follow_protocol_def drill_port_def)

lemma drill_changed: "list_ex (\<lambda>e. case e of Serving_change _ \<Rightarrow> True | _ \<Rightarrow> False) (rn_trace (snd (execute drill_port ''w'' ''q'' drill_run)))"
  by code_simp

theorem serving_changes_are_exclusive_witness:
  "\<exists>s a. Serving_change s \<in> set (rn_trace (snd (execute drill_port ''w'' ''q'' drill_run))) \<and> getAttempt s ''w'' ''q'' = Some a \<and> da_state a = Activating
     \<and> claim_target ''w'' (da_targetId a) ''p'' ''y'' s = Inr (False, s)"
proof -
  let ?tr = "rn_trace (snd (execute drill_port ''w'' ''q'' drill_run))"
  have no: "\<not> (\<exists>gs. ?tr = map Guarded gs)"
  proof
    assume "\<exists>gs. ?tr = map Guarded gs"
    then obtain gs where "?tr = map Guarded gs" by blast
    then show False using drill_changed by (simp add: list_ex_iff)
  qed
  have "hosting_reachable (rn_store drill_run)" "rn_trace drill_run = []" using drill_reachable(1) by (simp_all add: drill_run_def)
  from serving_changes_are_exclusive [OF drill_protocol this surjective_pairing, of "''w''" "''q''"] no
  obtain gs g s gs' a where t: "?tr = map Guarded gs @ [Guarded g, Serving_change s] @ map Guarded gs'"
    and a: "getAttempt s ''w'' ''q'' = Some a" "da_state a = Activating" and c: "\<forall>j y. claim_target ''w'' (da_targetId a) j y s = Inr (False, s)" by blast
  have "Serving_change s \<in> set ?tr" unfolding t by simp
  then show ?thesis using a c by blast
qed

theorem started_attempts_only_reconcile_witness:
  "rn_trace (snd (execute drill_port ''w'' ''p'' (drill_run\<lparr> rn_store := drill5 \<rparr>))) = []"
proof -
  have "hosting_reachable (rn_store (drill_run\<lparr> rn_store := drill5 \<rparr>))" using drill_reachable(2) by simp
  moreover have "getAttempt (rn_store (drill_run\<lparr> rn_store := drill5 \<rparr>)) ''w'' ''p'' = Some drill_activating" using drill_rows(6) by simp
  moreover have "da_activationStarted drill_activating" by (simp add: drill_activating_def)
  ultimately show ?thesis
    using started_attempts_only_reconcile [OF drill_protocol _ _ _ surjective_pairing, of "drill_run\<lparr> rn_store := drill5 \<rparr>" "''w''" "''p''" drill_activating]
    by (simp add: drill_run_def)
qed


subsection \<open>A late claim\<close>

text \<open>
  \<open>execute\<close> looks at the attempt before it claims the target, not after, and \<open>claim\<close> admits an attempt that has been settled. So a worker
  that read a queued attempt, which another worker then published, still activates it: the attempt changes the site a second time.
\<close>

definition late_activating :: deployment_attempt where
  "late_activating = (drill_attempt ''q'' 2)\<lparr> da_revision := 3, da_executionId := Some ''z'', da_state := Activating, da_activationStarted := True \<rparr>"

definition late_published :: deployment_attempt where
  "late_published = late_activating\<lparr> da_revision := 4, da_state := Published \<rparr>"

definition late4 :: hosting where "late4 = result_store drill3 (claim_target ''w'' ''t'' ''q'' ''z'' drill3)"
definition late5 :: hosting where "late5 = (case updateAttempt late_activating 2 ''z'' late4 of Inr s \<Rightarrow> s | Inl _ \<Rightarrow> late4)"
definition late6 :: hosting where
  "late6 = (case finishAttempt late_published 3 ''z'' (Some (Some ''r1'', False)) late5 of Inr s \<Rightarrow> s | Inl _ \<Rightarrow> late5)"

definition late_port :: publishing_port where
  "late_port = drill_port\<lparr> pt_others := \<lambda>n s. if n = 2 \<and> s = drill3 then late6 else s \<rparr>"

lemma late_steps: "hosting_step\<^sup>*\<^sup>* drill3 late6"
proof -
  have c: "claim_target ''w'' ''t'' ''q'' ''z'' drill3 = Inr (True, late4)" "updateAttempt late_activating 2 ''z'' late4 = Inr late5"
    "finishAttempt late_published 3 ''z'' (Some (Some ''r1'', False)) late5 = Inr late6" by (code_simp)+
  have g: "getAttempt late4 ''w'' ''q'' = Some ((drill_attempt ''q'' 2)\<lparr> da_revision := 2, da_executionId := Some ''z'' \<rparr>)"
    "continues ((drill_attempt ''q'' 2)\<lparr> da_revision := 2, da_executionId := Some ''z'' \<rparr>) late_activating"
    "getAttempt late5 ''w'' ''q'' = Some late_activating" "continues late_activating late_published" by (code_simp)+
  have i: "da_workspaceId late_activating = ''w''" "da_id late_activating = ''q''" "da_workspaceId late_published = ''w''" "da_id late_published = ''q''"
    "da_state late_published = Published" by (simp_all add: late_published_def late_activating_def drill_attempt_def)
  have "hosting_step drill3 late4" by (rule step_claim [OF c(1)])
  moreover have "hosting_step late4 late5" by (rule step_update [OF c(2)]) (use g in \<open>simp_all add: i\<close>)
  moreover have "hosting_step late5 late6" by (rule step_finish [OF c(3)]) (use g in \<open>simp_all add: i\<close>)
  ultimately show ?thesis by (meson converse_rtranclp_into_rtranclp rtranclp.rtrancl_refl)
qed

lemma late_claim_activates_again:
  "others_follow_protocol late_port" "hosting_reachable (rn_store drill_run)"
  "map_option da_state (getAttempt late6 ''w'' ''q'') = Some Published"
  "list_ex (\<lambda>e. case e of Serving_change s \<Rightarrow> map_option tg_activeAttemptId (getTarget s ''w'' ''t'') = Some (Some ''q'') | Guarded _ \<Rightarrow> False)
     (rn_trace (snd (execute late_port ''w'' ''q'' drill_run)))"
proof -
  show "others_follow_protocol late_port" using late_steps by (simp add: others_follow_protocol_def late_port_def drill_port_def)
  show "hosting_reachable (rn_store drill_run)" using drill_reachable(1) by (simp add: drill_run_def)
  show "map_option da_state (getAttempt late6 ''w'' ''q'') = Some Published" by code_simp
  show "list_ex (\<lambda>e. case e of Serving_change s \<Rightarrow> map_option tg_activeAttemptId (getTarget s ''w'' ''t'') = Some (Some ''q'') | Guarded _ \<Rightarrow> False)
     (rn_trace (snd (execute late_port ''w'' ''q'' drill_run)))" by code_simp
qed

end
