(* ===== verification/Website_Commands.thy ===== *)
theory Website_Commands
  imports Website_Publishing
begin

text \<open>
  The commands of \<open>WebsitePublishingService\<close> (\<open>packages/portability/src/website-publishing.ts\<close>) that creators, operators and
  timers call: destinations and bindings, review, accepting a publication, rollback, unpublishing, retry, cancellation,
  suspension and recovery of serving, and custom domains; and the path rule they rely on, \<open>websitePath\<close> of
  \<open>packages/core/src/websites.ts\<close>. Programs, ports and the interference of other processes are those of \<open>Website_Publishing\<close>.
\<close>

subsection \<open>Paths\<close>

definition forbidden_char :: "char \<Rightarrow> bool" where
  "forbidden_char c \<longleftrightarrow> c \<in> {CHR ''%'', CHR 0x5C, CHR ''?'', CHR ''#''} \<or> (of_char c :: nat) \<le> 32 \<or> (of_char c :: nat) = 127"

text \<open>\<open>\p{L}\<close> and \<open>\p{N}\<close> below 256.\<close>

definition letter_or_number :: "char \<Rightarrow> bool" where
  "letter_or_number c \<longleftrightarrow> (let n = (of_char c :: nat) in
     48 \<le> n \<and> n \<le> 57 \<or> 65 \<le> n \<and> n \<le> 90 \<or> 97 \<le> n \<and> n \<le> 122 \<or> n \<in> {170, 178, 179, 181, 185, 186, 188, 189, 190} \<or> 192 \<le> n \<and> n \<noteq> 215 \<and> n \<noteq> 247)"

fun split_at :: "char \<Rightarrow> string \<Rightarrow> string list" where
  "split_at d [] = [[]]"
| "split_at d (c # s) = (if c = d then [] # split_at d s else (case split_at d s of p # ps \<Rightarrow> (c # p) # ps | [] \<Rightarrow> [[c]]))"

definition safe_segment :: "string \<Rightarrow> bool" where
  "safe_segment p \<longleftrightarrow> p \<noteq> [] \<and> letter_or_number (hd p) \<and> list_all (\<lambda>c. letter_or_number c \<or> c = CHR ''_'' \<or> c = CHR ''-'') p
     \<and> p \<notin> {''con'', ''prn'', ''aux'', ''nul'', ''com1'', ''lpt1''}"

definition hex_upper :: "nat \<Rightarrow> char" where
  "hex_upper n = (if n < 10 then char_of (48 + n) else char_of (55 + n))"

definition percent :: "nat \<Rightarrow> string" where
  "percent n = [CHR ''%'', hex_upper (n div 16), hex_upper (n mod 16)]"

definition uri_char :: "char \<Rightarrow> string" where
  "uri_char c = (let n = (of_char c :: nat) in
     if 48 \<le> n \<and> n \<le> 57 \<or> 65 \<le> n \<and> n \<le> 90 \<or> 97 \<le> n \<and> n \<le> 122 \<or> c \<in> set ''-_.!~*()'' \<or> n = 39 then [c]
     else if n < 128 then percent n else percent (192 + n div 64) @ percent (128 + n mod 64))"

definition website_path :: "string \<Rightarrow> web_error + string" where
  "website_path input =
     (if 1024 < length input \<or> list_ex forbidden_char input then web_throw ''invalid_path''
      else let parts = filter (\<lambda>p. p \<noteq> []) (split_at (CHR ''/'') (js_lower input)) in
        if \<not> list_all safe_segment parts then web_throw ''invalid_path''
        else Inr (CHR ''/'' # concat (map (\<lambda>p. concat (map uri_char p) @ ''/'') parts)))"

subsection \<open>Lists and loops\<close>

fun for_each :: "'x list \<Rightarrow> ('x \<Rightarrow> 'a prog) \<Rightarrow> 'a list prog" where
  "for_each [] f = eff_return []"
| "for_each (x # xs) f = eff_bind (f x) (\<lambda>y. eff_bind (for_each xs f) (\<lambda>ys. eff_return (y # ys)))"

definition audit :: "publishing_port \<Rightarrow> string \<Rightarrow> unit prog" where
  "audit port event = port_call (\<lambda>n. pt_audit port n event)"

definition website_of :: "publishing_port \<Rightarrow> actor \<Rightarrow> string \<Rightarrow> (int \<times> string) prog" where
  "website_of port actor i = port_call (\<lambda>n. pt_websiteGet port n actor i)"

definition allow_publication :: "publishing_port \<Rightarrow> actor \<Rightarrow> string \<Rightarrow> string \<Rightarrow> website_dependency list \<Rightarrow> unit prog" where
  "allow_publication port actor site creator dependencies = port_call (\<lambda>n. pt_authorizePublication port n actor site creator dependencies)"

definition validate_target :: "publishing_port \<Rightarrow> hosting_target \<Rightarrow> hosting_connection option \<Rightarrow> unit prog" where
  "validate_target port t c = eff_bind (eff_lift (find_adapter port (tg_adapterId t))) (\<lambda>adapter. port_call (\<lambda>n. ad_validateTarget adapter n t c))"

definition attempt_of :: "publishing_port \<Rightarrow> string \<Rightarrow> string \<Rightarrow> deployment_attempt option prog" where
  "attempt_of port w i = store_read port (\<lambda>s. Inr (getAttempt s w i))"

definition intent_of :: "publishing_port \<Rightarrow> string \<Rightarrow> string \<Rightarrow> publish_intent option prog" where
  "intent_of port w i = store_read port (\<lambda>s. Inr (getIntent s w i))"

subsection \<open>Destinations\<close>

definition choices :: "publishing_port \<Rightarrow> actor \<Rightarrow> (string \<times> hosting_family \<times> string \<times> hosting_capabilities) list prog" where
  "choices port actor =
     eff_bind (port_call (\<lambda>n. pt_authorize port n actor View_action None)) (\<lambda>_.
     eff_bind (for_each (pt_adapters port) (\<lambda>a. eff_bind (port_call (\<lambda>n. pt_hostingEnabled port n actor a)) (\<lambda>on. eff_return (a, on)))) (\<lambda>found.
     eff_return (map (\<lambda>(a, _). (ad_id a, ad_family a, ad_apiVersion a, ad_capabilities a)) (filter snd found))))"

definition targets_of :: "publishing_port \<Rightarrow> actor \<Rightarrow> string \<Rightarrow> hosting_target list prog" where
  "targets_of port actor site =
     eff_bind (website_of port actor site) (\<lambda>_.
     eff_bind (store_read port (\<lambda>s. Inr (listTargets s (ac_workspaceId actor) site))) (\<lambda>ts.
     for_each ts (\<lambda>t. eff_bind (port_call (\<lambda>n. pt_authorize port n actor View_action (Some t))) (\<lambda>_. eff_return t))))"

definition private_key :: "string \<Rightarrow> bool" where
  "private_key k \<longleftrightarrow> list_ex (\<lambda>i. starts_with (drop i k) ''private'' \<and>
     (starts_with (drop (i + 7) k) ''key''
      \<or> i + 7 < length k \<and> k ! (i + 7) \<noteq> char_of (10 :: nat) \<and> k ! (i + 7) \<noteq> char_of (13 :: nat) \<and> starts_with (drop (i + 8) k) ''key'')) [0..<length k]"

definition secret_name :: "string \<Rightarrow> bool" where
  "secret_name key \<longleftrightarrow> (let k = js_lower key in
     js_includes k ''secret'' \<or> js_includes k ''password'' \<or> js_includes k ''token'' \<or> private_key k \<or> js_includes k ''credential'')"

definition configureTarget :: "publishing_port \<Rightarrow> actor \<Rightarrow> hosting_target \<Rightarrow> bool \<Rightarrow> int \<Rightarrow> hosting_target prog" where
  "configureTarget port actor input ownershipConfirmed expected =
     eff_bind (website_of port actor (tg_websiteId input)) (\<lambda>_.
     eff_bind (port_call (\<lambda>n. pt_authorize port n actor Manage_action None)) (\<lambda>_.
     eff_bind (check_web (tg_workspaceId input = ac_workspaceId actor \<and> tg_revision input = expected + 1 \<and> ownershipConfirmed
       \<and> truthy (tg_remoteId input) \<and> nonblank (tg_label input)) ''invalid_target'') (\<lambda>_.
     eff_bind (check_web (\<not> list_ex (\<lambda>kv. secret_name (fst kv)) (tg_config input)) ''invalid_target'') (\<lambda>_.
     eff_bind (eff_lift (find_adapter port (tg_adapterId input))) (\<lambda>adapter.
     eff_bind (port_call (\<lambda>n. pt_hostingEnabled port n actor adapter)) (\<lambda>enabled.
     eff_bind (check_web enabled ''hosting_unavailable'') (\<lambda>_.
     eff_bind (eff_lift (try_then (pt_externalUrl port (tg_publicUrl input)) (pt_href port))) (\<lambda>href.
     eff_bind (check_web (ad_family adapter = tg_family input \<and> (tg_family input = Native \<or> pt_secure port href) \<and> pt_plainUrl port href) ''invalid_target'') (\<lambda>_.
     eff_bind (eff_lift (website_path (tg_basePath input))) (\<lambda>basePath.
     eff_bind (eff_lift (pt_pathname port href)) (\<lambda>pathname.
     eff_bind (check_web (basePath = pathname) ''invalid_target'') (\<lambda>_.
     eff_bind (store_read port (\<lambda>s. Inr (getTarget s (ac_workspaceId actor) (tg_id input)))) (\<lambda>previous.
     eff_bind (case previous of Some p \<Rightarrow> eff_return (tg_ownershipMarker p) | None \<Rightarrow> eff_bind (fresh_id port) (\<lambda>x. eff_return (pt_digest port x))) (\<lambda>marker.
       let t = input\<lparr> tg_lock := None, tg_activeAttemptId := None, tg_activeArtifactDigest := None, tg_activeReleaseId := None, tg_publicUrl := href,
           tg_basePath := basePath, tg_capabilities := ad_capabilities adapter, tg_ownershipMarker := marker, tg_desiredGeneration := 0,
           tg_activeGeneration := 0, tg_serving := Unpublished_serving \<rparr> in
     eff_bind (connection_of port t) (\<lambda>c.
     eff_bind (port_call (\<lambda>n. ad_validateTarget adapter n t c)) (\<lambda>_.
     eff_bind (store_write port (saveTarget t expected)) (\<lambda>_.
     eff_bind (audit port ''website.target_configured'') (\<lambda>_.
     target_of port actor (tg_id t) View_action))))))))))))))))))"

definition saveBinding_command :: "publishing_port \<Rightarrow> actor \<Rightarrow> destination_binding \<Rightarrow> int \<Rightarrow> destination_binding prog" where
  "saveBinding_command port actor b expected =
     eff_bind (website_of port actor (wb_websiteId b)) (\<lambda>_.
     eff_bind (port_call (\<lambda>n. pt_authorize port n actor Manage_action None)) (\<lambda>_.
     eff_bind (check_web (wb_workspaceId b = ac_workspaceId actor \<and> wb_revision b = expected + 1 \<and> nonblank (wb_label b) \<and> wb_targetIds b \<noteq> []
       \<and> length (wb_targetIds b) \<le> 20 \<and> distinct (wb_targetIds b)) ''invalid_binding'') (\<lambda>_.
     eff_bind (for_each (wb_targetIds b) (\<lambda>i. eff_bind (target_of port actor i Manage_action) (\<lambda>t.
       check_web (tg_websiteId t = wb_websiteId b) ''foreign_reference''))) (\<lambda>_.
     eff_bind (store_write port (saveBinding b expected)) (\<lambda>_. eff_return b)))))"

subsection \<open>Review\<close>

definition review_target :: "publishing_port \<Rightarrow> actor \<Rightarrow> string \<Rightarrow> string \<Rightarrow> approved_target prog" where
  "review_target port actor site i =
     eff_bind (target_of port actor i Publish_action) (\<lambda>t.
     eff_bind (check_web (tg_websiteId t = site) ''foreign_reference'') (\<lambda>_.
     eff_bind (connection_of port t) (\<lambda>c.
     eff_bind (validate_target port t c) (\<lambda>_.
     eff_return \<lparr> at_id = i, at_revision = tg_revision t, at_connectionRevision = map_option hc_revision c, at_accountId = tg_accountId t \<rparr>))))"

definition review :: "publishing_port \<Rightarrow> actor \<Rightarrow> string \<Rightarrow> int \<Rightarrow> string list \<Rightarrow> (string \<times> int) option \<Rightarrow> publish_plan prog" where
  "review port actor site expected targetIds binding =
     eff_bind (check_web (targetIds \<noteq> [] \<and> length targetIds \<le> 20 \<and> distinct targetIds) ''invalid_targets'') (\<lambda>_.
     eff_bind (port_call (\<lambda>n. pt_capture port n actor site expected)) (\<lambda>c.
     eff_bind (for_each targetIds (review_target port actor site)) (\<lambda>targets.
     eff_bind (fresh_id port) (\<lambda>i.
     eff_bind (now_time port) (\<lambda>created.
     eff_bind (now_time port) (\<lambda>now.
     eff_bind (present (Option.bind (date_parse now) (\<lambda>ms. to_iso (ms + 15 * 60 * 1000)))) (\<lambda>expires.
       let p = \<lparr> pn_id = i, pn_workspaceId = ac_workspaceId actor, pn_websiteId = site, pn_actorId = ac_actorId actor,
           pn_fingerprint = pt_planFingerprint port c targets binding, pn_snapshotReference = ''publish-snapshot-'' @ i, pn_websiteRevision = expected,
           pn_dependencies = ca_dependencies c, pn_creatorIdentityId = ca_creatorIdentityId c, pn_targets = targets, pn_binding = binding,
           pn_policyRevision = ca_policyRevision c, pn_limits = ca_limits c, pn_createdAt = created, pn_expiresAt = expires \<rparr> in
     eff_bind (store_write port (putPlan p (ca_encoded c))) (\<lambda>_. eff_return p))))))))"

definition reviewBinding :: "publishing_port \<Rightarrow> actor \<Rightarrow> string \<Rightarrow> int \<Rightarrow> int \<Rightarrow> publish_plan prog" where
  "reviewBinding port actor bindingId expectedBinding expectedWebsite =
     eff_bind (store_read port (\<lambda>s. Inr (getBinding s (ac_workspaceId actor) bindingId))) (\<lambda>found.
     case found of None \<Rightarrow> throw_web ''binding_changed''
     | Some b \<Rightarrow> eff_bind (check_web (wb_enabled b \<and> wb_revision b = expectedBinding) ''binding_changed'') (\<lambda>_.
         review port actor (wb_websiteId b) expectedWebsite (wb_targetIds b) (Some (wb_id b, wb_revision b))))"

definition cleanupExpiredReviews :: "publishing_port \<Rightarrow> nat prog" where
  "cleanupExpiredReviews port = eff_bind (now_time port) (\<lambda>now. store_call port (cleanupUnacceptedPlans now 100))"

subsection \<open>Accepting a publication\<close>

record publish_source =
  ps_artifactDigest :: "string option"
  ps_sourceArtifactDigest :: "string option"
  ps_marker :: "string option"
  ps_dependencies :: "website_dependency list"
  ps_creatorIdentityId :: string
  ps_binding :: "(string \<times> int) option"
  ps_renderLimits :: "website_limits option"

definition source_of :: "deployment_attempt \<Rightarrow> publish_source" where
  "source_of a = \<lparr> ps_artifactDigest = da_artifactDigest a, ps_sourceArtifactDigest = da_sourceArtifactDigest a, ps_marker = da_marker a,
     ps_dependencies = da_dependencies a, ps_creatorIdentityId = da_creatorIdentityId a, ps_binding = da_binding a, ps_renderLimits = da_renderLimits a \<rparr>"

record accept_request =
  aq_key :: string
  aq_websiteId :: string
  aq_operation :: publish_operation
  aq_fingerprint :: string
  aq_plan :: "publish_plan option"
  aq_snapshotReference :: "string option"
  aq_targetIds :: "string list"
  aq_source :: "publish_source option"

definition intent_id :: "publishing_port \<Rightarrow> actor \<Rightarrow> string \<Rightarrow> string" where
  "intent_id port actor key = ''publish-'' @ pt_digest port (json_array (map json_string [ac_workspaceId actor, ac_actorId actor, key]))"

definition new_attempt :: "publishing_port \<Rightarrow> actor \<Rightarrow> accept_request \<Rightarrow> string \<Rightarrow> string \<Rightarrow> hosting_target \<Rightarrow> hosting_connection option \<Rightarrow> string \<Rightarrow> deployment_attempt" where
  "new_attempt port actor q i targetId t c now =
     \<lparr> da_id = pt_digest port (json_array (map json_string [i, targetId])), da_workspaceId = ac_workspaceId actor, da_targetId = targetId,
       da_targetRevision = tg_revision t, da_intentId = i, da_generation = tg_desiredGeneration t + 1, da_revision = 1,
       da_connectionRevision = map_option hc_revision c, da_accountId = tg_accountId t, da_state = Queued_attempt,
       da_checkpoint = \<lparr> cp_releaseId = None, cp_data = [] \<rparr>,
       da_artifactDigest = Option.bind (aq_source q) ps_artifactDigest, da_sourceArtifactDigest = Option.bind (aq_source q) ps_sourceArtifactDigest,
       da_marker = Option.bind (aq_source q) ps_marker,
       da_dependencies = (case aq_plan q of Some p \<Rightarrow> pn_dependencies p | None \<Rightarrow> (case aq_source q of Some x \<Rightarrow> ps_dependencies x | None \<Rightarrow> [])),
       da_creatorIdentityId = (case aq_plan q of Some p \<Rightarrow> pn_creatorIdentityId p | None \<Rightarrow> (case aq_source q of Some x \<Rightarrow> ps_creatorIdentityId x | None \<Rightarrow> [])),
       da_binding = (case Option.bind (aq_plan q) pn_binding of Some b \<Rightarrow> Some b | None \<Rightarrow> Option.bind (aq_source q) ps_binding),
       da_renderLimits = (case aq_plan q of Some p \<Rightarrow> Some (pn_limits p) | None \<Rightarrow> Option.bind (aq_source q) ps_renderLimits),
       da_executionId = None, da_activationStarted = False, da_retryAfter = None, da_verification = None, da_errorCode = None, da_updatedAt = now \<rparr>"

definition still_approved :: "publish_plan \<Rightarrow> hosting_target \<Rightarrow> hosting_connection option \<Rightarrow> string \<Rightarrow> bool" where
  "still_approved p t c targetId \<longleftrightarrow> (case List.find (\<lambda>a. at_id a = targetId) (pn_targets p) of None \<Rightarrow> False
     | Some a \<Rightarrow> at_revision a = tg_revision t \<and> at_accountId a = tg_accountId t \<and> at_connectionRevision a = map_option hc_revision c)"

definition accept_target :: "publishing_port \<Rightarrow> actor \<Rightarrow> accept_request \<Rightarrow> string \<Rightarrow> string \<Rightarrow> (hosting_target \<times> deployment_attempt) prog" where
  "accept_target port actor q i targetId =
     eff_bind (target_of port actor targetId Publish_action) (\<lambda>t.
     eff_bind (connection_of port t) (\<lambda>c.
     eff_bind (check_web (tg_websiteId t = aq_websiteId q \<and> (case aq_plan q of None \<Rightarrow> True | Some p \<Rightarrow> still_approved p t c targetId)) ''revision_conflict'') (\<lambda>_.
     eff_bind (now_time port) (\<lambda>now. eff_return (t, new_attempt port actor q i targetId t c now)))))"

definition recoverOutbox :: "publishing_port \<Rightarrow> unit prog" where
  "recoverOutbox port =
     eff_bind (store_read port (\<lambda>s. Inr (pendingOutbox 100 s))) (\<lambda>rows.
     eff_bind (for_each rows (\<lambda>(w, i).
       eff_bind (port_call (\<lambda>n. pt_enqueue port n w i)) (\<lambda>_. store_write port (\<lambda>s. Inr (acknowledgeOutbox w i s))))) (\<lambda>_. eff_return ()))"

definition accept_new :: "publishing_port \<Rightarrow> actor \<Rightarrow> accept_request \<Rightarrow> string \<Rightarrow> publish_intent prog" where
  "accept_new port actor q i =
     eff_bind (for_each (aq_targetIds q) (accept_target port actor q i)) (\<lambda>accepted.
     eff_bind (now_time port) (\<lambda>now.
       let intent = \<lparr> pi_id = i, pi_workspaceId = ac_workspaceId actor, pi_websiteId = aq_websiteId q, pi_actorId = ac_actorId actor,
           pi_operation = aq_operation q, pi_planId = map_option pn_id (aq_plan q),
           pi_snapshotReference = (case aq_plan q of Some p \<Rightarrow> Some (pn_snapshotReference p) | None \<Rightarrow> aq_snapshotReference q),
           pi_idempotencyKey = aq_key q, pi_approvalFingerprint = aq_fingerprint q, pi_createdAt = now, pi_attemptIds = map (da_id \<circ> snd) accepted \<rparr> in
     eff_bind (store_call port (acceptIntent \<lparr> ai_intent = intent, ai_plan = aq_plan q, ai_targets = map fst accepted, ai_attempts = map snd accepted \<rparr>)) (\<lambda>saved.
     eff_bind (catch_prog (recoverOutbox port) (\<lambda>_. eff_return ())) (\<lambda>_.
     eff_bind (audit port ''website.publish_accepted'') (\<lambda>_. eff_return saved)))))"

definition accept :: "publishing_port \<Rightarrow> actor \<Rightarrow> accept_request \<Rightarrow> publish_intent prog" where
  "accept port actor q =
     eff_bind (check_web (nonblank (aq_key q) \<and> length (aq_key q) \<le> 200) ''invalid_idempotency_key'') (\<lambda>_.
       let i = intent_id port actor (aq_key q) in
     eff_bind (intent_of port (ac_workspaceId actor) i) (\<lambda>found.
     case found of
       Some existing \<Rightarrow> eff_bind (check_web (pi_approvalFingerprint existing = aq_fingerprint q) ''idempotency_conflict'') (\<lambda>_. eff_return existing)
     | None \<Rightarrow> accept_new port actor q i))"

definition plan_expired :: "publish_plan \<Rightarrow> string \<Rightarrow> bool" where
  "plan_expired p now \<longleftrightarrow> (case (date_parse (pn_expiresAt p), date_parse now) of (Some e, Some n) \<Rightarrow> e \<le> n | _ \<Rightarrow> False)"

text \<open>An expired review may only repeat what it already accepted.\<close>

definition publish :: "publishing_port \<Rightarrow> actor \<Rightarrow> string \<Rightarrow> string \<Rightarrow> string \<Rightarrow> string option \<Rightarrow> publish_intent prog" where
  "publish port actor planId fingerprint key expectedWebsite =
     eff_bind (store_read port (\<lambda>s. Inr (getPlan s (ac_workspaceId actor) planId))) (\<lambda>found.
     case found of None \<Rightarrow> throw_web ''invalid_approval''
     | Some p \<Rightarrow>
       eff_bind (check_web (\<not> (truthy_opt expectedWebsite \<and> Some (pn_websiteId p) \<noteq> expectedWebsite) \<and> pn_actorId p = ac_actorId actor
         \<and> pn_fingerprint p = fingerprint) ''invalid_approval'') (\<lambda>_.
       eff_bind (now_time port) (\<lambda>now.
       eff_bind (if plan_expired p now then intent_of port (ac_workspaceId actor) (intent_id port actor key) else eff_return None) (\<lambda>repeated.
       eff_bind (check_web (\<not> plan_expired p now \<or> repeated \<noteq> None) ''invalid_approval'') (\<lambda>_.
       eff_bind (allow_publication port actor (pn_websiteId p) (pn_creatorIdentityId p) (pn_dependencies p)) (\<lambda>_.
       accept port actor \<lparr> aq_key = key, aq_websiteId = pn_websiteId p, aq_operation = Publish_operation, aq_fingerprint = fingerprint, aq_plan = Some p,
         aq_snapshotReference = None, aq_targetIds = map at_id (pn_targets p), aq_source = None \<rparr>))))))"

subsection \<open>Publishing a retained release, an empty site, or nothing\<close>

definition blank_page :: string where
  "blank_page = ''<!doctype html><html><head><meta charset=\"utf-8\"><meta name=\"robots\" content=\"noindex\"><title></title></head><body></body></html>''"

definition robots_file :: string where
  "robots_file = ''User-agent: *'' @ [char_of (10 :: nat)] @ ''Disallow: /'' @ [char_of (10 :: nat)]"

definition blank_files :: "files option \<Rightarrow> files" where
  "blank_files previous =
     fold (\<lambda>name. AList.update name blank_page) (filter (\<lambda>name. ends_with name ''.html'') (map fst (case previous of Some f \<Rightarrow> f | None \<Rightarrow> [])))
       [(''index.html'', blank_page), (''404.html'', blank_page), (''robots.txt'', robots_file)]"

definition publishBlankForDeletion :: "publishing_port \<Rightarrow> actor \<Rightarrow> string \<Rightarrow> int \<Rightarrow> string \<Rightarrow> string \<Rightarrow> publish_intent prog" where
  "publishBlankForDeletion port actor site expected targetId key =
     (let w = ac_workspaceId actor; dependencies = [\<lparr> wd_kind = Website_dependency, wd_id = site, wd_revision = int_str expected \<rparr>] in
     eff_bind (website_of port actor site) (\<lambda>(revision, creator).
     eff_bind (port_call (\<lambda>n. pt_authorize port n actor Manage_action None)) (\<lambda>_.
     eff_bind (check_web (revision = expected) ''revision_conflict'') (\<lambda>_.
     eff_bind (target_of port actor targetId Publish_action) (\<lambda>t.
     eff_bind (check_web (tg_websiteId t = site) ''foreign_reference'') (\<lambda>_.
     eff_bind (intent_of port w (intent_id port actor key)) (\<lambda>found.
     case found of Some existing \<Rightarrow> eff_return existing
     | None \<Rightarrow>
       eff_bind (allow_publication port actor site creator dependencies) (\<lambda>_.
       eff_bind (eff_lift (find_adapter port (tg_adapterId t))) (\<lambda>adapter.
       eff_bind (connection_of port t) (\<lambda>c.
       eff_bind (port_call (\<lambda>n. ad_validateTarget adapter n t c)) (\<lambda>_.
       eff_bind (if truthy_opt (tg_activeArtifactDigest t)
           then port_call (\<lambda>n. pt_getArtifact port n w (the (tg_activeArtifactDigest t))) else eff_return None) (\<lambda>previous.
         let files = ad_transformFiles adapter (blank_files (map_option snd previous)) in
       eff_bind (eff_lift (pt_zip port files)) (\<lambda>plain.
         let sourceDigest = pt_digest port plain; marker = pt_digest port (''website-release:'' @ sourceDigest @ '':'' @ tg_ownershipMarker t);
             released = AList.update ''ubeeq-release.json'' (release_file marker) files in
       eff_bind (eff_lift (pt_zip port released)) (\<lambda>archive.
       eff_bind (port_call (\<lambda>n. pt_putArtifact port n w (pt_digest port archive) archive released)) (\<lambda>_.
       accept port actor \<lparr> aq_key = key, aq_websiteId = site, aq_operation = Publish_operation,
         aq_fingerprint = pt_digest port (json_array [json_string ''delete-blank'', json_string site, int_str expected, json_string targetId]),
         aq_plan = None, aq_snapshotReference = None, aq_targetIds = [targetId],
         aq_source = Some \<lparr> ps_artifactDigest = Some (pt_digest port archive), ps_sourceArtifactDigest = Some sourceDigest, ps_marker = Some marker,
           ps_dependencies = dependencies, ps_creatorIdentityId = creator, ps_binding = None, ps_renderLimits = None \<rparr> \<rparr>)))))))))))))))"

definition rollback :: "publishing_port \<Rightarrow> actor \<Rightarrow> string \<Rightarrow> string \<Rightarrow> string \<Rightarrow> publish_intent prog" where
  "rollback port actor targetId attemptId key =
     eff_bind (target_of port actor targetId Publish_action) (\<lambda>t.
     eff_bind (attempt_of port (ac_workspaceId actor) attemptId) (\<lambda>found.
     case found of None \<Rightarrow> throw_web ''rollback_unavailable''
     | Some source \<Rightarrow>
       eff_bind (check_web (hp_rollback (tg_capabilities t) \<noteq> Unsupported_rollback \<and> da_targetId source = targetId \<and> truthy_opt (da_artifactDigest source)
         \<and> da_state source \<in> {Published, Verifying}) ''rollback_unavailable'') (\<lambda>_.
       eff_bind (allow_publication port actor (tg_websiteId t) (da_creatorIdentityId source) (da_dependencies source)) (\<lambda>_.
       accept port actor \<lparr> aq_key = key, aq_websiteId = tg_websiteId t, aq_operation = Rollback_operation,
         aq_fingerprint = pt_digest port (json_array (map json_string [''rollback'', targetId, da_id source, the (da_artifactDigest source)])),
         aq_plan = None, aq_snapshotReference = None, aq_targetIds = [targetId], aq_source = Some (source_of source) \<rparr>))))"

definition unpublish :: "publishing_port \<Rightarrow> actor \<Rightarrow> string \<Rightarrow> string \<Rightarrow> publish_intent prog" where
  "unpublish port actor targetId key =
     eff_bind (target_of port actor targetId Publish_action) (\<lambda>t.
     eff_bind (check_web (hp_unpublish (tg_capabilities t) = Confirmed_unpublish) ''operator_action_required'') (\<lambda>_.
     accept port actor \<lparr> aq_key = key, aq_websiteId = tg_websiteId t, aq_operation = Unpublish_operation,
       aq_fingerprint = pt_digest port (json_array [json_string ''unpublish'', json_string targetId, int_str (tg_revision t)]),
       aq_plan = None, aq_snapshotReference = None, aq_targetIds = [targetId], aq_source = None \<rparr>))"

definition cooling_down :: "deployment_attempt \<Rightarrow> string \<Rightarrow> bool" where
  "cooling_down a now \<longleftrightarrow> (case (date_parse (the (da_retryAfter a)), date_parse now) of (Some t, Some n) \<Rightarrow> n < t | _ \<Rightarrow> False)"

definition retry_attempt :: "publishing_port \<Rightarrow> actor \<Rightarrow> string \<Rightarrow> string \<Rightarrow> publish_intent prog" where
  "retry_attempt port actor attemptId key =
     eff_bind (attempt_of port (ac_workspaceId actor) attemptId) (\<lambda>found.
     case found of None \<Rightarrow> throw_web ''retry_unavailable''
     | Some old \<Rightarrow>
       eff_bind (check_web (da_state old \<in> {Failed_attempt, Reconnect_required}) ''retry_unavailable'') (\<lambda>_.
       eff_bind (when_web (truthy_opt (da_retryAfter old)) (eff_bind (now_time port) (\<lambda>now. check_web (\<not> cooling_down old now) ''provider_cooldown''))) (\<lambda>_.
       eff_bind (intent_of port (ac_workspaceId actor) (da_intentId old)) (\<lambda>found.
       eff_bind (present found) (\<lambda>intent.
       eff_bind (when_web (pi_operation intent \<noteq> Unpublish_operation)
         (allow_publication port actor (pi_websiteId intent) (da_creatorIdentityId old) (da_dependencies old))) (\<lambda>_.
       accept port actor \<lparr> aq_key = key, aq_websiteId = pi_websiteId intent, aq_operation = pi_operation intent,
         aq_fingerprint = pt_digest port (json_array (map json_string [''retry'', da_intentId old, da_targetId old,
           case da_artifactDigest old of Some d \<Rightarrow> d | None \<Rightarrow> pi_approvalFingerprint intent])),
         aq_plan = None, aq_snapshotReference = pi_snapshotReference intent, aq_targetIds = [da_targetId old],
         aq_source = Some (source_of old) \<rparr>))))))"

subsection \<open>Cancelling and repairing an attempt\<close>

definition cancel_attempt :: "publishing_port \<Rightarrow> actor \<Rightarrow> string \<Rightarrow> unit prog" where
  "cancel_attempt port actor attemptId =
     (let w = ac_workspaceId actor in
     eff_bind (store_read port (\<lambda>s. case getAttempt s w attemptId of Some a \<Rightarrow> Inr a | None \<Rightarrow> web_throw ''attempt_not_found'')) (\<lambda>a.
     eff_bind (target_of port actor (da_targetId a) Publish_action) (\<lambda>_.
     eff_bind (check_web (\<not> da_activationStarted a) ''reconciliation_required'') (\<lambda>_.
     eff_bind (fresh_id port) (\<lambda>x.
     eff_bind (store_call port (claim_target w (da_targetId a) (da_id a) x)) (\<lambda>granted.
     eff_bind (check_web granted ''target_busy'') (\<lambda>_.
     eff_bind (store_read port (\<lambda>s. Inr (getAttempt s w (da_id a)))) (\<lambda>found.
     eff_bind (present found) (\<lambda>current.
     store_write port (finishAttempt (current\<lparr> da_state := Cancelled_attempt, da_revision := da_revision current + 1 \<rparr>) (da_revision current) x None))))))))))"

definition releaseRecoveryLock :: "publishing_port \<Rightarrow> actor \<Rightarrow> string \<Rightarrow> string \<Rightarrow> unit prog" where
  "releaseRecoveryLock port actor attemptId proofReference =
     eff_bind (store_read port (\<lambda>s. case getAttempt s (ac_workspaceId actor) attemptId of
         Some a \<Rightarrow> if da_state a = Unknown_outcome then Inr a else web_throw ''recovery_unavailable'' | None \<Rightarrow> web_throw ''recovery_unavailable'')) (\<lambda>a.
     eff_bind (target_of port actor (da_targetId a) Manage_action) (\<lambda>t.
     eff_bind (port_call (\<lambda>n. pt_confirmQuiescent port n t a proofReference)) (\<lambda>quiescent.
     eff_bind (check_web quiescent ''writer_not_fenced'') (\<lambda>_.
     eff_bind (check_web (locked_by t (da_id a)) ''writer_fenced'') (\<lambda>_.
     eff_bind (now_time port) (\<lambda>now.
     eff_bind (store_write port (finishAttempt (a\<lparr> da_revision := da_revision a + 1, da_state := Failed_attempt,
       da_errorCode := Some ''quiescent_repair_required'', da_updatedAt := now \<rparr>) (da_revision a) (lk_executionId (the (tg_lock t))) None)) (\<lambda>_.
     audit port ''website.recovery_writer_fenced'')))))))"

subsection \<open>Suspending and resuming serving\<close>

datatype suspension = Operator_required_result | Suspension_pending | Suspended_result

definition affected :: "publishing_port \<Rightarrow> actor \<Rightarrow> string list \<Rightarrow> string \<Rightarrow> hosting_target \<Rightarrow> bool prog" where
  "affected port actor subjects site t =
     eff_bind (for_each (filter (\<lambda>i. i \<noteq> []) (List.map_filter id [tg_activeAttemptId t, map_option lk_attemptId (tg_lock t)]))
       (attempt_of port (ac_workspaceId actor))) (\<lambda>attempts.
     eff_return (ac_workspaceId actor \<in> set subjects \<or> site \<in> set subjects
       \<or> list_ex (\<lambda>a. case a of Some a \<Rightarrow> list_ex (\<lambda>d. wd_id d \<in> set subjects) (da_dependencies a) | None \<Rightarrow> False) attempts))"

definition suspend_target :: "publishing_port \<Rightarrow> actor \<Rightarrow> hosting_target \<Rightarrow> suspension prog" where
  "suspend_target port actor t =
     eff_bind (port_call (\<lambda>n. pt_authorize port n actor Publish_action (Some t))) (\<lambda>_.
     eff_bind (eff_lift (find_adapter port (tg_adapterId t))) (\<lambda>adapter.
     case ad_suspend adapter of
       None \<Rightarrow>
         eff_bind (store_write port (setServingState (ac_workspaceId actor) (tg_id t) (tg_serving t) True)) (\<lambda>_.
         eff_bind (audit port ''website.serving_removal_required'') (\<lambda>_. eff_return Operator_required_result))
     | Some suspend \<Rightarrow>
         eff_bind (catch_prog (eff_bind (port_call (\<lambda>n. suspend n t)) (\<lambda>_. eff_return True))
           (\<lambda>_. eff_bind (audit port ''website.serving_suspension_pending'') (\<lambda>_. eff_return False))) (\<lambda>stopped.
         if \<not> stopped then eff_return Suspension_pending
         else eff_bind (store_write port (setServingState (ac_workspaceId actor) (tg_id t) Suspended_serving False)) (\<lambda>_.
           eff_bind (audit port ''website.serving_suspended'') (\<lambda>_. eff_return Suspended_result)))))"

definition suspend_if_affected :: "publishing_port \<Rightarrow> actor \<Rightarrow> string list \<Rightarrow> string \<Rightarrow> hosting_target \<Rightarrow> (string \<times> suspension) list prog" where
  "suspend_if_affected port actor subjects site t =
     (if tg_servingRemovalRequired t then eff_return []
      else eff_bind (affected port actor subjects site t) (\<lambda>hit.
        if \<not> hit then eff_return [] else eff_bind (suspend_target port actor t) (\<lambda>result. eff_return [(tg_id t, result)])))"

definition suspendDependencies :: "publishing_port \<Rightarrow> actor \<Rightarrow> string list \<Rightarrow> (string \<times> suspension) list prog" where
  "suspendDependencies port actor subjects =
     eff_bind (port_call (\<lambda>n. pt_listWebsites port n (ac_workspaceId actor))) (\<lambda>sites.
     eff_bind (for_each sites (\<lambda>site.
       eff_bind (store_read port (\<lambda>s. Inr (listTargets s (ac_workspaceId actor) site))) (\<lambda>ts.
       eff_bind (for_each ts (suspend_if_affected port actor subjects site)) (\<lambda>results. eff_return (concat results))))) (\<lambda>results.
     eff_return (concat results)))"

definition latest_release :: "deployment_attempt list \<Rightarrow> string \<Rightarrow> deployment_attempt option" where
  "latest_release attempts targetId =
     (case sort_key (\<lambda>a. - da_generation a) (filter (\<lambda>a. da_targetId a = targetId \<and> truthy_opt (da_artifactDigest a)) attempts) of
        [] \<Rightarrow> None | a # _ \<Rightarrow> Some a)"

definition resume_source :: "publishing_port \<Rightarrow> actor \<Rightarrow> hosting_target \<Rightarrow> deployment_attempt option \<Rightarrow> deployment_attempt option prog" where
  "resume_source port actor t active =
     (if Option.bind active da_artifactDigest \<noteq> None \<and> truthy_opt (Option.bind active da_artifactDigest) then eff_return active
      else store_read port (\<lambda>s. Inr (latest_release (listAttempts s (ac_workspaceId actor) (tg_websiteId t)) (tg_id t))))"

definition confirm_serving :: "publishing_port \<Rightarrow> actor \<Rightarrow> hosting_adapter \<Rightarrow> hosting_target \<Rightarrow> deployment_attempt \<Rightarrow> serving prog" where
  "confirm_serving port actor adapter t a =
     eff_bind (intent_of port (ac_workspaceId actor) (da_intentId a)) (\<lambda>found.
     eff_bind (connection_of port t) (\<lambda>c.
     eff_bind (present found) (\<lambda>intent.
     eff_bind (if truthy_opt (da_artifactDigest a) then eff_bind (readArtifact port t a) (\<lambda>f. eff_return (Some f)) else eff_return None) (\<lambda>artifact.
       let cx = \<lparr> cx_target = t, cx_connection = c, cx_attemptId = da_id a, cx_generation = da_generation a, cx_operation = pi_operation intent,
           cx_artifact = artifact, cx_checkpoint = da_checkpoint a \<rparr> in
     eff_bind (port_call (\<lambda>n. converse_read_only (ad_reconcile adapter n cx))) (\<lambda>outcome.
     eff_bind (check_web (oc_state outcome \<in> {Activated_outcome, Disabled_outcome}) ''reconciliation_required'') (\<lambda>_.
     eff_return (if oc_state outcome = Activated_outcome then Active_serving else Unpublished_serving)))))))"

definition before_serving :: "publishing_port \<Rightarrow> actor \<Rightarrow> hosting_adapter \<Rightarrow> hosting_target \<Rightarrow> deployment_attempt \<Rightarrow> unit prog" where
  "before_serving port actor adapter t source =
     eff_bind (target_of port actor (tg_id t) Manage_action) (\<lambda>current.
     eff_bind (check_web (tg_lock current = None \<and> tg_revision current = tg_revision t) ''reconciliation_required'') (\<lambda>_.
     eff_bind (port_call (\<lambda>n. pt_hostingEnabled port n actor adapter)) (\<lambda>enabled.
     eff_bind (check_web enabled ''hosting_unavailable'') (\<lambda>_.
     allow_publication port actor (tg_websiteId t) (da_creatorIdentityId source) (da_dependencies source)))))"

definition resume :: "publishing_port \<Rightarrow> actor \<Rightarrow> string \<Rightarrow> unit prog" where
  "resume port actor targetId =
     eff_bind (target_of port actor targetId Manage_action) (\<lambda>t.
     eff_bind (check_web (tg_lock t = None) ''reconciliation_required'') (\<lambda>_.
     eff_bind (eff_lift (find_adapter port (tg_adapterId t))) (\<lambda>adapter.
     eff_bind (if truthy_opt (tg_activeAttemptId t) then attempt_of port (ac_workspaceId actor) (the (tg_activeAttemptId t)) else eff_return None) (\<lambda>active.
     eff_bind (resume_source port actor t active) (\<lambda>retained.
     case (ad_resume adapter, retained) of
       (Some restart, Some source) \<Rightarrow>
         eff_bind (allow_publication port actor (tg_websiteId t) (da_creatorIdentityId source) (da_dependencies source)) (\<lambda>_.
         eff_bind (case active of Some a \<Rightarrow> confirm_serving port actor adapter t a | None \<Rightarrow> eff_return Unpublished_serving) (\<lambda>state.
         eff_bind (port_call (\<lambda>n. Inr (restart n t))) (\<lambda>c.
         eff_bind (converse (\<lambda>_. before_serving port actor adapter t source) c) (\<lambda>_.
         eff_bind (store_write port (setServingState (ac_workspaceId actor) targetId state False)) (\<lambda>_.
         audit port ''website.serving_resumed'')))))
     | _ \<Rightarrow> throw_web ''operator_action_required'')))))"

subsection \<open>Domains\<close>

definition domains :: "publishing_port \<Rightarrow> actor \<Rightarrow> string \<Rightarrow> hosting_domain list prog" where
  "domains port actor targetId =
     eff_bind (target_of port actor targetId View_action) (\<lambda>_. store_read port (\<lambda>s. Inr (listDomains s (ac_workspaceId actor) targetId)))"

definition domain_answer_of :: "publishing_port \<Rightarrow> hosting_target \<Rightarrow> hosting_domain \<Rightarrow> domain_operation \<Rightarrow> domain_answer prog" where
  "domain_answer_of port t d operation =
     eff_bind (eff_lift (find_adapter port (tg_adapterId t))) (\<lambda>adapter.
     case ad_domain adapter of
       Some handler \<Rightarrow> eff_bind (connection_of port t) (\<lambda>c. port_call (\<lambda>n. handler n t c d operation))
     | None \<Rightarrow> (case pt_operatorDomain port of
           Some operator \<Rightarrow> port_call (\<lambda>n. operator n t d operation)
         | None \<Rightarrow> eff_return \<lparr> dn_state = (if operation = Remove_domain then Domain_removing else Dns_pending), dn_instructions =
             [''Operator must verify hostname ownership, server/distribution association, DNS and valid HTTPS. Content and the current public URL remain unchanged.''],
             dn_providerId = None \<rparr>))"

text \<open>The fields of an answer replace those of the stored record; an absent provider id keeps the stored one.\<close>

definition domainOperation :: "publishing_port \<Rightarrow> hosting_target \<Rightarrow> hosting_domain \<Rightarrow> domain_operation \<Rightarrow> hosting_domain prog" where
  "domainOperation port t d operation =
     eff_bind (domain_answer_of port t d operation) (\<lambda>result.
       let d' = d\<lparr> hd_state := dn_state result, hd_instructions := dn_instructions result,
           hd_providerId := (case dn_providerId result of Some p \<Rightarrow> Some p | None \<Rightarrow> hd_providerId d), hd_revision := hd_revision d + 1 \<rparr> in
     eff_bind (store_write port (saveDomain d' (hd_revision d))) (\<lambda>_.
     eff_bind (audit port ''website.domain'') (\<lambda>_. eff_return d')))"

definition verifyDomain :: "publishing_port \<Rightarrow> actor \<Rightarrow> string \<Rightarrow> string \<Rightarrow> bool \<Rightarrow> hosting_domain prog" where
  "verifyDomain port actor targetId domainId remove =
     eff_bind (target_of port actor targetId Manage_action) (\<lambda>t.
     eff_bind (store_read port (\<lambda>s. Inr (List.find (\<lambda>d. hd_id d = domainId) (listDomains s (ac_workspaceId actor) targetId)))) (\<lambda>found.
     case found of None \<Rightarrow> throw_web ''domain_not_found''
     | Some d \<Rightarrow>
       eff_bind (if remove then eff_lift (pt_hostname port (tg_publicUrl t)) else eff_return []) (\<lambda>h.
       eff_bind (check_web (\<not> (remove \<and> h = hd_hostname d)) ''active_domain'') (\<lambda>_.
       domainOperation port t d (if remove then Remove_domain else Verify_domain)))))"

definition host_char :: "char \<Rightarrow> bool" where
  "host_char c \<longleftrightarrow> (let n = (of_char c :: nat) in 48 \<le> n \<and> n \<le> 57 \<or> 97 \<le> n \<and> n \<le> 122)"

definition host_label :: "string \<Rightarrow> bool" where
  "host_label l \<longleftrightarrow> l \<noteq> [] \<and> length l \<le> 63 \<and> host_char (hd l) \<and> host_char (last l) \<and> list_all (\<lambda>c. host_char c \<or> c = CHR ''-'') l"

definition exact_hostname :: "string \<Rightarrow> bool" where
  "exact_hostname h \<longleftrightarrow> h \<noteq> [] \<and> length h \<le> 253 \<and> CHR ''.'' \<in> set h \<and> list_all host_label (split_at (CHR ''.'') h)"

definition normalized_hostname :: "publishing_port \<Rightarrow> string \<Rightarrow> string" where
  "normalized_hostname port hostname = (let h = js_lower (js_trim hostname) in
     pt_domainToAscii port (if ends_with h ''.'' then butlast h else h))"

definition requestDomain :: "publishing_port \<Rightarrow> actor \<Rightarrow> string \<Rightarrow> string \<Rightarrow> bool \<Rightarrow> hosting_domain prog" where
  "requestDomain port actor targetId hostname primary =
     (let w = ac_workspaceId actor; h = normalized_hostname port hostname in
     eff_bind (target_of port actor targetId Manage_action) (\<lambda>t.
     eff_bind (check_web (exact_hostname h) ''invalid_domain'') (\<lambda>_.
     eff_bind (fresh_id port) (\<lambda>i.
       let d = \<lparr> hd_id = i, hd_workspaceId = w, hd_targetId = targetId, hd_revision = 1, hd_hostname = h, hd_primary = primary, hd_state = Dns_pending,
           hd_providerId = None, hd_instructions =
             [''Configure and verify the provider/server association, DNS and HTTPS with the target operator. The current URL remains active.''] \<rparr> in
     eff_bind (store_read port (\<lambda>s. Inr (list_ex (\<lambda>d. hd_hostname d = h \<and> hd_state d \<noteq> Domain_removed) (listDomains s w targetId)))) (\<lambda>taken.
     eff_bind (check_web (\<not> taken) ''domain_exists'') (\<lambda>_.
     eff_bind (store_write port (saveDomain d 0)) (\<lambda>_.
     domainOperation port t d Request_domain)))))))"

definition history :: "publishing_port \<Rightarrow> actor \<Rightarrow> string \<Rightarrow>
    (hosting_target list \<times> destination_binding list \<times> deployment_attempt list \<times> hosting_domain list) prog" where
  "history port actor site =
     (let w = ac_workspaceId actor in
     eff_bind (website_of port actor site) (\<lambda>_.
     eff_bind (targets_of port actor site) (\<lambda>ts.
     eff_bind (store_read port (\<lambda>s. Inr (listBindings s w site))) (\<lambda>bindings.
     eff_bind (store_read port (\<lambda>s. Inr (listAttempts s w site))) (\<lambda>attempts.
     eff_bind (for_each ts (\<lambda>t. store_read port (\<lambda>s. Inr (listDomains s w (tg_id t))))) (\<lambda>found.
     eff_return (ts, bindings, attempts, concat found)))))))"

subsection \<open>Commands follow the protocol\<close>

lemma silent_for_each [silent_rules]: "stable Q \<Longrightarrow> (\<And>x. silent Q (f x)) \<Longrightarrow> silent Q (for_each xs f)"
  by (induction xs) (simp_all add: silent_basics silent_bind)

lemma silent_catch [silent_rules]:
  assumes "stable Q" "silent Q m" "\<And>e. silent Q (h e)"
  shows "silent Q (catch_prog m h)"
  unfolding silent_def
proof (intro allI impI)
  fix r res r' assume q: "Q (rn_store r)" and e: "catch_prog m h r = (res, r')"
  obtain x r1 where x: "m r = (x, r1)" by fastforce
  then have 1: "hosting_step\<^sup>*\<^sup>* (rn_store r) (rn_store r1)" "rn_trace r1 = rn_trace r" using assms(2) q unfolding silent_def by blast+
  show "hosting_step\<^sup>*\<^sup>* (rn_store r) (rn_store r') \<and> rn_trace r' = rn_trace r"
  proof (cases x)
    case (Inl err)
    then have "h err r1 = (res, r')" using e x by (simp add: catch_prog_def)
    moreover have "Q (rn_store r1)" using assms(1) q 1(1) unfolding stable_def by blast
    ultimately have "hosting_step\<^sup>*\<^sup>* (rn_store r1) (rn_store r')" "rn_trace r' = rn_trace r1" using assms(3) unfolding silent_def by blast+
    then show ?thesis using 1 by (metis rtranclp_trans)
  next
    case (Inr y)
    then show ?thesis using e x 1 by (simp add: catch_prog_def)
  qed
qed

lemma silent_converse [silent_rules]:
  assumes "stable Q" "\<And>c. silent Q (handle c)"
  shows "silent Q (converse handle c)"
proof (induction c)
  case (Answer result)
  show ?case by (simp add: silent_basics)
next
  case (Callback c k)
  show ?case unfolding silent_def
  proof (intro allI impI)
    fix r res r' assume q: "Q (rn_store r)" and e: "converse handle (Callback c k) r = (res, r')"
    obtain x r1 where x: "handle c r = (x, r1)" by fastforce
    then have 1: "hosting_step\<^sup>*\<^sup>* (rn_store r) (rn_store r1)" "rn_trace r1 = rn_trace r" using assms(2) q unfolding silent_def by blast+
    have "converse handle (k x) r1 = (res, r')" using e x by simp
    moreover have "Q (rn_store r1)" using assms(1) q 1(1) unfolding stable_def by blast
    ultimately have "hosting_step\<^sup>*\<^sup>* (rn_store r1) (rn_store r')" "rn_trace r' = rn_trace r1" using Callback.IH unfolding silent_def by blast+
    then show "hosting_step\<^sup>*\<^sup>* (rn_store r) (rn_store r') \<and> rn_trace r' = rn_trace r" using 1 by (metis rtranclp_trans)
  qed
qed

lemma silent_sum [silent_rules]: "(\<And>v. silent Q (f v)) \<Longrightarrow> (\<And>u v. silent Q (g u v)) \<Longrightarrow> silent Q m \<Longrightarrow>
   silent Q (case (y, z) of (Some u, Some v) \<Rightarrow> g u v | _ \<Rightarrow> m)"
  by (simp split: option.split)

lemma silent_check [silent_rules]: "silent Q (check_web ok code)"
  by (simp add: check_web_def silent_basics)

text \<open>A call whose success is a step of the protocol.\<close>

lemma silent_step_write:
  assumes "others_follow_protocol port" "\<And>s s'. f s = Inr s' \<Longrightarrow> hosting_step s s'"
  shows "silent hosting_reachable (store_write port f)"
  unfolding store_write_def by (rule silent_store_call [OF assms(1) stable_reachable]) (use assms(2) in auto)

lemma silent_step_call:
  assumes "others_follow_protocol port" "\<And>s y s'. f s = Inr (y, s') \<Longrightarrow> hosting_step s s'"
  shows "silent hosting_reachable (store_call port f)"
  by (rule silent_store_call [OF assms(1) stable_reachable]) (use assms(2) in blast)

lemma silent_writes [silent_rules]:
  assumes "others_follow_protocol port"
  shows "silent hosting_reachable (store_write port (saveBinding b e))" "silent hosting_reachable (store_write port (putPlan p x))"
    and "silent hosting_reachable (store_write port (setServingState w i state required))" "silent hosting_reachable (store_write port (saveDomain d e))"
    and "silent hosting_reachable (store_write port (\<lambda>s. Inr (acknowledgeOutbox w i s)))"
    and "silent hosting_reachable (store_call port (cleanupUnacceptedPlans now n))"
    and "undeployed t \<Longrightarrow> silent hosting_reachable (store_write port (saveTarget t e))"
  by (rule silent_step_write [OF assms] silent_step_call [OF assms]; auto intro: hosting_step.intros)+

lemma silent_pieces [silent_rules]:
  assumes "others_follow_protocol port" "stable Q"
  shows "silent Q (target_of port actor i action)" "silent Q (audit port event)" "silent Q (website_of port actor i)"
    and "silent Q (allow_publication port actor site creator ds)" "silent Q (validate_target port t c)"
    and "silent Q (attempt_of port w i)" "silent Q (intent_of port w i)"
  unfolding target_of_def audit_def website_of_def allow_publication_def validate_target_def attempt_of_def intent_of_def
  by (intro silent_rules assms)+

text \<open>What a program answers may be used in what follows it.\<close>

definition answers :: "'a prog \<Rightarrow> ('a \<Rightarrow> bool) \<Rightarrow> bool" where
  "answers m P \<longleftrightarrow> (\<forall>r x r'. m r = (Inr x, r') \<longrightarrow> P x)"

lemma silent_bind_answer:
  assumes "stable Q" "silent Q m" "answers m P" "\<And>x. P x \<Longrightarrow> silent Q (f x)"
  shows "silent Q (eff_bind m f)"
  unfolding silent_def
proof (intro allI impI)
  fix r res r' assume q: "Q (rn_store r)" and e: "eff_bind m f r = (res, r')"
  from e show "hosting_step\<^sup>*\<^sup>* (rn_store r) (rn_store r') \<and> rn_trace r' = rn_trace r"
  proof (cases rule: eff_bindE)
    case (throws e)
    then show ?thesis using assms(2) q unfolding silent_def by blast
  next
    case (continues x r1)
    then have 1: "hosting_step\<^sup>*\<^sup>* (rn_store r) (rn_store r1)" "rn_trace r1 = rn_trace r" using assms(2) q unfolding silent_def by blast+
    then have "Q (rn_store r1)" using assms(1) q unfolding stable_def by blast
    moreover have "P x" using assms(3) continues(1) unfolding answers_def by blast
    ultimately have "hosting_step\<^sup>*\<^sup>* (rn_store r1) (rn_store r')" "rn_trace r' = rn_trace r1"
      using assms(4) continues(2) unfolding silent_def by blast+
    then show ?thesis using 1 by (metis rtranclp_trans)
  qed
qed

lemma answers_bind: "(\<And>x. answers (f x) P) \<Longrightarrow> answers (eff_bind m f) P"
  unfolding answers_def by (metis eff_bindE sum.distinct(1))

lemma answers_for_each: "(\<And>x. x \<in> set xs \<Longrightarrow> answers (f x) P) \<Longrightarrow> answers (for_each xs f) (\<lambda>ys. \<forall>y \<in> set ys. P y)"
proof (induction xs)
  case Nil
  show ?case by (simp add: answers_def eff_return_def)
next
  case (Cons x xs)
  then have "answers (for_each xs f) (\<lambda>ys. \<forall>y \<in> set ys. P y)" "answers (f x) P" by simp_all
  then show ?case unfolding answers_def for_each.simps
    by (auto simp: eff_return_def elim!: eff_bindE) blast+
qed

lemma silent_accept_new [silent_rules]:
  assumes p: "others_follow_protocol port"
  shows "silent hosting_reachable (accept_new port actor q i)"
  unfolding accept_new_def Let_def
proof (rule silent_bind_answer [where P = "\<lambda>accepted. \<forall>e \<in> set accepted. fresh_attempt (ac_workspaceId actor) (snd e)", OF stable_reachable])
  have t: "silent hosting_reachable (accept_target port actor q i j)" for j
    unfolding accept_target_def by (intro silent_rules p)
  show "silent hosting_reachable (for_each (aq_targetIds q) (accept_target port actor q i))" by (intro silent_rules t)
  have "answers (accept_target port actor q i j) (\<lambda>e. fresh_attempt (ac_workspaceId actor) (snd e))" for j
    unfolding accept_target_def by (intro answers_bind) (simp add: answers_def eff_return_def new_attempt_def fresh_attempt_def)
  then show "answers (for_each (aq_targetIds q) (accept_target port actor q i)) (\<lambda>accepted. \<forall>e \<in> set accepted. fresh_attempt (ac_workspaceId actor) (snd e))"
    by (rule answers_for_each)
next
  fix accepted :: "(hosting_target \<times> deployment_attempt) list"
  assume "\<forall>e \<in> set accepted. fresh_attempt (ac_workspaceId actor) (snd e)"
  then have a: "silent hosting_reachable (store_call port (acceptIntent \<lparr> ai_intent = intent, ai_plan = plan, ai_targets = map fst accepted, ai_attempts = map snd accepted \<rparr>))"
    if "pi_workspaceId intent = ac_workspaceId actor" for intent plan
    using that by (intro silent_step_call [OF p]) (auto intro!: step_accept)
  show "silent hosting_reachable (eff_bind (now_time port) (\<lambda>now.
     eff_bind (store_call port (acceptIntent \<lparr> ai_intent = \<lparr> pi_id = i, pi_workspaceId = ac_workspaceId actor, pi_websiteId = aq_websiteId q, pi_actorId = ac_actorId actor,
           pi_operation = aq_operation q, pi_planId = map_option pn_id (aq_plan q),
           pi_snapshotReference = (case aq_plan q of Some p \<Rightarrow> Some (pn_snapshotReference p) | None \<Rightarrow> aq_snapshotReference q),
           pi_idempotencyKey = aq_key q, pi_approvalFingerprint = aq_fingerprint q, pi_createdAt = now, pi_attemptIds = map (da_id \<circ> snd) accepted \<rparr>,
         ai_plan = aq_plan q, ai_targets = map fst accepted, ai_attempts = map snd accepted \<rparr>)) (\<lambda>saved.
     eff_bind (catch_prog (recoverOutbox port) (\<lambda>_. eff_return ())) (\<lambda>_.
     eff_bind (audit port ''website.publish_accepted'') (\<lambda>_. eff_return saved)))))"
    unfolding recoverOutbox_def by (intro silent_rules a p) simp
qed

end
