(* ===== verification/Spec2Isabelle.thy ===== *)
theory Spec2Isabelle
  imports Billing Organizations Collection_Execution Content_Services Historical_Announcements Commerce_Ledger Job_Queue Website_Commands
begin

text \<open>
  Verification library of the core of ubeeq.
\<close>

end
